(* ===== verification/Prelude.thy ===== *)
theory Prelude
  imports Main "HOL-Library.Char_ord" "HOL-Library.List_Lexorder" "HOL-Library.Sublist" "HOL-Library.Word"
    "HOL-Library.Multiset"
begin

text \<open>
  Shared vocabulary of the development: Go strings (byte lists) with the operations of
  package strings the gateway uses, Go's fixed-width \<open>int\<close>, and Go maps with ordered keys.

  \<^item> A Go \<open>string\<close> or \<open>[]byte\<close> is a \<^typ>\<open>string\<close>, a list of bytes. Case mapping and trimming are
    the ASCII part of the Unicode operations: bytes from 128 up are left alone.
  \<^item> A Go \<open>int\<close> or \<open>int64\<close> that can wrap is a 64-bit word read by \<^const>\<open>sint\<close>.
  \<^item> A Go \<open>map\<close> is an association list with strictly increasing keys, the representation in
    which two maps with the same lookups are equal. A Go map is iterated in an unspecified
    order; where the program does so, the model takes the order as an argument.
\<close>

named_theorems gostr "facts about the string operations"
named_theorems gomap "facts about ordered association lists as Go maps"

type_synonym int64 = "64 word"

section \<open>Strings\<close>

subsection \<open>Case mapping and trimming\<close>

definition lower_char :: "char \<Rightarrow> char" where
  "lower_char c = (if CHR ''A'' \<le> c \<and> c \<le> CHR ''Z'' then char_of (of_char c + 32 :: nat) else c)"

definition to_lower :: "string \<Rightarrow> string" where
  "to_lower s = map lower_char s"

definition equal_fold :: "string \<Rightarrow> string \<Rightarrow> bool" where
  "equal_fold s t \<longleftrightarrow> to_lower s = to_lower t"

text \<open>\<open>strings.TrimLeft\<close> and \<open>strings.TrimRight\<close> with a predicate on the bytes, and \<open>strings.TrimSpace\<close>.\<close>

definition trim_left :: "(char \<Rightarrow> bool) \<Rightarrow> string \<Rightarrow> string" where
  "trim_left p s = dropWhile p s"

definition trim_right :: "(char \<Rightarrow> bool) \<Rightarrow> string \<Rightarrow> string" where
  "trim_right p s = rev (dropWhile p (rev s))"

definition is_space :: "char \<Rightarrow> bool" where
  "is_space c \<longleftrightarrow> c \<in> {CHR '' '', CHR 0x09, CHR 0x0A, CHR 0x0B, CHR 0x0C, CHR 0x0D}"

definition trim_space :: "string \<Rightarrow> string" where
  "trim_space s = trim_right is_space (trim_left is_space s)"

definition trim_prefix :: "string \<Rightarrow> string \<Rightarrow> string" where
  "trim_prefix p s = (if prefix p s then drop (length p) s else s)"

lemma to_lower_simps [simp]:
  "to_lower [] = []" "to_lower (c # s) = lower_char c # to_lower s"
  "to_lower (s @ t) = to_lower s @ to_lower t" "length (to_lower s) = length s"
  by (simp_all add: to_lower_def)

lemma lower_char_idem [simp]: "lower_char (lower_char c) = lower_char c"
proof (cases "CHR ''A'' \<le> c \<and> c \<le> CHR ''Z''")
  case True
  let ?n = "of_char c :: nat"
  from True have n: "65 \<le> ?n" "?n \<le> 90" by (simp_all add: less_eq_char_def)
  then have "of_char (char_of (?n + 32) :: char) = ?n + 32" by (simp add: of_char_of)
  with n True show ?thesis by (simp add: lower_char_def less_eq_char_def)
next
  case False
  then show ?thesis by (auto simp: lower_char_def)
qed

lemma to_lower_idem [simp]: "to_lower (to_lower s) = to_lower s"
  by (simp add: to_lower_def comp_def)

lemma equal_fold_refl [simp]: "equal_fold s s"
  by (simp add: equal_fold_def)

lemma equal_fold_lower: "to_lower t = t \<Longrightarrow> equal_fold s t \<longleftrightarrow> to_lower s = t"
  by (simp add: equal_fold_def)

lemma trim_prefix_append [simp]: "trim_prefix p (p @ s) = s"
  by (simp add: trim_prefix_def)

lemma trim_prefix_not: "\<not> prefix p s \<Longrightarrow> trim_prefix p s = s"
  by (simp add: trim_prefix_def)

subsection \<open>Splitting and joining at one separator byte\<close>

fun split_on :: "'a \<Rightarrow> 'a list \<Rightarrow> 'a list list" where
  "split_on c [] = [[]]"
| "split_on c (x # xs) =
     (if x = c then [] # split_on c xs
      else case split_on c xs of [] \<Rightarrow> [[x]] | y # ys \<Rightarrow> (x # y) # ys)"

fun join_with :: "'a \<Rightarrow> 'a list list \<Rightarrow> 'a list" where
  "join_with c [] = []"
| "join_with c [x] = x"
| "join_with c (x # y # ys) = x @ c # join_with c (y # ys)"

lemma split_on_not_Nil [simp]: "split_on c xs \<noteq> []"
  by (induction xs) (auto split: list.splits)

lemma join_with_Cons: "ys \<noteq> [] \<Longrightarrow> join_with c (y # ys) = y @ c # join_with c ys"
  by (cases ys) auto

lemma join_split [simp]: "join_with c (split_on c xs) = xs"
proof (induction xs)
  case (Cons x xs)
  obtain y ys where s: "split_on c xs = y # ys" by (cases "split_on c xs") auto
  with Cons show ?case by (cases ys) (auto simp: join_with_Cons)
qed simp

lemma split_on_parts: "y \<in> set (split_on c xs) \<Longrightarrow> c \<notin> set y"
  by (induction xs arbitrary: y) (auto split: list.splits if_splits)

lemma split_on_none: "c \<notin> set xs \<Longrightarrow> split_on c xs = [xs]"
  by (induction xs) auto

lemma split_on_append: "c \<notin> set xs \<Longrightarrow> split_on c (xs @ c # ys) = xs # split_on c ys"
  by (induction xs) auto

lemma split_join: "yss \<noteq> [] \<Longrightarrow> \<forall>y \<in> set yss. c \<notin> set y \<Longrightarrow> split_on c (join_with c yss) = yss"
proof (induction c yss rule: join_with.induct)
  case (2 c x)
  then show ?case by (simp add: split_on_none)
next
  case (3 c x y ys)
  then show ?case by (simp add: split_on_append)
qed simp

subsection \<open>Decimal numerals\<close>

definition digit_char :: "nat \<Rightarrow> char" where
  "digit_char d = char_of (48 + d)"

definition is_digit :: "char \<Rightarrow> bool" where
  "is_digit c \<longleftrightarrow> CHR ''0'' \<le> c \<and> c \<le> CHR ''9''"

definition digit_val :: "char \<Rightarrow> nat" where
  "digit_val c = of_char c - 48"

text \<open>\<open>%d\<close> of a non-negative integer.\<close>

fun dec_of_nat :: "nat \<Rightarrow> string" where
  "dec_of_nat n = (if n < 10 then [digit_char n] else dec_of_nat (n div 10) @ [digit_char (n mod 10)])"

declare dec_of_nat.simps [simp del]

definition nat_of_dec :: "string \<Rightarrow> nat" where
  "nat_of_dec s = foldl (\<lambda>a c. 10 * a + digit_val c) 0 s"

lemma digit_char_inv: "d < 10 \<Longrightarrow> digit_val (digit_char d) = d"
  by (simp add: digit_val_def digit_char_def of_char_of)

lemma digit_char_is_digit: "d < 10 \<Longrightarrow> is_digit (digit_char d)"
  by (simp add: is_digit_def digit_char_def less_eq_char_def of_char_of)

lemma nat_of_dec_append: "nat_of_dec (s @ [c]) = 10 * nat_of_dec s + digit_val c"
  by (simp add: nat_of_dec_def)

lemma nat_of_dec_of_nat [gostr]: "nat_of_dec (dec_of_nat n) = n"
proof (induction n rule: dec_of_nat.induct)
  case (1 n)
  show ?case
  proof (cases "n < 10")
    case True
    then show ?thesis by (simp add: dec_of_nat.simps [of n] nat_of_dec_def digit_char_inv)
  next
    case False
    with 1 show ?thesis by (simp add: dec_of_nat.simps [of n] nat_of_dec_append digit_char_inv)
  qed
qed

lemma dec_of_nat_digits [gostr]: "\<forall>c \<in> set (dec_of_nat n). is_digit c"
proof (induction n rule: dec_of_nat.induct)
  case (1 n)
  then show ?case
    by (cases "n < 10") (auto simp: dec_of_nat.simps [of n] digit_char_is_digit)
qed

lemma dec_of_nat_inj [gostr]: "dec_of_nat m = dec_of_nat n \<longleftrightarrow> m = n"
  by (metis nat_of_dec_of_nat)

section \<open>Go maps as ordered association lists\<close>

type_synonym ('k, 'v) gomap = "('k \<times> 'v) list"

definition gm_ok :: "('k::linorder, 'v) gomap \<Rightarrow> bool" where
  "gm_ok m \<longleftrightarrow> sorted_wrt (<) (map fst m)"

abbreviation gm_get :: "('k, 'v) gomap \<Rightarrow> 'k \<Rightarrow> 'v option" where
  "gm_get \<equiv> map_of"

fun gm_put :: "'k::linorder \<Rightarrow> 'v \<Rightarrow> ('k, 'v) gomap \<Rightarrow> ('k, 'v) gomap" where
  "gm_put k v [] = [(k, v)]"
| "gm_put k v ((k', v') # m) =
     (if k < k' then (k, v) # (k', v') # m
      else if k = k' then (k, v) # m
      else (k', v') # gm_put k v m)"

definition gm_del :: "'k \<Rightarrow> ('k, 'v) gomap \<Rightarrow> ('k, 'v) gomap" where
  "gm_del k m = filter (\<lambda>(k', _). k' \<noteq> k) m"

lemma gm_ok_Nil [simp]: "gm_ok []"
  by (simp add: gm_ok_def)

lemma gm_ok_single [simp]: "gm_ok [(k, v)]"
  by (simp add: gm_ok_def)

lemma gm_ok_Cons: "gm_ok ((k, v) # m) \<longleftrightarrow> (\<forall>k' \<in> fst ` set m. k < k') \<and> gm_ok m"
  by (simp add: gm_ok_def)

lemma gm_put_keys: "fst ` set (gm_put k v m) = insert k (fst ` set m)"
  by (induction k v m rule: gm_put.induct) auto

lemma gm_put_ok [simp]: "gm_ok m \<Longrightarrow> gm_ok (gm_put k v m)"
proof (induction k v m rule: gm_put.induct)
  case (1 k v)
  then show ?case by (simp add: gm_ok_def)
next
  case (2 k v k' v' m)
  then show ?case by (fastforce simp: gm_ok_Cons gm_put_keys)
qed

lemma gm_get_above: "\<forall>k' \<in> fst ` set m. (k::'k::linorder) < k' \<Longrightarrow> gm_get m k = None"
  by (force simp: map_of_eq_None_iff)

lemma gm_get_put [gomap]: "gm_ok m \<Longrightarrow> gm_get (gm_put k v m) = (gm_get m)(k \<mapsto> v)"
proof (induction k v m rule: gm_put.induct)
  case (2 k v k' v' m)
  then show ?case by (auto simp: fun_eq_iff gm_ok_Cons)
qed auto

lemma gm_del_ok [simp]: "gm_ok m \<Longrightarrow> gm_ok (gm_del k m)"
  by (induction m) (auto simp: gm_ok_Cons gm_del_def)

lemma gm_get_del [gomap]: "gm_get (gm_del k m) = (gm_get m)(k := None)"
  by (induction m) (auto simp: gm_del_def fun_eq_iff)

lemma gm_ok_distinct: "gm_ok m \<Longrightarrow> distinct (map fst m)"
  by (auto simp: gm_ok_def intro: strict_sorted_imp_sorted dest: strict_sorted_iff [THEN iffD1])

text \<open>Ordered keys make the representation canonical.\<close>

lemma gm_ext: "gm_ok m \<Longrightarrow> gm_ok m' \<Longrightarrow> gm_get m = gm_get m' \<Longrightarrow> m = m'"
proof (induction m arbitrary: m')
  case Nil
  then show ?case by (metis map_of_eq_empty_iff)
next
  case (Cons p m)
  obtain k v where p: "p = (k, v)" by (cases p)
  have "gm_get m' k = Some v" using Cons.prems(3) p by (metis map_of_Cons_code(2) fst_conv snd_conv)
  then obtain q m'' where m': "m' = q # m''" by (cases m') auto
  obtain k' v' where q: "q = (k', v')" by (cases q)
  have ok: "gm_ok m" "gm_ok m''" "\<forall>x \<in> fst ` set m. k < x" "\<forall>x \<in> fst ` set m''. k' < x"
    using Cons.prems(1,2) p q m' by (simp_all add: gm_ok_Cons)
  have "k' \<in> fst ` set (p # m)"
    using Cons.prems(3) q m' by (metis (no_types, lifting) map_of_eq_None_iff map_of_Cons_code(2) option.distinct(1))
  moreover have "k \<in> fst ` set (q # m'')"
    using \<open>gm_get m' k = Some v\<close> m' by (metis map_of_eq_None_iff option.distinct(1))
  ultimately have kk: "k = k'" using ok p q by (auto dest: less_asym)
  have vv: "v = v'" using \<open>gm_get m' k = Some v\<close> m' q kk by simp
  have "gm_get m = gm_get m''"
  proof
    fix x
    show "gm_get m x = gm_get m'' x"
    proof (cases "x = k")
      case True
      then show ?thesis using gm_get_above [of m k] gm_get_above [of m'' k'] ok kk by simp
    next
      case False
      then show ?thesis using fun_cong [OF Cons.prems(3), of x] p q m' kk by simp
    qed
  qed
  then have "m = m''" using Cons.IH ok by blast
  with kk vv p q m' show ?case by simp
qed

lemma gm_put_commute:
  "gm_ok m \<Longrightarrow> k \<noteq> k' \<Longrightarrow> gm_put k v (gm_put k' v' m) = gm_put k' v' (gm_put k v m)"
  by (rule gm_ext) (auto simp: gomap fun_eq_iff)

lemma gm_put_twice: "gm_ok m \<Longrightarrow> gm_put k v (gm_put k v' m) = gm_put k v m"
  by (rule gm_ext) (auto simp: gomap fun_eq_iff)

text \<open>A Go map built by writing a list of pairs in order: the last write to a key wins.\<close>

definition gm_of_list :: "('k::linorder \<times> 'v) list \<Rightarrow> ('k, 'v) gomap" where
  "gm_of_list ps = foldl (\<lambda>m (k, v). gm_put k v m) [] ps"

lemma gm_fold_put_ok:
  "gm_ok m \<Longrightarrow> gm_ok (foldl (\<lambda>m (k, v). gm_put k v m) m ps)"
  by (induction ps arbitrary: m) auto

lemma gm_of_list_ok [simp]: "gm_ok (gm_of_list ps)"
  by (simp add: gm_of_list_def gm_fold_put_ok)

lemma gm_fold_put_get:
  "gm_ok m \<Longrightarrow> gm_get (foldl (\<lambda>m (k, v). gm_put k v m) m ps) = gm_get m ++ map_of (rev ps)"
proof (induction ps arbitrary: m)
  case (Cons p ps)
  obtain k v where p: "p = (k, v)" by (cases p)
  have "gm_get m ++ map_of (rev ps @ [(k, v)]) = (gm_get m)(k \<mapsto> v) ++ map_of (rev ps)"
    by (auto simp: fun_eq_iff map_add_def split: option.splits)
  moreover have "gm_get (foldl (\<lambda>m (k, v). gm_put k v m) (gm_put k v m) ps)
      = gm_get (gm_put k v m) ++ map_of (rev ps)"
    using Cons by simp
  ultimately show ?case using Cons.prems p by (simp add: gm_get_put del: map_of_append)
qed simp

lemma gm_get_of_list [gomap]: "gm_get (gm_of_list ps) = map_of (rev ps)"
  by (simp add: gm_of_list_def gm_fold_put_get)

text \<open>Writing entries with distinct keys gives the same map in every order.\<close>

lemma gm_fold_put_perm:
  assumes "gm_ok m" and "distinct (map fst ps)" and "mset ps = mset qs"
  shows "foldl (\<lambda>m (k, v). gm_put k v m) m ps = foldl (\<lambda>m (k, v). gm_put k v m) m qs"
proof (rule gm_ext)
  have d: "distinct (map fst qs)" using assms(2,3) by (metis mset_eq_imp_distinct_iff mset_map)
  have "map_of (rev ps) = map_of (rev qs)"
    using assms(2,3) d by (subst map_of_inject_set) (auto simp: rev_map [symmetric] dest: mset_eq_setD)
  then show "gm_get (foldl (\<lambda>m (k, v). gm_put k v m) m ps) = gm_get (foldl (\<lambda>m (k, v). gm_put k v m) m qs)"
    using assms(1) by (simp add: gm_fold_put_get)
qed (simp_all add: assms(1) gm_fold_put_ok)

lemma gm_get_map_value: "gm_get (map (\<lambda>(k, v). (k, f v)) m) k = map_option f (gm_get m k)"
  by (induction m) auto

section \<open>The map contract\<close>

text \<open>
  What the components that keep a map rely on: a lookup after a write or a delete, and an
  invariant all operations keep. Stated as an interface, and met by the ordered lists.
\<close>

locale map_contract =
  fixes get :: "'m \<Rightarrow> 'k \<Rightarrow> 'v option"
    and put :: "'k \<Rightarrow> 'v \<Rightarrow> 'm \<Rightarrow> 'm"
    and del :: "'k \<Rightarrow> 'm \<Rightarrow> 'm"
    and ok :: "'m \<Rightarrow> bool"
  assumes get_put: "ok m \<Longrightarrow> get (put k v m) = (get m)(k \<mapsto> v)"
    and get_del: "ok m \<Longrightarrow> get (del k m) = (get m)(k := None)"
    and ok_put: "ok m \<Longrightarrow> ok (put k v m)"
    and ok_del: "ok m \<Longrightarrow> ok (del k m)"
begin

lemma put_same: "ok m \<Longrightarrow> get (put k v m) k = Some v"
  by (simp add: get_put)

lemma put_other: "ok m \<Longrightarrow> k' \<noteq> k \<Longrightarrow> get (put k v m) k' = get m k'"
  by (simp add: get_put)

lemma del_put: "ok m \<Longrightarrow> get m k = None \<Longrightarrow> get (del k (put k v m)) = get m"
  by (auto simp: get_del get_put ok_put fun_eq_iff)

lemma dom_put: "ok m \<Longrightarrow> dom (get (put k v m)) = insert k (dom (get m))"
  by (simp add: get_put)

lemma dom_del: "ok m \<Longrightarrow> dom (get (del k m)) = dom (get m) - {k}"
  by (simp add: get_del)

end

interpretation gm: map_contract gm_get gm_put gm_del gm_ok
  by unfold_locales (simp_all add: gomap)

section \<open>Signed 64-bit arithmetic\<close>

text \<open>Go's \<open>int\<close> addition wraps; within the range it is the integer sum.\<close>

definition int64_range :: "int \<Rightarrow> bool" where
  "int64_range i \<longleftrightarrow> - (2 ^ 63) \<le> i \<and> i < 2 ^ 63"

lemma sint_range [simp]: "int64_range (sint (x :: int64))"
  using sint_greater_eq [of x] sint_less [of x] by (simp add: int64_range_def)

lemma sint_of_int: "int64_range i \<Longrightarrow> sint (word_of_int i :: int64) = i"
  by (simp add: int64_range_def sint_sbintrunc' signed_take_bit_int_eq_self)

lemma sint_plus: "int64_range (sint x + sint y) \<Longrightarrow> sint (x + y :: int64) = sint x + sint y"
  by (simp add: int64_range_def sint_word_ariths signed_take_bit_int_eq_self)

lemma sint_minus: "int64_range (sint x - sint y) \<Longrightarrow> sint (x - y :: int64) = sint x - sint y"
  by (simp add: int64_range_def sint_word_ariths signed_take_bit_int_eq_self)

end
