(* ===== verification/Go_Float.thy ===== *)
theory Go_Float
  imports Prelude "HOL-Library.Log_Nat"
begin

text \<open>
  Go's \<open>float64\<close>, as the type of the rationals with at most 53 significant bits. Every
  operation is the exact rational operation rounded to nearest, ties to even, as IEEE 754
  prescribes. The exponent range is unbounded: overflow to infinity, gradual underflow, signed
  zeros and NaN are not modelled (the program divides by non-zero numbers only and its prices
  and token counts are far from the ends of the range). The arithmetic classes are instantiated
  at this type, so the model writes \<open>+\<close>, \<open>*\<close>, \<open>/\<close> and \<open><\<close> as the code does.
\<close>

section \<open>Rounding\<close>

subsection \<open>The binary exponent of a positive rational\<close>

definition ilog2 :: "rat \<Rightarrow> int" where
  "ilog2 x = (case quotient_of x of (p, q) \<Rightarrow>
     (let e = bitlen p - bitlen q in if 2 powi e \<le> x then e else e - 1))"

lemma bitlen_bounds_rat:
  assumes "0 < (p::int)"
  shows "(2::rat) powi (bitlen p - 1) \<le> of_int p" and "of_int p < (2::rat) powi bitlen p"
proof -
  have b: "2 ^ nat (bitlen p - 1) \<le> p \<and> p < 2 ^ nat (bitlen p)" using assms by (rule bitlen_bounds)
  have pos: "0 < bitlen p" using assms bitlen_nonneg [of p] bitlen_eq_zero_iff [of p] by linarith
  have "(2::rat) powi (bitlen p - 1) = of_int (2 ^ nat (bitlen p - 1))"
    using pos by (simp add: power_int_def)
  then show "(2::rat) powi (bitlen p - 1) \<le> of_int p" using b by (simp only: of_int_le_iff)
  have "(2::rat) powi (bitlen p) = of_int (2 ^ nat (bitlen p))"
    using pos by (simp add: power_int_def)
  then show "of_int p < (2::rat) powi bitlen p" using b by (simp only: of_int_less_iff)
qed

lemma ilog2_bounds:
  assumes "0 < x"
  shows "2 powi ilog2 x \<le> x" and "x < 2 powi (ilog2 x + 1)"
proof -
  obtain p q where pq: "quotient_of x = (p, q)" by (cases "quotient_of x")
  have q: "0 < q" using quotient_of_denom_pos [OF pq] .
  have x: "x = of_int p / of_int q" using quotient_of_div [OF pq] .
  have p: "0 < p" using assms x q by (simp add: zero_less_divide_iff)
  let ?e = "bitlen p - bitlen q"
  have up: "x < 2 powi (?e + 1)"
  proof -
    have "x < 2 powi bitlen p / of_int q"
      using bitlen_bounds_rat(2) [OF p] q by (simp add: x divide_strict_right_mono)
    also have "\<dots> \<le> 2 powi bitlen p / 2 powi (bitlen q - 1)"
      using bitlen_bounds_rat(1) [OF q] q by (intro divide_left_mono) auto
    also have "\<dots> = 2 powi (bitlen p - (bitlen q - 1))" by (rule power_int_diff [symmetric]) simp
    also have "bitlen p - (bitlen q - 1) = ?e + 1" by simp
    finally show ?thesis .
  qed
  have lo: "2 powi (?e - 1) < x"
  proof -
    have "2 powi (?e - 1) = 2 powi (bitlen p - 1) / (2::rat) powi bitlen q"
      by (simp add: power_int_diff [symmetric] algebra_simps)
    also have "\<dots> \<le> of_int p / (2::rat) powi bitlen q"
      using bitlen_bounds_rat(1) [OF p] by (simp add: divide_right_mono)
    also have "\<dots> < of_int p / of_int q"
      using bitlen_bounds_rat(2) [OF q] q p by (intro divide_strict_left_mono) auto
    finally show ?thesis by (simp add: x)
  qed
  show "2 powi ilog2 x \<le> x" using lo by (auto simp: ilog2_def pq Let_def)
  show "x < 2 powi (ilog2 x + 1)" using up by (auto simp: ilog2_def pq Let_def)
qed

lemma powi_less_iff: "(2::rat) powi a < 2 powi b \<longleftrightarrow> a < b"
proof (cases "a < b")
  case True
  then show ?thesis by (simp add: power_int_strict_increasing)
next
  case False
  then have "(2::rat) powi b \<le> 2 powi a" by (intro power_int_increasing) auto
  with False show ?thesis by simp
qed

lemma ilog2_unique: "2 powi e \<le> x \<Longrightarrow> x < 2 powi (e + 1) \<Longrightarrow> ilog2 x = e"
proof -
  assume e: "2 powi e \<le> x" "x < 2 powi (e + 1)"
  have "0 < x" using e(1) by (meson less_le_trans zero_less_numeral zero_less_power_int)
  note b = ilog2_bounds [OF this]
  have "2 powi e < (2::rat) powi (ilog2 x + 1)" using e(1) b(2) by (rule le_less_trans)
  moreover have "2 powi ilog2 x < (2::rat) powi (e + 1)" using b(1) e(2) by (rule le_less_trans)
  ultimately show ?thesis by (simp add: powi_less_iff)
qed

lemma ilog2_mono: "0 < x \<Longrightarrow> x \<le> y \<Longrightarrow> ilog2 x \<le> ilog2 y"
proof -
  assume xy: "0 < x" "x \<le> y"
  have "2 powi ilog2 x \<le> x" using xy(1) by (rule ilog2_bounds)
  also note xy(2)
  also have "y < 2 powi (ilog2 y + 1)" using xy by (intro ilog2_bounds) simp
  finally show ?thesis by (simp add: powi_less_iff)
qed

subsection \<open>Round half to even\<close>

definition rhe :: "rat \<Rightarrow> int" where
  "rhe y = (let f = \<lfloor>y\<rfloor>; d = y - of_int f in
     if d < 1 / 2 then f else if 1 / 2 < d then f + 1 else if even f then f else f + 1)"

lemma rhe_cases: "rhe y = \<lfloor>y\<rfloor> \<or> rhe y = \<lfloor>y\<rfloor> + 1"
  by (simp add: rhe_def Let_def)

lemma rhe_int [simp]: "rhe (of_int n) = n"
  by (simp add: rhe_def)

lemma rhe_mono: "y \<le> z \<Longrightarrow> rhe y \<le> rhe z"
proof -
  assume yz: "y \<le> z"
  then have f: "\<lfloor>y\<rfloor> \<le> \<lfloor>z\<rfloor>" by (rule floor_mono)
  show ?thesis
  proof (cases "\<lfloor>y\<rfloor> = \<lfloor>z\<rfloor>")
    case True
    with yz show ?thesis by (auto simp: rhe_def Let_def)
  next
    case False
    with f have "\<lfloor>y\<rfloor> + 1 \<le> \<lfloor>z\<rfloor>" by simp
    with rhe_cases [of y] rhe_cases [of z] show ?thesis by auto
  qed
qed

lemma rhe_between: "of_int a \<le> y \<Longrightarrow> y \<le> of_int b \<Longrightarrow> a \<le> rhe y \<and> rhe y \<le> b"
  using rhe_mono [of "of_int a" y] rhe_mono [of y "of_int b"] by simp

subsection \<open>Round to 53 significant bits\<close>

definition scale53 :: "rat \<Rightarrow> rat" where
  "scale53 x = 2 powi (52 - ilog2 x)"

definition rnd_pos :: "rat \<Rightarrow> rat" where
  "rnd_pos x = of_int (rhe (x * scale53 x)) / scale53 x"

definition rnd53 :: "rat \<Rightarrow> rat" where
  "rnd53 x = (if x = 0 then 0 else if 0 < x then rnd_pos x else - rnd_pos (- x))"

lemma scale53_pos [simp]: "0 < scale53 x"
  by (simp add: scale53_def)

lemma scale53_nz [simp]: "scale53 x \<noteq> 0"
  by (simp add: scale53_def)

lemma mantissa_bounds:
  assumes "0 < x"
  shows "2 ^ 52 \<le> rhe (x * scale53 x)" and "rhe (x * scale53 x) \<le> 2 ^ 53"
proof -
  have "2 powi ilog2 x * scale53 x \<le> x * scale53 x"
    using ilog2_bounds(1) [OF assms] by simp
  moreover have "2 powi ilog2 x * scale53 x = (2::rat) powi 52"
    by (simp add: scale53_def power_int_diff)
  ultimately have lo: "of_int (2 ^ 52) \<le> x * scale53 x" by simp
  have "x * scale53 x \<le> 2 powi (ilog2 x + 1) * scale53 x"
    using ilog2_bounds(2) [OF assms] by simp
  moreover have "2 powi (ilog2 x + 1) * scale53 x = (2::rat) powi 53"
    by (simp add: scale53_def power_int_diff power_int_add)
  ultimately have hi: "x * scale53 x \<le> of_int (2 ^ 53)" by simp
  from rhe_between [OF lo hi]
  show "2 ^ 52 \<le> rhe (x * scale53 x)" and "rhe (x * scale53 x) \<le> 2 ^ 53" by auto
qed

lemma rnd_pos_bounds:
  assumes "0 < x"
  shows "2 powi ilog2 x \<le> rnd_pos x" and "rnd_pos x \<le> 2 powi (ilog2 x + 1)"
proof -
  have *: "2 powi ilog2 x * scale53 x = of_int (2 ^ 52)" "2 powi (ilog2 x + 1) * scale53 x = of_int (2 ^ 53)"
    by (simp_all add: scale53_def power_int_diff power_int_add)
  have "of_int (2 ^ 52) / scale53 x \<le> rnd_pos x"
    unfolding rnd_pos_def using mantissa_bounds(1) [OF assms]
    by (intro divide_right_mono) (simp_all only: of_int_le_iff less_imp_le scale53_pos)
  then show "2 powi ilog2 x \<le> rnd_pos x" by (simp only: *(1) [symmetric]) simp
  have "rnd_pos x \<le> of_int (2 ^ 53) / scale53 x"
    unfolding rnd_pos_def using mantissa_bounds(2) [OF assms]
    by (intro divide_right_mono) (simp_all only: of_int_le_iff less_imp_le scale53_pos)
  then show "rnd_pos x \<le> 2 powi (ilog2 x + 1)" by (simp only: *(2) [symmetric]) simp
qed

lemma rnd_pos_pos: "0 < x \<Longrightarrow> 0 < rnd_pos x"
  using rnd_pos_bounds(1) [of x] by (meson less_le_trans zero_less_numeral zero_less_power_int)

lemma rnd_pos_mono: "0 < x \<Longrightarrow> x \<le> y \<Longrightarrow> rnd_pos x \<le> rnd_pos y"
proof (cases "ilog2 x = ilog2 y")
  case True
  assume "x \<le> y"
  then have "rhe (x * scale53 x) \<le> rhe (y * scale53 x)" by (intro rhe_mono) simp
  then have "rhe (x * scale53 x) \<le> rhe (y * scale53 y)" using True by (simp add: scale53_def)
  then show ?thesis using True by (simp add: rnd_pos_def scale53_def divide_right_mono)
next
  case False
  assume xy: "0 < x" "x \<le> y"
  with False ilog2_mono [OF xy] have "ilog2 x + 1 \<le> ilog2 y" by simp
  then have "(2::rat) powi (ilog2 x + 1) \<le> 2 powi ilog2 y" by (intro power_int_increasing) auto
  moreover have "rnd_pos x \<le> 2 powi (ilog2 x + 1)" using xy by (intro rnd_pos_bounds)
  moreover have "2 powi ilog2 y \<le> rnd_pos y" using xy by (intro rnd_pos_bounds) simp
  ultimately show ?thesis by (meson order_trans)
qed

lemma rnd_pos_exact:
  assumes "0 < x" and "x * scale53 x = of_int n"
  shows "rnd_pos x = x"
proof -
  have "rnd_pos x = x * scale53 x / scale53 x"
    by (simp add: rnd_pos_def assms(2))
  also have "\<dots> = x" using scale53_pos [of x] by (simp add: less_imp_neq [symmetric])
  finally show ?thesis .
qed

lemma rnd_pos_idem: "0 < x \<Longrightarrow> rnd_pos (rnd_pos x) = rnd_pos x"
proof -
  assume x: "0 < x"
  let ?y = "rnd_pos x" and ?n = "rhe (x * scale53 x)"
  have y: "0 < ?y" using x by (rule rnd_pos_pos)
  have sc: "?y * scale53 x = of_int ?n" by (simp add: rnd_pos_def)
  show ?thesis
  proof (cases "?y < 2 powi (ilog2 x + 1)")
    case True
    then have "ilog2 ?y = ilog2 x" using rnd_pos_bounds(1) [OF x] by (intro ilog2_unique)
    then have "scale53 ?y = scale53 x" by (simp add: scale53_def)
    then show ?thesis using sc y by (intro rnd_pos_exact [of _ ?n]) simp_all
  next
    case False
    then have eq: "?y = 2 powi (ilog2 x + 1)" using rnd_pos_bounds(2) [OF x] by simp
    then have "ilog2 ?y = ilog2 x + 1" by (intro ilog2_unique) (simp_all add: powi_less_iff)
    then have "?y * scale53 ?y = of_int (2 ^ 52)"
      by (simp add: scale53_def eq power_int_diff power_int_add)
    with y show ?thesis by (rule rnd_pos_exact)
  qed
qed

text \<open>The four facts of a correctly rounded format, and exactness on the integers up to \<open>2 ^ 53\<close>.\<close>

lemma rnd53_zero [simp]: "rnd53 0 = 0"
  by (simp add: rnd53_def)

lemma rnd53_minus: "rnd53 (- x) = - rnd53 x"
  by (simp add: rnd53_def)

lemma rnd53_mono: "x \<le> y \<Longrightarrow> rnd53 x \<le> rnd53 y"
proof -
  assume xy: "x \<le> y"
  consider "0 < x" | "x \<le> 0" "0 \<le> y" | "y < 0" by linarith
  then show ?thesis
  proof cases
    case 1
    with xy show ?thesis by (simp add: rnd53_def rnd_pos_mono)
  next
    case 2
    then have "rnd53 x \<le> 0" and "0 \<le> rnd53 y"
      using rnd_pos_pos [of "- x"] rnd_pos_pos [of y] by (auto simp: rnd53_def)
    then show ?thesis by simp
  next
    case 3
    with xy show ?thesis by (simp add: rnd53_def rnd_pos_mono)
  qed
qed

lemma rnd53_idem [simp]: "rnd53 (rnd53 x) = rnd53 x"
  using rnd_pos_pos [of x] rnd_pos_pos [of "- x"] by (auto simp: rnd53_def rnd_pos_idem)

lemma rnd53_pos: "0 < x \<Longrightarrow> 0 < rnd53 x"
  by (simp add: rnd53_def rnd_pos_pos)

lemma rnd53_of_int:
  assumes "\<bar>n\<bar> \<le> 2 ^ 53"
  shows "rnd53 (of_int n) = of_int n"
proof -
  have pos: "rnd_pos (of_int m) = of_int m" if m: "0 < m" "m \<le> 2 ^ 53" for m :: int
  proof -
    let ?x = "of_int m :: rat"
    have x: "0 < ?x" using m by simp
    have "?x \<le> of_int (2 ^ 53)" using m by (simp only: of_int_le_iff)
    then have "2 powi ilog2 ?x \<le> (2::rat) powi 53" using ilog2_bounds(1) [OF x] by simp
    then have e: "ilog2 ?x \<le> 53" by (metis not_less powi_less_iff)
    show ?thesis
    proof (cases "ilog2 ?x = 53")
      case True
      then have "2 powi 53 \<le> ?x" using ilog2_bounds(1) [OF x] by simp
      then have "?x = 2 ^ 53" using \<open>?x \<le> of_int (2 ^ 53)\<close> by simp
      then have "?x * scale53 ?x = of_int (2 ^ 52)"
        using True by (simp add: scale53_def power_int_minus)
      with x show ?thesis by (rule rnd_pos_exact)
    next
      case False
      with e have "scale53 ?x = of_int (2 ^ nat (52 - ilog2 ?x))"
        by (simp add: scale53_def power_int_def)
      then have "?x * scale53 ?x = of_int (m * 2 ^ nat (52 - ilog2 ?x))" by simp
      with x show ?thesis by (rule rnd_pos_exact)
    qed
  qed
  consider "n = 0" | "0 < n" | "n < 0" by linarith
  then show ?thesis
    using assms pos [of n] pos [of "- n"] by cases (auto simp: rnd53_def)
qed

section \<open>The type\<close>

typedef f64 = "{x :: rat. rnd53 x = x}"
  morphisms rat_of_f64 F64
  by (rule exI [of _ 0]) simp

setup_lifting type_definition_f64

text \<open>Rounding a rational, and Go's conversion \<open>float64(n)\<close> of an integer.\<close>

lift_definition f64_of_rat :: "rat \<Rightarrow> f64" is rnd53
  by simp

definition f64_of_int :: "int \<Rightarrow> f64" where
  "f64_of_int n = f64_of_rat (of_int n)"

instantiation f64 :: "{zero, one, plus, times, inverse}"
begin

lift_definition zero_f64 :: f64 is 0
  by simp

lift_definition one_f64 :: f64 is 1
  using rnd53_of_int [of 1] by simp

lift_definition plus_f64 :: "f64 \<Rightarrow> f64 \<Rightarrow> f64" is "\<lambda>x y. rnd53 (x + y)"
  by simp

lift_definition times_f64 :: "f64 \<Rightarrow> f64 \<Rightarrow> f64" is "\<lambda>x y. rnd53 (x * y)"
  by simp

lift_definition divide_f64 :: "f64 \<Rightarrow> f64 \<Rightarrow> f64" is "\<lambda>x y. rnd53 (x / y)"
  by simp

lift_definition inverse_f64 :: "f64 \<Rightarrow> f64" is "\<lambda>x. rnd53 (1 / x)"
  by simp

instance ..

end

instantiation f64 :: linorder
begin

lift_definition less_eq_f64 :: "f64 \<Rightarrow> f64 \<Rightarrow> bool" is "(\<le>)" .

lift_definition less_f64 :: "f64 \<Rightarrow> f64 \<Rightarrow> bool" is "(<)" .

instance
  by standard (transfer; auto)+

end

instantiation f64 :: equal
begin

lift_definition equal_f64 :: "f64 \<Rightarrow> f64 \<Rightarrow> bool" is "(=)" .

instance
  by standard (simp add: equal_f64.rep_eq rat_of_f64_inject)

end

lemmas f64_rep = zero_f64.rep_eq one_f64.rep_eq plus_f64.rep_eq times_f64.rep_eq divide_f64.rep_eq
  f64_of_rat.rep_eq less_eq_f64.rep_eq less_f64.rep_eq

lemma rnd53_rep [simp]: "rnd53 (rat_of_f64 x) = rat_of_f64 x"
  using rat_of_f64 [of x] by simp

lemma f64_eq_iff: "x = y \<longleftrightarrow> rat_of_f64 x = rat_of_f64 y"
  by (simp add: rat_of_f64_inject)

section \<open>Laws of rounded arithmetic\<close>

named_theorems f64_arith "monotonicity and sign laws of rounded arithmetic"

text \<open>
  What the cost computation and the router need of floating point: addition and
  multiplication are monotone on non-negative numbers, adding a non-negative number never
  decreases, and zero is neutral. They hold for any correctly rounded format, so they are
  stated once over the rounding as an interface and instantiated with the 53-bit format.
\<close>

locale rounding =
  fixes rnd :: "rat \<Rightarrow> rat"
  assumes rnd_zero: "rnd 0 = 0"
    and rnd_mono: "x \<le> y \<Longrightarrow> rnd x \<le> rnd y"
    and rnd_idem: "rnd (rnd x) = rnd x"
begin

lemma rnd_nonneg: "0 \<le> x \<Longrightarrow> 0 \<le> rnd x"
  using rnd_mono [of 0 x] rnd_zero by simp

lemma rnd_add_upper: "rnd x = x \<Longrightarrow> 0 \<le> y \<Longrightarrow> x \<le> rnd (x + y)"
  using rnd_mono [of x "x + y"] by simp

lemma rnd_add_mono: "x \<le> x' \<Longrightarrow> y \<le> y' \<Longrightarrow> rnd (x + y) \<le> rnd (x' + y')"
  by (intro rnd_mono add_mono)

lemma rnd_mult_mono: "0 \<le> x \<Longrightarrow> x \<le> x' \<Longrightarrow> 0 \<le> y \<Longrightarrow> y \<le> y' \<Longrightarrow> rnd (x * y) \<le> rnd (x' * y')"
  by (intro rnd_mono mult_mono) auto

lemma rnd_div_mono: "0 \<le> z \<Longrightarrow> x \<le> x' \<Longrightarrow> rnd (x / z) \<le> rnd (x' / z)"
  by (intro rnd_mono divide_right_mono)

end

interpretation ieee: rounding rnd53
  by unfold_locales (simp_all add: rnd53_mono)

lemma f64_add_nonneg [f64_arith]: "0 \<le> x \<Longrightarrow> 0 \<le> y \<Longrightarrow> 0 \<le> x + (y :: f64)"
  by (simp add: f64_rep ieee.rnd_nonneg)

lemma f64_mult_nonneg [f64_arith]: "0 \<le> x \<Longrightarrow> 0 \<le> y \<Longrightarrow> 0 \<le> x * (y :: f64)"
  by (simp add: f64_rep ieee.rnd_nonneg)

lemma f64_div_nonneg [f64_arith]: "0 \<le> x \<Longrightarrow> 0 \<le> y \<Longrightarrow> 0 \<le> x / (y :: f64)"
  by (simp add: f64_rep ieee.rnd_nonneg)

lemma f64_add_upper [f64_arith]: "0 \<le> y \<Longrightarrow> x \<le> x + (y :: f64)"
  by (simp add: f64_rep ieee.rnd_add_upper)

lemma f64_add_commute: "x + y = y + (x :: f64)"
  by (simp add: f64_eq_iff f64_rep add.commute)

lemma f64_add_upper2 [f64_arith]: "0 \<le> x \<Longrightarrow> y \<le> x + (y :: f64)"
  using f64_add_upper [of x y] by (simp add: f64_add_commute)

lemma f64_add_mono [f64_arith]: "x \<le> x' \<Longrightarrow> y \<le> y' \<Longrightarrow> x + y \<le> x' + (y' :: f64)"
  by (simp add: f64_rep ieee.rnd_add_mono)

lemma f64_mult_mono [f64_arith]:
  "0 \<le> x \<Longrightarrow> x \<le> x' \<Longrightarrow> 0 \<le> y \<Longrightarrow> y \<le> y' \<Longrightarrow> x * y \<le> x' * (y' :: f64)"
  by (simp add: f64_rep ieee.rnd_mult_mono)

lemma f64_div_mono [f64_arith]: "0 \<le> z \<Longrightarrow> x \<le> x' \<Longrightarrow> x / z \<le> x' / (z :: f64)"
  by (simp add: f64_rep ieee.rnd_div_mono)

lemma f64_add_0 [simp]: "0 + x = (x :: f64)" "x + 0 = (x :: f64)"
  by (simp_all add: f64_eq_iff f64_rep)

lemma f64_mult_0 [simp]: "0 * x = (0 :: f64)" "x * 0 = (0 :: f64)"
  by (simp_all add: f64_eq_iff f64_rep)

lemma f64_div_0 [simp]: "0 / x = (0 :: f64)"
  by (simp add: f64_eq_iff f64_rep)

lemma f64_of_int_0 [simp]: "f64_of_int 0 = 0"
  by (simp add: f64_of_int_def f64_eq_iff f64_rep)

lemma f64_of_int_mono [f64_arith]: "m \<le> n \<Longrightarrow> f64_of_int m \<le> f64_of_int n"
  by (simp add: f64_of_int_def f64_rep rnd53_mono)

lemma f64_of_int_nonneg [f64_arith]: "0 \<le> n \<Longrightarrow> 0 \<le> f64_of_int n"
  using f64_of_int_mono [of 0 n] by simp

lemma f64_of_int_exact: "\<bar>n\<bar> \<le> 2 ^ 53 \<Longrightarrow> rat_of_f64 (f64_of_int n) = of_int n"
  by (simp add: f64_of_int_def f64_rep rnd53_of_int)

lemma f64_div_pos: "0 < x \<Longrightarrow> 0 < y \<Longrightarrow> 0 < x / (y :: f64)"
  by (simp add: f64_rep rnd53_pos)

end
