(* ===== verification/Models.thy ===== *)
theory Models
  imports Go_Float
begin

text \<open>
  The data types of \<open>internal/models\<close>. A struct is a record with the fields of the struct in its
  order, each named by a prefix for the struct and the Go field name. A pointer that may be nil is
  an option. A UUID is its 128 bits; an instant and a duration are a number of nanoseconds.
  Counters computed by the database are integers, the token counts a parser computes are 64-bit
  words.
\<close>

type_synonym uuid = "128 word"
type_synonym instant = int
type_synonym duration = int

abbreviation (input) millisecond :: duration where "millisecond \<equiv> 1000000"
abbreviation (input) second :: duration where "second \<equiv> 1000 * millisecond"
abbreviation (input) minute :: duration where "minute \<equiv> 60 * second"

section \<open>API keys\<close>

type_synonym deprecated_model_behavior = string

definition BehaviorPassthrough :: deprecated_model_behavior where "BehaviorPassthrough = ''passthrough''"
definition BehaviorRedirect :: deprecated_model_behavior where "BehaviorRedirect = ''redirect''"
definition BehaviorWarn :: deprecated_model_behavior where "BehaviorWarn = ''warn''"

record api_key =
  ak_ID :: uuid
  ak_KeyHash :: string
  ak_Name :: string
  ak_Description :: "string option"
  ak_IsActive :: bool
  ak_CreatedAt :: instant
  ak_RevokedAt :: "instant option"
  ak_LastUsedAt :: "instant option"
  ak_RequestCount :: int
  ak_DeprecatedModelBehavior :: deprecated_model_behavior

record create_api_key_input =
  ck_Name :: string
  ck_Description :: "string option"

record update_api_key_input =
  uk_Name :: "string option"
  uk_Description :: "string option"
  uk_DeprecatedModelBehavior :: "deprecated_model_behavior option"

record api_key_info =
  ki_ID :: uuid
  ki_Hash :: string
  ki_Alias :: "string option"
  ki_DeprecatedModelBehavior :: deprecated_model_behavior

section \<open>Usage and cost of one request\<close>

record usage_metrics =
  um_Provider :: string
  um_Model :: string
  um_InputTokens :: int64
  um_OutputTokens :: int64
  um_CachedTokens :: int64
  um_CacheCreationTokens :: int64
  um_CacheCreation5mTokens :: int64
  um_CacheCreation1hTokens :: int64
  um_ResponseTime :: duration

record cost =
  co_InputCost :: f64
  co_CachedCost :: f64
  co_CacheCreationCost :: f64
  co_OutputCost :: f64
  co_TotalCost :: f64
  co_ModelAliasFound :: bool

definition zero_metrics :: usage_metrics where
  "zero_metrics = \<lparr>um_Provider = [], um_Model = [], um_InputTokens = 0, um_OutputTokens = 0,
     um_CachedTokens = 0, um_CacheCreationTokens = 0, um_CacheCreation5mTokens = 0,
     um_CacheCreation1hTokens = 0, um_ResponseTime = 0\<rparr>"

definition zero_cost :: cost where
  "zero_cost = \<lparr>co_InputCost = 0, co_CachedCost = 0, co_CacheCreationCost = 0, co_OutputCost = 0,
     co_TotalCost = 0, co_ModelAliasFound = False\<rparr>"

section \<open>The request log\<close>

text \<open>\<open>models.RequestLog\<close>, one row of \<open>llm_requests\<close>: the request itself, its usage and cost, the
  deprecated-model redirect, the routing trace and the agent run.\<close>

record request_log =
  lg_ID :: uuid
  lg_MajordomoAPIKeyID :: "uuid option"
  lg_ProviderAPIKeyHash :: "string option"
  lg_ProviderAPIKeyAlias :: "string option"
  lg_Provider :: string
  lg_Model :: string
  lg_RequestPath :: string
  lg_RequestMethod :: string
  lg_RequestedAt :: instant
  lg_RespondedAt :: instant
  lg_ResponseTimeMs :: int
  lg_InputTokens :: int64
  lg_OutputTokens :: int64
  lg_CachedTokens :: int64
  lg_CacheCreationTokens :: int64
  lg_CacheCreation5mTokens :: int64
  lg_CacheCreation1hTokens :: int64
  lg_InputCost :: f64
  lg_CachedCost :: f64
  lg_CacheCreationCost :: f64
  lg_OutputCost :: f64
  lg_TotalCost :: f64
  lg_StatusCode :: int
  lg_ErrorMessage :: "string option"
  lg_RawMetadata :: "(string, string) gomap"
  lg_IndexedMetadata :: "(string, string) gomap"
  lg_BodyS3Key :: "string option"
  lg_ModelAliasFound :: bool
  lg_CreatedAt :: instant
  lg_DeprecatedModelRedirected :: bool
  lg_OriginalModel :: "string option"
  lg_RoutedProvider :: "string option"
  lg_RoutingReason :: "string option"
  lg_RoutingOriginalModel :: "string option"
  lg_TraceID :: "string option"
  lg_SpanPath :: "string option"
  lg_SpanName :: "string option"
  lg_SpanID :: "uuid option"
  lg_ParentSpanID :: "uuid option"

section \<open>Routing, metadata and provider keys\<close>

record endpoint_health =
  eh_Provider :: string
  eh_Model :: string
  eh_SampleCount :: int
  eh_AvgLatencyMs :: f64
  eh_ErrorRate :: f64

record metadata_key =
  mk_MajordomoAPIKeyID :: uuid
  mk_APIKeyName :: string
  mk_KeyName :: string
  mk_DisplayName :: "string option"
  mk_KeyType :: string
  mk_IsRequired :: bool
  mk_IsActive :: bool
  mk_ActivatedAt :: "instant option"
  mk_RequestCount :: int
  mk_LastSeenAt :: "instant option"
  mk_ApproxCardinality :: int
  mk_CreatedAt :: instant

record provider_api_key =
  pk_ID :: uuid
  pk_Provider :: string
  pk_EncryptedKey :: string
  pk_CreatedAt :: instant
  pk_UpdatedAt :: instant

record provider_key_info =
  pi_Provider :: string
  pi_CreatedAt :: instant

section \<open>Usage reporting\<close>

record usage_summary =
  us_TotalRequests :: int
  us_TotalInputTokens :: int
  us_TotalOutputTokens :: int
  us_TotalCachedTokens :: int
  us_TotalCacheCreationTokens :: int
  us_TotalCost :: f64
  us_TotalCachedCost :: f64
  us_TotalCacheCreationCost :: f64

text \<open>\<open>DailyUsage\<close>, \<open>ModelUsage\<close>, \<open>APIKeyUsage\<close> and \<open>ProviderUsage\<close> carry the same totals after the
  columns they group by; the totals are one record.\<close>

record usage_totals =
  ut_RequestCount :: int
  ut_InputTokens :: int
  ut_OutputTokens :: int
  ut_CachedTokens :: int
  ut_CacheCreationTokens :: int
  ut_TotalCost :: f64
  ut_CachedCost :: f64
  ut_CacheCreationCost :: f64

record daily_usage = usage_totals +
  du_Date :: string

record model_usage = usage_totals +
  mu_Provider :: string
  mu_Model :: string

record api_key_usage = usage_totals +
  ku_APIKeyID :: uuid
  ku_APIKeyName :: string

record provider_usage = usage_totals +
  pu_Provider :: string

record metadata_breakdown =
  mb_Value :: string
  mb_RequestCount :: int
  mb_InputTokens :: int
  mb_OutputTokens :: int
  mb_TotalCost :: f64

record daily_error_rate =
  de_Date :: string
  de_RequestCount :: int
  de_ErrorCount :: int
  de_ErrorRate :: f64

record error_summary =
  es_TotalRequests :: int
  es_ErrorRequests :: int
  es_ErrorRate :: f64
  es_Daily :: "daily_error_rate list"

record recent_error =
  re_ID :: uuid
  re_APIKeyID :: "uuid option"
  re_APIKeyName :: "string option"
  re_Provider :: string
  re_Model :: string
  re_StatusCode :: int
  re_ErrorMessage :: "string option"
  re_RequestedAt :: instant

record request_list_item =
  ri_ID :: uuid
  ri_MajordomoAPIKeyID :: "uuid option"
  ri_Provider :: string
  ri_Model :: string
  ri_RequestedAt :: instant
  ri_ResponseTimeMs :: int
  ri_InputTokens :: int
  ri_OutputTokens :: int
  ri_CachedTokens :: int
  ri_CacheCreationTokens :: int
  ri_TotalCost :: f64
  ri_StatusCode :: int
  ri_ErrorMessage :: "string option"
  ri_TraceID :: "string option"
  ri_RoutedProvider :: "string option"

record run_list_item = usage_totals +
  rl_TraceID :: string
  rl_Label :: string
  rl_StartedAt :: instant
  rl_EndedAt :: instant

record usage_query_filter =
  qf_Key :: string
  qf_Value :: string

record usage_query =
  uq_Preset :: string
  uq_Start :: string
  uq_End :: string
  uq_APIKeyID :: string
  uq_Provider :: string
  uq_Model :: string
  uq_StatusClass :: string
  uq_MetadataFilters :: "usage_query_filter list"
  uq_ExcludeRuns :: bool
  uq_Limit :: int
  uq_Offset :: int

end
