(* ===== verification/Json.thy ===== *)
theory Json
  imports Prelude
begin

text \<open>
  What the gateway uses of package \<open>encoding/json\<close>: the grammar, \<open>Unmarshal\<close> into structs and
  into \<open>map[string]json.RawMessage\<close>, and \<open>Marshal\<close> of such maps.

  A document is a tree that keeps the source text of its strings and numbers, so a
  \<open>json.RawMessage\<close> is exactly the tree of its text, up to the white space \<open>Marshal\<close> removes and
  the HTML escapes it adds. Not modelled: the replacement of ill-formed UTF-8 in strings (bytes
  from 128 up are copied), the nesting limit of 10000, and which of several type errors is
  reported (a decode with any error is \<^const>\<open>None\<close>, as every caller discards the value).
\<close>

named_theorems json "evaluation of the JSON parser and printer"

datatype json =
    JNull
  | JBool bool
  | JNum string              \<comment> \<open>the literal\<close>
  | JStr string              \<comment> \<open>the text between the quotes, escapes included\<close>
  | JArr "json list"
  | JObj "(string \<times> json) list"   \<comment> \<open>members in order, keys as source text\<close>

text \<open>Documents of the examples are written with \<open>~\<close> for the quotation mark.\<close>

definition doc :: "string \<Rightarrow> string" where
  "doc s = map (\<lambda>c. if c = CHR 0x7E then CHR 0x22 else c) s"

section \<open>Lexical level\<close>

definition json_ws :: "char \<Rightarrow> bool" where
  "json_ws c \<longleftrightarrow> c \<in> {CHR '' '', CHR 0x09, CHR 0x0A, CHR 0x0D}"

definition skip_ws :: "string \<Rightarrow> string" where
  "skip_ws s = dropWhile json_ws s"

definition is_hex :: "char \<Rightarrow> bool" where
  "is_hex c \<longleftrightarrow> is_digit c \<or> CHR ''a'' \<le> c \<and> c \<le> CHR ''f'' \<or> CHR ''A'' \<le> c \<and> c \<le> CHR ''F''"

definition quote_c :: char where "quote_c = CHR 0x22"
definition bslash_c :: char where "bslash_c = CHR 0x5C"

definition simple_escape :: "char \<Rightarrow> bool" where
  "simple_escape c \<longleftrightarrow> c \<in> {quote_c, bslash_c, CHR ''/'', CHR ''b'', CHR ''f'', CHR ''n'', CHR ''r'', CHR ''t''}"

text \<open>The text of a string up to its closing quote, and the rest.\<close>

fun str_tok :: "string \<Rightarrow> (string \<times> string) option" where
  "str_tok [] = None"
| "str_tok (c # s) =
     (if c = quote_c then Some ([], s)
      else if c = bslash_c then
        (case s of
           [] \<Rightarrow> None
         | e # s' \<Rightarrow>
             if simple_escape e then map_option (\<lambda>(t, r). (c # e # t, r)) (str_tok s')
             else if e = CHR ''u'' then
               (case s' of
                  h1 # h2 # h3 # h4 # s'' \<Rightarrow>
                    if is_hex h1 \<and> is_hex h2 \<and> is_hex h3 \<and> is_hex h4
                    then map_option (\<lambda>(t, r). (c # e # h1 # h2 # h3 # h4 # t, r)) (str_tok s'')
                    else None
                | _ \<Rightarrow> None)
             else None)
      else if c < CHR 0x20 then None
      else map_option (\<lambda>(t, r). (c # t, r)) (str_tok s))"

text \<open>Well-formed string text: what \<^const>\<open>str_tok\<close> accepts.\<close>

definition str_ok :: "string \<Rightarrow> bool" where
  "str_ok t \<longleftrightarrow> str_tok (t @ [quote_c]) = Some (t, [])"

text \<open>Numbers: \<open>-? (0 | [1-9][0-9]*) (\.[0-9]+)? ([eE][+-]?[0-9]+)?\<close>.\<close>

definition digits_tok :: "string \<Rightarrow> string \<times> string" where
  "digits_tok s = (takeWhile is_digit s, dropWhile is_digit s)"

definition int_tok :: "string \<Rightarrow> (string \<times> string) option" where
  "int_tok s =
     (case s of
        [] \<Rightarrow> None
      | c # r \<Rightarrow> if c = CHR ''0'' then Some ([c], r)
                  else if is_digit c then Some (digits_tok s) else None)"

definition frac_tok :: "string \<Rightarrow> (string \<times> string) option" where
  "frac_tok s =
     (case s of
        [] \<Rightarrow> Some ([], s)
      | c # r \<Rightarrow> if c = CHR ''.''
                  then (case digits_tok r of (d, r') \<Rightarrow> if d = [] then None else Some (c # d, r'))
                  else Some ([], s))"

definition sign_tok :: "(char \<Rightarrow> bool) \<Rightarrow> string \<Rightarrow> string \<times> string" where
  "sign_tok p s = (case s of [] \<Rightarrow> ([], []) | c # r \<Rightarrow> if p c then ([c], r) else ([], s))"

definition exp_tok :: "string \<Rightarrow> (string \<times> string) option" where
  "exp_tok s =
     (case s of
        [] \<Rightarrow> Some ([], s)
      | c # r \<Rightarrow>
          if c = CHR ''e'' \<or> c = CHR ''E'' then
            (let (sg, q) = sign_tok (\<lambda>x. x = CHR ''+'' \<or> x = CHR ''-'') r; (d, r') = digits_tok q
             in if d = [] then None else Some (c # sg @ d, r'))
          else Some ([], s))"

definition num_tok :: "string \<Rightarrow> (string \<times> string) option" where
  "num_tok s =
     (let (sg, q) = sign_tok (\<lambda>x. x = CHR ''-'') s in
      case int_tok q of
        None \<Rightarrow> None
      | Some (i, r1) \<Rightarrow>
          (case frac_tok r1 of
             None \<Rightarrow> None
           | Some (f, r2) \<Rightarrow>
               (case exp_tok r2 of
                  None \<Rightarrow> None
                | Some (e, r3) \<Rightarrow> Some (sg @ i @ f @ e, r3))))"

definition num_ok :: "string \<Rightarrow> bool" where
  "num_ok t \<longleftrightarrow> num_tok t = Some (t, [])"

section \<open>The parser\<close>

definition parse_literal :: "string \<Rightarrow> (json \<times> string) option" where
  "parse_literal s =
     (if prefix ''true'' s then Some (JBool True, drop 4 s)
      else if prefix ''false'' s then Some (JBool False, drop 5 s)
      else if prefix ''null'' s then Some (JNull, drop 4 s)
      else map_option (\<lambda>(t, q). (JNum t, q)) (num_tok s))"

text \<open>
  Recursive descent. The number argument bounds the recursion: each value consumes a byte, so
  the length of the text is enough (\<open>parse_fuel\<close> below).
\<close>

definition expect :: "char \<Rightarrow> string \<Rightarrow> string option" where
  "expect c s = (case skip_ws s of [] \<Rightarrow> None | d # r \<Rightarrow> if d = c then Some r else None)"

definition member_key :: "string \<Rightarrow> (string \<times> string) option" where
  "member_key s =
     (case expect quote_c s of
        None \<Rightarrow> None
      | Some q \<Rightarrow>
          (case str_tok q of
             None \<Rightarrow> None
           | Some (k, r) \<Rightarrow> map_option (Pair k) (expect CHR '':'' r)))"

function (sequential) parse_val :: "nat \<Rightarrow> string \<Rightarrow> (json \<times> string) option"
  and parse_elems :: "nat \<Rightarrow> string \<Rightarrow> (json list \<times> string) option"
  and parse_members :: "nat \<Rightarrow> string \<Rightarrow> ((string \<times> json) list \<times> string) option"
where
  "parse_val 0 s = None"
| "parse_val (Suc n) s =
     (case expect CHR ''['' s of
        Some r \<Rightarrow>
          (case expect CHR '']'' r of
             Some q \<Rightarrow> Some (JArr [], q)
           | None \<Rightarrow> map_option (\<lambda>(js, q). (JArr js, q)) (parse_elems n r))
      | None \<Rightarrow>
      (case expect CHR ''{'' s of
         Some r \<Rightarrow>
           (case expect CHR ''}'' r of
              Some q \<Rightarrow> Some (JObj [], q)
            | None \<Rightarrow> map_option (\<lambda>(ms, q). (JObj ms, q)) (parse_members n r))
       | None \<Rightarrow>
       (case expect quote_c s of
          Some r \<Rightarrow> map_option (\<lambda>(t, q). (JStr t, q)) (str_tok r)
        | None \<Rightarrow> parse_literal (skip_ws s))))"
| "parse_elems n s =
     (case parse_val n s of
        None \<Rightarrow> None
      | Some (j, r) \<Rightarrow>
          (case expect CHR '']'' r of
             Some q \<Rightarrow> Some ([j], q)
           | None \<Rightarrow>
               (case expect CHR '','' r of
                  None \<Rightarrow> None
                | Some r' \<Rightarrow> if n = 0 then None
                    else map_option (\<lambda>(js, q). (j # js, q)) (parse_elems (n - 1) r'))))"
| "parse_members n s =
     (case member_key s of
        None \<Rightarrow> None
      | Some (k, r) \<Rightarrow>
          (case parse_val n r of
             None \<Rightarrow> None
           | Some (j, q) \<Rightarrow>
               (case expect CHR ''}'' q of
                  Some z \<Rightarrow> Some ([(k, j)], z)
                | None \<Rightarrow>
                    (case expect CHR '','' q of
                       None \<Rightarrow> None
                     | Some q' \<Rightarrow> if n = 0 then None
                         else map_option (\<lambda>(ms, z). ((k, j) # ms, z)) (parse_members (n - 1) q')))))"
  by pat_completeness auto
termination
  by (relation "measure (\<lambda>x. case x of Inl (n, _) \<Rightarrow> 2 * n
        | Inr (Inl (n, _)) \<Rightarrow> 2 * n + 1 | Inr (Inr (n, _)) \<Rightarrow> 2 * n + 1)") auto

declare parse_elems.simps [simp del] parse_members.simps [simp del]

definition json_parse :: "string \<Rightarrow> json option" where
  "json_parse s =
     (case parse_val (length s) s of
        None \<Rightarrow> None
      | Some (j, r) \<Rightarrow> if skip_ws r = [] then Some j else None)"

section \<open>The printer\<close>

text \<open>\<open>Marshal\<close> of parsed text: no white space, and the bytes \<open><\<close>, \<open>>\<close> and \<open>&\<close> escaped.\<close>

fun print_json :: "json \<Rightarrow> string" where
  "print_json JNull = ''null''"
| "print_json (JBool b) = (if b then ''true'' else ''false'')"
| "print_json (JNum t) = t"
| "print_json (JStr t) = quote_c # t @ [quote_c]"
| "print_json (JArr js) = CHR ''['' # join_with CHR '','' (map print_json js) @ [CHR '']'']"
| "print_json (JObj ms) =
     CHR ''{'' # join_with CHR '',''
       (map (\<lambda>(k, j). (quote_c # k @ [quote_c]) @ CHR '':'' # print_json j) ms) @ [CHR ''}'']"

definition html_escape_char :: "char \<Rightarrow> string" where
  "html_escape_char c =
     (if c = CHR ''<'' then bslash_c # ''u003c''
      else if c = CHR ''>'' then bslash_c # ''u003e''
      else if c = CHR ''&'' then bslash_c # ''u0026''
      else [c])"

definition html_escape :: "string \<Rightarrow> string" where
  "html_escape t = concat (map html_escape_char t)"

fun html_escape_json :: "json \<Rightarrow> json" where
  "html_escape_json (JStr t) = JStr (html_escape t)"
| "html_escape_json (JArr js) = JArr (map html_escape_json js)"
| "html_escape_json (JObj ms) = JObj (map (\<lambda>(k, j). (html_escape k, html_escape_json j)) ms)"
| "html_escape_json j = j"

text \<open>Well-formed trees: those the parser produces.\<close>

fun json_ok :: "json \<Rightarrow> bool" where
  "json_ok (JNum t) = num_ok t"
| "json_ok (JStr t) = str_ok t"
| "json_ok (JArr js) = list_all json_ok js"
| "json_ok (JObj ms) = list_all (\<lambda>(k, j). str_ok k \<and> json_ok j) ms"
| "json_ok _ = True"

section \<open>Parsing consumes, and the fuel is enough\<close>

lemma skip_ws_length: "length (skip_ws s) \<le> length s"
  by (simp add: skip_ws_def length_dropWhile_le)

lemma str_tok_split: "str_tok s = Some (t, r) \<Longrightarrow> s = t @ quote_c # r"
proof (induction s arbitrary: t r rule: measure_induct_rule [of length])
  case (less s)
  show ?case
  proof (cases s)
    case Nil
    with less.prems show ?thesis by simp
  next
    case (Cons c s')
    with less show ?thesis
      by (auto split: if_splits list.splits)
  qed
qed

lemma digits_tok_split: "digits_tok s = (d, r) \<Longrightarrow> s = d @ r"
  unfolding digits_tok_def by (metis Pair_inject takeWhile_dropWhile_id)

lemma sign_tok_split: "sign_tok p s = (d, r) \<Longrightarrow> s = d @ r"
  by (auto simp: sign_tok_def split: list.splits if_splits)

lemma int_tok_split: "int_tok s = Some (d, r) \<Longrightarrow> s = d @ r \<and> d \<noteq> []"
  by (auto simp: int_tok_def digits_tok_def split: list.splits if_splits)

lemma frac_tok_split: "frac_tok s = Some (d, r) \<Longrightarrow> s = d @ r"
  by (auto simp: frac_tok_def split: list.splits if_splits prod.splits dest!: digits_tok_split)

lemma exp_tok_split: "exp_tok s = Some (d, r) \<Longrightarrow> s = d @ r"
  by (auto simp: exp_tok_def Let_def split: list.splits if_splits prod.splits
      dest!: digits_tok_split sign_tok_split)

lemma num_tok_split: "num_tok s = Some (t, r) \<Longrightarrow> s = t @ r \<and> t \<noteq> []"
  by (auto simp: num_tok_def split: option.splits prod.splits
      dest!: int_tok_split frac_tok_split exp_tok_split sign_tok_split)

lemma str_tok_length: "str_tok s = Some (t, r) \<Longrightarrow> length r < length s"
  by (auto dest: str_tok_split)

lemma num_tok_length: "num_tok s = Some (t, r) \<Longrightarrow> length r < length s"
  by (auto dest: num_tok_split)

lemma expect_length: "expect c s = Some r \<Longrightarrow> length r < length s"
  using skip_ws_length [of s] by (auto simp: expect_def split: list.splits if_splits)

lemma parse_literal_length: "parse_literal s = Some (j, r) \<Longrightarrow> length r < length s"
  by (auto simp: parse_literal_def prefix_def split: if_splits dest: num_tok_length)

lemma member_key_length: "member_key s = Some (k, r) \<Longrightarrow> length r < length s"
  by (auto simp: member_key_def split: option.splits dest!: expect_length str_tok_length)

lemmas token_length = expect_length parse_literal_length str_tok_length member_key_length

lemma parse_length:
  "parse_val n s = Some (j, r) \<Longrightarrow> length r < length s"
  "parse_elems n s = Some (js, r) \<Longrightarrow> length r < length s"
  "parse_members n s = Some (ms, r) \<Longrightarrow> length r < length s"
proof (induction n s and n s and n s arbitrary: j r and js r and ms r
    rule: parse_val_parse_elems_parse_members.induct)
  case (2 n s)
  show ?case
  proof (cases "expect CHR ''['' s")
    case (Some q)
    have "length r < length q" if "expect CHR '']'' q = None" "parse_elems n q = Some (js, r)" for js
      using "2.IH" that Some by blast
    moreover have "length q < length s" using Some by (rule expect_length)
    ultimately show ?thesis using "2.prems" Some
      by (cases "expect CHR '']'' q") (force dest: expect_length)+
  next
    case None
    note arr = this
    show ?thesis
    proof (cases "expect CHR ''{'' s")
      case (Some q)
      have "length r < length q" if "expect CHR ''}'' q = None" "parse_members n q = Some (ms, r)" for ms
        using "2.IH" that arr Some by blast
      moreover have "length q < length s" using Some by (rule expect_length)
      ultimately show ?thesis using "2.prems" arr Some
        by (cases "expect CHR ''}'' q") (force dest: expect_length)+
    next
      case None
      with "2.prems" arr show ?thesis
        using skip_ws_length [of s] by (auto split: option.splits dest!: token_length)
    qed
  qed
next
  case (3 n s)
  then show ?case
    by (fastforce simp: parse_elems.simps [of n s] split: option.splits if_splits dest!: token_length)
next
  case (4 n s)
  then show ?case
    by (fastforce simp: parse_members.simps [of n s] split: option.splits if_splits dest!: token_length)
qed simp

text \<open>More fuel than the length of the text changes nothing.\<close>

lemma parse_fuel:
  "length s \<le> n \<Longrightarrow> length s \<le> m \<Longrightarrow> parse_val m s = parse_val n s"
  "length s \<le> n \<Longrightarrow> length s \<le> m \<Longrightarrow> parse_elems m s = parse_elems n s"
  "length s \<le> n \<Longrightarrow> length s \<le> m \<Longrightarrow> parse_members m s = parse_members n s"
proof (induction n s and n s and n s arbitrary: m and m and m
    rule: parse_val_parse_elems_parse_members.induct)
  case (1 s)
  then show ?case by (cases m) (simp_all add: expect_def skip_ws_def parse_literal_def num_tok_def
    sign_tok_def int_tok_def)
next
  case (2 n s)
  show ?case
  proof (cases m)
    case 0
    with 2 show ?thesis by (simp add: expect_def skip_ws_def parse_literal_def num_tok_def
      sign_tok_def int_tok_def)
  next
    case (Suc m')
    have "parse_elems m' r = parse_elems n r"
      if "expect CHR ''['' s = Some r" "expect CHR '']'' r = None" for r
      using that expect_length [OF that(1)] "2.prems" Suc by (intro "2.IH"(2)) auto
    moreover have "parse_members m' r = parse_members n r"
      if "expect CHR ''['' s = None" "expect CHR ''{'' s = Some r" "expect CHR ''}'' r = None" for r
      using that expect_length [OF that(2)] "2.prems" Suc by (intro "2.IH"(1)) auto
    ultimately show ?thesis using Suc by (auto split: option.split)
  qed
next
  case (3 n s)
  have v: "parse_val m s = parse_val n s" using 3 by blast
  have "parse_elems (m - 1) r' = parse_elems (n - 1) r'"
    if "parse_val n s = Some (j, r)" "expect CHR '']'' r = None" "expect CHR '','' r = Some r'" "n \<noteq> 0" for j r r'
  proof -
    have "length r' + 2 \<le> length s"
      using parse_length(1) [OF that(1)] expect_length [OF that(3)] by simp
    with that "3.prems" show ?thesis by (intro "3.IH"(2) [OF that(1) refl that(2,3,4)]) auto
  qed
  moreover have "length s \<noteq> 0" if "parse_val n s = Some (j, r)" for j r
    using parse_length(1) [OF that] by auto
  ultimately show ?case using v "3.prems"
    by (auto simp: parse_elems.simps [of m s] parse_elems.simps [of n s] split: option.split)
next
  case (4 n s)
  have v: "parse_val m r = parse_val n r" if "member_key s = Some (k, r)" for k r
    using that "4.prems" member_key_length [OF that] by (intro "4.IH"(1) [OF that refl]) auto
  have w: "parse_members (m - 1) q' = parse_members (n - 1) q'"
    if h: "member_key s = Some (k, r)" "parse_val n r = Some (j, q)" "expect CHR ''}'' q = None"
      "expect CHR '','' q = Some q'" "n \<noteq> 0" for k r j q q'
  proof -
    have "length q' + 2 \<le> length s"
      using member_key_length [OF h(1)] parse_length(1) [OF h(2)] expect_length [OF h(4)] by simp
    with "4.prems" show ?thesis by (intro "4.IH"(2) [OF h(1) refl h(2) refl h(3,4,5)]) auto
  qed
  have "length s \<noteq> 0" if "member_key s = Some (k, r)" for k r
    using member_key_length [OF that] by auto
  then show ?case using v w "4.prems"
    by (auto simp: parse_members.simps [of m s] parse_members.simps [of n s] split: option.split)
qed

section \<open>Parsing what was printed\<close>

text \<open>After a value the text must not go on with a byte that would extend a number.\<close>

definition num_char :: "char \<Rightarrow> bool" where
  "num_char c \<longleftrightarrow> is_digit c \<or> c \<in> {CHR ''.'', CHR ''e'', CHR ''E''}"

definition stops :: "string \<Rightarrow> bool" where
  "stops r \<longleftrightarrow> (case r of [] \<Rightarrow> True | c # _ \<Rightarrow> \<not> num_char c)"

lemma stops_simps [simp]: "stops []" "stops (c # r) \<longleftrightarrow> \<not> num_char c"
  by (simp_all add: stops_def)

lemma digits_tok_append:
  "digits_tok x = (d, r) \<Longrightarrow> stops q \<Longrightarrow> digits_tok (x @ q) = (d, r @ q)"
proof (induction x arbitrary: d)
  case Nil
  then show ?case by (cases q) (auto simp: digits_tok_def num_char_def)
next
  case (Cons c x)
  then show ?case by (cases "is_digit c") (auto simp: digits_tok_def)
qed

lemma frac_tok_append: "frac_tok x = Some (d, r) \<Longrightarrow> stops q \<Longrightarrow> frac_tok (x @ q) = Some (d, r @ q)"
proof (cases x)
  case Nil
  assume "frac_tok x = Some (d, r)" "stops q"
  with Nil show ?thesis by (cases q) (auto simp: frac_tok_def num_char_def)
next
  case (Cons c y)
  assume a: "frac_tok x = Some (d, r)" "stops q"
  obtain d' r' where "digits_tok y = (d', r')" by (cases "digits_tok y")
  with digits_tok_append [OF this a(2)] a Cons show ?thesis
    by (auto simp: frac_tok_def split: if_splits)
qed

lemma sign_tok_append: "x \<noteq> [] \<Longrightarrow> sign_tok p (x @ q) = (case sign_tok p x of (d, r) \<Rightarrow> (d, r @ q))"
  by (auto simp: sign_tok_def neq_Nil_conv)

lemma exp_tok_append: "exp_tok x = Some (d, r) \<Longrightarrow> stops q \<Longrightarrow> exp_tok (x @ q) = Some (d, r @ q)"
proof (cases x)
  case Nil
  assume "exp_tok x = Some (d, r)" "stops q"
  with Nil show ?thesis by (cases q) (auto simp: exp_tok_def num_char_def)
next
  case (Cons c y)
  assume a: "exp_tok x = Some (d, r)" "stops q"
  show ?thesis
  proof (cases "c = CHR ''e'' \<or> c = CHR ''E''")
    case True
    with a Cons have "y \<noteq> []" by (auto simp: exp_tok_def sign_tok_def digits_tok_def)
    obtain sg z where sg: "sign_tok (\<lambda>x. x = CHR ''+'' \<or> x = CHR ''-'') y = (sg, z)"
      by (cases "sign_tok (\<lambda>x. x = CHR ''+'' \<or> x = CHR ''-'') y")
    obtain d' r' where d: "digits_tok z = (d', r')" by (cases "digits_tok z")
    show ?thesis
      using True a Cons sg d digits_tok_append [OF d a(2)] \<open>y \<noteq> []\<close>
      by (auto simp: exp_tok_def sign_tok_append split: if_splits)
  next
    case False
    with a Cons show ?thesis by (auto simp: exp_tok_def)
  qed
qed

lemma int_tok_append: "int_tok x = Some (d, r) \<Longrightarrow> stops q \<Longrightarrow> int_tok (x @ q) = Some (d, r @ q)"
  by (cases x) (auto simp: int_tok_def split: if_splits dest: digits_tok_append [of "_ # _", simplified])

lemma num_tok_append:
  assumes "num_tok x = Some (t, r)" and "stops q"
  shows "num_tok (x @ q) = Some (t, r @ q)"
proof -
  have "x \<noteq> []" using assms(1) by (auto simp: num_tok_def sign_tok_def int_tok_def)
  obtain sg z where sg: "sign_tok (\<lambda>x. x = CHR ''-'') x = (sg, z)"
    by (cases "sign_tok (\<lambda>x. x = CHR ''-'') x")
  obtain i r1 f r2 e where
    p: "int_tok z = Some (i, r1)" "frac_tok r1 = Some (f, r2)" "exp_tok r2 = Some (e, r)"
    and t: "t = sg @ i @ f @ e"
    using assms(1) sg by (auto simp: num_tok_def split: option.splits)
  show ?thesis
    using sg t int_tok_append [OF p(1) assms(2)] frac_tok_append [OF p(2) assms(2)]
      exp_tok_append [OF p(3) assms(2)] \<open>x \<noteq> []\<close>
    by (simp add: num_tok_def sign_tok_append)
qed

lemma str_tok_append: "str_tok s = Some (t, r) \<Longrightarrow> str_tok (t @ quote_c # q) = Some (t, q)"
proof (induction s arbitrary: t r rule: measure_induct_rule [of length])
  case (less s)
  show ?case
  proof (cases s)
    case Nil
    with less.prems show ?thesis by simp
  next
    case (Cons c s')
    with less.prems show ?thesis
      by (auto split: if_splits list.splits dest: less.IH [rotated])
  qed
qed

lemma str_ok_tok: "str_ok t \<Longrightarrow> str_tok (t @ quote_c # q) = Some (t, q)"
  unfolding str_ok_def by (rule str_tok_append)

lemma expect_Cons [json]: "\<not> json_ws d \<Longrightarrow> expect c (d # r) = (if d = c then Some r else None)"
  by (simp add: expect_def skip_ws_def)

text \<open>A printed value starts with a byte that is neither white space nor a closing bracket.\<close>

definition starts_value :: "string \<Rightarrow> bool" where
  "starts_value s \<longleftrightarrow> (case s of [] \<Rightarrow> False | c # _ \<Rightarrow> \<not> json_ws c \<and> c \<noteq> CHR '']'' \<and> c \<noteq> CHR ''}'')"

lemma num_ok_first: "num_ok t \<Longrightarrow> \<exists>c r. t = c # r \<and> (c = CHR ''-'' \<or> is_digit c)"
  by (cases t) (auto simp: num_ok_def num_tok_def sign_tok_def int_tok_def is_digit_def
      split: if_splits option.splits)

lemma num_first_char:
  "c = CHR ''-'' \<or> is_digit c \<Longrightarrow>
     \<not> json_ws c \<and> c \<noteq> CHR '']'' \<and> c \<noteq> CHR ''}'' \<and> c \<noteq> CHR ''['' \<and> c \<noteq> CHR ''{'' \<and> c \<noteq> quote_c
     \<and> c \<noteq> CHR ''t'' \<and> c \<noteq> CHR ''f'' \<and> c \<noteq> CHR ''n''"
  by (auto simp: is_digit_def json_ws_def quote_c_def less_eq_char_def)

lemma quote_not_ws [simp]: "\<not> json_ws quote_c"
  by (simp add: json_ws_def quote_c_def)

lemma punct_not_ws [simp]:
  "\<not> json_ws (CHR ''['')" "\<not> json_ws (CHR '']'')" "\<not> json_ws (CHR ''{'')" "\<not> json_ws (CHR ''}'')"
  "\<not> json_ws (CHR '','')" "\<not> json_ws (CHR '':'')" "\<not> json_ws (CHR ''t'')" "\<not> json_ws (CHR ''f'')"
  "\<not> json_ws (CHR ''n'')"
  by (simp_all add: json_ws_def)

lemma punct_stops [simp]:
  "\<not> num_char (CHR '']'')" "\<not> num_char (CHR ''}'')" "\<not> num_char (CHR '','')"
  by (simp_all add: num_char_def is_digit_def less_eq_char_def)

lemma quote_neq [simp]:
  "quote_c \<noteq> CHR ''[''" "quote_c \<noteq> CHR ''{''" "quote_c \<noteq> CHR '']''" "quote_c \<noteq> CHR ''}''"
  "CHR ''['' \<noteq> quote_c" "CHR ''{'' \<noteq> quote_c" "CHR ''t'' \<noteq> quote_c" "CHR ''f'' \<noteq> quote_c" "CHR ''n'' \<noteq> quote_c"
  by (simp_all add: quote_c_def)

lemma print_starts: "json_ok j \<Longrightarrow> starts_value (print_json j @ r)"
  by (cases j) (auto simp: starts_value_def dest!: num_ok_first num_first_char)

lemma parse_num:
  assumes "num_ok t" and "stops r"
  shows "parse_val (Suc n) (t @ r) = Some (JNum t, r)"
proof -
  obtain c t' where t: "t = c # t'" and c: "c = CHR ''-'' \<or> is_digit c"
    using num_ok_first [OF assms(1)] by blast
  have "num_tok (t @ r) = Some (t, r)"
    using num_tok_append [of t t "[]" r] assms by (simp add: num_ok_def)
  with t num_first_char [OF c] show ?thesis
    by (auto simp: expect_Cons parse_literal_def skip_ws_def)
qed

lemma parse_elems_print:
  assumes "\<And>j n r. j \<in> set js \<Longrightarrow> stops r \<Longrightarrow> length (print_json j @ r) \<le> n \<Longrightarrow>
      parse_val n (print_json j @ r) = Some (j, r)"
    and "js \<noteq> []" and "length (join_with CHR '','' (map print_json js) @ CHR '']'' # r) \<le> n"
  shows "parse_elems n (join_with CHR '','' (map print_json js) @ CHR '']'' # r) = Some (js, r)"
  using assms
proof (induction js arbitrary: n)
  case (Cons j js)
  show ?case
  proof (cases js)
    case Nil
    with Cons.prems show ?thesis by (simp add: parse_elems.simps [of n] expect_Cons)
  next
    case (Cons k ks)
    let ?tl = "join_with CHR '','' (map print_json js) @ CHR '']'' # r"
    have s: "join_with CHR '','' (map print_json (j # js)) @ CHR '']'' # r = print_json j @ CHR '','' # ?tl"
      using Cons by simp
    have "parse_val n (print_json j @ CHR '','' # ?tl) = Some (j, CHR '','' # ?tl)"
      using Cons.prems(1,3) s by (intro Cons.prems(1)) simp_all
    moreover have "parse_elems (n - 1) ?tl = Some (js, r)"
      using Cons.prems s Cons by (intro Cons.IH) auto
    moreover have "n \<noteq> 0" using Cons.prems(3) by auto
    ultimately show ?thesis unfolding s by (simp add: parse_elems.simps [of n] expect_Cons)
  qed
qed simp

abbreviation print_member :: "string \<times> json \<Rightarrow> string" where
  "print_member \<equiv> \<lambda>(k, j). (quote_c # k @ [quote_c]) @ CHR '':'' # print_json j"

lemma member_key_print: "str_ok k \<Longrightarrow> member_key (print_member (k, j) @ r) = Some (k, print_json j @ r)"
  by (simp add: member_key_def expect_Cons str_ok_tok)

lemma parse_members_print:
  assumes "\<And>k j n r. (k, j) \<in> set ms \<Longrightarrow> stops r \<Longrightarrow> length (print_json j @ r) \<le> n \<Longrightarrow>
      parse_val n (print_json j @ r) = Some (j, r)"
    and "\<forall>(k, j) \<in> set ms. str_ok k"
    and "ms \<noteq> []" and "length (join_with CHR '','' (map print_member ms) @ CHR ''}'' # r) \<le> n"
  shows "parse_members n (join_with CHR '','' (map print_member ms) @ CHR ''}'' # r) = Some (ms, r)"
  using assms
proof (induction ms arbitrary: n)
  case (Cons m ms)
  obtain k j where m: "m = (k, j)" by (cases m)
  have k: "str_ok k" using Cons.prems(2) m by simp
  show ?case
  proof (cases ms)
    case Nil
    with Cons.prems(1) [of k j "CHR ''}'' # r" n] Cons.prems(4) m show ?thesis
      using member_key_print [OF k, of j "CHR ''}'' # r"]
      by (simp add: parse_members.simps [of n] expect_Cons)
  next
    case (Cons m' ms')
    let ?tl = "join_with CHR '','' (map print_member ms) @ CHR ''}'' # r"
    have s: "join_with CHR '','' (map print_member (m # ms)) @ CHR ''}'' # r
        = print_member (k, j) @ CHR '','' # ?tl"
      using Cons m by simp
    have "parse_val n (print_json j @ CHR '','' # ?tl) = Some (j, CHR '','' # ?tl)"
      using Cons.prems(4) m unfolding s by (intro Cons.prems(1) [of k]) simp_all
    moreover have "parse_members (n - 1) ?tl = Some (ms, r)"
      using Cons.prems(1,2,4) Cons unfolding s by (intro Cons.IH) auto
    moreover have "n \<noteq> 0" using Cons.prems(4) by auto
    ultimately show ?thesis
      using member_key_print [OF k, of j "CHR '','' # ?tl"] m
      unfolding s by (simp add: parse_members.simps [of n] expect_Cons)
  qed
qed simp

lemma starts_value_expect: "starts_value s \<Longrightarrow> expect CHR '']'' s = None \<and> expect CHR ''}'' s = None"
  by (cases s) (auto simp: starts_value_def expect_Cons)

lemma elems_start:
  "js \<noteq> [] \<Longrightarrow> list_all json_ok js \<Longrightarrow> starts_value (join_with CHR '','' (map print_json js) @ r)"
  by (cases js; cases "tl js") (auto simp: print_starts)

lemma members_start:
  "ms \<noteq> [] \<Longrightarrow> starts_value (join_with CHR '','' (map print_member ms) @ r)"
  by (cases ms; cases "tl ms") (auto simp: starts_value_def)

theorem parse_print_val:
  "json_ok j \<Longrightarrow> stops r \<Longrightarrow> length (print_json j @ r) \<le> n \<Longrightarrow> parse_val n (print_json j @ r) = Some (j, r)"
proof (induction j arbitrary: n r)
  case JNull
  then obtain m where "n = Suc m" by (cases n) auto
  then show ?case by (simp add: expect_Cons parse_literal_def skip_ws_def)
next
  case (JBool b)
  then obtain m where "n = Suc m" by (cases n) (auto split: if_splits)
  then show ?case by (cases b) (simp_all add: expect_Cons parse_literal_def skip_ws_def)
next
  case (JNum t)
  then obtain m where "n = Suc m" by (cases n) (auto dest: num_ok_first)
  with JNum show ?case by (simp add: parse_num del: parse_val.simps)
next
  case (JStr t)
  then obtain m where "n = Suc m" by (cases n) auto
  with JStr show ?case by (simp add: expect_Cons str_ok_tok)
next
  case (JArr js)
  obtain m where n: "n = Suc m" using JArr.prems(3) by (cases n) auto
  let ?s = "join_with CHR '','' (map print_json js) @ CHR '']'' # r"
  show ?case
  proof (cases "js = []")
    case True
    then show ?thesis using n by (simp add: expect_Cons)
  next
    case False
    have "parse_elems m ?s = Some (js, r)"
      using JArr False n by (intro parse_elems_print) (auto simp: list_all_iff)
    moreover have "starts_value ?s"
      using False JArr.prems(1) by (intro elems_start) simp_all
    ultimately show ?thesis using n by (simp add: expect_Cons starts_value_expect)
  qed
next
  case (JObj ms)
  obtain m where n: "n = Suc m" using JObj.prems(3) by (cases n) auto
  let ?s = "join_with CHR '','' (map print_member ms) @ CHR ''}'' # r"
  show ?case
  proof (cases "ms = []")
    case True
    then show ?thesis using n by (simp add: expect_Cons)
  next
    case False
    have "parse_members m ?s = Some (ms, r)"
    proof (rule parse_members_print)
      fix k j n r
      assume "(k, j) \<in> set ms" "stops r" "length (print_json j @ r) \<le> n"
      with JObj show "parse_val n (print_json j @ r) = Some (j, r)"
        by (fastforce simp: list_all_iff)
    qed (use JObj.prems False n in \<open>auto simp: list_all_iff\<close>)
    moreover have "starts_value ?s" using False by (rule members_start)
    ultimately show ?thesis using n by (simp add: expect_Cons starts_value_expect)
  qed
qed

lemma json_parse_print: "json_ok j \<Longrightarrow> json_parse (print_json j) = Some j"
  using parse_print_val [of j "[]" "length (print_json j)"]
  by (simp add: json_parse_def skip_ws_def)

section \<open>The parser yields well-formed trees\<close>

lemma str_tok_ok: "str_tok s = Some (t, r) \<Longrightarrow> str_ok t"
  unfolding str_ok_def by (rule str_tok_append)

definition no_digit :: "string \<Rightarrow> bool" where
  "no_digit q \<longleftrightarrow> (case q of [] \<Rightarrow> True | c # _ \<Rightarrow> \<not> is_digit c)"

lemma digits_tok_self: "digits_tok s = (d, r) \<Longrightarrow> no_digit q \<Longrightarrow> digits_tok (d @ q) = (d, q)"
proof -
  assume "digits_tok s = (d, r)" "no_digit q"
  then have "\<forall>c \<in> set d. is_digit c" by (auto simp: digits_tok_def dest: set_takeWhileD)
  with \<open>no_digit q\<close> show ?thesis
    by (cases q) (auto simp: digits_tok_def no_digit_def takeWhile_append2 dropWhile_append2)
qed

lemma int_tok_self: "int_tok s = Some (i, r) \<Longrightarrow> no_digit q \<Longrightarrow> int_tok (i @ q) = Some (i, q)"
proof (cases s)
  case (Cons c s')
  assume a: "int_tok s = Some (i, r)" "no_digit q"
  show ?thesis
  proof (cases "c = CHR ''0''")
    case False
    with a Cons have d: "digits_tok s = (i, r)" "is_digit c" by (auto simp: int_tok_def split: if_splits)
    then have "i = c # takeWhile is_digit s'" using Cons by (auto simp: digits_tok_def)
    with digits_tok_self [OF d(1) a(2)] d(2) False show ?thesis by (simp add: int_tok_def)
  next
    case True
    with a Cons show ?thesis by (auto simp: int_tok_def)
  qed
qed (simp add: int_tok_def)

lemma frac_tok_self:
  assumes "frac_tok s = Some (f, r)" and "no_digit q" and "\<And>q'. q \<noteq> CHR ''.'' # q'"
  shows "frac_tok (f @ q) = Some (f, q) \<and> no_digit (f @ q)"
proof -
  consider "f = []" | d r' where "f = CHR ''.'' # d" "d \<noteq> []" "digits_tok r' = (d, r)"
    using assms(1) by (auto simp: frac_tok_def split: list.splits if_splits prod.splits)
  then show ?thesis
  proof cases
    case 1
    with assms(2,3) show ?thesis by (auto simp: frac_tok_def split: list.splits)
  next
    case 2
    with digits_tok_self [OF 2(3) assms(2)] show ?thesis
      by (simp add: frac_tok_def no_digit_def is_digit_def less_eq_char_def)
  qed
qed

lemma exp_tok_self:
  assumes "exp_tok s = Some (e, r)"
  shows "exp_tok e = Some (e, []) \<and> no_digit e \<and> (\<forall>q'. e \<noteq> CHR ''.'' # q')"
proof (cases "e = []")
  case True
  then show ?thesis by (simp add: exp_tok_def no_digit_def)
next
  case False
  let ?p = "\<lambda>x. x = CHR ''+'' \<or> x = CHR ''-''"
  obtain c s' sg z d where e: "e = c # sg @ d" "c = CHR ''e'' \<or> c = CHR ''E''"
    and sg: "sign_tok ?p s' = (sg, z)" and d: "digits_tok z = (d, r)" "d \<noteq> []"
    using assms False by (auto simp: exp_tok_def split: list.splits if_splits prod.splits)
  have dd: "digits_tok d = (d, [])" using digits_tok_self [OF d(1), of "[]"] by (simp add: no_digit_def)
  then have dig: "\<forall>x \<in> set d. is_digit x"
    unfolding digits_tok_def by (metis Pair_inject set_takeWhileD)
  have "sg = [] \<or> (\<exists>x. sg = [x] \<and> ?p x)"
    using sg by (auto simp: sign_tok_def split: list.splits if_splits)
  then have "sign_tok ?p (sg @ d) = (sg, d)"
    using d(2) dig by (cases d) (auto simp: sign_tok_def is_digit_def less_eq_char_def)
  then show ?thesis
    using e d(2) dd by (auto simp: exp_tok_def no_digit_def is_digit_def less_eq_char_def)
qed

lemma num_tok_ok:
  assumes "num_tok s = Some (t, r)"
  shows "num_ok t"
proof -
  let ?p = "\<lambda>x. x = CHR ''-''"
  obtain sg z i r1 f r2 e where sg: "sign_tok ?p s = (sg, z)"
    and p: "int_tok z = Some (i, r1)" "frac_tok r1 = Some (f, r2)" "exp_tok r2 = Some (e, r)"
    and t: "t = sg @ i @ f @ e"
    using assms by (auto simp: num_tok_def split: option.splits prod.splits)
  note e = exp_tok_self [OF p(3)]
  have f: "frac_tok (f @ e) = Some (f, e) \<and> no_digit (f @ e)"
    using e by (intro frac_tok_self [OF p(2)]) auto
  have i: "int_tok (i @ f @ e) = Some (i, f @ e)" using f by (intro int_tok_self [OF p(1)]) simp
  have "i \<noteq> [] \<and> is_digit (hd i)"
    using p(1) by (auto simp: int_tok_def digits_tok_def is_digit_def split: list.splits if_splits)
  then have "sign_tok ?p t = (sg, i @ f @ e)"
    using sg t by (cases i) (auto simp: sign_tok_def is_digit_def less_eq_char_def split: list.splits if_splits)
  then show ?thesis using t e f i by (simp add: num_ok_def num_tok_def)
qed

lemma parse_literal_ok: "parse_literal s = Some (j, r) \<Longrightarrow> json_ok j"
  by (auto simp: parse_literal_def split: if_splits dest: num_tok_ok)

lemma member_key_ok: "member_key s = Some (k, r) \<Longrightarrow> str_ok k"
  by (auto simp: member_key_def split: option.splits dest: str_tok_ok)

lemma parse_ok:
  "parse_val n s = Some (j, r) \<Longrightarrow> json_ok j"
  "parse_elems n s = Some (js, r) \<Longrightarrow> list_all json_ok js"
  "parse_members n s = Some (ms, r) \<Longrightarrow> list_all (\<lambda>(k, j). str_ok k \<and> json_ok j) ms"
proof (induction n s and n s and n s arbitrary: j r and js r and ms r
    rule: parse_val_parse_elems_parse_members.induct)
  case (2 n s)
  have "list_all json_ok js" if "expect CHR ''['' s = Some q" "expect CHR '']'' q = None"
    "parse_elems n q = Some (js, r)" for q js using "2.IH" that by blast
  moreover have "list_all (\<lambda>(k, j). str_ok k \<and> json_ok j) ms" if "expect CHR ''['' s = None"
    "expect CHR ''{'' s = Some q" "expect CHR ''}'' q = None" "parse_members n q = Some (ms, r)" for q ms
    using "2.IH" that by blast
  ultimately show ?case
    using "2.prems" by (auto split: option.splits dest: parse_literal_ok str_tok_ok)
next
  case (3 n s)
  then show ?case
    by (fastforce simp: parse_elems.simps [of n s] split: option.splits if_splits)
next
  case (4 n s)
  then show ?case
    by (fastforce simp: parse_members.simps [of n s] split: option.splits if_splits dest: member_key_ok)
qed simp

lemma json_parse_ok: "json_parse s = Some j \<Longrightarrow> json_ok j"
  by (auto simp: json_parse_def split: option.splits if_splits dest: parse_ok(1))

end
