(* ===== verification/Json_Codec.thy ===== *)
theory Json_Codec
  imports Json
begin

text \<open>
  The value level of \<open>encoding/json\<close>: strings between their Go value and their source text, decoding
  into structs field by field, and \<open>map[string]json.RawMessage\<close>.
\<close>

section \<open>String values\<close>

definition hex_val :: "char \<Rightarrow> nat" where
  "hex_val c =
     (if is_digit c then of_char c - 48
      else if CHR ''a'' \<le> c then of_char c - 87 else of_char c - 55)"

definition hex_digit :: "nat \<Rightarrow> char" where
  "hex_digit d = (if d < 10 then char_of (48 + d) else char_of (87 + d))"

definition hex4 :: "char \<Rightarrow> char \<Rightarrow> char \<Rightarrow> char \<Rightarrow> nat" where
  "hex4 a b c d = ((hex_val a * 16 + hex_val b) * 16 + hex_val c) * 16 + hex_val d"

definition utf8_encode :: "nat \<Rightarrow> string" where
  "utf8_encode n =
     (if n < 0x80 then [char_of n]
      else if n < 0x800 then [char_of (0xC0 + n div 64), char_of (0x80 + n mod 64)]
      else if n < 0x10000 then
        [char_of (0xE0 + n div 4096), char_of (0x80 + n div 64 mod 64), char_of (0x80 + n mod 64)]
      else [char_of (0xF0 + n div 262144), char_of (0x80 + n div 4096 mod 64),
            char_of (0x80 + n div 64 mod 64), char_of (0x80 + n mod 64)])"

definition unescape_char :: "char \<Rightarrow> char" where
  "unescape_char c =
     (if c = CHR ''b'' then CHR 0x08 else if c = CHR ''f'' then CHR 0x0C
      else if c = CHR ''n'' then CHR 0x0A else if c = CHR ''r'' then CHR 0x0D
      else if c = CHR ''t'' then CHR 0x09 else c)"

text \<open>A \<open>\uXXXX\<close> escape at the head of the text.\<close>

definition u_escape :: "string \<Rightarrow> nat option" where
  "u_escape s =
     (case s of
        b # u # h1 # h2 # h3 # h4 # _ \<Rightarrow>
          if b = bslash_c \<and> u = CHR ''u'' then Some (hex4 h1 h2 h3 h4) else None
      | _ \<Rightarrow> None)"

text \<open>
  The value of string text. A high surrogate followed by a low one is one code point; a
  surrogate on its own is the replacement character.
\<close>

function unquote :: "string \<Rightarrow> string" where
  "unquote s =
     (case s of
        [] \<Rightarrow> []
      | c # r \<Rightarrow>
          if c \<noteq> bslash_c then c # unquote r
          else (case u_escape s of
                  None \<Rightarrow> (case r of [] \<Rightarrow> [] | e # r' \<Rightarrow> unescape_char e # unquote r')
                | Some u \<Rightarrow>
                    if 0xD800 \<le> u \<and> u < 0xE000 then
                      (case u_escape (drop 6 s) of
                         Some v \<Rightarrow>
                           if u < 0xDC00 \<and> 0xDC00 \<le> v \<and> v < 0xE000
                           then utf8_encode ((u - 0xD800) * 1024 + (v - 0xDC00) + 0x10000) @ unquote (drop 12 s)
                           else utf8_encode 0xFFFD @ unquote (drop 6 s)
                       | None \<Rightarrow> utf8_encode 0xFFFD @ unquote (drop 6 s))
                    else utf8_encode u @ unquote (drop 6 s)))"
  by pat_completeness auto
termination
  by (relation "measure length") (auto simp: u_escape_def split: list.splits)

declare unquote.simps [simp del]

definition quote_char :: "char \<Rightarrow> string" where
  "quote_char c =
     (if c = quote_c \<or> c = bslash_c then [bslash_c, c]
      else if c = CHR 0x08 then bslash_c # ''b'' else if c = CHR 0x0C then bslash_c # ''f''
      else if c = CHR 0x0A then bslash_c # ''n'' else if c = CHR 0x0D then bslash_c # ''r''
      else if c = CHR 0x09 then bslash_c # ''t''
      else if c < CHR 0x20 \<or> c = CHR ''<'' \<or> c = CHR ''>'' \<or> c = CHR ''&''
      then bslash_c # ''u00'' @ [hex_digit (of_char c div 16), hex_digit (of_char c mod 16)]
      else [c])"

definition quote_str :: "string \<Rightarrow> string" where
  "quote_str s = concat (map quote_char s)"

lemma bslash_quote_neq [simp]: "bslash_c \<noteq> quote_c" "quote_c \<noteq> bslash_c"
  by (simp_all add: bslash_c_def quote_c_def)

lemma unquote_Nil [simp]: "unquote [] = []"
  by (simp add: unquote.simps)

lemma unquote_plain: "c \<noteq> bslash_c \<Longrightarrow> unquote (c # r) = c # unquote r"
  by (simp add: unquote.simps [of "c # r"])

lemma unquote_simple: "e \<noteq> CHR ''u'' \<Longrightarrow> unquote (bslash_c # e # r) = unescape_char e # unquote r"
  by (simp add: unquote.simps [of "bslash_c # e # r"] u_escape_def split: list.split)

lemma unquote_u_small:
  assumes "hex4 a b c d < 0xD800"
  shows "unquote (bslash_c # CHR ''u'' # a # b # c # d # r) = utf8_encode (hex4 a b c d) @ unquote r"
  using assms by (simp add: unquote.simps [of "bslash_c # _"] u_escape_def)

lemma hex_val_digit: "d < 16 \<Longrightarrow> hex_val (hex_digit d) = d"
  by (auto simp: hex_val_def hex_digit_def is_digit_def less_eq_char_def of_char_of)

lemma is_hex_digit: "d < 16 \<Longrightarrow> is_hex (hex_digit d)"
  by (auto simp: is_hex_def hex_digit_def is_digit_def less_eq_char_def of_char_of)

lemma is_hex_0 [simp]: "is_hex (CHR ''0'')" "hex_val (CHR ''0'') = 0"
  by (simp_all add: is_hex_def hex_val_def is_digit_def less_eq_char_def)

lemma quote_u_value:
  fixes c :: char
  assumes "(of_char c :: nat) < 128"
  shows "hex4 (CHR ''0'') (CHR ''0'') (hex_digit (of_char c div 16)) (hex_digit (of_char c mod 16)) = of_char c"
  using assms by (simp add: hex4_def hex_val_digit)

lemma utf8_encode_ascii: "(of_char c :: nat) < 128 \<Longrightarrow> utf8_encode (of_char c) = [c]"
  by (simp add: utf8_encode_def)

definition short_escape :: "char \<Rightarrow> char option" where
  "short_escape c = map_of [(quote_c, quote_c), (bslash_c, bslash_c), (CHR 0x08, CHR ''b''),
     (CHR 0x0C, CHR ''f''), (CHR 0x0A, CHR ''n''), (CHR 0x0D, CHR ''r''), (CHR 0x09, CHR ''t'')] c"

definition u_escaped :: "char \<Rightarrow> bool" where
  "u_escaped c \<longleftrightarrow> c < CHR 0x20 \<or> c = CHR ''<'' \<or> c = CHR ''>'' \<or> c = CHR ''&''"

definition u_text :: "char \<Rightarrow> string" where
  "u_text c = bslash_c # ''u00'' @ [hex_digit (of_char c div 16), hex_digit (of_char c mod 16)]"

lemma quote_char_eq:
  "quote_char c = (case short_escape c of Some e \<Rightarrow> [bslash_c, e] | None \<Rightarrow> if u_escaped c then u_text c else [c])"
  by (simp add: quote_char_def short_escape_def u_escaped_def u_text_def)

lemma short_escapeD:
  "short_escape c = Some e \<Longrightarrow> simple_escape e \<and> unescape_char e = c \<and> e \<noteq> CHR ''u''"
  by (auto simp: short_escape_def simple_escape_def unescape_char_def quote_c_def bslash_c_def split: if_splits)

lemma short_escape_None: "short_escape c = None \<Longrightarrow> c \<noteq> quote_c \<and> c \<noteq> bslash_c"
  by (auto simp: short_escape_def)

lemma u_escaped_ascii: "u_escaped c \<Longrightarrow> (of_char c :: nat) < 128"
  by (auto simp: u_escaped_def less_char_def)

lemma unquote_u_text: "(of_char c :: nat) < 128 \<Longrightarrow> unquote (u_text c @ r) = c # unquote r"
  using unquote_u_small [of "CHR ''0''" "CHR ''0''" "hex_digit (of_char c div 16)" "hex_digit (of_char c mod 16)" r]
  by (simp add: u_text_def quote_u_value utf8_encode_ascii)

lemma not_simple_u [simp]: "\<not> simple_escape (CHR ''u'')"
  by (simp add: simple_escape_def quote_c_def bslash_c_def)

lemma str_tok_u_escape:
  assumes "is_hex a" "is_hex b" "is_hex c" "is_hex d"
  shows "str_tok (bslash_c # CHR ''u'' # a # b # c # d # r)
    = map_option (\<lambda>(t, q). (bslash_c # CHR ''u'' # a # b # c # d # t, q)) (str_tok r)"
  by (subst str_tok.simps(2)) (simp add: assms)

lemma str_tok_u_text:
  fixes c :: char
  assumes "(of_char c :: nat) < 128"
  shows "str_tok (u_text c @ r) = map_option (\<lambda>(t, q). (u_text c @ t, q)) (str_tok r)"
proof -
  have "(of_char c :: nat) div 16 < 16" using assms by simp
  then have "is_hex (hex_digit (of_char c div 16))" and "is_hex (hex_digit (of_char c mod 16))"
    by (simp_all add: is_hex_digit)
  from str_tok_u_escape [OF is_hex_0(1) is_hex_0(1) this] show ?thesis
    unfolding u_text_def append_Cons append_Nil .
qed

lemma unquote_quote_char: "unquote (quote_char c @ r) = c # unquote r"
  by (auto simp: quote_char_eq unquote_simple unquote_u_text u_escaped_ascii unquote_plain
      split: option.split dest: short_escapeD short_escape_None)

lemma unquote_quote [simp]: "unquote (quote_str s) = s"
  by (induction s) (simp_all add: quote_str_def unquote_quote_char)

lemma str_tok_quote_char:
  "str_tok (quote_char c @ r) = map_option (\<lambda>(t, q). (quote_char c @ t, q)) (str_tok r)"
proof (cases "short_escape c")
  case (Some e)
  from short_escapeD [OF this] show ?thesis by (simp add: quote_char_eq Some)
next
  case None
  note c = short_escape_None [OF this]
  show ?thesis
  proof (cases "u_escaped c")
    case True
    from str_tok_u_text [OF u_escaped_ascii [OF True]] show ?thesis
      by (simp only: quote_char_eq None option.case True if_True)
  next
    case False
    then have "\<not> c < CHR 0x20" by (simp add: u_escaped_def)
    with c False None show ?thesis by (simp add: quote_char_eq)
  qed
qed

lemma str_ok_quote [simp]: "str_ok (quote_str s)"
proof -
  have "str_tok (quote_str s @ [quote_c]) = Some (quote_str s, [])"
    by (induction s) (simp_all add: quote_str_def str_tok_quote_char)
  then show ?thesis by (simp add: str_ok_def)
qed

section \<open>HTML escaping keeps the value\<close>

lemma html_escape_char_eq:
  "html_escape_char c = (if c = CHR ''<'' \<or> c = CHR ''>'' \<or> c = CHR ''&'' then u_text c else [c])"
proof (cases "c = CHR ''<'' \<or> c = CHR ''>'' \<or> c = CHR ''&''")
  case True
  then show ?thesis by (elim disjE) (simp_all only:, code_simp+)
next
  case False
  then show ?thesis by (simp add: html_escape_char_def)
qed

lemma html_escape_Cons: "html_escape (c # t) = html_escape_char c @ html_escape t"
  by (simp add: html_escape_def)

lemma html_escape_Nil [simp]: "html_escape [] = []"
  by (simp add: html_escape_def)

lemma html_plain: "c \<noteq> CHR ''<'' \<Longrightarrow> c \<noteq> CHR ''>'' \<Longrightarrow> c \<noteq> CHR ''&'' \<Longrightarrow> html_escape (c # t) = c # html_escape t"
  by (simp add: html_escape_Cons html_escape_char_eq)

lemma hex_plain: "is_hex c \<Longrightarrow> html_escape (c # t) = c # html_escape t"
  by (rule html_plain) (auto simp: is_hex_def is_digit_def less_eq_char_def)

lemma escape_plain: "simple_escape c \<or> c = bslash_c \<or> c = CHR ''u'' \<Longrightarrow> html_escape (c # t) = c # html_escape t"
  by (rule html_plain) (auto simp: simple_escape_def quote_c_def bslash_c_def)

text \<open>The shapes of well-formed string text.\<close>

inductive str_text :: "string \<Rightarrow> bool" where
  empty: "str_text []"
| plain: "c \<noteq> quote_c \<Longrightarrow> c \<noteq> bslash_c \<Longrightarrow> \<not> c < CHR 0x20 \<Longrightarrow> str_text t \<Longrightarrow> str_text (c # t)"
| simple: "simple_escape e \<Longrightarrow> str_text t \<Longrightarrow> str_text (bslash_c # e # t)"
| uni: "is_hex a \<Longrightarrow> is_hex b \<Longrightarrow> is_hex c \<Longrightarrow> is_hex d \<Longrightarrow> str_text t \<Longrightarrow>
    str_text (bslash_c # CHR ''u'' # a # b # c # d # t)"

lemma str_tok_text: "str_tok s = Some (t, r) \<Longrightarrow> str_text t"
proof (induction s arbitrary: t r rule: measure_induct_rule [of length])
  case (less s)
  show ?case
  proof (cases s)
    case Nil
    with less.prems show ?thesis by simp
  next
    case (Cons c s')
    with less.prems show ?thesis
      by (auto split: if_splits list.splits intro: str_text.intros dest: less.IH [rotated])
  qed
qed

lemma str_text_ok: "str_text t \<Longrightarrow> str_ok t"
proof -
  assume "str_text t"
  then have "str_tok (t @ [quote_c]) = Some (t, [])"
  proof induction
    case (uni a b c d t)
    with str_tok_u_escape [OF uni(1-4), of "t @ [quote_c]"] show ?case by simp
  qed auto
  then show ?thesis by (simp add: str_ok_def)
qed

lemma str_ok_iff_text: "str_ok t \<longleftrightarrow> str_text t"
  using str_text_ok str_tok_text by (auto simp: str_ok_def)

lemma u_text_shape:
  "(of_char c :: nat) < 128 \<Longrightarrow> \<exists>a b. u_text c = bslash_c # CHR ''u'' # CHR ''0'' # CHR ''0'' # [a, b] \<and> is_hex a \<and> is_hex b"
  by (simp add: u_text_def is_hex_digit)

lemma str_text_html: "str_text t \<Longrightarrow> str_text (html_escape t)"
proof (induction rule: str_text.induct)
  case (plain c t)
  show ?case
  proof (cases "c = CHR ''<'' \<or> c = CHR ''>'' \<or> c = CHR ''&''")
    case True
    then have "(of_char c :: nat) < 128" by auto
    from u_text_shape [OF this] obtain a b where
      "u_text c = bslash_c # CHR ''u'' # CHR ''0'' # CHR ''0'' # [a, b]" "is_hex a" "is_hex b" by blast
    with True plain show ?thesis by (simp add: html_escape_Cons html_escape_char_eq str_text.uni)
  next
    case False
    with plain show ?thesis by (simp add: html_plain str_text.plain)
  qed
qed (simp_all add: escape_plain hex_plain str_text.intros)

text \<open>An escape never reads past the next one, so the escaped text denotes the same string.\<close>

lemma html_u: "is_hex a \<Longrightarrow> is_hex b \<Longrightarrow> is_hex c \<Longrightarrow> is_hex d \<Longrightarrow>
    html_escape (bslash_c # CHR ''u'' # a # b # c # d # t) = bslash_c # CHR ''u'' # a # b # c # d # html_escape t"
  by (simp add: escape_plain hex_plain)

lemma u_escape_shape: "u_escape s = Some v \<Longrightarrow>
    \<exists>a b c d t. s = bslash_c # CHR ''u'' # a # b # c # d # t \<and> v = hex4 a b c d"
  by (auto simp: u_escape_def split: list.splits if_splits)

lemma u_escape_u [simp]: "u_escape (bslash_c # CHR ''u'' # a # b # c # d # t) = Some (hex4 a b c d)"
  by (simp add: u_escape_def)

lemma str_text_uD:
  "str_text (bslash_c # CHR ''u'' # a # b # c # d # t) \<Longrightarrow> is_hex a \<and> is_hex b \<and> is_hex c \<and> is_hex d \<and> str_text t"
  by (auto elim: str_text.cases)

lemma u_escape_html:
  assumes "str_text s" and "u_escape s = None"
  shows "u_escape (html_escape s) = None \<or> (\<exists>v. u_escape (html_escape s) = Some v \<and> v < 128)"
  using assms(1)
proof cases
  case (plain c t)
  show ?thesis
  proof (cases "c = CHR ''<'' \<or> c = CHR ''>'' \<or> c = CHR ''&''")
    case True
    then have c: "(of_char c :: nat) < 128" by auto
    have "html_escape s = u_text c @ html_escape t"
      using True plain by (simp only: html_escape_Cons html_escape_char_eq if_True)
    then have "u_escape (html_escape s) = Some (of_char c)"
      using quote_u_value [OF c] by (simp add: u_text_def)
    with c show ?thesis by blast
  next
    case False
    with plain have "html_escape s = c # html_escape t" by (simp add: html_plain)
    with plain show ?thesis by (auto simp: u_escape_def split: list.split)
  qed
next
  case (simple e t)
  then have "e \<noteq> CHR ''u''" by auto
  moreover have "html_escape s = bslash_c # e # html_escape t" using simple by (simp add: escape_plain)
  ultimately show ?thesis by (simp add: u_escape_def split: list.split)
qed (use assms(2) in \<open>simp_all add: u_escape_def\<close>)

lemma unquote_html: "str_text s \<Longrightarrow> unquote (html_escape s) = unquote s"
proof (induction s rule: measure_induct_rule [of length])
  case (less s)
  from less.prems show ?case
  proof cases
    case (plain c t)
    then have IH: "unquote (html_escape t) = unquote t" by (intro less.IH) simp_all
    show ?thesis
    proof (cases "c = CHR ''<'' \<or> c = CHR ''>'' \<or> c = CHR ''&''")
      case True
      then have c: "(of_char c :: nat) < 128" by auto
      have "html_escape s = u_text c @ html_escape t"
        using True plain by (simp only: html_escape_Cons html_escape_char_eq if_True)
      then have "unquote (html_escape s) = c # unquote (html_escape t)" by (simp add: unquote_u_text [OF c])
      with IH plain show ?thesis by (simp add: unquote_plain)
    next
      case False
      with IH plain show ?thesis by (simp add: html_plain unquote_plain)
    qed
  next
    case (simple e t)
    then have "unquote (html_escape t) = unquote t" by (intro less.IH) simp_all
    moreover have "e \<noteq> CHR ''u''" using simple by auto
    ultimately show ?thesis using simple by (simp add: escape_plain unquote_simple)
  next
    case (uni a b c d t)
    have IH: "unquote (html_escape t) = unquote t" using uni by (intro less.IH) simp_all
    note h = uni(1) html_u [OF uni(2-5)]
    show ?thesis
    proof (cases "u_escape t")
      case None
      with u_escape_html [OF uni(6)] IH show ?thesis
        unfolding h by (auto simp: unquote.simps [of "bslash_c # _"])
    next
      case (Some v)
      obtain a' b' c' d' t' where t: "t = bslash_c # CHR ''u'' # a' # b' # c' # d' # t'" "v = hex4 a' b' c' d'"
        using u_escape_shape [OF Some] by blast
      have x: "is_hex a'" "is_hex b'" "is_hex c'" "is_hex d'" "str_text t'"
        using str_text_uD uni(6) t(1) by blast+
      then have "html_escape t = bslash_c # CHR ''u'' # a' # b' # c' # d' # html_escape t'"
        using t(1) by (simp only: html_u)
      moreover have "unquote (html_escape t') = unquote t'" using x t uni by (intro less.IH) simp_all
      ultimately show ?thesis using IH t
        unfolding h by (simp add: unquote.simps [of "bslash_c # CHR ''u'' # a # _"])
    qed
  qed simp
qed

text \<open>The value of a document, with its strings unescaped.\<close>

fun json_value :: "json \<Rightarrow> json" where
  "json_value (JStr t) = JStr (unquote t)"
| "json_value (JArr js) = JArr (map json_value js)"
| "json_value (JObj ms) = JObj (map (\<lambda>(k, j). (unquote k, json_value j)) ms)"
| "json_value j = j"

lemma json_ok_html: "json_ok j \<Longrightarrow> json_ok (html_escape_json j)"
  by (induction j) (auto simp: list_all_iff str_ok_iff_text str_text_html)

lemma json_value_html: "json_ok j \<Longrightarrow> json_value (html_escape_json j) = json_value j"
  by (induction j) (auto simp: list_all_iff str_ok_iff_text unquote_html)

text \<open>Quoted text has nothing left to escape.\<close>

lemma html_escape_id: "(\<forall>c \<in> set t. c \<noteq> CHR ''<'' \<and> c \<noteq> CHR ''>'' \<and> c \<noteq> CHR ''&'') \<Longrightarrow> html_escape t = t"
  by (induction t) (simp_all add: html_plain)

lemma hex_digit_plain: "d < 16 \<Longrightarrow> hex_digit d \<noteq> CHR ''<'' \<and> hex_digit d \<noteq> CHR ''>'' \<and> hex_digit d \<noteq> CHR ''&''"
  using is_hex_digit [of d] by (auto simp: is_hex_def is_digit_def less_eq_char_def)

lemma quote_char_plain: "x \<in> set (quote_char c) \<Longrightarrow> x \<noteq> CHR ''<'' \<and> x \<noteq> CHR ''>'' \<and> x \<noteq> CHR ''&''"
proof (cases "short_escape c")
  case (Some e)
  then have "simple_escape e" by (rule short_escapeD [THEN conjunct1])
  moreover assume "x \<in> set (quote_char c)"
  ultimately show ?thesis using Some by (auto simp: quote_char_eq simple_escape_def bslash_c_def quote_c_def)
next
  case None
  assume x: "x \<in> set (quote_char c)"
  show ?thesis
  proof (cases "u_escaped c")
    case True
    then have c: "(of_char c :: nat) < 128" by (rule u_escaped_ascii)
    have "x \<in> set (u_text c)" using x True by (simp only: quote_char_eq None option.case if_True)
    then have "x \<in> set (bslash_c # ''u00'') \<or> x = hex_digit (of_char c div 16) \<or> x = hex_digit (of_char c mod 16)"
      by (auto simp: u_text_def)
    moreover have "(of_char c :: nat) div 16 < 16" "(of_char c :: nat) mod 16 < 16" using c by simp_all
    ultimately show ?thesis
      using hex_digit_plain [of "of_char c div 16"] hex_digit_plain [of "of_char c mod 16"]
      by (auto simp: bslash_c_def)
  next
    case False
    with x None have "x = c" by (simp add: quote_char_eq)
    with False show ?thesis by (simp add: u_escaped_def)
  qed
qed

lemma html_escape_quote [simp]: "html_escape (quote_str s) = quote_str s"
  by (rule html_escape_id) (auto simp: quote_str_def dest: quote_char_plain)

section \<open>Decoding into structs\<close>

text \<open>
  A struct is a list of fields. A field has its JSON name and the decoder of its value, which
  updates the struct or fails with a type error. A member is decoded into the field whose name
  it has, or else into the first one whose name it matches ignoring case; other members are
  skipped. \<open>null\<close> leaves the value as it is.
\<close>

type_synonym 's json_field = "string \<times> (json \<Rightarrow> 's \<Rightarrow> 's option)"

definition find_field :: "'s json_field list \<Rightarrow> string \<Rightarrow> (json \<Rightarrow> 's \<Rightarrow> 's option) option" where
  "find_field fs k =
     (case map_of fs k of
        Some d \<Rightarrow> Some d
      | None \<Rightarrow> map_option snd (find (\<lambda>f. equal_fold k (fst f)) fs))"

definition decode_member :: "'s json_field list \<Rightarrow> string \<times> json \<Rightarrow> 's \<Rightarrow> 's option" where
  "decode_member fs m s =
     (case find_field fs (unquote (fst m)) of None \<Rightarrow> Some s | Some d \<Rightarrow> d (snd m) s)"

fun decode_members :: "'s json_field list \<Rightarrow> (string \<times> json) list \<Rightarrow> 's \<Rightarrow> 's option" where
  "decode_members fs [] s = Some s"
| "decode_members fs (m # ms) s =
     (case decode_member fs m s of None \<Rightarrow> None | Some s' \<Rightarrow> decode_members fs ms s')"

fun decode_struct :: "'s json_field list \<Rightarrow> json \<Rightarrow> 's \<Rightarrow> 's option" where
  "decode_struct fs JNull s = Some s"
| "decode_struct fs (JObj ms) s = decode_members fs ms s"
| "decode_struct fs _ s = None"

text \<open>What evaluates the decoding of a concrete document, with the field lists added.\<close>

lemmas decode_simps = decode_member_def find_field_def unquote_plain bslash_c_def

text \<open>Decoders of the field types the gateway uses.\<close>

text \<open>\<open>strconv.ParseInt(s, 10, 64)\<close> on a number literal: a fraction or an exponent is an error, and
  so is a value outside the type.\<close>

definition json_int :: "string \<Rightarrow> int64 option" where
  "json_int t =
     (let neg = prefix ''-'' t; d = (if neg then tl t else t); n = int (nat_of_dec d); v = (if neg then - n else n)
      in if d \<noteq> [] \<and> list_all is_digit d \<and> int64_range v then Some (word_of_int v) else None)"

fun decode_string :: "json \<Rightarrow> string \<Rightarrow> string option" where
  "decode_string (JStr t) s = Some (unquote t)"
| "decode_string JNull s = Some s"
| "decode_string _ s = None"

fun decode_int :: "json \<Rightarrow> int64 \<Rightarrow> int64 option" where
  "decode_int (JNum t) n = json_int t"
| "decode_int JNull n = Some n"
| "decode_int _ n = None"

fun decode_bool :: "json \<Rightarrow> bool \<Rightarrow> bool option" where
  "decode_bool (JBool b) _ = Some b"
| "decode_bool JNull b = Some b"
| "decode_bool _ b = None"

text \<open>A pointer field: \<open>null\<close> makes it nil, anything else is decoded into the value pointed to,
  allocated when the pointer was nil.\<close>

fun decode_ptr :: "'a \<Rightarrow> (json \<Rightarrow> 'a \<Rightarrow> 'a option) \<Rightarrow> json \<Rightarrow> 'a option \<Rightarrow> 'a option option" where
  "decode_ptr z d JNull p = Some None"
| "decode_ptr z d j p = map_option Some (d j (case p of None \<Rightarrow> z | Some x \<Rightarrow> x))"

text \<open>A field of type \<open>*json.RawMessage\<close>.\<close>

fun decode_raw_ptr :: "json \<Rightarrow> json option \<Rightarrow> json option option" where
  "decode_raw_ptr JNull p = Some None"
| "decode_raw_ptr j p = Some (Some j)"

text \<open>A slice: its elements are decoded in order into fresh values.\<close>

fun decode_list :: "'a \<Rightarrow> (json \<Rightarrow> 'a \<Rightarrow> 'a option) \<Rightarrow> json list \<Rightarrow> 'a list option" where
  "decode_list z d [] = Some []"
| "decode_list z d (j # js) =
     (case d j z of None \<Rightarrow> None | Some x \<Rightarrow> map_option (Cons x) (decode_list z d js))"

fun decode_slice :: "'a \<Rightarrow> (json \<Rightarrow> 'a \<Rightarrow> 'a option) \<Rightarrow> json \<Rightarrow> 'a list \<Rightarrow> 'a list option" where
  "decode_slice z d (JArr js) xs = decode_list z d js"
| "decode_slice z d JNull xs = Some []"
| "decode_slice z d _ xs = None"

definition field :: "string \<Rightarrow> (json \<Rightarrow> 'a \<Rightarrow> 'a option) \<Rightarrow> ('s \<Rightarrow> 'a) \<Rightarrow> ('a \<Rightarrow> 's \<Rightarrow> 's) \<Rightarrow> 's json_field" where
  "field n d get upd = (n, \<lambda>j s. map_option (\<lambda>x. upd x s) (d j (get s)))"

text \<open>\<open>json.Unmarshal\<close> of a document into a struct that starts as \<open>z\<close>.\<close>

definition unmarshal :: "(json \<Rightarrow> 'a \<Rightarrow> 'a option) \<Rightarrow> 'a \<Rightarrow> string \<Rightarrow> 'a option" where
  "unmarshal d z s = (case json_parse s of None \<Rightarrow> None | Some j \<Rightarrow> d j z)"

text \<open>\<open>Decoder.Decode\<close> reads the first value of a stream and leaves what follows it.\<close>

definition decode_first :: "(json \<Rightarrow> 'a \<Rightarrow> 'a option) \<Rightarrow> 'a \<Rightarrow> string \<Rightarrow> 'a option" where
  "decode_first d z s = (case parse_val (length s) s of None \<Rightarrow> None | Some (j, _) \<Rightarrow> d j z)"

lemma decode_members_append:
  "decode_members fs (ms @ ms') s =
     (case decode_members fs ms s of None \<Rightarrow> None | Some s' \<Rightarrow> decode_members fs ms' s')"
  by (induction ms arbitrary: s) (auto split: option.split)

text \<open>A property every field decoder keeps is kept by the decoding of the struct.\<close>

lemma find_field_mem: "find_field fs k = Some d \<Longrightarrow> d \<in> snd ` set fs"
proof (cases "map_of fs k")
  case None
  assume "find_field fs k = Some d"
  with None obtain f where "find (\<lambda>f. equal_fold k (fst f)) fs = Some f" "d = snd f"
    by (auto simp: find_field_def)
  then show ?thesis by (metis find_Some_iff image_eqI nth_mem)
next
  case (Some d')
  assume "find_field fs k = Some d"
  with Some show ?thesis by (auto simp: find_field_def dest: map_of_SomeD intro: image_eqI [of _ snd "(k, d)"])
qed

lemma decode_struct_inv:
  assumes step: "\<And>d j s s'. d \<in> snd ` set fs \<Longrightarrow> P s \<Longrightarrow> d j s = Some s' \<Longrightarrow> P s'"
    and "P s" and "decode_struct fs j s = Some s'"
  shows "P s'"
proof -
  have ms: "P s'" if "P s" "decode_members fs ms s = Some s'" for ms s s'
    using that
  proof (induction ms arbitrary: s)
    case (Cons m ms)
    then obtain s1 where s1: "decode_member fs m s = Some s1" "decode_members fs ms s1 = Some s'"
      by (auto split: option.splits)
    have "P s1"
      using s1(1) Cons.prems(1) step [OF find_field_mem]
      by (auto simp: decode_member_def split: option.splits)
    with Cons.IH s1(2) show ?case by blast
  qed simp
  from assms(2,3) ms show ?thesis by (cases j) auto
qed

lemma decode_list_inv:
  assumes "\<And>j x. d j z = Some x \<Longrightarrow> P x" and "decode_list z d js = Some xs"
  shows "\<forall>x \<in> set xs. P x"
  using assms by (induction js arbitrary: xs) (auto split: option.splits)

lemma decode_list_length: "decode_list z d js = Some xs \<Longrightarrow> length xs = length js"
  by (induction js arbitrary: xs) (auto split: option.splits)

lemma unmarshal_print: "json_ok j \<Longrightarrow> unmarshal d z (print_json j) = d j z"
  by (simp add: unmarshal_def json_parse_print)

section \<open>Maps of raw messages\<close>

text \<open>\<open>map[string]json.RawMessage\<close>: \<open>null\<close> gives the nil map, and a repeated member wins.\<close>

type_synonym raw_map = "(string, json) gomap"

definition members_map :: "(string \<times> json) list \<Rightarrow> raw_map" where
  "members_map ms = gm_of_list (map (\<lambda>(k, j). (unquote k, j)) ms)"

fun decode_raw_map :: "json \<Rightarrow> raw_map option \<Rightarrow> raw_map option option" where
  "decode_raw_map JNull m = Some None"
| "decode_raw_map (JObj ms) m =
     Some (Some (foldl (\<lambda>m (k, j). gm_put (unquote k) j m) (case m of None \<Rightarrow> [] | Some x \<Rightarrow> x) ms))"
| "decode_raw_map _ m = None"

definition unmarshal_raw_map :: "string \<Rightarrow> raw_map option option" where
  "unmarshal_raw_map s = unmarshal decode_raw_map None s"

definition map_doc :: "raw_map \<Rightarrow> json" where
  "map_doc m = JObj (map (\<lambda>(k, j). (quote_str k, html_escape_json j)) m)"

text \<open>\<open>json.Marshal\<close> writes the members in the order of the keys.\<close>

definition marshal_raw_map :: "raw_map \<Rightarrow> string" where
  "marshal_raw_map m = print_json (map_doc m)"

definition raw_map_ok :: "raw_map \<Rightarrow> bool" where
  "raw_map_ok m \<longleftrightarrow> gm_ok m \<and> list_all (\<lambda>(_, j). json_ok j) m"

lemma foldl_put_map: "foldl (\<lambda>m (k, j). gm_put (f k) (g j) m) m ps
    = foldl (\<lambda>m (k, j). gm_put k j m) m (map (\<lambda>(k, j). (f k, g j)) ps)"
  by (induction ps arbitrary: m) auto

lemma decode_raw_map_obj: "decode_raw_map (JObj ms) None = Some (Some (members_map ms))"
  using foldl_put_map [of unquote "\<lambda>j. j" "[]" ms] by (simp add: members_map_def gm_of_list_def)

lemma gm_put_last: "\<forall>k' \<in> fst ` set m. k' < k \<Longrightarrow> gm_put k v m = m @ [(k, v)]"
  by (induction m) (auto dest: less_asym)

lemma gm_of_list_sorted: "gm_ok m \<Longrightarrow> gm_of_list m = m"
proof (induction m rule: rev_induct)
  case (snoc p m)
  obtain k v where p: "p = (k, v)" by (cases p)
  from snoc.prems have "gm_ok m" "\<forall>k' \<in> fst ` set m. k' < k"
    by (auto simp: gm_ok_def sorted_wrt_append p)
  with snoc.IH show ?case by (simp add: gm_of_list_def p gm_put_last)
qed (simp add: gm_of_list_def)

lemma map_doc_ok: "raw_map_ok m \<Longrightarrow> json_ok (map_doc m)"
  by (auto simp: raw_map_ok_def map_doc_def list_all_iff json_ok_html)

lemma gm_ok_map_values: "gm_ok (map (\<lambda>(k, v). (k, f v)) m) \<longleftrightarrow> gm_ok m"
  by (simp add: gm_ok_def comp_def case_prod_unfold)

lemma unmarshal_marshal_map:
  assumes "raw_map_ok m"
  shows "unmarshal_raw_map (marshal_raw_map m) = Some (Some (map (\<lambda>(k, j). (k, html_escape_json j)) m))"
proof -
  have "unmarshal_raw_map (marshal_raw_map m) = decode_raw_map (map_doc m) None"
    unfolding unmarshal_raw_map_def marshal_raw_map_def by (rule unmarshal_print [OF map_doc_ok [OF assms]])
  also have "\<dots> = Some (Some (gm_of_list (map (\<lambda>(k, j). (k, html_escape_json j)) m)))"
    by (simp only: map_doc_def decode_raw_map_obj members_map_def)
       (simp add: comp_def case_prod_unfold)
  also have "gm_of_list (map (\<lambda>(k, j). (k, html_escape_json j)) m) = map (\<lambda>(k, j). (k, html_escape_json j)) m"
    using assms by (intro gm_of_list_sorted) (simp add: gm_ok_map_values raw_map_ok_def)
  finally show ?thesis .
qed

lemma members_map_ok: "json_ok (JObj ms) \<Longrightarrow> raw_map_ok (members_map ms)"
proof -
  assume ok: "json_ok (JObj ms)"
  have "(k, j) \<in> set (members_map ms) \<Longrightarrow> json_ok j" for k j
  proof -
    assume "(k, j) \<in> set (members_map ms)"
    then have "gm_get (members_map ms) k = Some j"
      by (simp add: members_map_def gm_ok_distinct)
    then have "map_of (rev (map (\<lambda>(k, j). (unquote k, j)) ms)) k = Some j"
      by (simp add: members_map_def gomap)
    then have "(k, j) \<in> set (map (\<lambda>(k, j). (unquote k, j)) ms)"
      by (auto dest: map_of_SomeD)
    with ok show "json_ok j" by (auto simp: list_all_iff)
  qed
  then show ?thesis by (auto simp: raw_map_ok_def members_map_def list_all_iff)
qed

lemma unmarshal_raw_map_ok: "unmarshal_raw_map s = Some (Some m) \<Longrightarrow> raw_map_ok m"
proof -
  assume u: "unmarshal_raw_map s = Some (Some m)"
  then obtain j where j: "json_parse s = Some j" "decode_raw_map j None = Some (Some m)"
    by (auto simp: unmarshal_raw_map_def unmarshal_def split: option.splits)
  from j(2) obtain ms where "j = JObj ms" "m = members_map ms"
    by (cases j) (auto simp del: decode_raw_map.simps(2) simp: decode_raw_map_obj)
  with json_parse_ok [OF j(1)] show ?thesis by (simp add: members_map_ok del: json_ok.simps)
qed

lemma unmarshal_raw_map_get:
  "json_parse s = Some (JObj ms) \<Longrightarrow>
     \<exists>m. unmarshal_raw_map s = Some (Some m) \<and> gm_get m = map_of (rev (map (\<lambda>(k, j). (unquote k, j)) ms))"
  by (simp add: unmarshal_raw_map_def unmarshal_def decode_raw_map_obj members_map_def gomap
      del: decode_raw_map.simps(2))

lemma raw_map_ok_put: "raw_map_ok m \<Longrightarrow> json_ok j \<Longrightarrow> raw_map_ok (gm_put k j m)"
proof -
  assume m: "raw_map_ok m" "json_ok j"
  have "(k', j') \<in> set (gm_put k j m) \<Longrightarrow> json_ok j'" for k' j'
  proof -
    assume "(k', j') \<in> set (gm_put k j m)"
    then have "gm_get (gm_put k j m) k' = Some j'"
      using m by (simp add: raw_map_ok_def gm_ok_distinct)
    then show "json_ok j'"
      using m by (auto simp: raw_map_ok_def gomap list_all_iff split: if_splits dest!: map_of_SomeD)
  qed
  then show ?thesis using m by (auto simp: raw_map_ok_def list_all_iff)
qed

lemma raw_map_ok_del: "raw_map_ok m \<Longrightarrow> raw_map_ok (gm_del k m)"
  by (auto simp: raw_map_ok_def gm_del_def list_all_iff) (use gm_del_ok gm_del_def in metis)

section \<open>Encoding strings and numbers\<close>

definition json_str :: "string \<Rightarrow> json" where
  "json_str s = JStr (quote_str s)"

definition dec_of_int :: "int \<Rightarrow> string" where
  "dec_of_int i = (if i < 0 then CHR ''-'' # dec_of_nat (nat (- i)) else dec_of_nat (nat i))"

definition json_num :: "int64 \<Rightarrow> json" where
  "json_num n = JNum (dec_of_int (sint n))"

lemma json_ok_str [simp]: "json_ok (json_str s)"
  by (simp add: json_str_def)

lemma html_escape_json_str [simp]: "html_escape_json (json_str s) = json_str s"
  by (simp add: json_str_def)

lemma json_value_str [simp]: "json_value (json_str s) = JStr s"
  by (simp add: json_str_def)

lemma decode_string_str [simp]: "decode_string (json_str s) x = Some s"
  by (simp add: json_str_def)

text \<open>Number literals from their parts.\<close>

lemma dec_of_nat_not_Nil [simp]: "dec_of_nat n \<noteq> []"
  by (simp add: dec_of_nat.simps [of n])

lemma dec_of_nat_head: "0 < n \<Longrightarrow> hd (dec_of_nat n) \<noteq> CHR ''0''"
proof (induction n rule: dec_of_nat.induct)
  case (1 n)
  show ?case
  proof (cases "n < 10")
    case True
    then have "digit_val (digit_char n) = n" by (rule digit_char_inv)
    with 1 True show ?thesis by (auto simp: dec_of_nat.simps [of n] digit_val_def)
  next
    case False
    with 1 show ?thesis by (simp add: dec_of_nat.simps [of n])
  qed
qed

lemma dec_of_nat_0: "dec_of_nat 0 = ''0''"
  by code_simp

lemma digits_tok_all: "\<forall>c \<in> set d. is_digit c \<Longrightarrow> no_digit q \<Longrightarrow> digits_tok (d @ q) = (d, q)"
  by (cases q) (auto simp: digits_tok_def no_digit_def takeWhile_append2 dropWhile_append2)

lemma int_tok_all:
  "i \<noteq> [] \<Longrightarrow> \<forall>c \<in> set i. is_digit c \<Longrightarrow> hd i = CHR ''0'' \<longrightarrow> i = ''0'' \<Longrightarrow> no_digit q \<Longrightarrow>
     int_tok (i @ q) = Some (i, q)"
  using digits_tok_all [of i q] by (cases i) (auto simp: int_tok_def)

lemma num_toks:
  assumes "sg = [] \<or> sg = ''-''"
    and "i \<noteq> []" "\<forall>c \<in> set i. is_digit c" "hd i = CHR ''0'' \<longrightarrow> i = ''0''"
    and f: "f = [] \<or> (\<exists>d. f = CHR ''.'' # d \<and> d \<noteq> [] \<and> (\<forall>c \<in> set d. is_digit c))"
    and e: "e = [] \<or> (\<exists>s d. e = CHR ''e'' # s # d \<and> (s = CHR ''+'' \<or> s = CHR ''-'') \<and> d \<noteq> [] \<and> (\<forall>c \<in> set d. is_digit c))"
  shows "sign_tok (\<lambda>x. x = CHR ''-'') (sg @ i @ f @ e) = (sg, i @ f @ e)"
    and "int_tok (i @ f @ e) = Some (i, f @ e)" and "frac_tok (f @ e) = Some (f, e)" and "exp_tok e = Some (e, [])"
proof -
  have e': "exp_tok e = Some (e, [])" "no_digit e" "\<And>q. e \<noteq> CHR ''.'' # q"
    using e by (auto simp: exp_tok_def sign_tok_def digits_tok_all [of _ "[]", simplified] no_digit_def is_digit_def
        less_eq_char_def)
  have f': "frac_tok (f @ e) = Some (f, e)" "no_digit (f @ e)"
    using f e' by (auto simp: frac_tok_def digits_tok_all no_digit_def is_digit_def less_eq_char_def split: list.split)
  show "int_tok (i @ f @ e) = Some (i, f @ e)" using assms(2-4) f'(2) by (rule int_tok_all)
  show "frac_tok (f @ e) = Some (f, e)" "exp_tok e = Some (e, [])" using f' e' by simp_all
  obtain c i'' where i: "i = c # i''" "is_digit c" using assms(2,3) by (cases i) auto
  show "sign_tok (\<lambda>x. x = CHR ''-'') (sg @ i @ f @ e) = (sg, i @ f @ e)"
    using assms(1) i by (auto simp: sign_tok_def is_digit_def less_eq_char_def)
qed

lemma num_ok_parts:
  assumes "sg = [] \<or> sg = ''-''"
    and "i \<noteq> []" "\<forall>c \<in> set i. is_digit c" "hd i = CHR ''0'' \<longrightarrow> i = ''0''"
    and "f = [] \<or> (\<exists>d. f = CHR ''.'' # d \<and> d \<noteq> [] \<and> (\<forall>c \<in> set d. is_digit c))"
    and "e = [] \<or> (\<exists>s d. e = CHR ''e'' # s # d \<and> (s = CHR ''+'' \<or> s = CHR ''-'') \<and> d \<noteq> [] \<and> (\<forall>c \<in> set d. is_digit c))"
  shows "num_ok (sg @ i @ f @ e)"
  using num_toks [OF assms] by (simp add: num_ok_def num_tok_def)

lemma dec_of_int_ok: "num_ok (dec_of_int i)"
proof -
  have "num_ok (sg @ dec_of_nat n @ [] @ [])" if "sg = [] \<or> sg = ''-''" for sg n
    using that dec_of_nat_digits [of n] dec_of_nat_head [of n]
    by (intro num_ok_parts; cases "n = 0") (auto simp: dec_of_nat_0)
  from this [of "[]"] this [of "''-''"] show ?thesis by (simp add: dec_of_int_def)
qed

lemma json_int_dec: "json_int (dec_of_int (sint n)) = Some n"
proof -
  have d: "list_all is_digit (dec_of_nat m)" "\<not> prefix ''-'' (dec_of_nat m)" for m
  proof -
    show "list_all is_digit (dec_of_nat m)" using dec_of_nat_digits [of m] by (simp add: list_all_iff)
    then show "\<not> prefix ''-'' (dec_of_nat m)"
      by (cases "dec_of_nat m") (auto simp: is_digit_def less_eq_char_def)
  qed
  show ?thesis using sint_range [of n]
    by (auto simp: json_int_def dec_of_int_def Let_def d nat_of_dec_of_nat)
qed

lemma json_ok_num [simp]: "json_ok (json_num n)"
  by (simp add: json_num_def dec_of_int_ok)

lemma decode_int_num [simp]: "decode_int (json_num n) m = Some n"
  by (simp add: json_num_def json_int_dec)

end
