(* ===== verification/Provider.thy ===== *)
theory Provider
  imports Models Json_Codec
begin

text \<open>
  Provider detection, \<open>internal/provider/provider.go\<close>: the provider names, the mapping of a request
  path and an explicit header to an upstream, the normalisation of OpenAI-style paths and its
  inverse, the choice of a response parser and the model named by a request body.
\<close>

section \<open>Names\<close>

type_synonym provider = string

definition ProviderOpenAI :: provider where "ProviderOpenAI = ''openai''"
definition ProviderAnthropic :: provider where "ProviderAnthropic = ''anthropic''"
definition ProviderGemini :: provider where "ProviderGemini = ''gemini''"
definition ProviderGeminiOpenAI :: provider where "ProviderGeminiOpenAI = ''gemini-openai''"
definition ProviderAnthropicOpenAI :: provider where "ProviderAnthropicOpenAI = ''anthropic-openai''"
definition ProviderAzure :: provider where "ProviderAzure = ''azure''"
definition ProviderBedrock :: provider where "ProviderBedrock = ''bedrock''"
definition ProviderFireworks :: provider where "ProviderFireworks = ''fireworks''"
definition ProviderTogether :: provider where "ProviderTogether = ''together''"
definition ProviderBaseten :: provider where "ProviderBaseten = ''baseten''"
definition ProviderBedrockMantle :: provider where "ProviderBedrockMantle = ''bedrock-mantle''"
definition ProviderMajordomo :: provider where "ProviderMajordomo = ''majordomo''"
definition ProviderUnknown :: provider where "ProviderUnknown = ''unknown''"

lemmas provider_names = ProviderOpenAI_def ProviderAnthropic_def ProviderGemini_def
  ProviderGeminiOpenAI_def ProviderAnthropicOpenAI_def ProviderAzure_def ProviderBedrock_def
  ProviderFireworks_def ProviderTogether_def ProviderBaseten_def ProviderBedrockMantle_def
  ProviderMajordomo_def ProviderUnknown_def

definition credentialProviders :: "provider list" where
  "credentialProviders = [ProviderOpenAI, ProviderAnthropic, ProviderGemini, ProviderFireworks,
     ProviderTogether, ProviderBaseten]"

definition IsCredentialProvider :: "string \<Rightarrow> bool" where
  "IsCredentialProvider name \<longleftrightarrow> to_lower name \<in> set credentialProviders"

record provider_info =
  pv_Provider :: provider
  pv_BaseURL :: string

abbreviation provider_at :: "provider \<Rightarrow> string \<Rightarrow> provider_info" where
  "provider_at p u \<equiv> \<lparr>pv_Provider = p, pv_BaseURL = u\<rparr>"

section \<open>Paths\<close>

definition openAIPathSuffixes :: "string list" where
  "openAIPathSuffixes = [''/chat/completions'', ''/completions'', ''/embeddings'', ''/responses'']"

text \<open>The test of both loops: the path is the route itself or below it.\<close>

definition route_match :: "string \<Rightarrow> string \<Rightarrow> bool" where
  "route_match path route \<longleftrightarrow> path = route \<or> prefix (route @ ''/'') path"

definition NormalizeOpenAIPath :: "string \<Rightarrow> string" where
  "NormalizeOpenAIPath path =
     (case find (route_match path) openAIPathSuffixes of
        Some _ \<Rightarrow> ''/v1'' @ path
      | None \<Rightarrow> path)"

definition StripOpenAIVersionPrefix :: "string \<Rightarrow> string" where
  "StripOpenAIVersionPrefix path =
     (case find (\<lambda>suf. route_match path (''/v1'' @ suf)) openAIPathSuffixes of
        Some _ \<Rightarrow> trim_prefix ''/v1'' path
      | None \<Rightarrow> path)"

definition BaseURLHasVersionSegment :: "provider \<Rightarrow> bool" where
  "BaseURLHasVersionSegment p \<longleftrightarrow> p = ProviderGeminiOpenAI"

section \<open>Detection\<close>

definition resolveExplicitProvider :: "string \<Rightarrow> provider_info" where
  "resolveExplicitProvider name =
     (let p = to_lower name in
      if p = ProviderOpenAI then provider_at ProviderOpenAI ''https://api.openai.com''
      else if p = ProviderAnthropic then provider_at ProviderAnthropic ''https://api.anthropic.com''
      else if p = ProviderGemini then provider_at ProviderGemini ''https://generativelanguage.googleapis.com''
      else if p = ProviderGeminiOpenAI then
        provider_at ProviderGeminiOpenAI ''https://generativelanguage.googleapis.com/v1beta/openai''
      else if p = ProviderAnthropicOpenAI then provider_at ProviderAnthropicOpenAI ''https://api.anthropic.com''
      else if p = ProviderAzure then provider_at ProviderAzure []
      else if p = ProviderBedrock then provider_at ProviderBedrock []
      else if p = ProviderFireworks then provider_at ProviderFireworks ''https://api.fireworks.ai/inference''
      else if p = ProviderTogether then provider_at ProviderTogether ''https://api.together.xyz''
      else if p = ProviderBaseten then provider_at ProviderBaseten ''https://inference.baseten.co''
      else if p = ProviderBedrockMantle then provider_at ProviderBedrockMantle []
      else provider_at ProviderUnknown [])"

definition detectFromPath :: "string \<Rightarrow> provider_info" where
  "detectFromPath path =
     (if prefix ''/v1/chat/completions'' path \<or> prefix ''/v1/completions'' path
         \<or> prefix ''/v1/embeddings'' path \<or> prefix ''/v1/responses'' path
      then provider_at ProviderOpenAI ''https://api.openai.com''
      else if prefix ''/v1/messages'' path then provider_at ProviderAnthropic ''https://api.anthropic.com''
      else if sublist ''generateContent'' path \<or> sublist ''streamGenerateContent'' path
      then provider_at ProviderGemini ''https://generativelanguage.googleapis.com''
      else if prefix ''/model/'' path \<and> (suffix ''/converse'' path \<or> suffix ''/converse-stream'' path)
      then provider_at ProviderBedrock []
      else provider_at ProviderUnknown [])"

definition Detect :: "string \<Rightarrow> (string, string) gomap \<Rightarrow> provider_info" where
  "Detect path headers =
     (case gm_get headers ''x-majordomo-provider'' of
        Some explicit \<Rightarrow>
          if equal_fold explicit ProviderMajordomo then detectFromPath path
          else resolveExplicitProvider explicit
      | None \<Rightarrow> detectFromPath path)"

section \<open>Parsers and the requested model\<close>

datatype parser = OpenAIParser | AnthropicParser | GeminiParser | BedrockParser

definition GetParser :: "provider \<Rightarrow> parser" where
  "GetParser p =
     (if p \<in> set [ProviderOpenAI, ProviderAzure, ProviderGeminiOpenAI, ProviderAnthropicOpenAI,
                  ProviderFireworks, ProviderTogether, ProviderBaseten] then OpenAIParser
      else if p \<in> set [ProviderAnthropic, ProviderBedrockMantle] then AnthropicParser
      else if p = ProviderGemini then GeminiParser
      else if p = ProviderBedrock then BedrockParser
      else OpenAIParser)"

record model_request =
  mr_Model :: string

definition model_request_fields :: "model_request json_field list" where
  "model_request_fields = [field ''model'' decode_string mr_Model (\<lambda>x. mr_Model_update (\<lambda>_. x))]"

definition extractModelFromRequest :: "string \<Rightarrow> string" where
  "extractModelFromRequest body =
     (case unmarshal (decode_struct model_request_fields) \<lparr>mr_Model = []\<rparr> body of
        None \<Rightarrow> ''unknown''
      | Some req \<Rightarrow> if mr_Model req = [] then ''unknown'' else mr_Model req)"

text \<open>\<open>ExtractModel\<close> of each parser; the model of a Bedrock request is in its path.\<close>

fun ExtractModel :: "parser \<Rightarrow> string \<Rightarrow> string" where
  "ExtractModel BedrockParser body = []"
| "ExtractModel _ body = extractModelFromRequest body"

section \<open>Lemmas\<close>

lemma find_some_iff: "(find P xs \<noteq> None) \<longleftrightarrow> (\<exists>x \<in> set xs. P x)"
  by (induction xs) auto

lemma find_none_iff: "(find P xs = None) \<longleftrightarrow> (\<forall>x \<in> set xs. \<not> P x)"
  by (induction xs) auto

definition openai_route :: "string \<Rightarrow> bool" where
  "openai_route path \<longleftrightarrow> (\<exists>r \<in> set openAIPathSuffixes. route_match path r)"

lemma Normalize_eq: "NormalizeOpenAIPath path = (if openai_route path then ''/v1'' @ path else path)"
  by (auto simp: NormalizeOpenAIPath_def openai_route_def find_none_iff split: option.split
      dest: find_some_iff [THEN iffD1, OF not_None_eq [THEN iffD2], OF exI])

lemma route_match_append [simp]: "route_match (p @ path) (p @ r) = route_match path r"
  by (simp add: route_match_def)

definition versioned_route :: "string \<Rightarrow> bool" where
  "versioned_route path \<longleftrightarrow> (\<exists>r \<in> set openAIPathSuffixes. route_match path (''/v1'' @ r))"

lemma versioned_route_iff: "versioned_route path \<longleftrightarrow> (\<exists>q. path = ''/v1'' @ q \<and> openai_route q)"
proof
  assume "versioned_route path"
  then obtain r where r: "r \<in> set openAIPathSuffixes" "route_match path (''/v1'' @ r)"
    by (auto simp: versioned_route_def)
  then obtain q where "path = ''/v1'' @ q" by (auto simp: route_match_def prefix_def)
  with r show "\<exists>q. path = ''/v1'' @ q \<and> openai_route q"
    by (metis openai_route_def route_match_append)
next
  assume "\<exists>q. path = ''/v1'' @ q \<and> openai_route q"
  then show "versioned_route path" by (metis openai_route_def route_match_append versioned_route_def)
qed

lemma Strip_eq: "StripOpenAIVersionPrefix path = (if versioned_route path then drop 3 path else path)"
proof (cases "versioned_route path")
  case True
  then obtain q where "path = ''/v1'' @ q" by (auto simp: versioned_route_iff)
  then have "trim_prefix ''/v1'' path = drop 3 path" by (simp only: trim_prefix_append) simp
  moreover have "find (\<lambda>suf. route_match path (''/v1'' @ suf)) openAIPathSuffixes \<noteq> None"
    using True unfolding find_some_iff by (simp add: versioned_route_def)
  ultimately show ?thesis using True by (auto simp: StripOpenAIVersionPrefix_def)
next
  case False
  then have "find (\<lambda>suf. route_match path (''/v1'' @ suf)) openAIPathSuffixes = None"
    unfolding find_none_iff by (simp add: versioned_route_def)
  with False show ?thesis by (simp add: StripOpenAIVersionPrefix_def)
qed

lemma openai_route_first: "openai_route path \<Longrightarrow> \<exists>c s. path = CHR ''/'' # c # s \<and> c \<noteq> CHR ''v''"
proof -
  assume "openai_route path"
  then obtain r where r: "r \<in> set openAIPathSuffixes" "prefix r path"
    by (auto simp: openai_route_def route_match_def dest: append_prefixD)
  from r(1) have "\<exists>c s. r = CHR ''/'' # c # s \<and> c \<noteq> CHR ''v''"
    by (simp add: openAIPathSuffixes_def, elim disjE) simp_all
  with r(2) show ?thesis by (auto simp: prefix_def)
qed

lemma versioned_not_route: "openai_route path \<Longrightarrow> \<not> versioned_route path"
  by (auto simp: versioned_route_iff dest!: openai_route_first)

lemma Strip_Normalize: "openai_route path \<Longrightarrow> StripOpenAIVersionPrefix (NormalizeOpenAIPath path) = path"
proof -
  assume r: "openai_route path"
  then have "versioned_route (''/v1'' @ path)" by (auto simp: versioned_route_iff)
  with r show ?thesis by (simp add: Normalize_eq Strip_eq)
qed

lemma Normalize_Strip: "versioned_route path \<Longrightarrow> NormalizeOpenAIPath (StripOpenAIVersionPrefix path) = path"
  by (auto simp: Normalize_eq Strip_eq versioned_route_iff)

lemma Normalize_idem: "NormalizeOpenAIPath (NormalizeOpenAIPath path) = NormalizeOpenAIPath path"
proof -
  have "\<not> openai_route (''/v1'' @ path)" using openai_route_first [of "''/v1'' @ path"] by auto
  then show ?thesis by (simp add: Normalize_eq)
qed

lemma detect_path_real: "pv_Provider (detectFromPath path) \<noteq> ProviderMajordomo"
  by (simp add: detectFromPath_def provider_names)

text \<open>The upstreams a client can name.\<close>

definition upstream_names :: "provider list" where
  "upstream_names = [ProviderOpenAI, ProviderAnthropic, ProviderGemini, ProviderGeminiOpenAI,
     ProviderAnthropicOpenAI, ProviderAzure, ProviderBedrock, ProviderFireworks, ProviderTogether,
     ProviderBaseten, ProviderBedrockMantle]"

lemma resolve_explicit_provider:
  "pv_Provider (resolveExplicitProvider name) =
     (if to_lower name \<in> set upstream_names then to_lower name else ProviderUnknown)"
proof (cases "to_lower name \<in> set upstream_names")
  case True
  then show ?thesis
    unfolding upstream_names_def list.set insert_iff empty_iff
    by (elim disjE) (simp_all add: resolveExplicitProvider_def Let_def provider_names)
next
  case False
  then show ?thesis by (simp add: upstream_names_def resolveExplicitProvider_def Let_def)
qed

lemma resolve_explicit_real: "pv_Provider (resolveExplicitProvider name) \<noteq> ProviderMajordomo"
  by (simp add: resolve_explicit_provider) (simp add: upstream_names_def provider_names)

lemma extractModel_nonempty: "extractModelFromRequest body \<noteq> []"
  by (simp add: extractModelFromRequest_def split: option.split)

section \<open>Properties\<close>

text \<open>Adding and removing the version prefix of an OpenAI-style route are inverse to each other: a
  route without the prefix gets \<open>/v1\<close> and loses exactly that again, a versioned route loses it and
  gets it back, normalising twice is normalising once, and every other path is left alone by both.\<close>

theorem openai_path_inverse:
  "if openai_route path then
     NormalizeOpenAIPath path = ''/v1'' @ path \<and> StripOpenAIVersionPrefix (NormalizeOpenAIPath path) = path
   else if versioned_route path then
     NormalizeOpenAIPath path = path \<and> ''/v1'' @ StripOpenAIVersionPrefix path = path
     \<and> NormalizeOpenAIPath (StripOpenAIVersionPrefix path) = path
   else NormalizeOpenAIPath path = path \<and> StripOpenAIVersionPrefix path = path"
  by (auto simp: Strip_Normalize Normalize_Strip Normalize_eq Strip_eq versioned_route_iff)

text \<open>Detection never answers with the routing sentinel \<open>majordomo\<close>. The header, in any case, names
  itself when it is a known upstream; the sentinel defers to the path, and any other name is unknown.\<close>

theorem Detect_upstream:
  "pv_Provider (Detect path headers) \<noteq> ProviderMajordomo \<and>
   (case gm_get headers ''x-majordomo-provider'' of
      None \<Rightarrow> Detect path headers = detectFromPath path
    | Some name \<Rightarrow>
        if to_lower name = ProviderMajordomo then Detect path headers = detectFromPath path
        else pv_Provider (Detect path headers) =
          (if to_lower name \<in> set upstream_names then to_lower name else ProviderUnknown))"
proof -
  have "equal_fold name ProviderMajordomo \<longleftrightarrow> to_lower name = ProviderMajordomo" for name
    by (rule equal_fold_lower) (simp add: ProviderMajordomo_def to_lower_def lower_char_def less_eq_char_def)
  moreover have "ProviderUnknown \<noteq> ProviderMajordomo" by (simp add: provider_names)
  ultimately show ?thesis
    by (simp add: Detect_def detect_path_real resolve_explicit_real resolve_explicit_provider split: option.split)
qed

end
