(* ===== verification/Usage_Parsers.thy ===== *)
theory Usage_Parsers
  imports Provider
begin

text \<open>
  The response parsers of \<open>internal/provider\<close> for OpenAI, Anthropic and Gemini
  (\<open>openai.go\<close>, \<open>anthropic.go\<close>, \<open>gemini.go\<close>): usage from a JSON body, and from a server-sent event
  stream or a JSON array of chunks. Each struct a response is decoded into is a record with its
  list of JSON fields.
\<close>

section \<open>Scanning lines\<close>

text \<open>
  A \<open>bufio.Scanner\<close> with its default split function and buffer. A line is cut at a newline and
  loses one carriage return at its end; an empty rest after the last newline is no line. A line
  that does not fit in the 64 KiB buffer together with its newline ends the scan: \<open>Scan\<close> returns
  false and the lines after it are never seen.
\<close>

definition max_scan_token :: nat where "max_scan_token = 65536"

definition drop_cr :: "string \<Rightarrow> string" where
  "drop_cr l = (if l \<noteq> [] \<and> last l = CHR 0x0D then butlast l else l)"

definition raw_lines :: "string \<Rightarrow> string list" where
  "raw_lines s = (let ls = split_on CHR 0x0A s in if last ls = [] then butlast ls else ls)"

definition scan_lines :: "string \<Rightarrow> string list" where
  "scan_lines s = map drop_cr (takeWhile (\<lambda>l. length l < max_scan_token) (raw_lines s))"

definition isSSEResponse :: "string \<Rightarrow> bool" where
  "isSSEResponse body =
     (let trimmed = trim_left (\<lambda>c. c \<in> {CHR '' '', CHR 0x09, CHR 0x0D, CHR 0x0A}) body
      in prefix ''event:'' trimmed \<or> prefix ''data:'' trimmed)"

section \<open>OpenAI\<close>

record token_details =
  td_Tokens :: int64

record openai_usage =
  ou_PromptTokens :: int64
  ou_CompletionTokens :: int64
  ou_PromptTokensDetails :: token_details
  ou_InputTokens :: int64
  ou_OutputTokens :: int64
  ou_InputTokensDetails :: token_details
  ou_OutputTokensDetails :: token_details
  ou_TotalTokens :: int64

record openAIResponse =
  or_Model :: string
  or_Usage :: openai_usage

definition zero_openai_usage :: openai_usage where
  "zero_openai_usage = \<lparr>ou_PromptTokens = 0, ou_CompletionTokens = 0,
     ou_PromptTokensDetails = \<lparr>td_Tokens = 0\<rparr>, ou_InputTokens = 0, ou_OutputTokens = 0,
     ou_InputTokensDetails = \<lparr>td_Tokens = 0\<rparr>, ou_OutputTokensDetails = \<lparr>td_Tokens = 0\<rparr>, ou_TotalTokens = 0\<rparr>"

definition zero_openAIResponse :: openAIResponse where
  "zero_openAIResponse = \<lparr>or_Model = [], or_Usage = zero_openai_usage\<rparr>"

definition details_fields :: "string \<Rightarrow> token_details json_field list" where
  "details_fields n = [field n decode_int td_Tokens (\<lambda>x. td_Tokens_update (\<lambda>_. x))]"

definition openai_usage_fields :: "openai_usage json_field list" where
  "openai_usage_fields =
     [field ''prompt_tokens'' decode_int ou_PromptTokens (\<lambda>x. ou_PromptTokens_update (\<lambda>_. x)),
      field ''completion_tokens'' decode_int ou_CompletionTokens (\<lambda>x. ou_CompletionTokens_update (\<lambda>_. x)),
      field ''prompt_tokens_details'' (decode_struct (details_fields ''cached_tokens''))
        ou_PromptTokensDetails (\<lambda>x. ou_PromptTokensDetails_update (\<lambda>_. x)),
      field ''input_tokens'' decode_int ou_InputTokens (\<lambda>x. ou_InputTokens_update (\<lambda>_. x)),
      field ''output_tokens'' decode_int ou_OutputTokens (\<lambda>x. ou_OutputTokens_update (\<lambda>_. x)),
      field ''input_tokens_details'' (decode_struct (details_fields ''cached_tokens''))
        ou_InputTokensDetails (\<lambda>x. ou_InputTokensDetails_update (\<lambda>_. x)),
      field ''output_tokens_details'' (decode_struct (details_fields ''reasoning_tokens''))
        ou_OutputTokensDetails (\<lambda>x. ou_OutputTokensDetails_update (\<lambda>_. x)),
      field ''total_tokens'' decode_int ou_TotalTokens (\<lambda>x. ou_TotalTokens_update (\<lambda>_. x))]"

definition openAIResponse_fields :: "openAIResponse json_field list" where
  "openAIResponse_fields =
     [field ''model'' decode_string or_Model (\<lambda>x. or_Model_update (\<lambda>_. x)),
      field ''usage'' (decode_struct openai_usage_fields) or_Usage (\<lambda>x. or_Usage_update (\<lambda>_. x))]"

abbreviation decode_openai :: "json \<Rightarrow> openAIResponse \<Rightarrow> openAIResponse option" where
  "decode_openai \<equiv> decode_struct openAIResponse_fields"

definition buildOpenAIMetrics :: "openAIResponse \<Rightarrow> usage_metrics" where
  "buildOpenAIMetrics resp =
     (let u = or_Usage resp;
          (inputTokens, outputTokens, cachedTokens) =
            (if 0 <s ou_InputTokens u \<or> 0 <s ou_OutputTokens u
             then (ou_InputTokens u, ou_OutputTokens u, td_Tokens (ou_InputTokensDetails u))
             else (ou_PromptTokens u, ou_CompletionTokens u, td_Tokens (ou_PromptTokensDetails u)))
      in zero_metrics\<lparr>um_Provider := ProviderOpenAI, um_Model := or_Model resp,
           um_InputTokens := inputTokens, um_OutputTokens := outputTokens, um_CachedTokens := cachedTokens\<rparr>)"

text \<open>The stream: what the loop keeps is the last model seen and the chunk to take the usage from.\<close>

record openai_peek =
  op_Model :: string
  op_Usage :: "json option"
  op_Response :: "json option"

definition nested_fields :: "openai_peek json_field list" where
  "nested_fields =
     [field ''model'' decode_string op_Model (\<lambda>x. op_Model_update (\<lambda>_. x)),
      field ''usage'' decode_raw_ptr op_Usage (\<lambda>x. op_Usage_update (\<lambda>_. x))]"

definition peek_fields :: "openai_peek json_field list" where
  "peek_fields = nested_fields @
     [field ''response'' decode_raw_ptr op_Response (\<lambda>x. op_Response_update (\<lambda>_. x))]"

definition zero_peek :: openai_peek where
  "zero_peek = \<lparr>op_Model = [], op_Usage = None, op_Response = None\<rparr>"

record openai_stream =
  os_lastModel :: string
  os_usageChunk :: "json option"

definition openai_chunk :: "json \<Rightarrow> openai_stream \<Rightarrow> openai_stream" where
  "openai_chunk data st =
     (case decode_struct peek_fields data zero_peek of
        None \<Rightarrow> st
      | Some peek \<Rightarrow>
          let st1 = (if op_Model peek \<noteq> [] then st\<lparr>os_lastModel := op_Model peek\<rparr> else st);
              st2 = (if op_Usage peek \<noteq> None then st1\<lparr>os_usageChunk := Some data\<rparr> else st1)
          in (case op_Response peek of
                None \<Rightarrow> st2
              | Some resp \<Rightarrow>
                  (case decode_struct nested_fields resp zero_peek of
                     None \<Rightarrow> st2
                   | Some nested \<Rightarrow>
                       let st3 = (if op_Model nested \<noteq> [] then st2\<lparr>os_lastModel := op_Model nested\<rparr> else st2)
                       in if op_Usage nested \<noteq> None then st3\<lparr>os_usageChunk := Some resp\<rparr> else st3)))"

definition openai_line :: "openai_stream \<Rightarrow> string \<Rightarrow> openai_stream" where
  "openai_line st line =
     (if \<not> prefix ''data: '' line then st
      else let data = trim_prefix ''data: '' line in
           if data = ''[DONE]'' then st
           else (case json_parse data of None \<Rightarrow> st | Some j \<Rightarrow> openai_chunk j st))"

definition openai_stream_end :: "openai_stream \<Rightarrow> usage_metrics" where
  "openai_stream_end st =
     (let no_usage = zero_metrics\<lparr>um_Provider := ProviderOpenAI, um_Model := os_lastModel st\<rparr> in
      case os_usageChunk st of
        None \<Rightarrow> no_usage
      | Some j \<Rightarrow>
          (case decode_openai j zero_openAIResponse of
             Some resp \<Rightarrow> buildOpenAIMetrics resp
           | None \<Rightarrow> no_usage))"

definition openai_parseStreaming :: "string \<Rightarrow> usage_metrics" where
  "openai_parseStreaming body =
     openai_stream_end (foldl openai_line \<lparr>os_lastModel = [], os_usageChunk = None\<rparr> (scan_lines body))"

text \<open>What a parser returns: the metrics, or why it failed.\<close>

datatype parse_error =
    JSONError
  | FrameLength
  | HeadersLength
  | PayloadBounds

definition openai_ParseResponse :: "string \<Rightarrow> parse_error + usage_metrics" where
  "openai_ParseResponse body =
     (if isSSEResponse body then Inr (openai_parseStreaming body)
      else case unmarshal decode_openai zero_openAIResponse body of
             None \<Rightarrow> Inl JSONError
           | Some resp \<Rightarrow> Inr (buildOpenAIMetrics resp))"

section \<open>Anthropic\<close>

record anthropicCacheCreation =
  cc_Ephemeral5m :: int64
  cc_Ephemeral1h :: int64

record anthropicUsage =
  au_InputTokens :: int64
  au_OutputTokens :: int64
  au_CacheReadInputTokens :: int64
  au_CacheCreationInputTokens :: int64
  au_CacheCreation :: anthropicCacheCreation

record anthropicResponse =
  ar_Model :: string
  ar_Usage :: anthropicUsage

definition zero_anthropicUsage :: anthropicUsage where
  "zero_anthropicUsage = \<lparr>au_InputTokens = 0, au_OutputTokens = 0, au_CacheReadInputTokens = 0,
     au_CacheCreationInputTokens = 0, au_CacheCreation = \<lparr>cc_Ephemeral5m = 0, cc_Ephemeral1h = 0\<rparr>\<rparr>"

definition zero_anthropicResponse :: anthropicResponse where
  "zero_anthropicResponse = \<lparr>ar_Model = [], ar_Usage = zero_anthropicUsage\<rparr>"

definition cacheCreation_fields :: "anthropicCacheCreation json_field list" where
  "cacheCreation_fields =
     [field ''ephemeral_5m_input_tokens'' decode_int cc_Ephemeral5m (\<lambda>x. cc_Ephemeral5m_update (\<lambda>_. x)),
      field ''ephemeral_1h_input_tokens'' decode_int cc_Ephemeral1h (\<lambda>x. cc_Ephemeral1h_update (\<lambda>_. x))]"

definition anthropicUsage_fields :: "anthropicUsage json_field list" where
  "anthropicUsage_fields =
     [field ''input_tokens'' decode_int au_InputTokens (\<lambda>x. au_InputTokens_update (\<lambda>_. x)),
      field ''output_tokens'' decode_int au_OutputTokens (\<lambda>x. au_OutputTokens_update (\<lambda>_. x)),
      field ''cache_read_input_tokens'' decode_int au_CacheReadInputTokens
        (\<lambda>x. au_CacheReadInputTokens_update (\<lambda>_. x)),
      field ''cache_creation_input_tokens'' decode_int au_CacheCreationInputTokens
        (\<lambda>x. au_CacheCreationInputTokens_update (\<lambda>_. x)),
      field ''cache_creation'' (decode_struct cacheCreation_fields) au_CacheCreation
        (\<lambda>x. au_CacheCreation_update (\<lambda>_. x))]"

definition anthropicResponse_fields :: "anthropicResponse json_field list" where
  "anthropicResponse_fields =
     [field ''model'' decode_string ar_Model (\<lambda>x. ar_Model_update (\<lambda>_. x)),
      field ''usage'' (decode_struct anthropicUsage_fields) ar_Usage (\<lambda>x. ar_Usage_update (\<lambda>_. x))]"

abbreviation decode_anthropic :: "json \<Rightarrow> anthropicResponse \<Rightarrow> anthropicResponse option" where
  "decode_anthropic \<equiv> decode_struct anthropicResponse_fields"

definition splitCacheCreation :: "anthropicUsage \<Rightarrow> int64 \<times> int64" where
  "splitCacheCreation u =
     (if cc_Ephemeral5m (au_CacheCreation u) = 0 \<and> cc_Ephemeral1h (au_CacheCreation u) = 0
      then (au_CacheCreationInputTokens u, 0)
      else (cc_Ephemeral5m (au_CacheCreation u), cc_Ephemeral1h (au_CacheCreation u)))"

definition buildMetrics :: "anthropicResponse \<Rightarrow> usage_metrics" where
  "buildMetrics resp =
     (let u = ar_Usage resp;
          totalInput = au_InputTokens u + au_CacheReadInputTokens u + au_CacheCreationInputTokens u;
          (fiveMin, oneHour) = splitCacheCreation u
      in zero_metrics\<lparr>um_Provider := ProviderAnthropic, um_Model := ar_Model resp,
           um_InputTokens := totalInput, um_OutputTokens := au_OutputTokens u,
           um_CachedTokens := au_CacheReadInputTokens u,
           um_CacheCreationTokens := au_CacheCreationInputTokens u,
           um_CacheCreation5mTokens := fiveMin, um_CacheCreation1hTokens := oneHour\<rparr>)"

text \<open>The stream events. \<open>message_start\<close> carries a message, \<open>message_delta\<close> the output count.\<close>

record message_start_event =
  ms_Message :: anthropicResponse

record delta_usage =
  dl_OutputTokens :: int64

record message_delta_event =
  md_Usage :: delta_usage

definition start_fields :: "message_start_event json_field list" where
  "start_fields = [field ''message'' decode_anthropic ms_Message (\<lambda>x. ms_Message_update (\<lambda>_. x))]"

definition delta_fields :: "message_delta_event json_field list" where
  "delta_fields =
     [field ''usage''
        (decode_struct [field ''output_tokens'' decode_int dl_OutputTokens (\<lambda>x. dl_OutputTokens_update (\<lambda>_. x))])
        md_Usage (\<lambda>x. md_Usage_update (\<lambda>_. x))]"

record anthropic_stream =
  sa_model :: string
  sa_outputTokens :: int64
  sa_usage :: anthropicUsage
  sa_currentEvent :: string

definition zero_anthropic_stream :: anthropic_stream where
  "zero_anthropic_stream = \<lparr>sa_model = [], sa_outputTokens = 0, sa_usage = zero_anthropicUsage, sa_currentEvent = []\<rparr>"

definition anthropic_data :: "anthropic_stream \<Rightarrow> string \<Rightarrow> anthropic_stream" where
  "anthropic_data st data =
     (if sa_currentEvent st = ''message_start'' then
        (case unmarshal (decode_struct start_fields) \<lparr>ms_Message = zero_anthropicResponse\<rparr> data of
           None \<Rightarrow> st
         | Some ev \<Rightarrow> st\<lparr>sa_model := ar_Model (ms_Message ev), sa_usage := ar_Usage (ms_Message ev)\<rparr>)
      else if sa_currentEvent st = ''message_delta'' then
        (case unmarshal (decode_struct delta_fields) \<lparr>md_Usage = \<lparr>dl_OutputTokens = 0\<rparr>\<rparr> data of
           None \<Rightarrow> st
         | Some ev \<Rightarrow> st\<lparr>sa_outputTokens := dl_OutputTokens (md_Usage ev)\<rparr>)
      else st)"

definition anthropic_line :: "anthropic_stream \<Rightarrow> string \<Rightarrow> anthropic_stream" where
  "anthropic_line st line =
     (if prefix ''event: '' line then st\<lparr>sa_currentEvent := trim_prefix ''event: '' line\<rparr>
      else if \<not> prefix ''data: '' line then st
      else anthropic_data st (trim_prefix ''data: '' line))"

definition anthropic_stream_end :: "anthropic_stream \<Rightarrow> usage_metrics" where
  "anthropic_stream_end st =
     (let usage = sa_usage st;
          (fiveMin, oneHour) = splitCacheCreation usage;
          totalInput = au_InputTokens usage + au_CacheReadInputTokens usage + au_CacheCreationInputTokens usage
      in zero_metrics\<lparr>um_Provider := ProviderAnthropic, um_Model := sa_model st,
           um_InputTokens := totalInput, um_OutputTokens := sa_outputTokens st,
           um_CachedTokens := au_CacheReadInputTokens usage,
           um_CacheCreationTokens := au_CacheCreationInputTokens usage,
           um_CacheCreation5mTokens := fiveMin, um_CacheCreation1hTokens := oneHour\<rparr>)"

definition anthropic_parseStreaming :: "string \<Rightarrow> usage_metrics" where
  "anthropic_parseStreaming body =
     anthropic_stream_end (foldl anthropic_line zero_anthropic_stream (scan_lines body))"

definition anthropic_ParseResponse :: "string \<Rightarrow> parse_error + usage_metrics" where
  "anthropic_ParseResponse body =
     (if isSSEResponse body then Inr (anthropic_parseStreaming body)
      else case unmarshal decode_anthropic zero_anthropicResponse body of
             None \<Rightarrow> Inl JSONError
           | Some resp \<Rightarrow> Inr (buildMetrics resp))"

section \<open>Gemini\<close>

record geminiUsage =
  gu_PromptTokenCount :: int64
  gu_CandidatesTokenCount :: int64
  gu_TotalTokenCount :: int64
  gu_CachedContentTokenCount :: int64

record geminiResponse =
  gr_UsageMetadata :: geminiUsage
  gr_ModelVersion :: string

definition zero_geminiResponse :: geminiResponse where
  "zero_geminiResponse = \<lparr>gr_UsageMetadata = \<lparr>gu_PromptTokenCount = 0, gu_CandidatesTokenCount = 0,
     gu_TotalTokenCount = 0, gu_CachedContentTokenCount = 0\<rparr>, gr_ModelVersion = []\<rparr>"

definition geminiUsage_fields :: "geminiUsage json_field list" where
  "geminiUsage_fields =
     [field ''promptTokenCount'' decode_int gu_PromptTokenCount (\<lambda>x. gu_PromptTokenCount_update (\<lambda>_. x)),
      field ''candidatesTokenCount'' decode_int gu_CandidatesTokenCount
        (\<lambda>x. gu_CandidatesTokenCount_update (\<lambda>_. x)),
      field ''totalTokenCount'' decode_int gu_TotalTokenCount (\<lambda>x. gu_TotalTokenCount_update (\<lambda>_. x)),
      field ''cachedContentTokenCount'' decode_int gu_CachedContentTokenCount
        (\<lambda>x. gu_CachedContentTokenCount_update (\<lambda>_. x))]"

definition geminiResponse_fields :: "geminiResponse json_field list" where
  "geminiResponse_fields =
     [field ''usageMetadata'' (decode_struct geminiUsage_fields) gr_UsageMetadata
        (\<lambda>x. gr_UsageMetadata_update (\<lambda>_. x)),
      field ''modelVersion'' decode_string gr_ModelVersion (\<lambda>x. gr_ModelVersion_update (\<lambda>_. x))]"

abbreviation decode_gemini :: "json \<Rightarrow> geminiResponse \<Rightarrow> geminiResponse option" where
  "decode_gemini \<equiv> decode_struct geminiResponse_fields"

definition buildGeminiMetrics :: "geminiResponse \<Rightarrow> usage_metrics" where
  "buildGeminiMetrics resp =
     zero_metrics\<lparr>um_Provider := ProviderGemini, um_Model := gr_ModelVersion resp,
       um_InputTokens := gu_PromptTokenCount (gr_UsageMetadata resp),
       um_OutputTokens := gu_CandidatesTokenCount (gr_UsageMetadata resp),
       um_CachedTokens := gu_CachedContentTokenCount (gr_UsageMetadata resp)\<rparr>"

definition gemini_parseStreaming :: "string \<Rightarrow> parse_error + usage_metrics" where
  "gemini_parseStreaming body =
     (case unmarshal (decode_slice zero_geminiResponse decode_gemini) [] body of
        None \<Rightarrow> Inl JSONError
      | Some chunks \<Rightarrow>
          if chunks = [] then Inr (zero_metrics\<lparr>um_Provider := ProviderGemini\<rparr>)
          else Inr (buildGeminiMetrics (last chunks)))"

definition gemini_ParseResponse :: "string \<Rightarrow> parse_error + usage_metrics" where
  "gemini_ParseResponse body =
     (let trimmed = trim_left (\<lambda>c. c \<in> {CHR '' '', CHR 0x09, CHR 0x0D, CHR 0x0A}) body in
      if prefix ''['' trimmed then gemini_parseStreaming trimmed
      else case unmarshal decode_gemini zero_geminiResponse body of
             None \<Rightarrow> Inl JSONError
           | Some resp \<Rightarrow> Inr (buildGeminiMetrics resp))"

section \<open>Lines of a stream\<close>

lemma raw_lines_Nil [simp]: "raw_lines [] = []"
  by (simp add: raw_lines_def)

lemma raw_lines_line: "CHR 0x0A \<notin> set l \<Longrightarrow> raw_lines (l @ CHR 0x0A # s) = l # raw_lines s"
  by (simp add: raw_lines_def split_on_append Let_def)

lemma scan_lines_Nil [simp]: "scan_lines [] = []"
  by (simp add: scan_lines_def)

lemma scan_lines_line:
  "CHR 0x0A \<notin> set l \<Longrightarrow> length l < max_scan_token \<Longrightarrow>
     scan_lines (l @ CHR 0x0A # s) = drop_cr l # scan_lines s"
  by (simp add: scan_lines_def raw_lines_line)

text \<open>A line the buffer cannot hold hides itself and everything after it.\<close>

lemma raw_lines_long:
  "CHR 0x0A \<notin> set l \<Longrightarrow> l \<noteq> [] \<Longrightarrow> \<exists>l' ls. raw_lines (l @ r) = (l @ l') # ls"
proof -
  assume l: "CHR 0x0A \<notin> set l" "l \<noteq> []"
  have "\<exists>l' ls. split_on CHR 0x0A (l @ r) = (l @ l') # ls"
    using l(1)
  proof (induction l)
    case Nil
    then show ?case by (cases "split_on CHR 0x0A r") auto
  qed auto
  then obtain l' ls where s: "split_on CHR 0x0A (l @ r) = (l @ l') # ls" by blast
  with l(2) show ?thesis
    by (cases ls rule: rev_cases) (auto simp: raw_lines_def Let_def)
qed

lemma scan_lines_long:
  assumes "CHR 0x0A \<notin> set l" and "max_scan_token \<le> length l"
  shows "scan_lines (l @ r) = []"
proof -
  from assms(2) have "l \<noteq> []" by (auto simp: max_scan_token_def)
  from raw_lines_long [OF assms(1) this, of r] assms(2) show ?thesis
    by (auto simp: scan_lines_def)
qed

text \<open>A text of whole lines.\<close>

definition text_of :: "string list \<Rightarrow> string" where
  "text_of ls = concat (map (\<lambda>l. l @ [CHR 0x0A]) ls)"

definition clean_line :: "string \<Rightarrow> bool" where
  "clean_line l \<longleftrightarrow> CHR 0x0A \<notin> set l \<and> length l < max_scan_token \<and> (l = [] \<or> last l \<noteq> CHR 0x0D)"

lemma text_of_simps [simp]:
  "text_of [] = []" "text_of (l # ls) = l @ CHR 0x0A # text_of ls" "text_of (ks @ ls) = text_of ks @ text_of ls"
  by (simp_all add: text_of_def)

lemma drop_cr_clean: "clean_line l \<Longrightarrow> drop_cr l = l"
  by (auto simp: drop_cr_def clean_line_def)

lemma scan_text_of:
  "\<forall>l \<in> set ls. clean_line l \<Longrightarrow> scan_lines (text_of ls @ r) = ls @ scan_lines r"
proof (induction ls)
  case (Cons l ls)
  then have "clean_line l" "scan_lines (text_of ls @ r) = ls @ scan_lines r" by simp_all
  then show ?case
    using scan_lines_line [of l "text_of ls @ r"] by (simp add: drop_cr_clean) (simp add: clean_line_def)
qed simp

section \<open>Anthropic streams\<close>

text \<open>An event as the API sends it: its name, its data and an empty line.\<close>

definition event_lines :: "string \<times> string \<Rightarrow> string list" where
  "event_lines ev = [''event: '' @ fst ev, ''data: '' @ snd ev, []]"

definition event_text :: "(string \<times> string) list \<Rightarrow> string" where
  "event_text evs = text_of (concat (map event_lines evs))"

definition clean_event :: "string \<times> string \<Rightarrow> bool" where
  "clean_event ev \<longleftrightarrow> list_all clean_line (event_lines ev)"

text \<open>What the data of an event means to the parser.\<close>

definition start_of :: "string \<times> string \<Rightarrow> anthropicResponse option" where
  "start_of ev =
     (if fst ev = ''message_start''
      then map_option ms_Message
        (unmarshal (decode_struct start_fields) \<lparr>ms_Message = zero_anthropicResponse\<rparr> (snd ev))
      else None)"

definition delta_of :: "string \<times> string \<Rightarrow> int64 option" where
  "delta_of ev =
     (if fst ev = ''message_delta''
      then map_option (\<lambda>d. dl_OutputTokens (md_Usage d))
        (unmarshal (decode_struct delta_fields) \<lparr>md_Usage = \<lparr>dl_OutputTokens = 0\<rparr>\<rparr> (snd ev))
      else None)"

definition last_of :: "'b \<Rightarrow> ('a \<Rightarrow> 'b option) \<Rightarrow> 'a list \<Rightarrow> 'b" where
  "last_of d f xs = last (d # List.map_filter f xs)"

text \<open>The response a stream amounts to: the last message started, with the last output count.\<close>

definition stream_response :: "(string \<times> string) list \<Rightarrow> anthropicResponse" where
  "stream_response evs =
     (let r = last_of zero_anthropicResponse start_of evs
      in r\<lparr>ar_Usage := (ar_Usage r)\<lparr>au_OutputTokens := last_of 0 delta_of evs\<rparr>\<rparr>)"

lemma last_of_Nil [simp]: "last_of d f [] = d"
  by (simp add: last_of_def)

lemma last_of_snoc [simp]: "last_of d f (xs @ [x]) = (case f x of None \<Rightarrow> last_of d f xs | Some y \<Rightarrow> y)"
  by (auto simp: last_of_def List.map_filter_def split: option.split)

lemma anthropic_event:
  "foldl anthropic_line st (event_lines ev) =
     (let st1 = (case start_of ev of None \<Rightarrow> st | Some r \<Rightarrow> st\<lparr>sa_model := ar_Model r, sa_usage := ar_Usage r\<rparr>);
          st2 = (case delta_of ev of None \<Rightarrow> st1 | Some n \<Rightarrow> st1\<lparr>sa_outputTokens := n\<rparr>)
      in st2\<lparr>sa_currentEvent := fst ev\<rparr>)"
proof -
  have "foldl anthropic_line st (event_lines ev) = anthropic_data (st\<lparr>sa_currentEvent := fst ev\<rparr>) (snd ev)"
    by (simp add: event_lines_def anthropic_line_def trim_prefix_def)
  then show ?thesis
    by (auto simp: anthropic_data_def start_of_def delta_of_def Let_def split: option.split)
qed

lemma foldl_anthropic_events:
  "foldl anthropic_line zero_anthropic_stream (concat (map event_lines evs)) =
     \<lparr>sa_model = ar_Model (last_of zero_anthropicResponse start_of evs),
      sa_outputTokens = last_of 0 delta_of evs,
      sa_usage = ar_Usage (last_of zero_anthropicResponse start_of evs),
      sa_currentEvent = (if evs = [] then [] else fst (last evs))\<rparr>"
proof (induction evs rule: rev_induct)
  case Nil
  then show ?case by (simp add: zero_anthropic_stream_def zero_anthropicResponse_def)
next
  case (snoc ev evs)
  then show ?case
    by (simp add: anthropic_event Let_def split: option.split)
qed

lemma anthropic_stream_end_response:
  "anthropic_stream_end \<lparr>sa_model = ar_Model r, sa_outputTokens = n, sa_usage = ar_Usage r, sa_currentEvent = e\<rparr>
     = buildMetrics (r\<lparr>ar_Usage := (ar_Usage r)\<lparr>au_OutputTokens := n\<rparr>\<rparr>)"
  by (simp add: anthropic_stream_end_def buildMetrics_def splitCacheCreation_def Let_def)

lemma scan_event_text: "list_all clean_event evs \<Longrightarrow> scan_lines (event_text evs) = concat (map event_lines evs)"
  using scan_text_of [of "concat (map event_lines evs)" "[]"]
  by (auto simp: event_text_def clean_event_def list_all_iff)

lemma anthropic_stream_events:
  "list_all clean_event evs \<Longrightarrow> anthropic_parseStreaming (event_text evs) = buildMetrics (stream_response evs)"
  by (simp add: anthropic_parseStreaming_def scan_event_text foldl_anthropic_events
      anthropic_stream_end_response stream_response_def Let_def)

section \<open>OpenAI streams\<close>

definition data_lines :: "string \<Rightarrow> string list" where
  "data_lines d = [''data: '' @ d, []]"

definition chunk_text :: "json list \<Rightarrow> string" where
  "chunk_text js = text_of (concat (map data_lines (map print_json js @ [''[DONE]''])))"

text \<open>What a chunk contributes: a model name, and the document to take the usage from.\<close>

definition chunk_peek :: "json \<Rightarrow> openai_peek option" where
  "chunk_peek j = decode_struct peek_fields j zero_peek"

definition chunk_nested :: "json \<Rightarrow> (json \<times> openai_peek) option" where
  "chunk_nested j =
     (case chunk_peek j of
        None \<Rightarrow> None
      | Some p \<Rightarrow>
          (case op_Response p of
             None \<Rightarrow> None
           | Some r \<Rightarrow> map_option (Pair r) (decode_struct nested_fields r zero_peek)))"

definition chunk_model :: "json \<Rightarrow> string option" where
  "chunk_model j =
     (case chunk_nested j of
        Some (_, n) \<Rightarrow>
          if op_Model n \<noteq> [] then Some (op_Model n)
          else (case chunk_peek j of Some p \<Rightarrow> if op_Model p \<noteq> [] then Some (op_Model p) else None | None \<Rightarrow> None)
      | None \<Rightarrow> (case chunk_peek j of Some p \<Rightarrow> if op_Model p \<noteq> [] then Some (op_Model p) else None | None \<Rightarrow> None))"

definition chunk_usage :: "json \<Rightarrow> json option" where
  "chunk_usage j =
     (case chunk_nested j of
        Some (r, n) \<Rightarrow>
          if op_Usage n \<noteq> None then Some r
          else (case chunk_peek j of Some p \<Rightarrow> if op_Usage p \<noteq> None then Some j else None | None \<Rightarrow> None)
      | None \<Rightarrow> (case chunk_peek j of Some p \<Rightarrow> if op_Usage p \<noteq> None then Some j else None | None \<Rightarrow> None))"

lemma openai_chunk_eq:
  "openai_chunk j st =
     (let st1 = (case chunk_model j of None \<Rightarrow> st | Some m \<Rightarrow> st\<lparr>os_lastModel := m\<rparr>)
      in case chunk_usage j of None \<Rightarrow> st1 | Some d \<Rightarrow> st1\<lparr>os_usageChunk := Some d\<rparr>)"
proof (cases "chunk_peek j")
  case None
  then show ?thesis by (simp add: openai_chunk_def chunk_model_def chunk_usage_def chunk_nested_def chunk_peek_def)
next
  case (Some p)
  note d = openai_chunk_def chunk_model_def chunk_usage_def chunk_nested_def Some Some [unfolded chunk_peek_def]
  show ?thesis
  proof (cases "op_Response p")
    case None
    then show ?thesis by (simp add: d Let_def)
  next
    case r: (Some r)
    show ?thesis
    proof (cases "decode_struct nested_fields r zero_peek")
      case None
      with r show ?thesis by (simp add: d Let_def)
    next
      case (Some n)
      with r show ?thesis by (simp add: d Let_def)
    qed
  qed
qed

lemma foldl_openai_chunks:
  "foldl (\<lambda>st j. openai_chunk j st) \<lparr>os_lastModel = [], os_usageChunk = None\<rparr> js =
     \<lparr>os_lastModel = last_of [] chunk_model js, os_usageChunk = last_of None (map_option Some \<circ> chunk_usage) js\<rparr>"
proof (induction js rule: rev_induct)
  case (snoc j js)
  then show ?case by (simp add: openai_chunk_eq Let_def split: option.split)
qed simp

lemma print_json_not_done: "json_ok j \<Longrightarrow> print_json j \<noteq> ''[DONE]''"
proof
  assume j: "json_ok j" "print_json j = ''[DONE]''"
  from json_parse_print [OF j(1)] j(2) have "json_parse ''[DONE]'' = Some j" by simp
  moreover have "json_parse ''[DONE]'' = None" by code_simp
  ultimately show False by simp
qed

lemma openai_data_lines:
  "json_ok j \<Longrightarrow> foldl openai_line st (data_lines (print_json j)) = openai_chunk j st"
  by (simp add: data_lines_def openai_line_def trim_prefix_def print_json_not_done json_parse_print Let_def)

lemma foldl_openai_lines:
  "list_all json_ok js \<Longrightarrow>
     foldl openai_line st (concat (map data_lines (map print_json js))) = foldl (\<lambda>st j. openai_chunk j st) st js"
  by (induction js arbitrary: st) (simp_all add: openai_data_lines)

lemma openai_done: "foldl openai_line st (data_lines ''[DONE]'') = st"
  by (simp add: data_lines_def openai_line_def trim_prefix_def)

lemma scan_chunk_text:
  "\<forall>j \<in> set js. clean_line (''data: '' @ print_json j) \<Longrightarrow>
     scan_lines (chunk_text js) = concat (map data_lines (map print_json js)) @ data_lines ''[DONE]''"
  using scan_text_of [of "concat (map data_lines (map print_json js)) @ data_lines ''[DONE]''" "[]"]
  by (fastforce simp: chunk_text_def data_lines_def clean_line_def max_scan_token_def)

lemma openai_stream_chunks:
  "list_all json_ok js \<Longrightarrow> \<forall>j \<in> set js. clean_line (''data: '' @ print_json j) \<Longrightarrow>
     openai_parseStreaming (chunk_text js) =
       openai_stream_end \<lparr>os_lastModel = last_of [] chunk_model js,
         os_usageChunk = last_of None (map_option Some \<circ> chunk_usage) js\<rparr>"
  by (simp add: openai_parseStreaming_def scan_chunk_text foldl_openai_lines openai_done foldl_openai_chunks
      del: map_map)

section \<open>Laws of the metrics\<close>

text \<open>The fresh input is recovered by subtracting the cached and the written tokens again,
  whatever the sums do to the 64-bit range.\<close>

lemma buildMetrics_fresh_input:
  "um_InputTokens (buildMetrics r) - um_CachedTokens (buildMetrics r) - um_CacheCreationTokens (buildMetrics r)
     = au_InputTokens (ar_Usage r)"
  by (simp add: buildMetrics_def Let_def split: prod.split)

lemma splitCacheCreation_sum:
  assumes "splitCacheCreation u = (a, b)"
    and "cc_Ephemeral5m (au_CacheCreation u) + cc_Ephemeral1h (au_CacheCreation u) \<in> {0, au_CacheCreationInputTokens u}"
    and "cc_Ephemeral5m (au_CacheCreation u) + cc_Ephemeral1h (au_CacheCreation u) = 0 \<Longrightarrow>
      cc_Ephemeral5m (au_CacheCreation u) = 0 \<and> cc_Ephemeral1h (au_CacheCreation u) = 0"
  shows "a + b = au_CacheCreationInputTokens u"
  using assms by (auto simp: splitCacheCreation_def split: if_splits)

section \<open>Properties\<close>


definition example_events :: "(string \<times> string) list" where
  "example_events =
     [(''message_start'', doc ''{~message~:{~model~:~c~,~usage~:{~input_tokens~:7}}}''),
      (''ping'', ''{}''),
      (''message_delta'', doc ''{~usage~:{~output_tokens~:5}}'')]"

lemma example_clean: "list_all clean_event example_events"
  by (simp add: example_events_def clean_event_def event_lines_def clean_line_def max_scan_token_def doc_def)


text \<open>The metrics of an Anthropic response keep its counts apart: subtracting the cached and the
  written tokens from the reported total gives the fresh input again, even where the sum of the three
  wraps around; without a breakdown by lifetime all written tokens are in the five-minute bucket.\<close>

theorem anthropic_input_recovered:
  "um_InputTokens (buildMetrics r) - um_CachedTokens (buildMetrics r) - um_CacheCreationTokens (buildMetrics r)
     = au_InputTokens (ar_Usage r) \<and>
   um_OutputTokens (buildMetrics r) = au_OutputTokens (ar_Usage r) \<and>
   (au_CacheCreation (ar_Usage r) = \<lparr>cc_Ephemeral5m = 0, cc_Ephemeral1h = 0\<rparr> \<longrightarrow>
      um_CacheCreation5mTokens (buildMetrics r) = um_CacheCreationTokens (buildMetrics r) \<and>
      um_CacheCreation1hTokens (buildMetrics r) = 0)"
  by (simp add: buildMetrics_fresh_input) (simp add: buildMetrics_def splitCacheCreation_def Let_def)

definition example_response :: anthropicResponse where
  "example_response = \<lparr>ar_Model = ''c'', ar_Usage = \<lparr>au_InputTokens = 7, au_OutputTokens = 5,
     au_CacheReadInputTokens = 3, au_CacheCreationInputTokens = 4,
     au_CacheCreation = \<lparr>cc_Ephemeral5m = 0, cc_Ephemeral1h = 0\<rparr>\<rparr>\<rparr>"

lemma anthropic_input_recovered_witness:
  "um_CacheCreation5mTokens (buildMetrics example_response) = 4"
  using anthropic_input_recovered [of example_response]
  by (simp add: example_response_def buildMetrics_def splitCacheCreation_def Let_def)

text \<open>The usage of an OpenAI stream comes from the last chunk that carries a usage object, at its
  top level or inside its \<open>response\<close>, and when there is none, the model is that of the last chunk that
  names one.\<close>

theorem openai_stream_usage:
  assumes "list_all json_ok js" and "\<forall>j \<in> set js. clean_line (''data: '' @ print_json j)"
  shows "openai_parseStreaming (chunk_text js) =
    (case last_of None (map_option Some \<circ> chunk_usage) js of
       None \<Rightarrow> zero_metrics\<lparr>um_Provider := ProviderOpenAI, um_Model := last_of [] chunk_model js\<rparr>
     | Some d \<Rightarrow>
         (case decode_openai d zero_openAIResponse of
            Some resp \<Rightarrow> buildOpenAIMetrics resp
          | None \<Rightarrow> zero_metrics\<lparr>um_Provider := ProviderOpenAI, um_Model := last_of [] chunk_model js\<rparr>))"
  using openai_stream_chunks [OF assms] by (simp add: openai_stream_end_def Let_def)

lemma openai_stream_usage_witness:
  "um_Model (openai_parseStreaming (chunk_text [JObj [(''model'', JStr ''m'')]])) = ''m''"
proof -
  let ?j = "JObj [(''model'', JStr ''m'')]"
  have j: "chunk_model ?j = Some ''m''" "chunk_usage ?j = None" "json_ok ?j" by code_simp+
  have "clean_line (''data: '' @ print_json ?j)"
    by (simp add: clean_line_def max_scan_token_def quote_c_def)
  with j openai_stream_usage [of "[?j]"] show ?thesis
    by (simp add: last_of_def List.map_filter_def del: print_json.simps json_ok.simps)
qed

text \<open>The scanner gives up at a line of 64 KiB: such a line and everything after it do not exist for
  the parsers of event streams, so usage that comes later is silently not metered.\<close>

theorem long_line_hides_rest:
  assumes "\<forall>l \<in> set ls. clean_line l" and "CHR 0x0A \<notin> set long" and "max_scan_token \<le> length long"
  shows "openai_parseStreaming (text_of ls @ long @ rest) = openai_parseStreaming (text_of ls)
    \<and> anthropic_parseStreaming (text_of ls @ long @ rest) = anthropic_parseStreaming (text_of ls)"
  using scan_text_of [OF assms(1), of "long @ rest"] scan_text_of [OF assms(1), of "[]"]
    scan_lines_long [OF assms(2,3), of rest]
  by (simp add: openai_parseStreaming_def anthropic_parseStreaming_def)

lemma long_line_hides_rest_witness:
  "anthropic_parseStreaming (text_of [] @ replicate 65536 (CHR ''x'') @ CHR 0x0A # event_text example_events)
     = anthropic_parseStreaming []"
proof -
  have "max_scan_token \<le> length (replicate 65536 (CHR ''x''))" by (simp only: length_replicate max_scan_token_def)
  moreover have "CHR 0x0A \<notin> set (replicate 65536 (CHR ''x''))" by (simp only: in_set_replicate) simp
  ultimately show ?thesis
    using long_line_hides_rest [of "[]" "replicate 65536 (CHR ''x'')" "CHR 0x0A # event_text example_events"]
    by (simp only: text_of_simps append_Nil) simp
qed

end
