(* ===== verification/Bedrock_Stream.thy ===== *)
theory Bedrock_Stream
  imports Usage_Parsers
begin

text \<open>
  \<open>internal/provider/bedrock.go\<close>: the model named by a Bedrock path, the walk over the frames of an
  AWS event stream with its 32-bit lengths, and the usage of a Converse response.
\<close>

section \<open>The model in the path\<close>

definition last_index :: "string \<Rightarrow> string \<Rightarrow> nat option" where
  "last_index s sub =
     (let is = filter (\<lambda>i. prefix sub (drop i s)) [0..<Suc (length s)]
      in if is = [] then None else Some (last is))"

fun bedrock_model_suffix :: "string \<Rightarrow> string list \<Rightarrow> string" where
  "bedrock_model_suffix rest [] = []"
| "bedrock_model_suffix rest (suf # sufs) =
     (case last_index rest suf of
        Some idx \<Rightarrow> if 0 < idx \<and> idx + length suf = length rest then take idx rest
                    else bedrock_model_suffix rest sufs
      | None \<Rightarrow> bedrock_model_suffix rest sufs)"

definition ExtractBedrockModelFromPath :: "string \<Rightarrow> string" where
  "ExtractBedrockModelFromPath path =
     (if \<not> prefix ''/model/'' path then []
      else bedrock_model_suffix (drop (length ''/model/'') path) [''/converse-stream'', ''/converse''])"

section \<open>Usage\<close>

record bedrockUsage =
  bu_InputTokens :: int64
  bu_OutputTokens :: int64
  bu_CacheReadInputTokens :: int64
  bu_CacheWriteInputTokens :: int64

text \<open>\<open>bedrockConverseResponse\<close> and \<open>bedrockStreamMetadataEvent\<close> have the same fields.\<close>

record bedrockResponse =
  br_Usage :: bedrockUsage

definition zero_bedrockResponse :: bedrockResponse where
  "zero_bedrockResponse = \<lparr>br_Usage = \<lparr>bu_InputTokens = 0, bu_OutputTokens = 0,
     bu_CacheReadInputTokens = 0, bu_CacheWriteInputTokens = 0\<rparr>\<rparr>"

definition bedrockUsage_fields :: "bedrockUsage json_field list" where
  "bedrockUsage_fields =
     [field ''inputTokens'' decode_int bu_InputTokens (\<lambda>x. bu_InputTokens_update (\<lambda>_. x)),
      field ''outputTokens'' decode_int bu_OutputTokens (\<lambda>x. bu_OutputTokens_update (\<lambda>_. x)),
      field ''cacheReadInputTokens'' decode_int bu_CacheReadInputTokens
        (\<lambda>x. bu_CacheReadInputTokens_update (\<lambda>_. x)),
      field ''cacheWriteInputTokens'' decode_int bu_CacheWriteInputTokens
        (\<lambda>x. bu_CacheWriteInputTokens_update (\<lambda>_. x))]"

definition bedrockResponse_fields :: "bedrockResponse json_field list" where
  "bedrockResponse_fields =
     [field ''usage'' (decode_struct bedrockUsage_fields) br_Usage (\<lambda>x. br_Usage_update (\<lambda>_. x))]"

abbreviation unmarshal_bedrock :: "string \<Rightarrow> bedrockResponse option" where
  "unmarshal_bedrock \<equiv> unmarshal (decode_struct bedrockResponse_fields) zero_bedrockResponse"

definition buildBedrockMetrics :: "int64 \<Rightarrow> int64 \<Rightarrow> int64 \<Rightarrow> int64 \<Rightarrow> usage_metrics" where
  "buildBedrockMetrics input output cacheRead cacheWrite =
     (let totalInput = input + cacheRead + cacheWrite
      in zero_metrics\<lparr>um_Provider := ProviderBedrock, um_InputTokens := totalInput,
           um_OutputTokens := output, um_CachedTokens := cacheRead,
           um_CacheCreationTokens := cacheWrite, um_CacheCreation5mTokens := cacheWrite\<rparr>)"

definition usage_metrics_of :: "bedrockUsage \<Rightarrow> usage_metrics" where
  "usage_metrics_of u =
     buildBedrockMetrics (bu_InputTokens u) (bu_OutputTokens u) (bu_CacheReadInputTokens u) (bu_CacheWriteInputTokens u)"

section \<open>Event stream frames\<close>

text \<open>\<open>binary.BigEndian.Uint32\<close> of the four bytes at an offset.\<close>

definition be32 :: "string \<Rightarrow> nat \<Rightarrow> 32 word" where
  "be32 b i = word_of_nat (((of_char (b ! i) * 256 + of_char (b ! (i + 1))) * 256
     + of_char (b ! (i + 2))) * 256 + of_char (b ! (i + 3)))"

definition isEventStreamResponse :: "string \<Rightarrow> bool" where
  "isEventStreamResponse body =
     (if length body < 16 then False
      else let totalLen = be32 body 0; headersLen = be32 body 4
           in 16 \<le> totalLen \<and> unat totalLen \<le> length body \<and> headersLen \<le> totalLen - 16)"

definition payload_usage :: "string \<Rightarrow> bedrockUsage option" where
  "payload_usage payload =
     (case unmarshal_bedrock payload of
        None \<Rightarrow> None
      | Some event \<Rightarrow>
          if 0 <s bu_InputTokens (br_Usage event) + bu_OutputTokens (br_Usage event)
          then Some (br_Usage event) else None)"

text \<open>The loop, from an offset, with the usage found so far.\<close>

function bedrock_walk :: "string \<Rightarrow> nat \<Rightarrow> bedrockUsage option \<Rightarrow> parse_error + bedrockUsage option" where
  "bedrock_walk body offset found =
     (if length body - offset < 12 then Inr found
      else let totalLen = be32 body offset; headersLen = be32 body (offset + 4) in
      if totalLen < 16 \<or> length body - offset < unat totalLen then Inl FrameLength
      else if totalLen - 16 < headersLen then Inl HeadersLength
      else let payloadStart = offset + 12 + unat headersLen; payloadEnd = offset + unat totalLen - 4 in
      if payloadEnd < payloadStart then Inl PayloadBounds
      else let payload = take (payloadEnd - payloadStart) (drop payloadStart body);
               found' = (case payload_usage payload of None \<Rightarrow> found | Some u \<Rightarrow> Some u)
           in bedrock_walk body (offset + unat totalLen) found')"
  by pat_completeness auto
termination
proof (relation "measure (\<lambda>(body, offset, _). length body - offset)", goal_cases)
  case (2 body offset found totalLen)
  then have "(16 :: 32 word) \<le> totalLen" by (simp add: not_less)
  then have "16 \<le> unat totalLen" by (simp add: word_le_nat_alt)
  with 2 show ?case by auto
qed simp

declare bedrock_walk.simps [simp del]

definition bedrock_parseEventStream :: "string \<Rightarrow> parse_error + usage_metrics" where
  "bedrock_parseEventStream body =
     (case bedrock_walk body 0 None of
        Inl e \<Rightarrow> Inl e
      | Inr None \<Rightarrow> Inr (zero_metrics\<lparr>um_Provider := ProviderBedrock\<rparr>)
      | Inr (Some u) \<Rightarrow> Inr (usage_metrics_of u))"

definition bedrock_ParseResponse :: "string \<Rightarrow> parse_error + usage_metrics" where
  "bedrock_ParseResponse body =
     (if isEventStreamResponse body then bedrock_parseEventStream body
      else case unmarshal_bedrock body of
             None \<Rightarrow> Inl JSONError
           | Some resp \<Rightarrow> Inr (usage_metrics_of (br_Usage resp)))"

section \<open>All parsers\<close>

fun ParseResponse :: "parser \<Rightarrow> string \<Rightarrow> parse_error + usage_metrics" where
  "ParseResponse OpenAIParser body = openai_ParseResponse body"
| "ParseResponse AnthropicParser body = anthropic_ParseResponse body"
| "ParseResponse GeminiParser body = gemini_ParseResponse body"
| "ParseResponse BedrockParser body = bedrock_ParseResponse body"

section \<open>The path\<close>

lemma last_index_suffix:
  assumes "sub \<noteq> []"
  shows "last_index (m @ sub) sub = Some (length m)"
proof -
  let ?P = "\<lambda>i. prefix sub (drop i (m @ sub))"
  have le: "i \<le> length m" if "?P i" for i
  proof -
    have "length sub \<le> length m + length sub - i" using prefix_length_le [OF that] by (simp del: drop_append)
    moreover have "0 < length sub" using assms by simp
    ultimately show ?thesis by arith
  qed
  have none: "filter ?P [Suc (length m)..<Suc (length m + length sub)] = []"
    unfolding filter_empty_conv set_upt using le by (meson Suc_n_not_le_n atLeastLessThan_iff le_trans)
  have "[0..<Suc (length (m @ sub))] = [0..<length m] @ [length m] @ [Suc (length m)..<Suc (length m + length sub)]"
    using upt_add_eq_append [of 0 "length m" "Suc (length sub)"] upt_rec [of "length m"] by (simp add: Suc_le_eq)
  then have "filter ?P [0..<Suc (length (m @ sub))] = filter ?P [0..<length m] @ [length m]"
    using none by (simp only: filter_append) simp
  then show ?thesis by (simp only: last_index_def Let_def) simp
qed

lemma last_index_prefix: "last_index s sub = Some i \<Longrightarrow> prefix sub (drop i s)"
proof -
  assume "last_index s sub = Some i"
  then have "i \<in> set (filter (\<lambda>i. prefix sub (drop i s)) [0..<Suc (length s)])"
    unfolding last_index_def Let_def by (metis last_in_set option.distinct(1) option.inject)
  then show ?thesis by (simp del: upt_Suc)
qed

lemma last_index_end: "last_index s sub = Some i \<Longrightarrow> i + length sub = length s \<Longrightarrow> suffix sub s"
proof -
  assume a: "last_index s sub = Some i" "i + length sub = length s"
  from last_index_prefix [OF a(1)] obtain z where z: "drop i s = sub @ z" by (auto simp: prefix_def)
  then have "length s - i = length sub + length z" by (metis length_append length_drop)
  with a(2) have "length z = 0" by linarith
  then have "z = []" by simp
  with z show ?thesis by (metis append.right_neutral suffix_drop)
qed

lemma bedrock_suffix_hit:
  "suf \<noteq> [] \<Longrightarrow> m \<noteq> [] \<Longrightarrow> bedrock_model_suffix (m @ suf) (suf # sufs) = m"
  by (simp add: last_index_suffix)

lemma bedrock_suffix_skip:
  "\<not> suffix suf rest \<Longrightarrow> bedrock_model_suffix rest (suf # sufs) = bedrock_model_suffix rest sufs"
  by (auto split: option.split dest: last_index_end)

lemma converse_not_stream: "\<not> suffix ''/converse-stream'' (m @ ''/converse'')"
  by (simp add: suffix_to_prefix)

lemma extract_bedrock_model:
  assumes "m \<noteq> []"
  shows "ExtractBedrockModelFromPath (''/model/'' @ m @ ''/converse'') = m"
    and "ExtractBedrockModelFromPath (''/model/'' @ m @ ''/converse-stream'') = m"
proof -
  have "bedrock_model_suffix (m @ ''/converse'') [''/converse-stream'', ''/converse''] = m"
    using bedrock_suffix_skip [OF converse_not_stream] bedrock_suffix_hit [of "''/converse''" m "[]"] assms by simp
  then show "ExtractBedrockModelFromPath (''/model/'' @ m @ ''/converse'') = m"
    by (simp add: ExtractBedrockModelFromPath_def del: bedrock_model_suffix.simps)
  have "bedrock_model_suffix (m @ ''/converse-stream'') [''/converse-stream'', ''/converse''] = m"
    using assms by (intro bedrock_suffix_hit) simp_all
  then show "ExtractBedrockModelFromPath (''/model/'' @ m @ ''/converse-stream'') = m"
    by (simp add: ExtractBedrockModelFromPath_def del: bedrock_model_suffix.simps)
qed

section \<open>Encoding frames\<close>

text \<open>
  A frame as AWS sends it: total length, length of the headers, checksum of these eight bytes,
  headers, payload, checksum of the message. The parser reads neither the checksums nor the
  headers, so they are arbitrary bytes here.
\<close>

definition be32_bytes :: "nat \<Rightarrow> string" where
  "be32_bytes n = [char_of (n div 16777216 mod 256), char_of (n div 65536 mod 256),
     char_of (n div 256 mod 256), char_of (n mod 256)]"

record event_frame =
  ef_PreludeCRC :: string
  ef_Headers :: string
  ef_Payload :: string
  ef_MessageCRC :: string

definition frame_length :: "event_frame \<Rightarrow> nat" where
  "frame_length f = 16 + length (ef_Headers f) + length (ef_Payload f)"

definition frame_ok :: "event_frame \<Rightarrow> bool" where
  "frame_ok f \<longleftrightarrow> length (ef_PreludeCRC f) = 4 \<and> length (ef_MessageCRC f) = 4 \<and> frame_length f < 2 ^ 32"

definition frame_bytes :: "event_frame \<Rightarrow> string" where
  "frame_bytes f = be32_bytes (frame_length f) @ be32_bytes (length (ef_Headers f)) @ ef_PreludeCRC f
     @ ef_Headers f @ ef_Payload f @ ef_MessageCRC f"

lemma be32_bytes_length [simp]: "length (be32_bytes n) = 4"
  by (simp add: be32_bytes_def)

lemma frame_bytes_length: "frame_ok f \<Longrightarrow> length (frame_bytes f) = frame_length f"
  by (simp add: frame_bytes_def frame_ok_def frame_length_def)

lemma be32_digits:
  fixes n :: nat
  assumes "n < 2 ^ 32"
  shows "((n div 16777216 mod 256 * 256 + n div 65536 mod 256) * 256 + n div 256 mod 256) * 256 + n mod 256 = n"
proof -
  have "n div 16777216 mod 256 = n div 16777216" using assms by (simp add: div_less_iff_less_mult)
  moreover have "n div 16777216 * 256 + n div 65536 mod 256 = n div 65536"
    using div_mult_mod_eq [of "n div 65536" 256] by (simp add: div_mult2_eq [symmetric])
  moreover have "n div 65536 * 256 + n div 256 mod 256 = n div 256"
    using div_mult_mod_eq [of "n div 256" 256] by (simp add: div_mult2_eq [symmetric])
  ultimately show ?thesis using div_mult_mod_eq [of n 256] by simp
qed

lemma nth_at: "(p @ a # r) ! length p = a" "(p @ a # b # r) ! Suc (length p) = b"
  "(p @ a # b # c # r) ! Suc (Suc (length p)) = c"
  "(p @ a # b # c # d # r) ! Suc (Suc (Suc (length p))) = d"
  by (simp_all add: nth_append)

lemma be32_at:
  assumes "n < 2 ^ 32"
  shows "be32 (p @ be32_bytes n @ r) (length p) = word_of_nat n"
proof -
  have "be32 (p @ be32_bytes n @ r) (length p) = word_of_nat
      (((n div 16777216 mod 256 * 256 + n div 65536 mod 256) * 256 + n div 256 mod 256) * 256 + n mod 256)"
    unfolding be32_def be32_bytes_def by (simp add: nth_at of_char_of numeral_eq_Suc [of "num.Bit0 num.One"]
      numeral_3_eq_3)
  then show ?thesis by (simp only: be32_digits [OF assms])
qed

lemma be32_total:
  "frame_ok f \<Longrightarrow> be32 (p @ frame_bytes f @ r) (length p) = word_of_nat (frame_length f)"
  unfolding frame_bytes_def append_assoc by (rule be32_at) (simp add: frame_ok_def)

lemma be32_headers:
  assumes "frame_ok f"
  shows "be32 (p @ frame_bytes f @ r) (length p + 4) = word_of_nat (length (ef_Headers f))"
proof -
  have "length (ef_Headers f) < 2 ^ 32" using assms by (simp add: frame_ok_def frame_length_def)
  from be32_at [OF this, of "p @ be32_bytes (frame_length f)"] show ?thesis
    by (simp add: frame_bytes_def)
qed

lemma frame_payload:
  "frame_ok f \<Longrightarrow> take (length (ef_Payload f)) (drop (length p + 12 + length (ef_Headers f)) (p @ frame_bytes f @ r))
     = ef_Payload f"
  by (simp add: frame_bytes_def frame_ok_def)

text \<open>One turn of the loop: any lengths that fit, then a well-formed frame.\<close>

lemma word_of_nat_lengths:
  assumes "h + 16 \<le> t" "t < 2 ^ 32"
  shows "unat (word_of_nat t :: 32 word) = t" "unat (word_of_nat h :: 32 word) = h"
    "(16 :: 32 word) \<le> word_of_nat t" "(word_of_nat h :: 32 word) \<le> word_of_nat t - 16"
proof -
  show u: "unat (word_of_nat t :: 32 word) = t" and h: "unat (word_of_nat h :: 32 word) = h"
    using assms by (simp_all add: unat_of_nat take_bit_nat_eq_self)
  show ge: "(16 :: 32 word) \<le> word_of_nat t" using u assms by (simp add: word_le_nat_alt)
  show "(word_of_nat h :: 32 word) \<le> word_of_nat t - 16"
    using u h ge assms by (simp add: word_le_nat_alt unat_sub)
qed

lemma bedrock_walk_step:
  assumes "h + 16 \<le> t" "t < 2 ^ 32" "t \<le> length body - offset"
    and "be32 body offset = word_of_nat t" "be32 body (offset + 4) = word_of_nat h"
  shows "bedrock_walk body offset found =
    bedrock_walk body (offset + t)
      (case payload_usage (take (t - (16 + h)) (drop (offset + 12 + h) body)) of None \<Rightarrow> found | Some u \<Rightarrow> Some u)"
proof -
  note w = word_of_nat_lengths [OF assms(1,2)]
  have "\<not> offset + t - 4 < offset + 12 + h" "offset + t - 4 - (offset + 12 + h) = t - (16 + h)"
    using assms(1) by auto
  then show ?thesis
    using assms w(1,2) w(3,4) [THEN leD] by (simp add: bedrock_walk.simps [of body offset] Let_def)
qed

lemma bedrock_walk_frame:
  assumes f: "frame_ok f"
  shows "bedrock_walk (p @ frame_bytes f @ r) (length p) found =
    bedrock_walk (p @ frame_bytes f @ r) (length p + frame_length f)
      (case payload_usage (ef_Payload f) of None \<Rightarrow> found | Some u \<Rightarrow> Some u)"
proof -
  have "frame_length f - (16 + length (ef_Headers f)) = length (ef_Payload f)"
    by (simp add: frame_length_def)
  then have p: "take (frame_length f - (16 + length (ef_Headers f)))
      (drop (length p + 12 + length (ef_Headers f)) (p @ frame_bytes f @ r)) = ef_Payload f"
    by (simp only: frame_payload [OF f])
  show ?thesis
    using f bedrock_walk_step [OF _ _ _ be32_total [OF f] be32_headers [OF f], of p r, unfolded p]
    by (simp add: frame_bytes_length frame_length_def frame_ok_def)
qed

definition frames_bytes :: "event_frame list \<Rightarrow> string" where
  "frames_bytes fs = concat (map frame_bytes fs)"

definition last_usage :: "bedrockUsage option \<Rightarrow> event_frame list \<Rightarrow> bedrockUsage option" where
  "last_usage found fs = last_of found (map_option Some \<circ> payload_usage \<circ> ef_Payload) fs"

lemma last_usage_Cons:
  "last_usage found (f # fs) =
     last_usage (case payload_usage (ef_Payload f) of None \<Rightarrow> found | Some u \<Rightarrow> Some u) fs"
  by (simp add: last_usage_def last_of_def List.map_filter_def split: option.split)

lemma bedrock_walk_frames:
  "list_all frame_ok fs \<Longrightarrow> length r < 12 \<Longrightarrow>
     bedrock_walk (p @ frames_bytes fs @ r) (length p) found = Inr (last_usage found fs)"
proof (induction fs arbitrary: p found)
  case Nil
  then show ?case
    by (simp add: bedrock_walk.simps [of "p @ r"] frames_bytes_def last_usage_def)
next
  case (Cons f fs)
  then have f: "frame_ok f" and fs: "list_all frame_ok fs" by simp_all
  have "bedrock_walk (p @ frames_bytes (f # fs) @ r) (length p) found
      = bedrock_walk (p @ frame_bytes f @ frames_bytes fs @ r) (length p) found"
    by (simp add: frames_bytes_def)
  also have "\<dots> = bedrock_walk ((p @ frame_bytes f) @ frames_bytes fs @ r) (length (p @ frame_bytes f))
      (case payload_usage (ef_Payload f) of None \<Rightarrow> found | Some u \<Rightarrow> Some u)"
    unfolding bedrock_walk_frame [OF f] by (simp add: frame_bytes_length [OF f])
  also have "\<dots> = Inr (last_usage (case payload_usage (ef_Payload f) of None \<Rightarrow> found | Some u \<Rightarrow> Some u) fs)"
    using fs Cons.prems(2) by (rule Cons.IH)
  finally show ?case by (simp only: last_usage_Cons)
qed

text \<open>The bounds check on the payload never fires: the check on the headers implies it.\<close>

lemma bedrock_walk_bounds: "bedrock_walk body offset found \<noteq> Inl PayloadBounds"
proof (induction body offset found rule: bedrock_walk.induct)
  case (1 body offset found)
  let ?t = "be32 body offset" and ?h = "be32 body (offset + 4)"
  have "unat ?h \<le> unat ?t - 16" if "\<not> ?t < 16" "\<not> ?t - 16 < ?h"
    using that by (simp add: word_le_nat_alt unat_sub not_less)
  moreover have "16 \<le> unat ?t" if "\<not> ?t < 16" using that by (simp add: word_le_nat_alt not_less)
  ultimately have "\<not> offset + unat ?t - 4 < offset + 12 + unat ?h" if "\<not> ?t < 16" "\<not> ?t - 16 < ?h"
    using that by fastforce
  then show ?case
    using 1 by (auto simp: bedrock_walk.simps [of body offset] Let_def)
qed

text \<open>A list of frames is taken for an event stream, and a JSON object is not.\<close>

lemma event_stream_frame:
  assumes f: "frame_ok f"
  shows "isEventStreamResponse (frame_bytes f @ r)"
proof -
  have "length (ef_Headers f) + 16 \<le> frame_length f" "frame_length f < 2 ^ 32"
    using f by (simp_all add: frame_ok_def frame_length_def)
  from word_of_nat_lengths [OF this] this(1) show ?thesis
    using be32_total [OF f, of "[]" r] be32_headers [OF f, of "[]" r] frame_bytes_length [OF f]
    by (simp add: isEventStreamResponse_def Let_def)
qed

lemma bytes_bound:
  fixes a b c d :: nat
  shows "a < 256 \<Longrightarrow> b < 256 \<Longrightarrow> c < 256 \<Longrightarrow> d < 256 \<Longrightarrow> ((a * 256 + b) * 256 + c) * 256 + d < 2 ^ 32"
  by simp

lemma unat_of_nat_small: "n < 2 ^ 32 \<Longrightarrow> unat (word_of_nat n :: 32 word) = n"
  by (simp add: unat_of_nat take_bit_nat_eq_self)

lemma be32_lower: "unat (be32 b i) \<ge> of_char (b ! i) * 16777216"
proof -
  let ?d = "\<lambda>k. of_char (b ! k) :: nat"
  let ?n = "((?d i * 256 + ?d (i + 1)) * 256 + ?d (i + 2)) * 256 + ?d (i + 3)"
  have "?n < 2 ^ 32" by (intro bytes_bound nat_of_char_less_256)
  then have "unat (be32 b i) = ?n" unfolding be32_def by (intro unat_of_nat_small)
  then show ?thesis by simp
qed

lemma json_not_event_stream:
  "length body < 2063597568 \<Longrightarrow> prefix ''{'' body \<Longrightarrow> \<not> isEventStreamResponse body"
  using be32_lower [of body 0] by (cases body) (auto simp: isEventStreamResponse_def Let_def)

section \<open>Properties\<close>

text \<open>C12. On well-formed event stream frames, up to a tail too short for a prelude, the walk returns the
  usage of the last frame whose payload reports tokens, and empty metrics when none does. Every frame
  is visited and the checksums and headers are skipped.\<close>

theorem bedrock_stream_usage:
  assumes "list_all frame_ok fs" and "length tail < 12"
  shows "bedrock_parseEventStream (frames_bytes fs @ tail) = Inr
    (case last_usage None fs of
       None \<Rightarrow> zero_metrics\<lparr>um_Provider := ProviderBedrock\<rparr>
     | Some u \<Rightarrow> usage_metrics_of u)"
  using bedrock_walk_frames [OF assms, of "[]" None]
  by (simp add: bedrock_parseEventStream_def split: option.split)

definition example_frame :: event_frame where
  "example_frame = \<lparr>ef_PreludeCRC = ''0000'', ef_Headers = ''hh'', ef_Payload = ''{}'', ef_MessageCRC = ''1111''\<rparr>"

lemma bedrock_stream_usage_witness:
  "bedrock_parseEventStream (frames_bytes [example_frame] @ ''xyz'') = Inr
    (case last_usage None [example_frame] of
       None \<Rightarrow> zero_metrics\<lparr>um_Provider := ProviderBedrock\<rparr>
     | Some u \<Rightarrow> usage_metrics_of u)"
  by (rule bedrock_stream_usage) (simp_all add: example_frame_def frame_ok_def frame_length_def)

text \<open>A body that starts with a frame is taken for an event stream and a JSON object is not, and
  the last of the three bounds checks of the walk can never fail.\<close>

theorem bedrock_dispatch:
  "(frame_ok f \<longrightarrow> isEventStreamResponse (frame_bytes f @ rest)) \<and>
   (length json < 2063597568 \<and> prefix ''{'' json \<longrightarrow> \<not> isEventStreamResponse json) \<and>
   bedrock_walk body offset found \<noteq> Inl PayloadBounds"
  using event_stream_frame json_not_event_stream bedrock_walk_bounds by blast

lemma bedrock_dispatch_witness:
  "isEventStreamResponse (frame_bytes example_frame @ []) \<and> \<not> isEventStreamResponse ''{ }'' \<and>
   bedrock_walk [] 0 None \<noteq> Inl PayloadBounds"
  using bedrock_dispatch [of example_frame "[]" "''{ }''" "[]" 0 None]
  by (simp add: example_frame_def frame_ok_def frame_length_def)

text \<open>The model of a Bedrock path is exactly what stands between \<open>/model/\<close> and the operation, also
  when it contains slashes or the name of an operation itself.\<close>

theorem bedrock_model_of_path:
  assumes "m \<noteq> []"
  shows "ExtractBedrockModelFromPath (''/model/'' @ m @ ''/converse'') = m
    \<and> ExtractBedrockModelFromPath (''/model/'' @ m @ ''/converse-stream'') = m"
  using extract_bedrock_model [OF assms] by blast

lemma bedrock_model_of_path_witness:
  "ExtractBedrockModelFromPath (''/model/'' @ ''a/converse'' @ ''/converse'') = ''a/converse''"
  using bedrock_model_of_path [of "''a/converse''"] by simp

end
