(* ===== verification/Go_Float_Text.thy ===== *)
theory Go_Float_Text
  imports Go_Float Json_Codec
begin

text \<open>
  Floating-point numbers in JSON: the value of a number literal (\<open>strconv.ParseFloat\<close>) and the
  shortest literal that reads back as a given number, in the layout \<open>encoding/json\<close> chooses.
\<close>

section \<open>Reading\<close>

definition pow10 :: "int \<Rightarrow> rat" where
  "pow10 e = 10 powi e"

text \<open>The exact value of a well-formed literal.\<close>

definition exp_value :: "string \<Rightarrow> int" where
  "exp_value e =
     (case e of
        [] \<Rightarrow> 0
      | _ # s \<Rightarrow>
          if prefix ''-'' s then - int (nat_of_dec (tl s))
          else if prefix ''+'' s then int (nat_of_dec (tl s))
          else int (nat_of_dec s))"

definition num_value :: "string \<Rightarrow> rat option" where
  "num_value t =
     (let (sg, q) = sign_tok (\<lambda>x. x = CHR ''-'') t in
      case int_tok q of
        None \<Rightarrow> None
      | Some (i, r1) \<Rightarrow>
          (case frac_tok r1 of
             None \<Rightarrow> None
           | Some (f, r2) \<Rightarrow>
               (case exp_tok r2 of
                  None \<Rightarrow> None
                | Some (e, r3) \<Rightarrow>
                    let m = of_nat (nat_of_dec (i @ tl f));
                        v = m * pow10 (exp_value e - int (length (tl f)))
                    in Some (if sg = [] then v else - v))))"

text \<open>The largest finite number; a literal that rounds above it is a range error.\<close>

definition max_float :: rat where
  "max_float = (2 - 1 / 2 ^ 52) * 2 ^ 1023"

definition json_float :: "string \<Rightarrow> f64 option" where
  "json_float t =
     (case num_value t of
        None \<Rightarrow> None
      | Some v \<Rightarrow> if \<bar>rnd53 v\<bar> \<le> max_float then Some (f64_of_rat v) else None)"

fun decode_float :: "json \<Rightarrow> f64 \<Rightarrow> f64 option" where
  "decode_float (JNum t) x = json_float t"
| "decode_float JNull x = Some x"
| "decode_float _ x = None"

section \<open>Writing\<close>

text \<open>The decimal exponent of a positive number: the estimate from its binary exponent is off by at
  most one in the range of the format.\<close>

definition ilog10 :: "rat \<Rightarrow> int" where
  "ilog10 x =
     (let e = ilog2 x * 30103 div 100000 in
      if x < pow10 e then e - 1 else if pow10 (e + 1) \<le> x then e + 1 else e)"

text \<open>
  The first decimal with 1 to 17 digits that reads back: the nearest one of that length, or the
  next one up, which can be the only one in range when the number is a power of two. Trailing
  zeros are dropped.
\<close>

fun shortest_from :: "rat \<Rightarrow> int \<Rightarrow> nat list \<Rightarrow> nat \<times> int" where
  "shortest_from x e [] = (1, e)"   \<comment> \<open>not reached: 17 digits are enough\<close>
| "shortest_from x e (n # ns) =
     (let k = e - int n + 1; m = rhe (x / pow10 k)
      in if rnd53 (of_int m * pow10 k) = x then (nat m, k)
         else if rnd53 (of_int (m + 1) * pow10 k) = x then (nat (m + 1), k)
         else shortest_from x e ns)"

fun strip_zeros :: "nat \<Rightarrow> nat \<Rightarrow> int \<Rightarrow> nat \<times> int" where
  "strip_zeros 0 m k = (m, k)"
| "strip_zeros (Suc n) m k = (if m mod 10 = 0 then strip_zeros n (m div 10) (k + 1) else (m, k))"

definition shortest :: "rat \<Rightarrow> nat \<times> int" where
  "shortest x = (case shortest_from x (ilog10 x) [1..<18] of (m, k) \<Rightarrow> strip_zeros 17 m k)"

definition zeros :: "nat \<Rightarrow> string" where
  "zeros n = replicate n (CHR ''0'')"

text \<open>Plain layout: the point among or around the digits.\<close>

definition plain_text :: "nat \<Rightarrow> int \<Rightarrow> string" where
  "plain_text m k =
     (let ds = dec_of_nat m; n = int (length ds) in
      if 0 \<le> k then ds @ zeros (nat k)
      else if 0 < n + k then take (nat (n + k)) ds @ ''.'' @ drop (nat (n + k)) ds
      else ''0.'' @ zeros (nat (- (n + k))) @ ds)"

text \<open>Exponent layout: one digit before the point, and a signed exponent, of two digits at least if
  it is positive.\<close>

definition exp_text :: "nat \<Rightarrow> int \<Rightarrow> string" where
  "exp_text m k =
     (let ds = dec_of_nat m; e = k + int (length ds) - 1; a = dec_of_nat (nat \<bar>e\<bar>) in
      take 1 ds @ (if length ds = 1 then [] else ''.'' @ drop 1 ds) @
      (if e < 0 then ''e-'' @ a else ''e+'' @ (if length a < 2 then ''0'' @ a else a)))"

definition f64_text :: "f64 \<Rightarrow> string" where
  "f64_text x =
     (let r = rat_of_f64 x; a = \<bar>r\<bar>; sg = (if r < 0 then ''-'' else []) in
      if r = 0 then ''0''
      else case shortest a of (m, k) \<Rightarrow>
        sg @ (if a < rnd53 (pow10 (- 6)) \<or> pow10 21 \<le> a then exp_text m k else plain_text m k))"

definition json_f64 :: "f64 \<Rightarrow> json" where
  "json_f64 x = JNum (f64_text x)"

section \<open>The text is a number literal\<close>

lemma shortest_from_pos: "0 < x \<Longrightarrow> 0 < fst (shortest_from x e ns)"
proof (induction ns)
  case (Cons n ns)
  let ?k = "e - int n + 1"
  have pos: "0 < m" if "rnd53 (of_int m * pow10 k) = x" for m k
  proof (rule ccontr)
    assume "\<not> 0 < m"
    then have "of_int m * pow10 k \<le> 0" by (simp add: pow10_def mult_nonpos_nonneg)
    then have "rnd53 (of_int m * pow10 k) \<le> rnd53 0" by (rule rnd53_mono)
    with that Cons.prems show False by simp
  qed
  from Cons pos [of "rhe (x / pow10 ?k)" ?k] pos [of "rhe (x / pow10 ?k) + 1" ?k] show ?case
    unfolding shortest_from.simps Let_def by (auto simp del: of_int_add)
qed simp

lemma strip_zeros_pos: "0 < m \<Longrightarrow> 0 < fst (strip_zeros n m k)"
proof (induction n m k rule: strip_zeros.induct)
  case (2 n m k)
  then have "m mod 10 = 0 \<Longrightarrow> 0 < m div 10" by (metis div_mult_mod_eq add_0_right gr0I mult_0)
  with 2 show ?case by simp
qed simp

lemma shortest_pos: "0 < x \<Longrightarrow> 0 < fst (shortest x)"
  using shortest_from_pos [of x "ilog10 x" "[1..<18]"]
  by (auto simp: shortest_def strip_zeros_pos split: prod.split)

lemma zeros_digits: "\<forall>c \<in> set (zeros n). is_digit c"
  by (simp add: zeros_def is_digit_def)

lemma zeros_length [simp]: "length (zeros n) = n"
  by (simp add: zeros_def)

lemma plain_text_ok: "0 < m \<Longrightarrow> sg = [] \<or> sg = ''-'' \<Longrightarrow> num_ok (sg @ plain_text m k)"
proof -
  assume m: "0 < m" and sg: "sg = [] \<or> sg = ''-''"
  let ?ds = "dec_of_nat m"
  have d: "\<forall>c \<in> set ?ds. is_digit c" by (rule dec_of_nat_digits)
  have h: "?ds \<noteq> []" "hd ?ds \<noteq> CHR ''0''" using m by (simp_all add: dec_of_nat_head)
  consider "0 \<le> k" | "k < 0" "0 < int (length ?ds) + k" | "k < 0" "int (length ?ds) + k \<le> 0" by linarith
  then show ?thesis
  proof cases
    case 1
    have "num_ok (sg @ (?ds @ zeros (nat k)) @ [] @ [])"
      using d h zeros_digits sg by (intro num_ok_parts) auto
    with 1 show ?thesis by (simp add: plain_text_def Let_def)
  next
    case 2
    let ?p = "nat (int (length ?ds) + k)"
    have "0 < ?p" "?p < length ?ds" using 2 by auto
    then have "num_ok (sg @ take ?p ?ds @ (CHR ''.'' # drop ?p ?ds) @ [])"
      using d h sg by (intro num_ok_parts) (auto dest: in_set_takeD in_set_dropD)
    with 2 show ?thesis by (simp add: plain_text_def Let_def)
  next
    case 3
    have "num_ok (sg @ ''0'' @ (CHR ''.'' # zeros (nat (- (int (length ?ds) + k))) @ ?ds) @ [])"
      using d h zeros_digits sg by (intro num_ok_parts) (auto simp: is_digit_def)
    with 3 show ?thesis by (simp add: plain_text_def Let_def)
  qed
qed

lemma exp_text_ok: "0 < m \<Longrightarrow> sg = [] \<or> sg = ''-'' \<Longrightarrow> num_ok (sg @ exp_text m k)"
proof -
  assume m: "0 < m" and sg: "sg = [] \<or> sg = ''-''"
  let ?ds = "dec_of_nat m"
  define e where "e = k + int (length ?ds) - 1"
  let ?a = "dec_of_nat (nat \<bar>e\<bar>)"
  define f where "f = (if length ?ds = 1 then [] else ''.'' @ drop 1 ?ds)"
  define x where "x = (if e < 0 then ''e-'' @ ?a else ''e+'' @ (if length ?a < 2 then ''0'' @ ?a else ?a))"
  have d: "\<forall>c \<in> set ?ds. is_digit c" "\<forall>c \<in> set ?a. is_digit c" by (rule dec_of_nat_digits)+
  have h: "?ds \<noteq> []" "hd ?ds \<noteq> CHR ''0''" using m by (simp_all add: dec_of_nat_head)
  have "num_ok (sg @ take 1 ?ds @ f @ x)"
  proof (rule num_ok_parts [OF sg])
    show "f = [] \<or> (\<exists>d. f = CHR ''.'' # d \<and> d \<noteq> [] \<and> (\<forall>c \<in> set d. is_digit c))"
      using d(1) h(1) by (cases ?ds; cases "tl ?ds") (auto simp: f_def)
    show "x = [] \<or> (\<exists>s d. x = CHR ''e'' # s # d \<and> (s = CHR ''+'' \<or> s = CHR ''-'') \<and> d \<noteq> [] \<and> (\<forall>c \<in> set d. is_digit c))"
      using d(2) by (auto simp: x_def is_digit_def)
  qed (use d(1) h in \<open>auto dest: in_set_takeD\<close>)
  then show ?thesis by (simp only: exp_text_def Let_def f_def x_def e_def)
qed

lemma f64_text_ok: "num_ok (f64_text x)"
proof (cases "rat_of_f64 x = 0")
  case True
  then show ?thesis using num_ok_parts [of "[]" "''0''" "[]" "[]"] by (simp add: f64_text_def is_digit_def)
next
  case False
  let ?a = "\<bar>rat_of_f64 x\<bar>"
  obtain m k where s: "shortest ?a = (m, k)" by (cases "shortest ?a")
  have "0 < m" using shortest_pos [of ?a] False s by simp
  with False s show ?thesis by (simp add: f64_text_def Let_def plain_text_ok exp_text_ok)
qed

lemma json_ok_f64 [simp]: "json_ok (json_f64 x)"
  by (simp add: json_f64_def f64_text_ok)

end
