(* ===== verification/Translator.thy ===== *)
theory Translator
  imports Provider Go_Float_Text
begin

text \<open>
  \<open>internal/provider/translator.go\<close>: chat completion requests translated to the Anthropic Messages
  API and responses translated back. A struct is marshalled member by member in the order of its
  fields; \<open>omitempty\<close> leaves out a nil pointer and an empty string, and a nil slice is \<open>null\<close>.
\<close>

section \<open>OpenAI structures\<close>

record OpenAIMessage =
  om_Role :: string
  om_Content :: string

record OpenAIRequest =
  oq_Model :: string
  oq_Messages :: "OpenAIMessage list"
  oq_MaxTokens :: "int64 option"
  oq_Temperature :: "f64 option"
  oq_TopP :: "f64 option"
  oq_Stream :: "bool option"

record OpenAIChoice =
  oc_Index :: int64
  oc_Message :: OpenAIMessage
  oc_FinishReason :: string

record OpenAIUsage =
  oz_PromptTokens :: int64
  oz_CompletionTokens :: int64
  oz_TotalTokens :: int64

record OpenAIResponse =
  op_ID :: string
  op_Object :: string
  op_Created :: int64
  op_ModelName :: string
  op_Choices :: "OpenAIChoice list"
  op_UsageBlock :: OpenAIUsage

section \<open>Anthropic structures\<close>

record AnthropicMessage =
  am_Role :: string
  am_Content :: string

record AnthropicRequest =
  aq_Model :: string
  aq_Messages :: "AnthropicMessage list"
  aq_System :: string
  aq_MaxTokens :: int64
  aq_Temperature :: "f64 option"
  aq_TopP :: "f64 option"
  aq_Stream :: "bool option"

record AnthropicContentBlock =
  ab_Type :: string
  ab_Text :: string

record AnthropicUsage =
  az_InputTokens :: int64
  az_OutputTokens :: int64

record AnthropicResponse =
  as_ID :: string
  as_Type :: string
  as_Role :: string
  as_Content :: "AnthropicContentBlock list"
  as_Model :: string
  as_StopReason :: string
  as_StopSequence :: "string option"
  as_Usage :: AnthropicUsage

section \<open>Decoding\<close>

definition OpenAIMessage_fields :: "OpenAIMessage json_field list" where
  "OpenAIMessage_fields =
     [field ''role'' decode_string om_Role (\<lambda>x. om_Role_update (\<lambda>_. x)),
      field ''content'' decode_string om_Content (\<lambda>x. om_Content_update (\<lambda>_. x))]"

definition OpenAIRequest_fields :: "OpenAIRequest json_field list" where
  "OpenAIRequest_fields =
     [field ''model'' decode_string oq_Model (\<lambda>x. oq_Model_update (\<lambda>_. x)),
      field ''messages'' (decode_slice \<lparr>om_Role = [], om_Content = []\<rparr> (decode_struct OpenAIMessage_fields))
        oq_Messages (\<lambda>x. oq_Messages_update (\<lambda>_. x)),
      field ''max_tokens'' (decode_ptr 0 decode_int) oq_MaxTokens (\<lambda>x. oq_MaxTokens_update (\<lambda>_. x)),
      field ''temperature'' (decode_ptr 0 decode_float) oq_Temperature (\<lambda>x. oq_Temperature_update (\<lambda>_. x)),
      field ''top_p'' (decode_ptr 0 decode_float) oq_TopP (\<lambda>x. oq_TopP_update (\<lambda>_. x)),
      field ''stream'' (decode_ptr False decode_bool) oq_Stream (\<lambda>x. oq_Stream_update (\<lambda>_. x))]"

definition zero_OpenAIRequest :: OpenAIRequest where
  "zero_OpenAIRequest = \<lparr>oq_Model = [], oq_Messages = [], oq_MaxTokens = None, oq_Temperature = None,
     oq_TopP = None, oq_Stream = None\<rparr>"

definition AnthropicContentBlock_fields :: "AnthropicContentBlock json_field list" where
  "AnthropicContentBlock_fields =
     [field ''type'' decode_string ab_Type (\<lambda>x. ab_Type_update (\<lambda>_. x)),
      field ''text'' decode_string ab_Text (\<lambda>x. ab_Text_update (\<lambda>_. x))]"

definition AnthropicUsage_fields :: "AnthropicUsage json_field list" where
  "AnthropicUsage_fields =
     [field ''input_tokens'' decode_int az_InputTokens (\<lambda>x. az_InputTokens_update (\<lambda>_. x)),
      field ''output_tokens'' decode_int az_OutputTokens (\<lambda>x. az_OutputTokens_update (\<lambda>_. x))]"

definition AnthropicResponse_fields :: "AnthropicResponse json_field list" where
  "AnthropicResponse_fields =
     [field ''id'' decode_string as_ID (\<lambda>x. as_ID_update (\<lambda>_. x)),
      field ''type'' decode_string as_Type (\<lambda>x. as_Type_update (\<lambda>_. x)),
      field ''role'' decode_string as_Role (\<lambda>x. as_Role_update (\<lambda>_. x)),
      field ''content''
        (decode_slice \<lparr>ab_Type = [], ab_Text = []\<rparr> (decode_struct AnthropicContentBlock_fields))
        as_Content (\<lambda>x. as_Content_update (\<lambda>_. x)),
      field ''model'' decode_string as_Model (\<lambda>x. as_Model_update (\<lambda>_. x)),
      field ''stop_reason'' decode_string as_StopReason (\<lambda>x. as_StopReason_update (\<lambda>_. x)),
      field ''stop_sequence'' (decode_ptr [] decode_string) as_StopSequence (\<lambda>x. as_StopSequence_update (\<lambda>_. x)),
      field ''usage'' (decode_struct AnthropicUsage_fields) as_Usage (\<lambda>x. as_Usage_update (\<lambda>_. x))]"

definition zero_AnthropicResponse :: AnthropicResponse where
  "zero_AnthropicResponse = \<lparr>as_ID = [], as_Type = [], as_Role = [], as_Content = [], as_Model = [],
     as_StopReason = [], as_StopSequence = None, as_Usage = \<lparr>az_InputTokens = 0, az_OutputTokens = 0\<rparr>\<rparr>"

section \<open>Encoding\<close>

definition member :: "string \<Rightarrow> json \<Rightarrow> (string \<times> json) list" where
  "member k j = [(k, j)]"

definition omit_nil :: "string \<Rightarrow> ('a \<Rightarrow> json) \<Rightarrow> 'a option \<Rightarrow> (string \<times> json) list" where
  "omit_nil k enc x = (case x of None \<Rightarrow> [] | Some v \<Rightarrow> [(k, enc v)])"

definition slice_doc :: "('a \<Rightarrow> json) \<Rightarrow> 'a list \<Rightarrow> json" where
  "slice_doc enc xs = (if xs = [] then JNull else JArr (map enc xs))"

definition AnthropicMessage_doc :: "AnthropicMessage \<Rightarrow> json" where
  "AnthropicMessage_doc m = JObj [(''role'', json_str (am_Role m)), (''content'', json_str (am_Content m))]"

definition AnthropicRequest_doc :: "AnthropicRequest \<Rightarrow> json" where
  "AnthropicRequest_doc q = JObj
     (member ''model'' (json_str (aq_Model q)) @
      member ''messages'' (slice_doc AnthropicMessage_doc (aq_Messages q)) @
      (if aq_System q = [] then [] else member ''system'' (json_str (aq_System q))) @
      member ''max_tokens'' (json_num (aq_MaxTokens q)) @
      omit_nil ''temperature'' json_f64 (aq_Temperature q) @
      omit_nil ''top_p'' json_f64 (aq_TopP q) @
      omit_nil ''stream'' JBool (aq_Stream q))"

definition OpenAIMessage_doc :: "OpenAIMessage \<Rightarrow> json" where
  "OpenAIMessage_doc m = JObj [(''role'', json_str (om_Role m)), (''content'', json_str (om_Content m))]"

definition OpenAIChoice_doc :: "OpenAIChoice \<Rightarrow> json" where
  "OpenAIChoice_doc c = JObj [(''index'', json_num (oc_Index c)), (''message'', OpenAIMessage_doc (oc_Message c)),
     (''finish_reason'', json_str (oc_FinishReason c))]"

definition OpenAIUsage_doc :: "OpenAIUsage \<Rightarrow> json" where
  "OpenAIUsage_doc u = JObj [(''prompt_tokens'', json_num (oz_PromptTokens u)),
     (''completion_tokens'', json_num (oz_CompletionTokens u)), (''total_tokens'', json_num (oz_TotalTokens u))]"

definition OpenAIResponse_doc :: "OpenAIResponse \<Rightarrow> json" where
  "OpenAIResponse_doc r = JObj [(''id'', json_str (op_ID r)), (''object'', json_str (op_Object r)),
     (''created'', json_num (op_Created r)), (''model'', json_str (op_ModelName r)),
     (''choices'', slice_doc OpenAIChoice_doc (op_Choices r)), (''usage'', OpenAIUsage_doc (op_UsageBlock r))]"

section \<open>Translation\<close>

text \<open>The loop over the messages: the last system message is kept apart, the others in order.\<close>

fun split_messages :: "OpenAIMessage list \<Rightarrow> string \<Rightarrow> AnthropicMessage list \<Rightarrow> string \<times> AnthropicMessage list" where
  "split_messages [] sys acc = (sys, acc)"
| "split_messages (m # ms) sys acc =
     (if om_Role m = ''system'' then split_messages ms (om_Content m) acc
      else split_messages ms sys (acc @ [\<lparr>am_Role = om_Role m, am_Content = om_Content m\<rparr>]))"

definition translate_request :: "OpenAIRequest \<Rightarrow> AnthropicRequest" where
  "translate_request req =
     (let (sys, messages) = split_messages (oq_Messages req) [] []
      in \<lparr>aq_Model = oq_Model req, aq_Messages = messages, aq_System = sys,
          aq_MaxTokens = (case oq_MaxTokens req of Some n \<Rightarrow> n | None \<Rightarrow> 4096),
          aq_Temperature = oq_Temperature req, aq_TopP = oq_TopP req, aq_Stream = oq_Stream req\<rparr>)"

definition TranslateOpenAIToAnthropic :: "string \<Rightarrow> (string \<times> string) option" where
  "TranslateOpenAIToAnthropic body =
     (case unmarshal (decode_struct OpenAIRequest_fields) zero_OpenAIRequest body of
        None \<Rightarrow> None
      | Some req \<Rightarrow> Some (print_json (AnthropicRequest_doc (translate_request req)), ''/v1/messages''))"

definition block_text :: "AnthropicContentBlock list \<Rightarrow> string" where
  "block_text bs = concat (map ab_Text (filter (\<lambda>b. ab_Type b = ''text'') bs))"

definition finish_reason :: "string \<Rightarrow> string" where
  "finish_reason stop =
     (if stop = ''end_turn'' then ''stop''
      else if stop = ''max_tokens'' then ''length''
      else if stop = ''stop_sequence'' then ''stop''
      else if stop = ''tool_use'' then ''tool_calls''
      else ''stop'')"

definition translate_response :: "AnthropicResponse \<Rightarrow> OpenAIResponse" where
  "translate_response resp =
     \<lparr>op_ID = as_ID resp, op_Object = ''chat.completion'', op_Created = 0, op_ModelName = as_Model resp,
      op_Choices =
        [\<lparr>oc_Index = 0,
          oc_Message = \<lparr>om_Role = ''assistant'', om_Content = block_text (as_Content resp)\<rparr>,
          oc_FinishReason = finish_reason (as_StopReason resp)\<rparr>],
      op_UsageBlock =
        \<lparr>oz_PromptTokens = az_InputTokens (as_Usage resp), oz_CompletionTokens = az_OutputTokens (as_Usage resp),
         oz_TotalTokens = az_InputTokens (as_Usage resp) + az_OutputTokens (as_Usage resp)\<rparr>\<rparr>"

definition TranslateAnthropicToOpenAI :: "string \<Rightarrow> string \<Rightarrow> string option" where
  "TranslateAnthropicToOpenAI body originalModel =
     map_option (\<lambda>resp. print_json (OpenAIResponse_doc (translate_response resp)))
       (unmarshal (decode_struct AnthropicResponse_fields) zero_AnthropicResponse body)"

definition IsTranslationRequired :: "provider \<Rightarrow> bool" where
  "IsTranslationRequired p \<longleftrightarrow> p = ProviderAnthropicOpenAI"

definition GetTranslatedPath :: "provider \<Rightarrow> string \<Rightarrow> string" where
  "GetTranslatedPath p originalPath =
     (if p = ProviderAnthropicOpenAI \<and> prefix ''/v1/chat/completions'' originalPath then ''/v1/messages''
      else originalPath)"

section \<open>Lemmas\<close>

definition is_system :: "OpenAIMessage \<Rightarrow> bool" where
  "is_system m \<longleftrightarrow> om_Role m = ''system''"

definition to_anthropic :: "OpenAIMessage \<Rightarrow> AnthropicMessage" where
  "to_anthropic m = \<lparr>am_Role = om_Role m, am_Content = om_Content m\<rparr>"

lemma split_messages_eq:
  "split_messages ms sys acc =
     (last (sys # map om_Content (filter is_system ms)), acc @ map to_anthropic (filter (\<lambda>m. \<not> is_system m) ms))"
  by (induction ms arbitrary: sys acc) (auto simp: is_system_def to_anthropic_def)

lemma translate_request_messages:
  "aq_Messages (translate_request req) = map to_anthropic (filter (\<lambda>m. \<not> is_system m) (oq_Messages req))"
  "aq_System (translate_request req) = last ([] # map om_Content (filter is_system (oq_Messages req)))"
  by (simp_all add: translate_request_def split_messages_eq)

lemma key_ok [simp]: "str_ok ''role''" "str_ok ''content''" "str_ok ''model''" "str_ok ''messages''" "str_ok ''system''"
  "str_ok ''max_tokens''" "str_ok ''temperature''" "str_ok ''top_p''" "str_ok ''stream''"
  "str_ok ''id''" "str_ok ''object''" "str_ok ''created''" "str_ok ''choices''" "str_ok ''usage''" "str_ok ''index''"
  "str_ok ''message''" "str_ok ''finish_reason''" "str_ok ''prompt_tokens''" "str_ok ''completion_tokens''"
  "str_ok ''total_tokens''"
  by code_simp+

lemma slice_doc_ok: "(\<And>x. x \<in> set xs \<Longrightarrow> json_ok (enc x)) \<Longrightarrow> json_ok (slice_doc enc xs)"
  by (simp add: slice_doc_def list_all_iff)

lemma AnthropicRequest_doc_ok: "json_ok (AnthropicRequest_doc q)"
proof -
  have "json_ok (slice_doc AnthropicMessage_doc (aq_Messages q))"
    by (rule slice_doc_ok) (simp add: AnthropicMessage_doc_def)
  then show ?thesis
    by (simp add: AnthropicRequest_doc_def member_def omit_nil_def split: option.split)
qed

lemma OpenAIResponse_doc_ok: "json_ok (OpenAIResponse_doc r)"
proof -
  have "json_ok (slice_doc OpenAIChoice_doc (op_Choices r))"
    by (rule slice_doc_ok) (simp add: OpenAIChoice_doc_def OpenAIMessage_doc_def)
  then show ?thesis by (simp add: OpenAIResponse_doc_def OpenAIUsage_doc_def)
qed

lemma translated_request_parses:
  "TranslateOpenAIToAnthropic body = Some (out, path) \<Longrightarrow>
     \<exists>req. unmarshal (decode_struct OpenAIRequest_fields) zero_OpenAIRequest body = Some req \<and>
       json_parse out = Some (AnthropicRequest_doc (translate_request req)) \<and> path = ''/v1/messages''"
  by (auto simp: TranslateOpenAIToAnthropic_def json_parse_print AnthropicRequest_doc_ok split: option.splits)

lemma translated_response_parses:
  "TranslateAnthropicToOpenAI body m = Some out \<Longrightarrow>
     \<exists>resp. unmarshal (decode_struct AnthropicResponse_fields) zero_AnthropicResponse body = Some resp \<and>
       json_parse out = Some (OpenAIResponse_doc (translate_response resp))"
  by (auto simp: TranslateAnthropicToOpenAI_def json_parse_print OpenAIResponse_doc_ok)

section \<open>Properties\<close>

text \<open>A translated chat request is a JSON document with the requested model, the system text of the
  last system message, the other messages in their order, and the token limit or 4096; nothing else of
  the conversation is lost or reordered.\<close>

theorem translated_request:
  assumes "TranslateOpenAIToAnthropic body = Some (out, path)"
  shows "\<exists>req q. unmarshal (decode_struct OpenAIRequest_fields) zero_OpenAIRequest body = Some req \<and>
    json_parse out = Some (AnthropicRequest_doc q) \<and> path = ''/v1/messages'' \<and>
    aq_Model q = oq_Model req \<and>
    aq_Messages q = map to_anthropic (filter (\<lambda>m. \<not> is_system m) (oq_Messages req)) \<and>
    aq_System q = last ([] # map om_Content (filter is_system (oq_Messages req))) \<and>
    aq_MaxTokens q = (case oq_MaxTokens req of None \<Rightarrow> 4096 | Some n \<Rightarrow> n)"
proof -
  obtain req where "unmarshal (decode_struct OpenAIRequest_fields) zero_OpenAIRequest body = Some req"
    "json_parse out = Some (AnthropicRequest_doc (translate_request req))" "path = ''/v1/messages''"
    using translated_request_parses [OF assms] by blast
  then show ?thesis
    by (intro exI [of _ req] exI [of _ "translate_request req"])
      (simp add: translate_request_messages, simp add: translate_request_def split: prod.split)
qed

lemma translated_request_witness:
  "\<exists>out q. TranslateOpenAIToAnthropic (doc ''{~messages~:[{~role~:~user~}]}'') = Some (out, ''/v1/messages'')
    \<and> json_parse out = Some (AnthropicRequest_doc q) \<and> aq_MaxTokens q = 4096"
proof -
  have u: "unmarshal (decode_struct OpenAIRequest_fields) zero_OpenAIRequest (doc ''{~messages~:[{~role~:~user~}]}'')
      = Some (zero_OpenAIRequest\<lparr>oq_Messages := [\<lparr>om_Role = ''user'', om_Content = []\<rparr>]\<rparr>)" by code_simp
  then obtain out where t: "TranslateOpenAIToAnthropic (doc ''{~messages~:[{~role~:~user~}]}'') = Some (out, ''/v1/messages'')"
    by (simp add: TranslateOpenAIToAnthropic_def)
  from translated_request [OF t] u t show ?thesis by (auto simp: zero_OpenAIRequest_def)
qed

text \<open>A translated response is a JSON document with the text blocks joined in order, the totals of
  the tokens, and a finish reason an OpenAI client knows.\<close>

theorem translated_response:
  assumes "TranslateAnthropicToOpenAI body original = Some out"
  shows "\<exists>resp r. unmarshal (decode_struct AnthropicResponse_fields) zero_AnthropicResponse body = Some resp \<and>
    json_parse out = Some (OpenAIResponse_doc r) \<and>
    op_ModelName r = as_Model resp \<and>
    map (om_Content \<circ> oc_Message) (op_Choices r) = [block_text (as_Content resp)] \<and>
    (\<forall>c \<in> set (op_Choices r). oc_FinishReason c \<in> {''stop'', ''length'', ''tool_calls''}) \<and>
    oz_TotalTokens (op_UsageBlock r) = oz_PromptTokens (op_UsageBlock r) + oz_CompletionTokens (op_UsageBlock r) \<and>
    oz_PromptTokens (op_UsageBlock r) = az_InputTokens (as_Usage resp)"
proof -
  obtain resp where "unmarshal (decode_struct AnthropicResponse_fields) zero_AnthropicResponse body = Some resp"
    "json_parse out = Some (OpenAIResponse_doc (translate_response resp))"
    using translated_response_parses [OF assms] by blast
  then show ?thesis
    by (intro exI [of _ resp] exI [of _ "translate_response resp"])
      (simp add: translate_response_def finish_reason_def)
qed

lemma translated_response_witness:
  "\<exists>out r. TranslateAnthropicToOpenAI (doc ''{~model~:~c~}'') [] = Some out
    \<and> json_parse out = Some (OpenAIResponse_doc r) \<and> op_ModelName r = ''c''"
proof -
  have u: "unmarshal (decode_struct AnthropicResponse_fields) zero_AnthropicResponse (doc ''{~model~:~c~}'')
      = Some (zero_AnthropicResponse\<lparr>as_Model := ''c''\<rparr>)" by code_simp
  then obtain out where t: "TranslateAnthropicToOpenAI (doc ''{~model~:~c~}'') [] = Some out"
    by (simp add: TranslateAnthropicToOpenAI_def)
  from translated_response [OF t] u t show ?thesis by (auto simp: zero_AnthropicResponse_def)
qed

end
