(* ===== verification/Pricing.thy ===== *)
theory Pricing
  imports Models Go_Float_Text
begin

text \<open>
  The pricing service, \<open>internal/pricing/service.go\<close>: the model catalog and the remote price feed as
  JSON documents, the price maps and the routing catalog built from them, the lookup of a price and
  the cost of a request.

  The reads of the two files and the answer of the price feed are inputs of the operations. The
  state is a record; the lock of the code makes every operation atomic.
\<close>

section \<open>Data\<close>

record ModelPricing =
  mp_InputPricePerMillion :: f64
  mp_OutputPricePerMillion :: f64
  mp_CachedPricePerMillion :: f64

type_synonym price_map = "(string, ModelPricing) gomap"

record remotePriceEntry =
  rp_ID :: string
  rp_Vendor :: string
  rp_Name :: string
  rp_Input :: f64
  rp_Output :: f64
  rp_InputCached :: "f64 option"

record remotePricingResponse =
  rr_UpdatedAt :: string
  rr_Prices :: "remotePriceEntry list"

record fallbackPriceEntry =
  fp_InputPricePerMillion :: f64
  fp_OutputPricePerMillion :: f64
  fp_CachedPricePerMillion :: f64

record Endpoint =
  ep_Provider :: string
  ep_BaseURL :: string
  ep_ProviderModelID :: string
  ep_Region :: string
  ep_ZDR :: bool
  ep_DataCollection :: string
  ep_RequestDefaults :: "raw_map option"

record providerSection =
  ps_BaseURL :: string
  ps_ZDR :: bool
  ps_DataCollection :: string
  ps_Region :: string
  ps_Models :: "(string, fallbackPriceEntry) gomap"

record routeEntry =
  re_Provider' :: string
  re_Model' :: string
  re_RequestDefaults :: "raw_map option"

record catalogFile =
  cf_Providers :: "(string, providerSection) gomap"
  cf_Routes :: "(string, routeEntry list) gomap"

definition routedModelField :: string where "routedModelField = ''model''"

text \<open>The service: its configuration and the maps under its lock.\<close>

record pricing_service =
  sv_remoteURL :: string
  sv_aliasesFile :: string
  sv_pricing :: price_map
  sv_byProvider :: "(string, price_map) gomap"
  sv_catalog :: "(string, Endpoint list) gomap"
  sv_aliases :: "(string, string) gomap"

section \<open>Decoding\<close>

text \<open>A map with values of a fixed type: a member is decoded into a fresh value and stored.\<close>

fun decode_entries :: "'a \<Rightarrow> (json \<Rightarrow> 'a \<Rightarrow> 'a option) \<Rightarrow> (string \<times> json) list \<Rightarrow> (string, 'a) gomap
    \<Rightarrow> (string, 'a) gomap option" where
  "decode_entries z d [] m = Some m"
| "decode_entries z d ((k, j) # ms) m =
     (case d j z of None \<Rightarrow> None | Some x \<Rightarrow> decode_entries z d ms (gm_put (unquote k) x m))"

fun decode_map :: "'a \<Rightarrow> (json \<Rightarrow> 'a \<Rightarrow> 'a option) \<Rightarrow> json \<Rightarrow> (string, 'a) gomap \<Rightarrow> (string, 'a) gomap option" where
  "decode_map z d JNull m = Some []"
| "decode_map z d (JObj ms) m = decode_entries z d ms m"
| "decode_map z d _ m = None"

definition remotePriceEntry_fields :: "remotePriceEntry json_field list" where
  "remotePriceEntry_fields =
     [field ''id'' decode_string rp_ID (\<lambda>x. rp_ID_update (\<lambda>_. x)),
      field ''vendor'' decode_string rp_Vendor (\<lambda>x. rp_Vendor_update (\<lambda>_. x)),
      field ''name'' decode_string rp_Name (\<lambda>x. rp_Name_update (\<lambda>_. x)),
      field ''input'' decode_float rp_Input (\<lambda>x. rp_Input_update (\<lambda>_. x)),
      field ''output'' decode_float rp_Output (\<lambda>x. rp_Output_update (\<lambda>_. x)),
      field ''input_cached'' (decode_ptr 0 decode_float) rp_InputCached (\<lambda>x. rp_InputCached_update (\<lambda>_. x))]"

definition zero_remotePriceEntry :: remotePriceEntry where
  "zero_remotePriceEntry = \<lparr>rp_ID = [], rp_Vendor = [], rp_Name = [], rp_Input = 0, rp_Output = 0,
     rp_InputCached = None\<rparr>"

definition remotePricingResponse_fields :: "remotePricingResponse json_field list" where
  "remotePricingResponse_fields =
     [field ''updated_at'' decode_string rr_UpdatedAt (\<lambda>x. rr_UpdatedAt_update (\<lambda>_. x)),
      field ''prices'' (decode_slice zero_remotePriceEntry (decode_struct remotePriceEntry_fields))
        rr_Prices (\<lambda>x. rr_Prices_update (\<lambda>_. x))]"

definition fallbackPriceEntry_fields :: "fallbackPriceEntry json_field list" where
  "fallbackPriceEntry_fields =
     [field ''input_price_per_million'' decode_float fp_InputPricePerMillion
        (\<lambda>x. fp_InputPricePerMillion_update (\<lambda>_. x)),
      field ''output_price_per_million'' decode_float fp_OutputPricePerMillion
        (\<lambda>x. fp_OutputPricePerMillion_update (\<lambda>_. x)),
      field ''cached_price_per_million'' decode_float fp_CachedPricePerMillion
        (\<lambda>x. fp_CachedPricePerMillion_update (\<lambda>_. x))]"

definition zero_fallbackPriceEntry :: fallbackPriceEntry where
  "zero_fallbackPriceEntry = \<lparr>fp_InputPricePerMillion = 0, fp_OutputPricePerMillion = 0, fp_CachedPricePerMillion = 0\<rparr>"

definition providerSection_fields :: "providerSection json_field list" where
  "providerSection_fields =
     [field ''base_url'' decode_string ps_BaseURL (\<lambda>x. ps_BaseURL_update (\<lambda>_. x)),
      field ''zdr'' decode_bool ps_ZDR (\<lambda>x. ps_ZDR_update (\<lambda>_. x)),
      field ''data_collection'' decode_string ps_DataCollection (\<lambda>x. ps_DataCollection_update (\<lambda>_. x)),
      field ''region'' decode_string ps_Region (\<lambda>x. ps_Region_update (\<lambda>_. x)),
      field ''models'' (decode_map zero_fallbackPriceEntry (decode_struct fallbackPriceEntry_fields))
        ps_Models (\<lambda>x. ps_Models_update (\<lambda>_. x))]"

definition zero_providerSection :: providerSection where
  "zero_providerSection = \<lparr>ps_BaseURL = [], ps_ZDR = False, ps_DataCollection = [], ps_Region = [], ps_Models = []\<rparr>"

definition routeEntry_fields :: "routeEntry json_field list" where
  "routeEntry_fields =
     [field ''provider'' decode_string re_Provider' (\<lambda>x. re_Provider'_update (\<lambda>_. x)),
      field ''model'' decode_string re_Model' (\<lambda>x. re_Model'_update (\<lambda>_. x)),
      field ''request_defaults'' decode_raw_map re_RequestDefaults (\<lambda>x. re_RequestDefaults_update (\<lambda>_. x))]"

definition zero_routeEntry :: routeEntry where
  "zero_routeEntry = \<lparr>re_Provider' = [], re_Model' = [], re_RequestDefaults = None\<rparr>"

definition catalogFile_fields :: "catalogFile json_field list" where
  "catalogFile_fields =
     [field ''providers'' (decode_map zero_providerSection (decode_struct providerSection_fields))
        cf_Providers (\<lambda>x. cf_Providers_update (\<lambda>_. x)),
      field ''routes'' (decode_map [] (decode_slice zero_routeEntry (decode_struct routeEntry_fields)))
        cf_Routes (\<lambda>x. cf_Routes_update (\<lambda>_. x))]"

section \<open>Dated model names\<close>

text \<open>\<open>-(\d{4}-\d{2}-\d{2}|\d{8})$\<close>. Both alternatives have one length, so a match is a suffix of
  eleven or of nine bytes; the first match of \<open>FindStringIndex\<close> is the longer one.\<close>

definition matches_shape :: "string \<Rightarrow> string \<Rightarrow> bool" where
  "matches_shape shape s \<longleftrightarrow>
     list_all2 (\<lambda>p c. if p = CHR ''d'' then is_digit c else c = p) shape s"

definition date_suffix :: "string \<Rightarrow> nat option" where
  "date_suffix model =
     (let n = length model in
      if 11 \<le> n \<and> matches_shape ''-dddd-dd-dd'' (drop (n - 11) model) then Some (n - 11)
      else if 9 \<le> n \<and> matches_shape ''-dddddddd'' (drop (n - 9) model) then Some (n - 9)
      else None)"

definition stripDateSuffix :: "string \<Rightarrow> string \<times> bool" where
  "stripDateSuffix model =
     (case date_suffix model of Some loc \<Rightarrow> (take loc model, True) | None \<Rightarrow> (model, False))"

section \<open>Building the maps\<close>

definition toModelPricing :: "fallbackPriceEntry \<Rightarrow> ModelPricing" where
  "toModelPricing e = \<lparr>mp_InputPricePerMillion = fp_InputPricePerMillion e,
     mp_OutputPricePerMillion = fp_OutputPricePerMillion e,
     mp_CachedPricePerMillion = fp_CachedPricePerMillion e\<rparr>"

text \<open>The inner loop of \<open>parseCatalog\<close> over the models of a section: the provider's map gets every
  model, the default map those it does not have yet.\<close>

definition section_prices :: "(string, fallbackPriceEntry) gomap \<Rightarrow> price_map" where
  "section_prices models = map (\<lambda>(m, e). (m, toModelPricing e)) models"

definition put_new :: "price_map \<Rightarrow> string \<times> ModelPricing \<Rightarrow> price_map" where
  "put_new pricing e = (case gm_get pricing (fst e) of None \<Rightarrow> gm_put (fst e) (snd e) pricing | Some _ \<Rightarrow> pricing)"

definition section_defaults :: "price_map \<Rightarrow> (string \<times> ModelPricing) list \<Rightarrow> price_map" where
  "section_defaults pricing entries = foldl put_new pricing entries"

text \<open>One entry of a route: skipped for an unknown provider, an unknown model, or defaults that set
  the model.\<close>

definition route_endpoint :: "(string, providerSection) gomap \<Rightarrow> routeEntry \<Rightarrow> Endpoint option" where
  "route_endpoint providers re =
     (case gm_get providers (re_Provider' re) of
        None \<Rightarrow> None
      | Some sec \<Rightarrow>
          if gm_get (ps_Models sec) (re_Model' re) = None then None
          else if (case re_RequestDefaults re of None \<Rightarrow> False | Some d \<Rightarrow> gm_get d routedModelField \<noteq> None) then None
          else Some \<lparr>ep_Provider = re_Provider' re, ep_BaseURL = ps_BaseURL sec,
                     ep_ProviderModelID = re_Model' re, ep_Region = ps_Region sec, ep_ZDR = ps_ZDR sec,
                     ep_DataCollection = ps_DataCollection sec, ep_RequestDefaults = re_RequestDefaults re\<rparr>)"

definition route_endpoints :: "(string, providerSection) gomap \<Rightarrow> routeEntry list \<Rightarrow> Endpoint list" where
  "route_endpoints providers entries = List.map_filter (route_endpoint providers) entries"

text \<open>The sections are visited in the order of their names, which is the order of the map. The
  models and the routes are visited in any order: they are the parameters here, and
  \<open>parse_catalog_order\<close> shows that they do not matter.\<close>

definition build_catalog ::
  "((string, fallbackPriceEntry) gomap \<Rightarrow> (string \<times> fallbackPriceEntry) list) \<Rightarrow>
   (string \<times> routeEntry list) list \<Rightarrow> catalogFile \<Rightarrow>
   price_map \<times> (string, price_map) gomap \<times> (string, Endpoint list) gomap" where
  "build_catalog order routes cf =
     (let pricing = foldl (\<lambda>p (_, sec). section_defaults p (map (\<lambda>(m, e). (m, toModelPricing e)) (order (ps_Models sec))))
            [] (cf_Providers cf);
          byProvider = foldl (\<lambda>b (prov, sec).
              gm_put prov (foldl (\<lambda>m (k, e). gm_put k (toModelPricing e) m) [] (order (ps_Models sec))) b)
            [] (cf_Providers cf);
          catalog = foldl (\<lambda>c (slug, entries).
              (let eps = route_endpoints (cf_Providers cf) entries in if eps = [] then c else gm_put slug eps c))
            [] routes
      in (pricing, byProvider, catalog))"

definition parseCatalog :: "string \<Rightarrow> (price_map \<times> (string, price_map) gomap \<times> (string, Endpoint list) gomap) option" where
  "parseCatalog data =
     (case unmarshal (decode_struct catalogFile_fields) \<lparr>cf_Providers = [], cf_Routes = []\<rparr> data of
        None \<Rightarrow> None
      | Some cf \<Rightarrow> Some (build_catalog id (cf_Routes cf) cf))"

text \<open>\<open>overlayCatalog\<close> writes the local prices over the given maps and counts the replaced ones.\<close>

definition put_counted :: "price_map \<times> nat \<Rightarrow> string \<times> ModelPricing \<Rightarrow> price_map \<times> nat" where
  "put_counted st e =
     (gm_put (fst e) (snd e) (fst st), (if gm_get (fst st) (fst e) = None then snd st else Suc (snd st)))"

definition overlay_models :: "price_map \<Rightarrow> nat \<Rightarrow> (string \<times> ModelPricing) list \<Rightarrow> price_map \<times> nat" where
  "overlay_models pricing n local = foldl put_counted (pricing, n) local"

definition overlay_provider :: "(string, price_map) gomap \<times> nat \<Rightarrow> string \<times> price_map \<Rightarrow> (string, price_map) gomap \<times> nat" where
  "overlay_provider st e =
     (let old = (case gm_get (fst st) (fst e) of None \<Rightarrow> [] | Some m \<Rightarrow> m);
          (m, n) = overlay_models old (snd st) (snd e)
      in (gm_put (fst e) m (fst st), n))"

definition overlayCatalog :: "price_map \<Rightarrow> (string, price_map) gomap \<Rightarrow> price_map \<Rightarrow> (string, price_map) gomap
    \<Rightarrow> price_map \<times> (string, price_map) gomap \<times> nat" where
  "overlayCatalog pricing byProvider localPricing localByProvider =
     (let (pricing', n) = overlay_models pricing 0 localPricing;
          (byProvider', n') = foldl overlay_provider (byProvider, n) localByProvider
      in (pricing', byProvider', n'))"

text \<open>The index of the remote feed. \<open>None\<close> is a transport error.\<close>

record http_reply =
  hr_StatusCode :: int
  hr_Body :: string

definition remote_price :: "remotePriceEntry \<Rightarrow> ModelPricing" where
  "remote_price entry = \<lparr>mp_InputPricePerMillion = rp_Input entry, mp_OutputPricePerMillion = rp_Output entry,
     mp_CachedPricePerMillion = (case rp_InputCached entry of None \<Rightarrow> 0 | Some c \<Rightarrow> c)\<rparr>"

definition index_remote :: "price_map \<times> (string, price_map) gomap \<Rightarrow> remotePriceEntry
    \<Rightarrow> price_map \<times> (string, price_map) gomap" where
  "index_remote st entry =
     (let mp = remote_price entry; (pricing, byProvider) = st in
      (gm_put (rp_ID entry) mp pricing,
       (if rp_Vendor entry = [] then byProvider
        else gm_put (rp_Vendor entry)
               (gm_put (rp_ID entry) mp (case gm_get byProvider (rp_Vendor entry) of None \<Rightarrow> [] | Some m \<Rightarrow> m))
               byProvider)))"

datatype pricing_error =
    RemoteTransport
  | RemoteStatus int
  | RemoteDecode
  | CatalogRead
  | CatalogParse

definition fetchRemote :: "http_reply option \<Rightarrow> pricing_error + price_map \<times> (string, price_map) gomap" where
  "fetchRemote reply =
     (case reply of
        None \<Rightarrow> Inl RemoteTransport
      | Some resp \<Rightarrow>
          if hr_StatusCode resp < 200 \<or> 300 \<le> hr_StatusCode resp then Inl (RemoteStatus (hr_StatusCode resp))
          else case decode_first (decode_struct remotePricingResponse_fields) \<lparr>rr_UpdatedAt = [], rr_Prices = []\<rparr>
                      (hr_Body resp) of
                 None \<Rightarrow> Inl RemoteDecode
               | Some r \<Rightarrow> Inr (foldl index_remote ([], []) (rr_Prices r)))"

text \<open>\<open>readCatalog\<close> on the content of the file, \<open>None\<close> when it cannot be read.\<close>

definition readCatalog :: "string option
    \<Rightarrow> pricing_error + (price_map \<times> (string, price_map) gomap \<times> (string, Endpoint list) gomap)" where
  "readCatalog file =
     (case file of
        None \<Rightarrow> Inl CatalogRead
      | Some data \<Rightarrow> (case parseCatalog data of None \<Rightarrow> Inl CatalogParse | Some r \<Rightarrow> Inr r))"

section \<open>Operations\<close>

definition swap_in :: "pricing_service \<Rightarrow> price_map \<Rightarrow> (string, price_map) gomap
    \<Rightarrow> pricing_error + (price_map \<times> (string, price_map) gomap \<times> (string, Endpoint list) gomap) \<Rightarrow> pricing_service" where
  "swap_in s pricing byProvider local =
     (let (localPricing, localByProvider) = (case local of Inl _ \<Rightarrow> ([], []) | Inr (p, b, _) \<Rightarrow> (p, b));
          (pricing', byProvider', _) = overlayCatalog pricing byProvider localPricing localByProvider;
          s' = s\<lparr>sv_pricing := pricing', sv_byProvider := byProvider'\<rparr>
      in case local of Inl _ \<Rightarrow> s' | Inr (_, _, catalog) \<Rightarrow> s'\<lparr>sv_catalog := catalog\<rparr>)"

definition reload :: "bool \<Rightarrow> string option \<Rightarrow> http_reply option \<Rightarrow> pricing_service
    \<Rightarrow> pricing_error option \<times> pricing_service" where
  "reload initial file reply s =
     (let local = readCatalog file in
      if sv_remoteURL s \<noteq> [] then
        (case fetchRemote reply of
           Inl err \<Rightarrow>
             if (case local of Inl _ \<Rightarrow> True | Inr _ \<Rightarrow> False) \<or> \<not> initial then (Some err, s)
             else (None, swap_in s [] [] local)
         | Inr (remotePricing, remoteByProvider) \<Rightarrow> (None, swap_in s remotePricing remoteByProvider local))
      else (case local of
              Inl localErr \<Rightarrow> (Some localErr, s)
            | Inr _ \<Rightarrow> (None, swap_in s [] [] local)))"

definition loadAliases :: "string option \<Rightarrow> pricing_service \<Rightarrow> pricing_service" where
  "loadAliases file s =
     (if sv_aliasesFile s = [] then s
      else case file of
             None \<Rightarrow> s
           | Some data \<Rightarrow>
               (case unmarshal (decode_map [] decode_string) [] data of
                  None \<Rightarrow> s
                | Some aliases \<Rightarrow> s\<lparr>sv_aliases := aliases\<rparr>))"

definition loadPricing :: "string option \<Rightarrow> http_reply option \<Rightarrow> pricing_service \<Rightarrow> pricing_service" where
  "loadPricing file reply s = snd (reload True file reply s)"

definition NewService :: "string \<Rightarrow> string \<Rightarrow> string option \<Rightarrow> string option \<Rightarrow> http_reply option \<Rightarrow> pricing_service" where
  "NewService remoteURL aliasesFile aliases file reply =
     loadPricing file reply (loadAliases aliases
       \<lparr>sv_remoteURL = remoteURL, sv_aliasesFile = aliasesFile, sv_pricing = [], sv_byProvider = [],
        sv_catalog = [], sv_aliases = []\<rparr>)"

text \<open>The refresh loop: one reload per tick, each with what the file and the feed give then.\<close>

definition refreshLoop :: "(string option \<times> http_reply option) list \<Rightarrow> pricing_service \<Rightarrow> pricing_service" where
  "refreshLoop ticks s = foldl (\<lambda>s (file, reply). snd (reload False file reply s)) s ticks"

text \<open>Lookup: the map of the provider, then the default map, the aliases, and both again without a
  date.\<close>

definition lookup_stripped :: "(string \<Rightarrow> 'a option) \<Rightarrow> string \<Rightarrow> 'a option" where
  "lookup_stripped f model = (case stripDateSuffix model of (base, True) \<Rightarrow> f base | (_, False) \<Rightarrow> None)"

definition lookup_alias :: "pricing_service \<Rightarrow> string \<Rightarrow> ModelPricing option" where
  "lookup_alias s model =
     (case gm_get (sv_aliases s) model of None \<Rightarrow> None | Some aliased \<Rightarrow> gm_get (sv_pricing s) aliased)"

fun first_some :: "'a option list \<Rightarrow> 'a option" where
  "first_some [] = None"
| "first_some (None # xs) = first_some xs"
| "first_some (Some x # xs) = Some x"

definition provider_prices :: "pricing_service \<Rightarrow> string \<Rightarrow> price_map" where
  "provider_prices s provider =
     (if provider = [] then [] else case gm_get (sv_byProvider s) provider of None \<Rightarrow> [] | Some pm \<Rightarrow> pm)"

definition resolve :: "pricing_service \<Rightarrow> string \<Rightarrow> string \<Rightarrow> ModelPricing option" where
  "resolve s provider model = first_some
     [gm_get (provider_prices s provider) model,
      lookup_stripped (gm_get (provider_prices s provider)) model,
      gm_get (sv_pricing s) model,
      lookup_alias s model,
      lookup_stripped (gm_get (sv_pricing s)) model,
      lookup_stripped (lookup_alias s) model]"

definition Price :: "pricing_service \<Rightarrow> string \<Rightarrow> string \<Rightarrow> ModelPricing option" where
  "Price s provider model = resolve s provider model"

definition Candidates :: "pricing_service \<Rightarrow> string \<Rightarrow> Endpoint list option" where
  "Candidates s model = gm_get (sv_catalog s) model"

section \<open>Cost\<close>

definition cacheWrite5mMultiplier :: f64 where "cacheWrite5mMultiplier = f64_of_rat (5 / 4)"
definition cacheWrite1hMultiplier :: f64 where "cacheWrite1hMultiplier = f64_of_int 2"
definition million :: f64 where "million = f64_of_int 1000000"

text \<open>\<open>float64(n)\<close> of a Go integer.\<close>

definition to_f64 :: "int64 \<Rightarrow> f64" where
  "to_f64 n = f64_of_int (sint n)"

definition cost_of :: "ModelPricing \<Rightarrow> usage_metrics \<Rightarrow> cost" where
  "cost_of pricing metrics =
     (let create5m = (if um_CacheCreation5mTokens metrics + um_CacheCreation1hTokens metrics = 0
                         \<and> 0 <s um_CacheCreationTokens metrics
                      then um_CacheCreationTokens metrics else um_CacheCreation5mTokens metrics);
          create1h = um_CacheCreation1hTokens metrics;
          nonCacheInput = um_InputTokens metrics - um_CachedTokens metrics - um_CacheCreationTokens metrics;
          inputCost = to_f64 nonCacheInput * mp_InputPricePerMillion pricing / million;
          cachedCost = to_f64 (um_CachedTokens metrics) * mp_CachedPricePerMillion pricing / million;
          cacheCreationCost = (to_f64 create5m * cacheWrite5mMultiplier + to_f64 create1h * cacheWrite1hMultiplier)
              * mp_InputPricePerMillion pricing / million;
          outputCost = to_f64 (um_OutputTokens metrics) * mp_OutputPricePerMillion pricing / million
      in \<lparr>co_InputCost = inputCost, co_CachedCost = cachedCost, co_CacheCreationCost = cacheCreationCost,
          co_OutputCost = outputCost, co_TotalCost = inputCost + cachedCost + cacheCreationCost + outputCost,
          co_ModelAliasFound = True\<rparr>)"

definition Calculate :: "pricing_service \<Rightarrow> usage_metrics \<Rightarrow> cost" where
  "Calculate s metrics =
     (case resolve s (um_Provider metrics) (um_Model metrics) of
        None \<Rightarrow> zero_cost
      | Some pricing \<Rightarrow> cost_of pricing metrics)"

section \<open>Well-formed catalogs\<close>

definition section_ok :: "providerSection \<Rightarrow> bool" where
  "section_ok sec \<longleftrightarrow> gm_ok (ps_Models sec)"

definition catalog_ok :: "catalogFile \<Rightarrow> bool" where
  "catalog_ok cf \<longleftrightarrow> gm_ok (cf_Providers cf) \<and> gm_ok (cf_Routes cf) \<and> (\<forall>(_, sec) \<in> set (cf_Providers cf). section_ok sec)"

lemma gm_put_set: "gm_ok m \<Longrightarrow> (k', v') \<in> set (gm_put k v m) \<Longrightarrow> (k', v') = (k, v) \<or> (k', v') \<in> set m"
  by (induction k v m rule: gm_put.induct) (auto simp: gm_ok_Cons split: if_splits)

lemma decode_entries_inv:
  assumes d: "\<And>j x. d j z = Some x \<Longrightarrow> P x"
  shows "gm_ok m \<Longrightarrow> \<forall>(_, x) \<in> set m. P x \<Longrightarrow> decode_entries z d ms m = Some m' \<Longrightarrow>
    gm_ok m' \<and> (\<forall>(_, x) \<in> set m'. P x)"
proof (induction ms arbitrary: m)
  case (Cons e ms)
  obtain k j where e: "e = (k, j)" by (cases e)
  then obtain x where x: "d j z = Some x" "decode_entries z d ms (gm_put (unquote k) x m) = Some m'"
    using Cons.prems(3) by (auto split: option.splits)
  have "\<forall>(_, y) \<in> set (gm_put (unquote k) x m). P y"
    using d [OF x(1)] Cons.prems(1,2) by (fastforce dest: gm_put_set)
  with Cons.prems(1) x(2) show ?case by (intro Cons.IH [of "gm_put (unquote k) x m"]) simp_all
qed simp

lemma decode_map_inv:
  assumes "\<And>j x. d j z = Some x \<Longrightarrow> P x" and "gm_ok m" "\<forall>(_, x) \<in> set m. P x" "decode_map z d j m = Some m'"
  shows "gm_ok m' \<and> (\<forall>(_, x) \<in> set m'. P x)"
proof (cases j)
  case (JObj ms)
  with assms(4) have "decode_entries z d ms m = Some m'" by simp
  with assms(1-3) show ?thesis by (intro decode_entries_inv [where d = d and z = z and P = P]) auto
qed (use assms(4) in auto)

lemma decode_section_ok:
  "decode_struct providerSection_fields j zero_providerSection = Some sec \<Longrightarrow> section_ok sec"
proof (rule decode_struct_inv [where P = section_ok])
  fix d j s s' assume "d \<in> snd ` set providerSection_fields" "section_ok s" "d j s = Some s'"
  then show "section_ok s'"
    by (auto simp: providerSection_fields_def field_def section_ok_def
        dest: decode_map_inv [where P = "\<lambda>_. True", rotated -1])
qed (simp_all add: section_ok_def zero_providerSection_def)

lemma decode_catalog_ok:
  "decode_struct catalogFile_fields j \<lparr>cf_Providers = [], cf_Routes = []\<rparr> = Some cf \<Longrightarrow> catalog_ok cf"
proof (rule decode_struct_inv [where P = catalog_ok])
  fix d j s s' assume "d \<in> snd ` set catalogFile_fields" "catalog_ok s" "d j s = Some s'"
  then consider ps where "decode_map zero_providerSection (decode_struct providerSection_fields) j (cf_Providers s) = Some ps"
      "s' = s\<lparr>cf_Providers := ps\<rparr>"
    | rs where "decode_map [] (decode_slice zero_routeEntry (decode_struct routeEntry_fields)) j (cf_Routes s) = Some rs"
      "s' = s\<lparr>cf_Routes := rs\<rparr>"
    by (auto simp: catalogFile_fields_def field_def)
  then show "catalog_ok s'"
  proof cases
    case 1
    with \<open>catalog_ok s\<close> decode_map_inv [where P = section_ok, OF decode_section_ok _ _ 1(1)]
    show ?thesis by (auto simp: catalog_ok_def)
  next
    case 2
    with \<open>catalog_ok s\<close> decode_map_inv [where P = "\<lambda>_. True", OF _ _ _ 2(1)]
    show ?thesis by (auto simp: catalog_ok_def)
  qed
qed (simp_all add: catalog_ok_def)

lemma parseCatalog_some:
  "parseCatalog data = Some r \<Longrightarrow> \<exists>cf. catalog_ok cf \<and> r = build_catalog id (cf_Routes cf) cf"
  by (auto simp: parseCatalog_def unmarshal_def split: option.splits dest: decode_catalog_ok)

section \<open>Building: the order of iteration does not matter\<close>

lemma put_new_ok [simp]: "gm_ok p \<Longrightarrow> gm_ok (put_new p e)"
  by (simp add: put_new_def split: option.split)

lemma section_defaults_ok: "gm_ok p \<Longrightarrow> gm_ok (section_defaults p es)"
  by (induction es arbitrary: p) (simp_all add: section_defaults_def)

lemma section_defaults_get: "gm_ok p \<Longrightarrow> gm_get (section_defaults p es) = map_of es ++ gm_get p"
proof (induction es arbitrary: p)
  case (Cons e es)
  have "gm_get (put_new p e) = [fst e \<mapsto> snd e] ++ gm_get p"
    using Cons.prems by (auto simp: put_new_def gomap fun_eq_iff map_add_def split: option.split)
  with Cons show ?case
    by (simp add: section_defaults_def) (auto simp: fun_eq_iff map_add_def split: option.split)
qed (simp add: section_defaults_def)

lemma section_defaults_perm:
  assumes "gm_ok p" "distinct (map fst es)" "mset es = mset es'"
  shows "section_defaults p es = section_defaults p es'"
proof (rule gm_ext)
  have "distinct (map fst es')" using assms(2,3) by (metis mset_eq_imp_distinct_iff mset_map)
  then have "map_of es = map_of es'"
    using assms(2,3) by (subst map_of_inject_set) (auto dest: mset_eq_setD)
  then show "gm_get (section_defaults p es) = gm_get (section_defaults p es')"
    using assms(1) by (simp add: section_defaults_get)
qed (simp_all add: assms(1) section_defaults_ok)

text \<open>The catalog a route list gives: the routes with an endpoint left.\<close>

definition kept_routes :: "(string, providerSection) gomap \<Rightarrow> (string \<times> routeEntry list) list \<Rightarrow> (string \<times> Endpoint list) list" where
  "kept_routes ps routes = filter (\<lambda>(_, eps). eps \<noteq> []) (map (\<lambda>(slug, es). (slug, route_endpoints ps es)) routes)"

lemma foldl_catalog:
  "foldl (\<lambda>c (slug, entries).
      (let eps = route_endpoints ps entries in if eps = [] then c else gm_put slug eps c)) c routes
    = foldl (\<lambda>c (slug, eps). gm_put slug eps c) c (kept_routes ps routes)"
  by (induction routes arbitrary: c) (auto simp: kept_routes_def Let_def)

lemma kept_routes_keys: "distinct (map fst routes) \<Longrightarrow> distinct (map fst (kept_routes ps routes))"
  unfolding kept_routes_def by (rule distinct_map_filter) (simp add: comp_def case_prod_unfold)

lemma build_catalog_order:
  assumes cf: "catalog_ok cf" and order: "\<And>m. mset (order m) = mset m" and routes: "mset routes = mset (cf_Routes cf)"
  shows "build_catalog order routes cf = build_catalog id (cf_Routes cf) cf"
proof -
  have d: "distinct (map fst (order (ps_Models sec)))" if "(p, sec) \<in> set (cf_Providers cf)" for p sec
  proof -
    have "distinct (map fst (ps_Models sec))"
      using cf that by (auto simp: catalog_ok_def section_ok_def gm_ok_distinct)
    then show ?thesis by (metis mset_eq_imp_distinct_iff mset_map order)
  qed
  have defaults: "section_defaults q (map (\<lambda>(m, e). (m, toModelPricing e)) (order (ps_Models sec)))
      = section_defaults q (map (\<lambda>(m, e). (m, toModelPricing e)) (ps_Models sec))"
    if "gm_ok q" "(p, sec) \<in> set (cf_Providers cf)" for q p sec
    using that(1) d [OF that(2)] by (intro section_defaults_perm) (simp_all add: comp_def case_prod_unfold order)
  have "foldl (\<lambda>p (_, sec). section_defaults p (map (\<lambda>(m, e). (m, toModelPricing e)) (order (ps_Models sec)))) q ps
      = foldl (\<lambda>p (_, sec). section_defaults p (map (\<lambda>(m, e). (m, toModelPricing e)) (ps_Models sec))) q ps"
    if "gm_ok q" "set ps \<subseteq> set (cf_Providers cf)" for q ps
    using that by (induction ps arbitrary: q) (auto simp: defaults section_defaults_ok)
  from this [of "[]" "cf_Providers cf"]
  have 1: "foldl (\<lambda>p (_, sec). section_defaults p (map (\<lambda>(m, e). (m, toModelPricing e)) (order (ps_Models sec)))) [] (cf_Providers cf)
      = foldl (\<lambda>p (_, sec). section_defaults p (map (\<lambda>(m, e). (m, toModelPricing e)) (id (ps_Models sec)))) [] (cf_Providers cf)"
    by simp
  have models: "foldl (\<lambda>m (k, e). gm_put k (toModelPricing e) m) [] (order (ps_Models sec))
      = foldl (\<lambda>m (k, e). gm_put k (toModelPricing e) m) [] (ps_Models sec)"
    if "(p, sec) \<in> set (cf_Providers cf)" for p sec
    unfolding foldl_put_map [of "\<lambda>k. k" toModelPricing]
    by (rule gm_fold_put_perm) (use d [OF that] order in \<open>simp_all add: comp_def case_prod_unfold\<close>)
  have 2: "foldl (\<lambda>b (prov, sec). gm_put prov (foldl (\<lambda>m (k, e). gm_put k (toModelPricing e) m) [] (order (ps_Models sec))) b) b ps
      = foldl (\<lambda>b (prov, sec). gm_put prov (foldl (\<lambda>m (k, e). gm_put k (toModelPricing e) m) [] (id (ps_Models sec))) b) b ps"
    if "set ps \<subseteq> set (cf_Providers cf)" for b ps
    using that by (induction ps arbitrary: b) (auto simp: models)
  have 3: "foldl (\<lambda>c (slug, eps). gm_put slug eps c) [] (kept_routes (cf_Providers cf) routes)
      = foldl (\<lambda>c (slug, eps). gm_put slug eps c) [] (kept_routes (cf_Providers cf) (cf_Routes cf))"
  proof (rule gm_fold_put_perm)
    have "distinct (map fst (cf_Routes cf))" using cf by (simp add: catalog_ok_def gm_ok_distinct)
    then show "distinct (map fst (kept_routes (cf_Providers cf) routes))"
      using routes by (intro kept_routes_keys) (metis mset_eq_imp_distinct_iff mset_map)
    show "mset (kept_routes (cf_Providers cf) routes) = mset (kept_routes (cf_Providers cf) (cf_Routes cf))"
      by (simp add: kept_routes_def routes)
  qed simp
  show ?thesis by (simp only: build_catalog_def foldl_catalog 1 2 [OF order_refl] 3)
qed

section \<open>What a catalog contains\<close>

lemma build_catalog_byProvider:
  assumes "catalog_ok cf" and "build_catalog id (cf_Routes cf) cf = (p, b, c)"
  shows "gm_ok b" and "gm_get b prov = map_option (\<lambda>sec. section_prices (ps_Models sec)) (gm_get (cf_Providers cf) prov)"
proof -
  have models: "foldl (\<lambda>m (k, e). gm_put k (toModelPricing e) m) [] (ps_Models sec) = section_prices (ps_Models sec)"
    if "(q, sec) \<in> set (cf_Providers cf)" for q sec
  proof -
    have "gm_ok (section_prices (ps_Models sec))"
      using assms(1) that by (auto simp: catalog_ok_def section_ok_def section_prices_def gm_ok_map_values)
    then show ?thesis
      using foldl_put_map [of "\<lambda>k. k" toModelPricing "[]" "ps_Models sec"] gm_of_list_sorted
      by (simp add: gm_of_list_def section_prices_def)
  qed
  have "b = foldl (\<lambda>b (prov, sec). gm_put prov (foldl (\<lambda>m (k, e). gm_put k (toModelPricing e) m) [] (ps_Models sec)) b)
      [] (cf_Providers cf)"
    using assms(2) by (simp add: build_catalog_def Let_def)
  also have "\<dots> = foldl (\<lambda>b (prov, x). gm_put prov x b) [] (map (\<lambda>(q, sec). (q, section_prices (ps_Models sec))) (cf_Providers cf))"
  proof -
    have "foldl (\<lambda>b (prov, sec). gm_put prov (foldl (\<lambda>m (k, e). gm_put k (toModelPricing e) m) [] (ps_Models sec)) b) b ps
        = foldl (\<lambda>b (prov, x). gm_put prov x b) b (map (\<lambda>(q, sec). (q, section_prices (ps_Models sec))) ps)"
      if "set ps \<subseteq> set (cf_Providers cf)" for b ps
      using that by (induction ps arbitrary: b) (auto simp: models)
    from this [of "cf_Providers cf"] show ?thesis by simp
  qed
  also have "\<dots> = map (\<lambda>(q, sec). (q, section_prices (ps_Models sec))) (cf_Providers cf)"
    using gm_of_list_sorted [of "map (\<lambda>(q, sec). (q, section_prices (ps_Models sec))) (cf_Providers cf)"] assms(1)
    by (simp add: gm_of_list_def gm_ok_map_values catalog_ok_def)
  finally have b: "b = map (\<lambda>(q, sec). (q, section_prices (ps_Models sec))) (cf_Providers cf)" .
  show "gm_ok b" using assms(1) by (simp add: b gm_ok_map_values catalog_ok_def)
  show "gm_get b prov = map_option (\<lambda>sec. section_prices (ps_Models sec)) (gm_get (cf_Providers cf) prov)"
    by (simp add: b gm_get_map_value)
qed

lemma kept_routes_fst: "fst ` set (kept_routes ps rs) \<subseteq> fst ` set rs"
  by (force simp: kept_routes_def)

lemma kept_routes_get:
  "distinct (map fst rs) \<Longrightarrow> map_of (kept_routes ps rs) slug =
     (case gm_get rs slug of
        None \<Rightarrow> None
      | Some es \<Rightarrow> if route_endpoints ps es = [] then None else Some (route_endpoints ps es))"
proof (induction rs)
  case (Cons r rs)
  obtain q es where r: "r = (q, es)" by (cases r)
  have "kept_routes ps (r # rs) =
      (if route_endpoints ps es = [] then kept_routes ps rs else (q, route_endpoints ps es) # kept_routes ps rs)"
    by (simp add: kept_routes_def r)
  moreover have "map_of (kept_routes ps rs) q = None"
    using Cons.prems r kept_routes_fst [of ps rs] by (auto simp: map_of_eq_None_iff)
  ultimately show ?case using Cons r by simp
qed (simp add: kept_routes_def)

lemma build_catalog_routes:
  assumes "catalog_ok cf" and "build_catalog id (cf_Routes cf) cf = (p, b, c)"
  shows "gm_ok c"
    and "gm_get c slug = (case gm_get (cf_Routes cf) slug of
           None \<Rightarrow> None
         | Some es \<Rightarrow> if route_endpoints (cf_Providers cf) es = [] then None else Some (route_endpoints (cf_Providers cf) es))"
proof -
  let ?k = "kept_routes (cf_Providers cf) (cf_Routes cf)"
  have c: "c = foldl (\<lambda>c (slug, eps). gm_put slug eps c) [] ?k"
    using assms(2) by (simp add: build_catalog_def Let_def foldl_catalog [unfolded Let_def])
  show "gm_ok c" by (simp add: c gm_fold_put_ok)
  have d: "distinct (map fst (cf_Routes cf))" using assms(1) by (simp add: catalog_ok_def gm_ok_distinct)
  have "gm_get c = map_of (rev ?k)" by (simp add: c gm_fold_put_get)
  moreover have "map_of (rev ?k) = map_of ?k"
    using kept_routes_keys [OF d] by (subst map_of_inject_set) (simp_all add: rev_map [symmetric])
  ultimately have "gm_get c slug = map_of ?k slug" by simp
  also have "map_of ?k slug = (case gm_get (cf_Routes cf) slug of
           None \<Rightarrow> None
         | Some es \<Rightarrow> if route_endpoints (cf_Providers cf) es = [] then None else Some (route_endpoints (cf_Providers cf) es))"
    by (rule kept_routes_get [OF d])
  finally show "gm_get c slug = (case gm_get (cf_Routes cf) slug of
           None \<Rightarrow> None
         | Some es \<Rightarrow> if route_endpoints (cf_Providers cf) es = [] then None else Some (route_endpoints (cf_Providers cf) es))" .
qed

lemma route_endpoint_prices:
  assumes "route_endpoint ps re = Some ep"
  shows "\<exists>sec e. gm_get ps (ep_Provider ep) = Some sec \<and> gm_get (ps_Models sec) (ep_ProviderModelID ep) = Some e
    \<and> ep_BaseURL ep = ps_BaseURL sec \<and> ep_ZDR ep = ps_ZDR sec \<and> ep_DataCollection ep = ps_DataCollection sec"
    and "ep_RequestDefaults ep = Some d \<Longrightarrow> gm_get d routedModelField = None"
  using assms by (auto simp: route_endpoint_def split: option.splits if_splits)

lemma route_endpoints_from: "ep \<in> set (route_endpoints ps es) \<Longrightarrow> \<exists>re. route_endpoint ps re = Some ep"
  by (auto simp: route_endpoints_def List.map_filter_def)

text \<open>An endpoint of the routing catalog has a price in the catalog it came from.\<close>

lemma catalog_endpoint_priced:
  assumes "parseCatalog data = Some (p, b, c)" and "gm_get c slug = Some eps" and "ep \<in> set eps"
  shows "\<exists>m mp. gm_get b (ep_Provider ep) = Some m \<and> gm_get m (ep_ProviderModelID ep) = Some mp"
    and "ep_RequestDefaults ep = Some d \<Longrightarrow> gm_get d routedModelField = None"
proof -
  from parseCatalog_some [OF assms(1)] obtain cf where cf: "catalog_ok cf"
    and bc: "build_catalog id (cf_Routes cf) cf = (p, b, c)" by metis
  from assms(2) obtain es where eps: "eps = route_endpoints (cf_Providers cf) es" "eps \<noteq> []"
    unfolding build_catalog_routes(2) [OF cf bc] by (auto split: option.splits if_splits)
  then obtain re where re: "route_endpoint (cf_Providers cf) re = Some ep"
    using assms(3) route_endpoints_from by metis
  then obtain sec e where "gm_get (cf_Providers cf) (ep_Provider ep) = Some sec"
    "gm_get (ps_Models sec) (ep_ProviderModelID ep) = Some e"
    using route_endpoint_prices(1) by metis
  then show "\<exists>m mp. gm_get b (ep_Provider ep) = Some m \<and> gm_get m (ep_ProviderModelID ep) = Some mp"
    by (simp add: build_catalog_byProvider(2) [OF cf bc] section_prices_def gm_get_map_value)
  show "gm_get d routedModelField = None" if "ep_RequestDefaults ep = Some d"
    using route_endpoint_prices(2) [OF re that] .
qed

lemma catalog_nonempty:
  assumes "parseCatalog data = Some (p, b, c)" and "gm_get c slug = Some eps"
  shows "eps \<noteq> []"
proof -
  from parseCatalog_some [OF assms(1)] obtain cf where cf: "catalog_ok cf"
    and bc: "build_catalog id (cf_Routes cf) cf = (p, b, c)" by metis
  from assms(2) show ?thesis
    unfolding build_catalog_routes(2) [OF cf bc] by (auto split: option.splits if_splits)
qed

text \<open>Every model of a section is in the default map.\<close>

lemma foldl_defaults_dom:
  assumes "gm_ok q" "gm_get q model \<noteq> None \<or> (\<exists>(_, sec) \<in> set ps. gm_get (ps_Models sec) model \<noteq> None)"
  shows "gm_get (foldl (\<lambda>p (_, sec). section_defaults p (map (\<lambda>(m, e). (m, toModelPricing e)) (ps_Models sec))) q ps) model \<noteq> None"
  using assms
proof (induction ps arbitrary: q)
  case (Cons x ps)
  obtain pr sec where x: "x = (pr, sec)" by (cases x)
  let ?q = "section_defaults q (map (\<lambda>(m, e). (m, toModelPricing e)) (ps_Models sec))"
  have "gm_get ?q model = (map_of (map (\<lambda>(m, e). (m, toModelPricing e)) (ps_Models sec)) ++ gm_get q) model"
    using Cons.prems(1) by (simp add: section_defaults_get)
  then have "gm_get ?q model \<noteq> None \<or> (\<exists>(_, sec) \<in> set ps. gm_get (ps_Models sec) model \<noteq> None)"
    using Cons.prems(2) x by (auto simp: gm_get_map_value map_add_def split: option.splits)
  with Cons.IH [of ?q] Cons.prems(1) x show ?case by (simp add: section_defaults_ok)
qed auto

lemma catalog_default_priced:
  assumes "parseCatalog data = Some (p, b, c)" and "gm_get b prov = Some m" and "gm_get m model = Some mp"
  shows "gm_get p model \<noteq> None"
proof -
  from parseCatalog_some [OF assms(1)] obtain cf where cf: "catalog_ok cf"
    and bc: "build_catalog id (cf_Routes cf) cf = (p, b, c)" by metis
  obtain sec where sec: "gm_get (cf_Providers cf) prov = Some sec" "m = section_prices (ps_Models sec)"
    using assms(2) by (auto simp: build_catalog_byProvider(2) [OF cf bc])
  then have "gm_get (ps_Models sec) model \<noteq> None" using assms(3) by (auto simp: section_prices_def gm_get_map_value)
  with map_of_SomeD [OF sec(1)] have "\<exists>(_, sec) \<in> set (cf_Providers cf). gm_get (ps_Models sec) model \<noteq> None" by auto
  then have "gm_get (foldl (\<lambda>p (_, sec). section_defaults p (map (\<lambda>(m, e). (m, toModelPricing e)) (ps_Models sec))) []
      (cf_Providers cf)) model \<noteq> None"
    by (intro foldl_defaults_dom) simp_all
  moreover have "p = foldl (\<lambda>p (_, sec). section_defaults p (map (\<lambda>(m, e). (m, toModelPricing e)) (ps_Models sec))) []
      (cf_Providers cf)"
    using bc by (simp add: build_catalog_def Let_def)
  ultimately show ?thesis by simp
qed

section \<open>The overlay\<close>

lemma overlay_models_fst: "fst (overlay_models p n l) = foldl (\<lambda>m (k, v). gm_put k v m) p l"
  by (induction l arbitrary: p n) (auto simp: overlay_models_def put_counted_def)

lemma overlay_models_get: "gm_ok p \<Longrightarrow> gm_get (fst (overlay_models p n l)) = gm_get p ++ map_of (rev l)"
  by (simp add: overlay_models_fst gm_fold_put_get)

lemma overlay_models_ok: "gm_ok p \<Longrightarrow> gm_ok (fst (overlay_models p n l))"
  by (simp add: overlay_models_fst gm_fold_put_ok)

lemma overlay_models_count:
  "gm_ok p \<Longrightarrow> distinct (map fst l) \<Longrightarrow>
     snd (overlay_models p n l) = n + length (filter (\<lambda>(k, _). gm_get p k \<noteq> None) l)"
proof (induction l arbitrary: p n)
  case (Cons e l)
  obtain k v where e: "e = (k, v)" by (cases e)
  have "filter (\<lambda>(k', _). gm_get (gm_put k v p) k' \<noteq> None) l = filter (\<lambda>(k', _). gm_get p k' \<noteq> None) l"
    using Cons.prems e by (intro filter_cong) (force simp: gomap)+
  then show ?case
    using Cons.IH [of "gm_put k v p" "if gm_get p k = None then n else Suc n"] Cons.prems e
    by (cases "gm_get p k") (simp_all add: overlay_models_def put_counted_def)
qed (simp add: overlay_models_def)

definition all_ok :: "(string, price_map) gomap \<Rightarrow> bool" where
  "all_ok b \<longleftrightarrow> gm_ok b \<and> (\<forall>prov m. gm_get b prov = Some m \<longrightarrow> gm_ok m)"

lemma overlay_provider_get:
  assumes "all_ok b"
  shows "gm_get (fst (overlay_provider (b, n) (prov, l))) =
      (gm_get b)(prov \<mapsto> fst (overlay_models (case gm_get b prov of None \<Rightarrow> [] | Some m \<Rightarrow> m) n l))"
    and "all_ok (fst (overlay_provider (b, n) (prov, l)))"
proof -
  show 1: "gm_get (fst (overlay_provider (b, n) (prov, l))) =
      (gm_get b)(prov \<mapsto> fst (overlay_models (case gm_get b prov of None \<Rightarrow> [] | Some m \<Rightarrow> m) n l))"
    using assms by (simp add: overlay_provider_def all_ok_def gomap split: prod.split)
  have "gm_ok (fst (overlay_provider (b, n) (prov, l)))"
    using assms by (simp add: overlay_provider_def all_ok_def split: prod.split)
  then show "all_ok (fst (overlay_provider (b, n) (prov, l)))"
    using assms unfolding all_ok_def 1 by (auto simp: overlay_models_ok split: option.splits if_splits)
qed

lemma overlay_providers_get:
  assumes "all_ok b" and "distinct (map fst lb)"
  shows "all_ok (fst (foldl overlay_provider (b, n) lb)) \<and>
    (case map_of lb prov of
       None \<Rightarrow> gm_get (fst (foldl overlay_provider (b, n) lb)) prov = gm_get b prov
     | Some l \<Rightarrow> \<exists>m. gm_get (fst (foldl overlay_provider (b, n) lb)) prov = Some m \<and>
         gm_get m = (case gm_get b prov of None \<Rightarrow> Map.empty | Some old \<Rightarrow> gm_get old) ++ map_of (rev l))"
  using assms
proof (induction lb arbitrary: b n)
  case (Cons e lb)
  obtain q l where e: "e = (q, l)" by (cases e)
  let ?st = "overlay_provider (b, n) (q, l)"
  note g = overlay_provider_get [OF Cons.prems(1), of n q l]
  obtain b' n' where st: "?st = (b', n')" by (cases ?st)
  have IH: "all_ok (fst (foldl overlay_provider (b', n') lb)) \<and>
    (case map_of lb prov of
       None \<Rightarrow> gm_get (fst (foldl overlay_provider (b', n') lb)) prov = gm_get b' prov
     | Some l \<Rightarrow> \<exists>m. gm_get (fst (foldl overlay_provider (b', n') lb)) prov = Some m \<and>
         gm_get m = (case gm_get b' prov of None \<Rightarrow> Map.empty | Some old \<Rightarrow> gm_get old) ++ map_of (rev l))"
    using g(2) Cons.prems(2) e st by (intro Cons.IH) simp_all
  have b': "gm_get b' = (gm_get b)(q \<mapsto> fst (overlay_models (case gm_get b q of None \<Rightarrow> [] | Some m \<Rightarrow> m) n l))"
    using g(1) st by simp
  have old: "gm_ok (case gm_get b q of None \<Rightarrow> [] | Some m \<Rightarrow> m)"
    using Cons.prems(1) by (simp add: all_ok_def split: option.split)
  show ?case
  proof (cases "prov = q")
    case True
    then have "map_of lb prov = None" using Cons.prems(2) e by (simp add: map_of_eq_None_iff)
    with IH True e st b' overlay_models_get [OF old] show ?thesis by (auto split: option.splits)
  next
    case False
    with IH e st b' show ?thesis by (simp split: option.splits)
  qed
qed simp

lemma catalog_all_ok:
  assumes "parseCatalog data = Some (p, b, c)"
  shows "all_ok b" and "gm_ok c" and "gm_ok p"
proof -
  from parseCatalog_some [OF assms] obtain cf where cf: "catalog_ok cf"
    and bc: "build_catalog id (cf_Routes cf) cf = (p, b, c)" by metis
  have "gm_ok (section_prices (ps_Models sec))" if "gm_get (cf_Providers cf) q = Some sec" for q sec
    using cf map_of_SomeD [OF that] by (auto simp: catalog_ok_def section_ok_def section_prices_def gm_ok_map_values)
  then show "all_ok b"
    using build_catalog_byProvider [OF cf bc] by (auto simp: all_ok_def)
  show "gm_ok c" by (rule build_catalog_routes(1) [OF cf bc])
  have g: "gm_ok (foldl (\<lambda>p (_, sec). section_defaults p (map (\<lambda>(m, e). (m, toModelPricing e)) (ps_Models sec))) q ps)"
    if "gm_ok q" for q ps
    using that by (induction ps arbitrary: q) (auto simp: section_defaults_ok)
  from bc g [of "[]" "cf_Providers cf"] show "gm_ok p" by (auto simp: build_catalog_def Let_def)
qed

lemma index_remote_ok:
  "gm_ok p \<and> all_ok b \<Longrightarrow> gm_ok (fst (foldl index_remote (p, b) es)) \<and> all_ok (snd (foldl index_remote (p, b) es))"
proof (induction es arbitrary: p b)
  case (Cons e es)
  obtain p' b' where st: "index_remote (p, b) e = (p', b')" by (cases "index_remote (p, b) e")
  then have "gm_ok p' \<and> all_ok b'"
    using Cons.prems by (auto simp: index_remote_def Let_def all_ok_def gomap split: if_splits option.splits)
  with Cons.IH st show ?case by simp
qed simp

lemma fetchRemote_ok: "fetchRemote reply = Inr (p, b) \<Longrightarrow> gm_ok p \<and> all_ok b"
proof -
  assume "fetchRemote reply = Inr (p, b)"
  then obtain es where "foldl index_remote ([], []) es = (p, b)"
    by (auto simp: fetchRemote_def split: option.splits if_splits)
  with index_remote_ok [of "[]" "[]" es] show ?thesis
    by (simp add: all_ok_def)
qed

lemma all_ok_Nil [simp]: "all_ok []"
  by (simp add: all_ok_def)

section \<open>Reloading\<close>

lemma overlayCatalog_parts:
  "overlayCatalog p b lp lb = (p', b', n) \<Longrightarrow>
     p' = fst (overlay_models p 0 lp) \<and> b' = fst (foldl overlay_provider (b, snd (overlay_models p 0 lp)) lb)"
  by (simp add: overlayCatalog_def split: prod.splits)

text \<open>Every way a reload can end: with an error it keeps the state, else it installs maps that came
  from the feed with the catalog written over them.\<close>

lemma reload_cases:
  obtains (kept) err where "reload initial file reply s = (Some err, s)"
  | (feed) p b where "reload initial file reply s = (None, swap_in s p b (readCatalog file))"
      "sv_remoteURL s \<noteq> []" "fetchRemote reply = Inr (p, b)"
  | (local) r where "reload initial file reply s = (None, swap_in s [] [] (readCatalog file))"
      "readCatalog file = Inr r" "sv_remoteURL s = [] \<or> initial \<and> (\<exists>e. fetchRemote reply = Inl e)"
proof (cases "sv_remoteURL s = []")
  case True
  then show thesis by (cases "readCatalog file") (auto simp: reload_def intro: that)
next
  case False
  show thesis
  proof (cases "fetchRemote reply")
    case (Inl e)
    with False show ?thesis
      by (cases "readCatalog file"; cases initial) (auto simp: reload_def intro: that)
  next
    case (Inr r)
    obtain p b where "r = (p, b)" by (cases r)
    with False Inr show ?thesis by (auto simp: reload_def intro: that(2))
  qed
qed

lemma reload_error_keeps: "fst (reload initial file reply s) \<noteq> None \<Longrightarrow> snd (reload initial file reply s) = s"
  by (cases rule: reload_cases [of initial "file" reply s]) auto

lemma swap_in_catalog:
  "sv_catalog (swap_in s p b local) = (case local of Inl _ \<Rightarrow> sv_catalog s | Inr (_, _, c) \<Rightarrow> c)"
  by (auto simp: swap_in_def Let_def split: sum.split prod.split)

lemma swap_in_byProvider:
  assumes "all_ok b" and "all_ok lb"
  shows "all_ok (sv_byProvider (swap_in s p b (Inr (lp, lb, c))))"
    and "gm_get lb prov = Some l \<Longrightarrow> \<exists>m. gm_get (sv_byProvider (swap_in s p b (Inr (lp, lb, c)))) prov = Some m \<and>
        gm_get m = (case gm_get b prov of None \<Rightarrow> Map.empty | Some old \<Rightarrow> gm_get old) ++ gm_get l"
    and "gm_get lb prov = None \<Longrightarrow> gm_get (sv_byProvider (swap_in s p b (Inr (lp, lb, c)))) prov = gm_get b prov"
proof -
  have d: "distinct (map fst lb)" using assms(2) by (simp add: all_ok_def gm_ok_distinct)
  have e: "sv_byProvider (swap_in s p b (Inr (lp, lb, c)))
      = fst (foldl overlay_provider (b, snd (overlay_models p 0 lp)) lb)"
    by (auto simp: swap_in_def Let_def dest: overlayCatalog_parts split: prod.split)
  note g = overlay_providers_get [OF assms(1) d, of "snd (overlay_models p 0 lp)" prov]
  show "all_ok (sv_byProvider (swap_in s p b (Inr (lp, lb, c))))" using g by (simp add: e)
  show "gm_get (sv_byProvider (swap_in s p b (Inr (lp, lb, c)))) prov = gm_get b prov" if "gm_get lb prov = None"
    using g that by (simp add: e)
  show "\<exists>m. gm_get (sv_byProvider (swap_in s p b (Inr (lp, lb, c)))) prov = Some m \<and>
        gm_get m = (case gm_get b prov of None \<Rightarrow> Map.empty | Some old \<Rightarrow> gm_get old) ++ gm_get l"
    if l: "gm_get lb prov = Some l"
  proof -
    have "distinct (map fst l)" using assms(2) l by (simp add: all_ok_def gm_ok_distinct)
    then have "map_of (rev l) = gm_get l" by (subst map_of_inject_set) (simp_all add: rev_map [symmetric])
    with g l show ?thesis by (simp add: e)
  qed
qed

lemma swap_in_pricing:
  assumes "gm_ok p" "gm_ok lp"
  shows "gm_get (sv_pricing (swap_in s p b (Inr (lp, lb, c)))) = gm_get p ++ gm_get lp"
proof -
  have "map_of (rev lp) = gm_get lp"
    using gm_ok_distinct [OF assms(2)] by (subst map_of_inject_set) (simp_all add: rev_map [symmetric])
  moreover have "sv_pricing (swap_in s p b (Inr (lp, lb, c))) = fst (overlay_models p 0 lp)"
    by (auto simp: swap_in_def Let_def dest: overlayCatalog_parts split: prod.split)
  ultimately show ?thesis using overlay_models_get [OF assms(1)] by simp
qed

text \<open>After a reload that read the catalog, an endpoint it routes to has the catalog's own price.\<close>

lemma reload_endpoint_price:
  assumes "parseCatalog data = Some (p, b, c)" and "reload initial (Some data) reply s = (None, s')"
    and "Candidates s' slug = Some eps" and "ep \<in> set eps" and "ep_Provider ep \<noteq> []"
  shows "\<exists>m mp. gm_get b (ep_Provider ep) = Some m \<and> gm_get m (ep_ProviderModelID ep) = Some mp
    \<and> Price s' (ep_Provider ep) (ep_ProviderModelID ep) = Some mp"
proof -
  have rc: "readCatalog (Some data) = Inr (p, b, c)" by (simp add: readCatalog_def assms(1))
  obtain q rb where s': "s' = swap_in s q rb (Inr (p, b, c))" and ok: "all_ok rb"
    by (cases rule: reload_cases [of initial "Some data" reply s])
      (use assms(2) rc in \<open>auto dest: fetchRemote_ok\<close>)
  have "gm_get c slug = Some eps" using assms(3) by (simp add: Candidates_def s' swap_in_catalog)
  then obtain m mp where m: "gm_get b (ep_Provider ep) = Some m" "gm_get m (ep_ProviderModelID ep) = Some mp"
    using catalog_endpoint_priced(1) [OF assms(1) _ assms(4)] by blast
  from swap_in_byProvider(2) [OF ok catalog_all_ok(1) [OF assms(1)] m(1), of s q p c]
  obtain m' where "gm_get (sv_byProvider s') (ep_Provider ep) = Some m'" "gm_get m' (ep_ProviderModelID ep) = Some mp"
    using m(2) by (auto simp: s' map_add_def)
  with m assms(5) show ?thesis by (simp add: Price_def resolve_def provider_prices_def)
qed

text \<open>A service whose last reload read its catalog.\<close>

definition catalog_loaded :: "pricing_service \<Rightarrow> bool" where
  "catalog_loaded s \<longleftrightarrow> (\<exists>initial data reply s0. parseCatalog data \<noteq> None \<and> reload initial (Some data) reply s0 = (None, s))"

lemma loaded_candidates:
  assumes "catalog_loaded s" and "Candidates s slug = Some eps"
  shows "eps \<noteq> []" and "ep \<in> set eps \<Longrightarrow> Price s (ep_Provider ep) (ep_ProviderModelID ep) \<noteq> None"
    and "ep \<in> set eps \<Longrightarrow> ep_RequestDefaults ep = Some d \<Longrightarrow> gm_get d routedModelField = None"
proof -
  obtain initial data reply s0 p b c where d: "parseCatalog data = Some (p, b, c)"
    and r: "reload initial (Some data) reply s0 = (None, s)"
    using assms(1) by (auto simp: catalog_loaded_def)
  have rc: "readCatalog (Some data) = Inr (p, b, c)" by (simp add: readCatalog_def d)
  obtain q rb where s: "s = swap_in s0 q rb (Inr (p, b, c))" and q: "gm_ok q" "all_ok rb"
    by (cases rule: reload_cases [of initial "Some data" reply s0])
      (use r rc in \<open>auto dest: fetchRemote_ok\<close>)
  have c: "gm_get c slug = Some eps" using assms(2) by (simp add: Candidates_def s swap_in_catalog)
  then show "eps \<noteq> []" by (rule catalog_nonempty [OF d])
  show "gm_get d routedModelField = None" if "ep \<in> set eps" "ep_RequestDefaults ep = Some d"
    using catalog_endpoint_priced(2) [OF d c that] .
  show "Price s (ep_Provider ep) (ep_ProviderModelID ep) \<noteq> None" if ep: "ep \<in> set eps"
  proof (cases "ep_Provider ep = []")
    case False
    with reload_endpoint_price [OF d r assms(2) ep] show ?thesis by auto
  next
    case True
    obtain m mp where "gm_get b (ep_Provider ep) = Some m" "gm_get m (ep_ProviderModelID ep) = Some mp"
      using catalog_endpoint_priced(1) [OF d c ep] by blast
    from catalog_default_priced [OF d this] obtain mp' where "gm_get p (ep_ProviderModelID ep) = Some mp'" by auto
    then have "gm_get (sv_pricing s) (ep_ProviderModelID ep) = Some mp'"
      using swap_in_pricing [OF q(1) catalog_all_ok(3) [OF d], of s0 rb b c] by (simp add: s map_add_def)
    with True show ?thesis by (simp add: Price_def resolve_def provider_prices_def lookup_stripped_def split: prod.split bool.split)
  qed
qed

section \<open>Lookup\<close>

lemma matches_shape_length: "matches_shape shape s \<Longrightarrow> length s = length shape"
  by (simp add: matches_shape_def list_all2_lengthD)

lemma stripDateSuffix_long: "matches_shape ''-dddd-dd-dd'' d \<Longrightarrow> stripDateSuffix (base @ d) = (base, True)"
  using matches_shape_length [of "''-dddd-dd-dd''" d] by (simp add: stripDateSuffix_def date_suffix_def Let_def)

lemma stripDateSuffix_short:
  assumes "matches_shape ''-dddddddd'' d"
  shows "stripDateSuffix (base @ d) = (base, True)"
proof -
  have n: "length d = 9" using matches_shape_length [OF assms] by simp
  have "\<not> matches_shape ''-dddd-dd-dd'' (drop (length (base @ d) - 11) (base @ d))" if "11 \<le> length (base @ d)"
  proof
    let ?e = "drop (length (base @ d) - 11) (base @ d)"
    assume m: "matches_shape ''-dddd-dd-dd'' ?e"
    then have "?e ! 5 = CHR ''-''" by (auto simp: matches_shape_def list_all2_conv_all_nth dest: spec [of _ 5])
    moreover have "?e ! 5 = d ! 3" using that n by (simp add: nth_append)
    moreover have "is_digit (d ! 3)"
      using assms by (auto simp: matches_shape_def list_all2_conv_all_nth dest: spec [of _ 3])
    ultimately have "is_digit (CHR ''-'')" by simp
    then show False by (simp add: is_digit_def less_eq_char_def)
  qed
  with n assms show ?thesis by (auto simp: stripDateSuffix_def date_suffix_def Let_def)
qed

lemma resolve_provider:
  "provider \<noteq> [] \<Longrightarrow> gm_get (sv_byProvider s) provider = Some pm \<Longrightarrow> gm_get pm model = Some mp \<Longrightarrow>
     resolve s provider model = Some mp"
  by (simp add: resolve_def provider_prices_def)

text \<open>A dated name without an entry or alias of its own is priced as its base name.\<close>

lemma resolve_dated:
  assumes "stripDateSuffix model = (base, True)" and "stripDateSuffix base = (base, False)"
    and "gm_get (provider_prices s provider) model = None"
    and "gm_get (sv_pricing s) model = None" "lookup_alias s model = None"
  shows "resolve s provider model = resolve s provider base"
  using assms
  by (simp add: resolve_def lookup_stripped_def)
    (cases "gm_get (provider_prices s provider) base"; cases "gm_get (sv_pricing s) base"; cases "lookup_alias s base"; simp)

section \<open>Laws of the cost\<close>

definition pricing_nonneg :: "ModelPricing \<Rightarrow> bool" where
  "pricing_nonneg p \<longleftrightarrow> 0 \<le> mp_InputPricePerMillion p \<and> 0 \<le> mp_OutputPricePerMillion p \<and> 0 \<le> mp_CachedPricePerMillion p"

text \<open>Counts that make sense: none is negative and the cached parts are part of the input.\<close>

definition metrics_sane :: "usage_metrics \<Rightarrow> bool" where
  "metrics_sane m \<longleftrightarrow> 0 \<le> sint (um_CachedTokens m) \<and> 0 \<le> sint (um_CacheCreationTokens m)
     \<and> 0 \<le> sint (um_CacheCreation5mTokens m) \<and> 0 \<le> sint (um_CacheCreation1hTokens m) \<and> 0 \<le> sint (um_OutputTokens m)
     \<and> sint (um_CachedTokens m) + sint (um_CacheCreationTokens m) \<le> sint (um_InputTokens m)"

lemma million_pos: "0 < million"
  using f64_of_int_exact [of 1000000] by (simp add: million_def f64_rep)

lemma million_nonneg [simp]: "0 \<le> million"
  using million_pos by (rule less_imp_le)

lemma multipliers_nonneg [simp]: "0 \<le> cacheWrite5mMultiplier" "0 \<le> cacheWrite1hMultiplier"
  using rnd53_mono [of 0 "5 / 4"]
  by (simp add: cacheWrite5mMultiplier_def f64_rep) (simp add: cacheWrite1hMultiplier_def f64_of_int_nonneg)

lemma to_f64_nonneg: "0 \<le> sint n \<Longrightarrow> 0 \<le> to_f64 n"
  by (simp add: to_f64_def f64_of_int_nonneg)

lemma to_f64_mono: "sint m \<le> sint n \<Longrightarrow> to_f64 m \<le> to_f64 n"
  by (simp add: to_f64_def f64_of_int_mono)

lemma fresh_input_nonneg:
  assumes "metrics_sane m"
  shows "sint (um_InputTokens m - um_CachedTokens m - um_CacheCreationTokens m)
      = sint (um_InputTokens m) - sint (um_CachedTokens m) - sint (um_CacheCreationTokens m)"
proof -
  note r = sint_range [of "um_InputTokens m", unfolded int64_range_def]
  have 1: "sint (um_InputTokens m - um_CachedTokens m) = sint (um_InputTokens m) - sint (um_CachedTokens m)"
    using assms r by (intro sint_minus) (simp add: metrics_sane_def int64_range_def)
  then show ?thesis
    using assms r by (subst sint_minus) (simp_all add: metrics_sane_def int64_range_def)
qed

lemma add4_upper:
  assumes "0 \<le> a" "0 \<le> b" "0 \<le> c" "0 \<le> (d :: f64)"
  shows "0 \<le> a + b + c + d" "a \<le> a + b + c + d" "b \<le> a + b + c + d" "c \<le> a + b + c + d" "d \<le> a + b + c + d"
proof -
  have ab: "0 \<le> a + b" "a \<le> a + b" "b \<le> a + b" using assms by (simp_all add: f64_arith)
  have abc: "0 \<le> a + b + c" "a + b \<le> a + b + c" "c \<le> a + b + c" using assms ab by (simp_all add: f64_arith)
  have abcd: "a + b + c \<le> a + b + c + d" "d \<le> a + b + c + d" using assms abc by (simp_all add: f64_arith)
  from ab abc abcd show "0 \<le> a + b + c + d" "a \<le> a + b + c + d" "b \<le> a + b + c + d" "c \<le> a + b + c + d"
    "d \<le> a + b + c + d" by (blast intro: order_trans)+
qed

lemma cost_of_nonneg:
  assumes "pricing_nonneg p" and "metrics_sane m"
  shows "0 \<le> co_InputCost (cost_of p m)" "0 \<le> co_CachedCost (cost_of p m)"
    "0 \<le> co_CacheCreationCost (cost_of p m)" "0 \<le> co_OutputCost (cost_of p m)"
proof -
  have pr: "0 \<le> mp_InputPricePerMillion p" "0 \<le> mp_OutputPricePerMillion p" "0 \<le> mp_CachedPricePerMillion p"
    using assms(1) by (simp_all add: pricing_nonneg_def)
  have "0 \<le> sint (um_InputTokens m - um_CachedTokens m - um_CacheCreationTokens m)"
    using fresh_input_nonneg [OF assms(2)] assms(2) by (simp add: metrics_sane_def)
  with pr show "0 \<le> co_InputCost (cost_of p m)"
    by (simp add: cost_of_def Let_def f64_arith to_f64_nonneg)
  show "0 \<le> co_CachedCost (cost_of p m)" "0 \<le> co_OutputCost (cost_of p m)"
    using pr assms(2) by (simp_all add: cost_of_def Let_def f64_arith to_f64_nonneg metrics_sane_def)
  have "0 \<le> to_f64 (if Q then um_CacheCreationTokens m else um_CacheCreation5mTokens m)" for Q
    using assms(2) by (simp add: to_f64_nonneg metrics_sane_def)
  moreover have "0 \<le> to_f64 (um_CacheCreation1hTokens m)"
    using assms(2) by (simp add: to_f64_nonneg metrics_sane_def)
  ultimately show "0 \<le> co_CacheCreationCost (cost_of p m)"
    using pr by (simp add: cost_of_def Let_def f64_arith del: if_split)
qed

lemma cost_of_total:
  "co_TotalCost (cost_of p m) =
     co_InputCost (cost_of p m) + co_CachedCost (cost_of p m) + co_CacheCreationCost (cost_of p m) + co_OutputCost (cost_of p m)"
  by (simp add: cost_of_def Let_def)

lemma cost_of_total_upper:
  assumes "pricing_nonneg p" and "metrics_sane m"
  shows "co_InputCost (cost_of p m) \<le> co_TotalCost (cost_of p m)" "co_CachedCost (cost_of p m) \<le> co_TotalCost (cost_of p m)"
    "co_CacheCreationCost (cost_of p m) \<le> co_TotalCost (cost_of p m)" "co_OutputCost (cost_of p m) \<le> co_TotalCost (cost_of p m)"
    "0 \<le> co_TotalCost (cost_of p m)"
  unfolding cost_of_total by (rule add4_upper; rule cost_of_nonneg [OF assms])+

text \<open>More output tokens never cost less.\<close>

lemma cost_of_output_mono:
  assumes "pricing_nonneg p" "0 \<le> sint (um_OutputTokens m)" "sint (um_OutputTokens m) \<le> sint n"
  shows "co_TotalCost (cost_of p m) \<le> co_TotalCost (cost_of p (m\<lparr>um_OutputTokens := n\<rparr>))"
proof -
  have "to_f64 (um_OutputTokens m) * mp_OutputPricePerMillion p \<le> to_f64 n * mp_OutputPricePerMillion p"
    using assms by (intro f64_mult_mono to_f64_nonneg to_f64_mono) (simp_all add: pricing_nonneg_def)
  then have "to_f64 (um_OutputTokens m) * mp_OutputPricePerMillion p / million \<le> to_f64 n * mp_OutputPricePerMillion p / million"
    by (intro f64_div_mono) simp_all
  then show ?thesis by (simp add: cost_of_def Let_def f64_add_mono)
qed

section \<open>Properties\<close>

text \<open>Parsing a catalog does not depend on the order in which Go iterates over its maps: with the
  models of every provider and the routes visited in any order, the default prices, the prices per
  provider and the routing catalog are the same.\<close>

theorem parse_catalog_order:
  assumes "catalog_ok cf" and "\<forall>m. mset (order m) = mset m" and "mset routes = mset (cf_Routes cf)"
  shows "build_catalog order routes cf = build_catalog id (cf_Routes cf) cf"
  using assms by (intro build_catalog_order) simp_all

lemma parse_catalog_order_witness:
  "build_catalog rev [(''b'', []), (''a'', [])] \<lparr>cf_Providers = [], cf_Routes = [(''a'', []), (''b'', [])]\<rparr>
     = ([], [], [])"
proof -
  let ?cf = "\<lparr>cf_Providers = [], cf_Routes = [(''a'', []), (''b'', [])]\<rparr>"
  have "catalog_ok ?cf" by (simp add: catalog_ok_def gm_ok_def less_char_def)
  moreover have "build_catalog id (cf_Routes ?cf) ?cf = ([], [], [])" by code_simp
  ultimately show ?thesis
    using parse_catalog_order [of ?cf rev "[(''b'', []), (''a'', [])]"] by (simp add: add_mset_commute)
qed

text \<open>The catalog is authoritative. After a reload that read it, the price of a model it lists for a
  provider is the catalog's own, and every other price is the one of the remote feed; a model it
  lists is never served with the feed's default.\<close>

theorem catalog_overrides_feed:
  assumes "parseCatalog data = Some (p, b, c)" and "fetchRemote reply = Inr (rp, rb)" and "sv_remoteURL s \<noteq> []"
  shows "\<exists>s'. reload initial (Some data) reply s = (None, s') \<and> sv_catalog s' = c \<and>
    gm_get (sv_pricing s') = gm_get rp ++ gm_get p \<and>
    (\<forall>prov model. (case gm_get (sv_byProvider s') prov of None \<Rightarrow> None | Some m \<Rightarrow> gm_get m model) =
       (case (case gm_get b prov of None \<Rightarrow> None | Some m \<Rightarrow> gm_get m model) of
          Some mp \<Rightarrow> Some mp
        | None \<Rightarrow> (case gm_get rb prov of None \<Rightarrow> None | Some m \<Rightarrow> gm_get m model)))"
proof -
  let ?s' = "swap_in s rp rb (Inr (p, b, c))"
  have ok: "gm_ok rp" "all_ok rb" using fetchRemote_ok [OF assms(2)] by simp_all
  note cok = catalog_all_ok [OF assms(1)]
  have "reload initial (Some data) reply s = (None, ?s')"
    using assms by (simp add: reload_def readCatalog_def)
  moreover have "(case gm_get (sv_byProvider ?s') prov of None \<Rightarrow> None | Some m \<Rightarrow> gm_get m model) =
       (case (case gm_get b prov of None \<Rightarrow> None | Some m \<Rightarrow> gm_get m model) of
          Some mp \<Rightarrow> Some mp
        | None \<Rightarrow> (case gm_get rb prov of None \<Rightarrow> None | Some m \<Rightarrow> gm_get m model))" for prov model
  proof (cases "gm_get b prov")
    case None
    then show ?thesis using swap_in_byProvider(3) [OF ok(2) cok(1), of prov s rp p c] by simp
  next
    case (Some l)
    from swap_in_byProvider(2) [OF ok(2) cok(1) Some, of s rp p c] show ?thesis
      using Some by (auto simp: map_add_def split: option.split)
  qed
  ultimately show ?thesis
    using swap_in_pricing [OF ok(1) cok(3), of s rb b c] by (simp add: swap_in_catalog)
qed

lemma catalog_overrides_feed_witness:
  "\<exists>s'. reload False (Some ''{}'') (Some \<lparr>hr_StatusCode = 200, hr_Body = ''{}''\<rparr>)
      \<lparr>sv_remoteURL = ''u'', sv_aliasesFile = [], sv_pricing = [], sv_byProvider = [], sv_catalog = [(''s'', [])],
       sv_aliases = []\<rparr> = (None, s') \<and> sv_catalog s' = []"
proof -
  have "parseCatalog ''{}'' = Some ([], [], [])" by code_simp
  moreover have "fetchRemote (Some \<lparr>hr_StatusCode = 200, hr_Body = ''{}''\<rparr>) = Inr ([], [])" by code_simp
  ultimately show ?thesis
    using catalog_overrides_feed [of "''{}''" "[]" "[]" "[]" "Some \<lparr>hr_StatusCode = 200, hr_Body = ''{}''\<rparr>" "[]" "[]"
        "\<lparr>sv_remoteURL = ''u'', sv_aliasesFile = [], sv_pricing = [], sv_byProvider = [], sv_catalog = [(''s'', [])],
          sv_aliases = []\<rparr>" False]
    by auto
qed

text \<open>Refreshing never loses what is loaded by accident: a reload that returns an error leaves the
  service as it was, one that does not read the catalog keeps the routes, and only a refresh that
  reaches neither source is an error. So over any sequence of ticks the routes are those of the last
  catalog that could be read.\<close>

theorem refresh_keeps_state:
  "(fst (reload initial src reply s) \<noteq> None \<longrightarrow> snd (reload initial src reply s) = s) \<and>
   (readCatalog src = Inl e \<longrightarrow> sv_catalog (snd (reload initial src reply s)) = sv_catalog s) \<and>
   (list_all (\<lambda>(f, _). \<exists>e. readCatalog f = Inl e) ticks \<longrightarrow> sv_catalog (refreshLoop ticks s) = sv_catalog s)"
proof -
  have routes: "sv_catalog (snd (reload i f r s)) = sv_catalog s" if "readCatalog f = Inl e" for i f r s e
    using that by (cases rule: reload_cases [of i f r s]) (auto simp: swap_in_catalog)
  have "sv_catalog (refreshLoop ticks s) = sv_catalog s" if "list_all (\<lambda>(f, _). \<exists>e. readCatalog f = Inl e) ticks" for s
    using that by (induction ticks arbitrary: s) (auto simp: refreshLoop_def routes)
  with routes reload_error_keeps show ?thesis by blast
qed

lemma refresh_keeps_state_witness:
  "sv_catalog (refreshLoop [(None, None), (None, None)]
      \<lparr>sv_remoteURL = ''u'', sv_aliasesFile = [], sv_pricing = [], sv_byProvider = [], sv_catalog = [(''s'', [])],
       sv_aliases = []\<rparr>) = [(''s'', [])]"
  using refresh_keeps_state [of False None None
      "\<lparr>sv_remoteURL = ''u'', sv_aliasesFile = [], sv_pricing = [], sv_byProvider = [], sv_catalog = [(''s'', [])],
        sv_aliases = []\<rparr>" CatalogRead "[(None, None), (None, None)]"]
  by (simp add: readCatalog_def)

text \<open>A model name with a trailing date that has no price or alias of its own is priced exactly as the
  name without the date, for both date formats and every provider.\<close>

theorem dated_model_price:
  assumes "matches_shape ''-dddd-dd-dd'' d \<or> matches_shape ''-dddddddd'' d"
    and "stripDateSuffix base = (base, False)"
    and "gm_get (provider_prices s provider) (base @ d) = None"
    and "gm_get (sv_pricing s) (base @ d) = None" and "lookup_alias s (base @ d) = None"
  shows "Price s provider (base @ d) = Price s provider base"
proof -
  have "stripDateSuffix (base @ d) = (base, True)"
    using assms(1) stripDateSuffix_long stripDateSuffix_short by blast
  from resolve_dated [OF this assms(2-5)] show ?thesis by (simp add: Price_def)
qed

definition example_service :: pricing_service where
  "example_service = \<lparr>sv_remoteURL = [], sv_aliasesFile = [],
     sv_pricing = [(''gpt'', \<lparr>mp_InputPricePerMillion = 1, mp_OutputPricePerMillion = 1, mp_CachedPricePerMillion = 0\<rparr>)],
     sv_byProvider = [], sv_catalog = [], sv_aliases = []\<rparr>"

lemma dated_model_price_witness:
  "Price example_service ''openai'' ''gpt-2026-03-17'' = Price example_service ''openai'' ''gpt''
    \<and> Price example_service ''openai'' ''gpt'' \<noteq> None"
proof -
  have "matches_shape ''-dddd-dd-dd'' ''-2026-03-17''" by code_simp
  moreover have "stripDateSuffix ''gpt'' = (''gpt'', False)" by code_simp
  ultimately have "Price example_service ''openai'' ''gpt-2026-03-17'' = Price example_service ''openai'' ''gpt''"
    using dated_model_price [of "''-2026-03-17''" "''gpt''" example_service "''openai''"]
    by (simp add: example_service_def provider_prices_def lookup_alias_def)
  moreover have "Price example_service ''openai'' ''gpt'' \<noteq> None"
    by (simp add: example_service_def provider_prices_def Price_def resolve_def lookup_stripped_def
        split: prod.split bool.split)
  ultimately show ?thesis by simp
qed

text \<open>C8. With prices that are not negative and counts that make sense, no part of a cost is negative,
  each part is at most the total, and more output never costs less, in the rounded arithmetic the
  code computes with.\<close>

theorem cost_bounds:
  assumes "resolve s (um_Provider m) (um_Model m) = Some p" and "pricing_nonneg p" and "metrics_sane m"
    and "sint (um_OutputTokens m) \<le> sint n"
  shows "0 \<le> co_InputCost (Calculate s m) \<and> co_InputCost (Calculate s m) \<le> co_TotalCost (Calculate s m)
    \<and> 0 \<le> co_CachedCost (Calculate s m) \<and> co_CachedCost (Calculate s m) \<le> co_TotalCost (Calculate s m)
    \<and> 0 \<le> co_CacheCreationCost (Calculate s m) \<and> co_CacheCreationCost (Calculate s m) \<le> co_TotalCost (Calculate s m)
    \<and> 0 \<le> co_OutputCost (Calculate s m) \<and> co_OutputCost (Calculate s m) \<le> co_TotalCost (Calculate s m)
    \<and> co_TotalCost (Calculate s m) \<le> co_TotalCost (Calculate s (m\<lparr>um_OutputTokens := n\<rparr>))"
  using assms cost_of_nonneg [OF assms(2,3)] cost_of_total_upper [OF assms(2,3)] cost_of_output_mono [OF assms(2)]
  by (simp add: Calculate_def metrics_sane_def)

lemma cost_bounds_witness:
  "0 \<le> co_OutputCost (Calculate example_service (zero_metrics\<lparr>um_Model := ''gpt''\<rparr>))"
proof -
  let ?m = "zero_metrics\<lparr>um_Model := ''gpt''\<rparr>"
  let ?p = "\<lparr>mp_InputPricePerMillion = 1, mp_OutputPricePerMillion = 1, mp_CachedPricePerMillion = 0 :: f64\<rparr>"
  have "resolve example_service (um_Provider ?m) (um_Model ?m) = Some ?p"
    by (simp add: example_service_def zero_metrics_def resolve_def provider_prices_def lookup_stripped_def)
      (simp add: stripDateSuffix_def split: option.split prod.split)
  moreover have "(0 :: f64) \<le> 1" by (simp add: f64_rep)
  ultimately show ?thesis
    using cost_bounds [of example_service ?m ?p 0] by (simp add: pricing_nonneg_def metrics_sane_def zero_metrics_def)
qed

text \<open>Tokens written to the cache are never priced at nothing: when a parser reports a total but no
  split by lifetime, the whole total is charged at the five-minute rate.\<close>

theorem cache_writes_priced:
  assumes "um_CacheCreation5mTokens m = 0" and "um_CacheCreation1hTokens m = 0" and "0 <s um_CacheCreationTokens m"
  shows "cost_of p m = cost_of p (m\<lparr>um_CacheCreation5mTokens := um_CacheCreationTokens m\<rparr>)
    \<and> co_CacheCreationCost (cost_of p m)
      = to_f64 (um_CacheCreationTokens m) * cacheWrite5mMultiplier * mp_InputPricePerMillion p / million"
  using assms by (auto simp: cost_of_def Let_def to_f64_def)

definition example_pricing :: ModelPricing where
  "example_pricing = \<lparr>mp_InputPricePerMillion = 1, mp_OutputPricePerMillion = 1, mp_CachedPricePerMillion = 0\<rparr>"

lemma cache_writes_priced_witness:
  "co_CacheCreationCost (cost_of example_pricing (zero_metrics\<lparr>um_CacheCreationTokens := 8\<rparr>))
     = to_f64 8 * cacheWrite5mMultiplier * 1 / million"
proof -
  have "0 <s (8 :: int64)" by (simp add: word_sless_alt)
  then show ?thesis
    by (subst cache_writes_priced [THEN conjunct2]) (simp_all add: zero_metrics_def example_pricing_def)
qed

text \<open>A small catalog, and the service that read it.\<close>

definition example_catalog :: string where
  "example_catalog = doc ''{~providers~:{~p~:{~models~:{~m~:{}}}},~routes~:{~s~:[{~provider~:~p~,~model~:~m~}]}}''"

definition example_catalog_file :: catalogFile where
  "example_catalog_file = \<lparr>cf_Providers = [(''p'', zero_providerSection\<lparr>ps_Models := [(''m'', zero_fallbackPriceEntry)]\<rparr>)],
     cf_Routes = [(''s'', [\<lparr>re_Provider' = ''p'', re_Model' = ''m'', re_RequestDefaults = None\<rparr>])]\<rparr>"

definition catalog_endpoint :: Endpoint where
  "catalog_endpoint = \<lparr>ep_Provider = ''p'', ep_BaseURL = [], ep_ProviderModelID = ''m'', ep_Region = [], ep_ZDR = False,
     ep_DataCollection = [], ep_RequestDefaults = None\<rparr>"

lemma example_catalog_parse:
  "parseCatalog example_catalog = Some (build_catalog id (cf_Routes example_catalog_file) example_catalog_file)"
proof -
  let ?j = "JObj [(''providers'', JObj [(''p'', JObj [(''models'', JObj [(''m'', JObj [])])])]),
    (''routes'', JObj [(''s'', JArr [JObj [(''provider'', JStr ''p''), (''model'', JStr ''m'')]])])]"
  have "json_parse example_catalog = Some ?j" unfolding example_catalog_def by code_simp
  moreover have "decode_struct catalogFile_fields ?j \<lparr>cf_Providers = [], cf_Routes = []\<rparr> = Some example_catalog_file"
    by (simp add: example_catalog_file_def decode_simps field_def catalogFile_fields_def providerSection_fields_def
        fallbackPriceEntry_fields_def routeEntry_fields_def zero_routeEntry_def zero_providerSection_def)
  ultimately show ?thesis by (simp add: parseCatalog_def unmarshal_def)
qed

lemma example_catalog_build:
  "\<exists>p b. parseCatalog example_catalog = Some (p, b, [(''s'', [catalog_endpoint])])"
  by (simp add: example_catalog_parse build_catalog_def Let_def)
    (simp add: example_catalog_file_def route_endpoints_def route_endpoint_def List.map_filter_def
      zero_providerSection_def catalog_endpoint_def)

lemma example_loaded:
  "\<exists>s. catalog_loaded s \<and> Candidates s ''s'' = Some [catalog_endpoint]"
proof -
  obtain p b where p: "parseCatalog example_catalog = Some (p, b, [(''s'', [catalog_endpoint])])"
    using example_catalog_build by blast
  let ?s = "swap_in example_service [] [] (Inr (p, b, [(''s'', [catalog_endpoint])]))"
  have "reload True (Some example_catalog) None example_service = (None, ?s)"
    by (simp add: reload_def readCatalog_def p example_service_def)
  with p have "catalog_loaded ?s" unfolding catalog_loaded_def by (metis option.distinct(1))
  moreover have "Candidates ?s ''s'' = Some [catalog_endpoint]" by (simp add: Candidates_def swap_in_catalog)
  ultimately show ?thesis by blast
qed

end
