(* ===== verification/Router.thy ===== *)
theory Router
  imports Pricing "HOL-Library.Product_Lexorder"
begin

text \<open>
  Provider routing, \<open>internal/proxy/providerrouter.go\<close>, and the model override of
  \<open>internal/proxy/override.go\<close>: the cached health snapshot, the hard filters, the cost-weighted
  selection and the rewriting of a routed request.

  The catalog, the prices and the stored keys are arguments, as the code takes them through
  interfaces; so are the clock, the rows of the health query and the random number.
\<close>

section \<open>Data\<close>

datatype route_error =
    ErrNoUsableEndpoint string
  | ErrNoCompliantEndpoint string

record DataPolicy =
  dp_RequireZDR :: bool
  dp_RequireNoDataCollection :: bool

definition healthCacheTTL :: duration where "healthCacheTTL = 30 * second"
definition healthWindow :: duration where "healthWindow = 5 * minute"
definition healthMinSamples :: int where "healthMinSamples = 20"
definition healthMaxErrorRate :: f64 where "healthMaxErrorRate = f64_of_rat (1 / 5)"

record RouteDecision =
  rd_Provider :: string
  rd_BaseURL :: string
  rd_ProviderModelID :: string
  rd_Reason :: string
  rd_RequestDefaults :: "raw_map option"

record healthSnapshot =
  hs_byKey :: "(string, endpoint_health) gomap"
  hs_fetchedAt :: instant

section \<open>Health\<close>

definition healthKey :: "string \<Rightarrow> string \<Rightarrow> string" where
  "healthKey provider model = provider @ CHR 0x00 # model"

definition index_health :: "endpoint_health list \<Rightarrow> (string, endpoint_health) gomap" where
  "index_health rows = foldl (\<lambda>m row. gm_put (healthKey (eh_Provider row) (eh_Model row)) row m) [] rows"

text \<open>\<open>getHealth\<close>: the rows are what the store answers now, \<open>None\<close> for an error. It returns the
  snapshot to use and the snapshot kept.\<close>

definition getHealth :: "instant \<Rightarrow> endpoint_health list option \<Rightarrow> healthSnapshot option
    \<Rightarrow> healthSnapshot \<times> healthSnapshot option" where
  "getHealth now rows snapshot =
     (let refresh = (case rows of
          None \<Rightarrow> (case snapshot of Some s \<Rightarrow> (s, snapshot)
                   | None \<Rightarrow> (\<lparr>hs_byKey = [], hs_fetchedAt = now\<rparr>, None))
        | Some rs \<Rightarrow> (let s = \<lparr>hs_byKey = index_health rs, hs_fetchedAt = now\<rparr> in (s, Some s)))
      in case snapshot of
           Some s \<Rightarrow> if now - hs_fetchedAt s < healthCacheTTL then (s, snapshot) else refresh
         | None \<Rightarrow> refresh)"

definition isHealthy :: "healthSnapshot \<Rightarrow> Endpoint \<Rightarrow> bool" where
  "isHealthy h ep =
     (case gm_get (hs_byKey h) (healthKey (ep_Provider ep) (ep_ProviderModelID ep)) of
        None \<Rightarrow> True
      | Some stat \<Rightarrow> if eh_SampleCount stat < healthMinSamples then True
                     else eh_ErrorRate stat \<le> healthMaxErrorRate)"

section \<open>Selection by cost\<close>

type_synonym pricer = "string \<Rightarrow> string \<Rightarrow> ModelPricing option"

definition unknownPriceSentinel :: f64 where "unknownPriceSentinel = f64_of_int 1000000000"

definition blendedPrice :: "pricer \<Rightarrow> Endpoint \<Rightarrow> f64" where
  "blendedPrice price ep =
     (case price (ep_Provider ep) (ep_ProviderModelID ep) of
        None \<Rightarrow> unknownPriceSentinel
      | Some p \<Rightarrow> mp_InputPricePerMillion p + mp_OutputPricePerMillion p)"

definition weightForPrice :: "f64 \<Rightarrow> f64" where
  "weightForPrice price = (if price \<le> 0 then f64_of_int 1000000 else 1 / price)"

text \<open>The order of the sort: price, then provider. The sort is stable, as the insertion sort that
  package \<open>sort\<close> uses for up to twelve elements is.\<close>

definition sort_candidates :: "pricer \<Rightarrow> Endpoint list \<Rightarrow> Endpoint list" where
  "sort_candidates price eps = sort_key (\<lambda>ep. (blendedPrice price ep, ep_Provider ep)) eps"

text \<open>The loop that looks for the target among the accumulated weights.\<close>

fun pick_weighted :: "f64 \<Rightarrow> f64 \<Rightarrow> (Endpoint \<times> f64) list \<Rightarrow> Endpoint option" where
  "pick_weighted target acc [] = None"
| "pick_weighted target acc ((ep, w) # rest) =
     (if target < acc + w then Some ep else pick_weighted target (acc + w) rest)"

definition selectByCost :: "pricer \<Rightarrow> f64 \<Rightarrow> Endpoint list \<Rightarrow> Endpoint" where
  "selectByCost price randFloat candidates =
     (let sorted = sort_candidates price candidates;
          weights = map (\<lambda>ep. weightForPrice (blendedPrice price ep)) sorted;
          total = foldl (+) 0 weights
      in if total \<le> 0 then hd sorted
         else case pick_weighted (randFloat * total) 0 (zip sorted weights) of
                Some ep \<Rightarrow> ep
              | None \<Rightarrow> last sorted)"

section \<open>Routing\<close>

text \<open>\<open>HasKey\<close> may fail; an error counts as no key.\<close>

definition hasCredential :: "(string \<Rightarrow> bool option) \<Rightarrow> string \<Rightarrow> bool" where
  "hasCredential hasKey provider = (hasKey provider = Some True)"

definition satisfiesPolicy :: "DataPolicy \<Rightarrow> Endpoint \<Rightarrow> bool" where
  "satisfiesPolicy policy ep \<longleftrightarrow>
     \<not> (dp_RequireZDR policy \<and> \<not> ep_ZDR ep) \<and>
     \<not> (dp_RequireNoDataCollection policy \<and> \<not> equal_fold (ep_DataCollection ep) ''deny'')"

definition healthy_reason :: "nat \<Rightarrow> nat \<Rightarrow> string" where
  "healthy_reason pool eligible = ''cost-weighted among '' @ dec_of_nat pool @ '' healthy of ''
     @ dec_of_nat eligible @ '' eligible candidate(s)''"

definition degraded_reason :: "nat \<Rightarrow> string" where
  "degraded_reason eligible = ''all '' @ dec_of_nat eligible @ '' eligible candidate(s) unhealthy; fell back to cheapest''"

definition decision_for :: "Endpoint \<Rightarrow> string \<Rightarrow> RouteDecision" where
  "decision_for ep reason = \<lparr>rd_Provider = ep_Provider ep, rd_BaseURL = ep_BaseURL ep,
     rd_ProviderModelID = ep_ProviderModelID ep, rd_Reason = reason, rd_RequestDefaults = ep_RequestDefaults ep\<rparr>"

definition route_among :: "pricer \<Rightarrow> (string \<Rightarrow> bool option) \<Rightarrow> f64 \<Rightarrow> healthSnapshot \<Rightarrow> string \<Rightarrow> DataPolicy
    \<Rightarrow> Endpoint list \<Rightarrow> route_error + RouteDecision" where
  "route_among price hasKey randFloat health model policy candidates =
     (let credentialed = filter (\<lambda>ep. hasCredential hasKey (ep_Provider ep)) candidates in
      if credentialed = [] then Inl (ErrNoUsableEndpoint model)
      else let eligible = filter (satisfiesPolicy policy) credentialed in
      if eligible = [] then Inl (ErrNoCompliantEndpoint model)
      else let healthy = filter (isHealthy health) eligible;
               degraded = (healthy = []);
               pool = (if degraded then eligible else healthy);
               ep = selectByCost price randFloat pool;
               reason = (if degraded then degraded_reason (length eligible)
                         else healthy_reason (length pool) (length eligible))
           in Inr (decision_for ep reason))"

text \<open>\<open>Route\<close>: nothing for a model that is not in the catalog; otherwise a decision or an error, and
  the snapshot kept.\<close>

definition Route :: "(string \<Rightarrow> Endpoint list option) \<Rightarrow> pricer \<Rightarrow> (string \<Rightarrow> bool option) \<Rightarrow> f64 \<Rightarrow> instant
    \<Rightarrow> endpoint_health list option \<Rightarrow> string \<Rightarrow> DataPolicy \<Rightarrow> healthSnapshot option
    \<Rightarrow> (route_error + RouteDecision) option \<times> healthSnapshot option" where
  "Route candidates price hasKey randFloat now rows model policy snapshot =
     (case candidates model of
        None \<Rightarrow> (None, snapshot)
      | Some eps \<Rightarrow>
          (let (health, snapshot') = getHealth now rows snapshot
           in (Some (route_among price hasKey randFloat health model policy eps), snapshot')))"

section \<open>Rewriting the request\<close>

definition reasoningControlFields :: "string list" where
  "reasoningControlFields = [''reasoning_effort'', ''reasoning'', ''thinking'']"

definition has_field :: "raw_map \<Rightarrow> string \<Rightarrow> bool" where
  "has_field req f \<longleftrightarrow> gm_get req f \<noteq> None"

definition default_applies :: "bool \<Rightarrow> raw_map \<Rightarrow> string \<Rightarrow> bool" where
  "default_applies callerSetReasoning req f \<longleftrightarrow>
     \<not> has_field req f \<and> \<not> (f \<in> set reasoningControlFields \<and> callerSetReasoning)"

text \<open>The loop over the defaults, in the order given, with the names applied so far.\<close>

fun apply_defaults :: "bool \<Rightarrow> (string \<times> json) list \<Rightarrow> raw_map \<Rightarrow> string list \<Rightarrow> raw_map \<times> string list" where
  "apply_defaults cs [] req applied = (req, applied)"
| "apply_defaults cs ((f, v) # ds) req applied =
     (if default_applies cs req f then apply_defaults cs ds (gm_put f v req) (applied @ [f])
      else apply_defaults cs ds req applied)"

datatype rewrite_error =
    RewriteUnmarshal
  | RewriteNotObject

text \<open>The iteration order of the map of defaults is the argument \<open>order\<close>, any list of its entries.\<close>

definition rewrite_with :: "(string \<times> json) list \<Rightarrow> string \<Rightarrow> string \<Rightarrow> rewrite_error + string \<times> string list" where
  "rewrite_with order providerModelID body =
     (case unmarshal_raw_map body of
        None \<Rightarrow> Inl RewriteUnmarshal
      | Some None \<Rightarrow> Inl RewriteNotObject
      | Some (Some req) \<Rightarrow>
          (let req1 = gm_put ''model'' (json_str providerModelID) req;
               callerSetReasoning = list_ex (has_field req1) reasoningControlFields;
               (req2, applied) = apply_defaults callerSetReasoning order req1 []
           in Inr (marshal_raw_map req2, sort applied)))"

definition RewriteRoutedRequest :: "string \<Rightarrow> string \<Rightarrow> raw_map option \<Rightarrow> rewrite_error + string \<times> string list" where
  "RewriteRoutedRequest body providerModelID defaults =
     rewrite_with (case defaults of None \<Rightarrow> [] | Some d \<Rightarrow> d) providerModelID body"

text \<open>\<open>OverrideModel\<close> has no check for the nil map: a body \<open>null\<close> makes it write to a nil map, which
  panics.\<close>

datatype override_result =
    OverrideError
  | OverridePanic
  | Overridden string

definition OverrideModel :: "string \<Rightarrow> string \<Rightarrow> override_result" where
  "OverrideModel body newModel =
     (case unmarshal_raw_map body of
        None \<Rightarrow> OverrideError
      | Some None \<Rightarrow> OverridePanic
      | Some (Some req) \<Rightarrow> Overridden (marshal_raw_map (gm_put ''model'' (json_str newModel) req)))"

section \<open>Selection\<close>

lemma pick_weighted_mem: "pick_weighted t acc ews = Some ep \<Longrightarrow> ep \<in> fst ` set ews"
  by (induction t acc ews rule: pick_weighted.induct) (auto split: if_splits)

lemma set_sort_candidates [simp]: "set (sort_candidates price eps) = set eps"
  by (simp add: sort_candidates_def)

lemma sort_candidates_Nil [simp]: "sort_candidates price eps = [] \<longleftrightarrow> eps = []"
  by (metis set_empty set_sort_candidates)

lemma selectByCost_mem: "eps \<noteq> [] \<Longrightarrow> selectByCost price r eps \<in> set eps"
proof -
  assume ne: "eps \<noteq> []"
  let ?s = "sort_candidates price eps"
  have "hd ?s \<in> set eps" "last ?s \<in> set eps"
    using ne hd_in_set [of ?s] last_in_set [of ?s] by simp_all
  moreover have "ep \<in> set eps" if "pick_weighted t acc (zip ?s ws) = Some ep" for t acc ws ep
    using pick_weighted_mem [OF that] by (auto dest: set_zip_leftD)
  ultimately show ?thesis by (auto simp: selectByCost_def Let_def split: option.split)
qed

lemma weight_pos: "0 < weightForPrice p"
proof (cases "p \<le> 0")
  case True
  have "(0 :: f64) < f64_of_int 1000000" using f64_of_int_exact [of 1000000] by (simp add: f64_rep)
  with True show ?thesis by (simp add: weightForPrice_def)
next
  case False
  have "(0 :: f64) < 1" by (simp add: f64_rep)
  moreover have "0 < p" using False by simp
  ultimately show ?thesis unfolding weightForPrice_def if_not_P [OF False] by (rule f64_div_pos)
qed

text \<open>Among priced endpoints the cheaper one has the larger share.\<close>

lemma weight_antimono: "0 < p \<Longrightarrow> p \<le> q \<Longrightarrow> weightForPrice q \<le> weightForPrice p"
  by (auto simp: weightForPrice_def f64_rep frac_le intro!: rnd53_mono)

lemma foldl_weights_pos: "0 \<le> a \<Longrightarrow> \<forall>w \<in> set ws. 0 < w \<Longrightarrow> ws \<noteq> [] \<Longrightarrow> 0 < foldl (+) a (ws :: f64 list)"
proof (induction ws arbitrary: a)
  case (Cons w ws)
  have "w \<le> a + w" using Cons.prems by (simp add: f64_add_upper2)
  then have "0 < a + w" using Cons.prems by (auto intro: less_le_trans)
  with Cons show ?case by (cases "ws = []") simp_all
qed simp

text \<open>The total is positive, so the early return on it is never taken and a random number of zero
  gives the cheapest endpoint.\<close>

lemma total_weight_pos:
  "eps \<noteq> [] \<Longrightarrow> 0 < foldl (+) 0 (map (\<lambda>ep. weightForPrice (blendedPrice price ep)) eps)"
  by (rule foldl_weights_pos) (auto simp: weight_pos)

lemma selectByCost_zero:
  assumes "eps \<noteq> []"
  shows "selectByCost price 0 eps = hd (sort_candidates price eps)"
proof -
  let ?s = "sort_candidates price eps"
  obtain e es where s: "?s = e # es" using assms by (cases ?s) auto
  have "\<not> foldl (+) 0 (map (\<lambda>ep. weightForPrice (blendedPrice price ep)) ?s) \<le> 0"
    using total_weight_pos [of ?s price] assms by (simp add: not_le del: foldl_map)
  then show ?thesis unfolding selectByCost_def Let_def s by (simp add: weight_pos)
qed

lemma cheapest_first:
  assumes "eps \<noteq> []" and "ep \<in> set eps"
  shows "blendedPrice price (hd (sort_candidates price eps)) \<le> blendedPrice price ep"
proof -
  let ?f = "\<lambda>ep. (blendedPrice price ep, ep_Provider ep)" and ?s = "sort_candidates price eps"
  obtain e es where s: "?s = e # es" using assms by (cases ?s) auto
  have "sorted (map ?f ?s)" by (simp add: sort_candidates_def)
  moreover have "ep \<in> set ?s" using assms(2) by simp
  ultimately have "?f e \<le> ?f ep" by (auto simp: s)
  then show ?thesis by (auto simp: s less_eq_prod_def)
qed

section \<open>The route\<close>

lemma route_among_decision:
  assumes "route_among price hasKey r health model policy eps = Inr d"
  shows "\<exists>ep \<in> set eps. d = decision_for ep (rd_Reason d) \<and> hasCredential hasKey (ep_Provider ep)
    \<and> satisfiesPolicy policy ep
    \<and> (isHealthy health ep \<or>
        (\<forall>e \<in> set eps. hasCredential hasKey (ep_Provider e) \<longrightarrow> satisfiesPolicy policy e \<longrightarrow> \<not> isHealthy health e))"
proof -
  let ?el = "filter (satisfiesPolicy policy) (filter (\<lambda>ep. hasCredential hasKey (ep_Provider ep)) eps)"
  let ?h = "filter (isHealthy health) ?el"
  let ?pool = "if ?h = [] then ?el else ?h"
  have ne: "?el \<noteq> []" and d: "d = decision_for (selectByCost price r ?pool) (rd_Reason d)"
    using assms by (auto simp: route_among_def Let_def decision_for_def split: if_splits)
  then have "selectByCost price r ?pool \<in> set ?pool" by (intro selectByCost_mem) auto
  then show ?thesis using d
    by (intro bexI [of _ "selectByCost price r ?pool"]) (auto simp: filter_empty_conv split: if_splits)
qed

lemma route_among_usable:
  "route_among price hasKey r health model policy eps = Inl (ErrNoUsableEndpoint m) \<longleftrightarrow>
     m = model \<and> (\<forall>ep \<in> set eps. \<not> hasCredential hasKey (ep_Provider ep))"
  by (auto simp: route_among_def Let_def filter_empty_conv)

lemma route_among_compliant:
  "route_among price hasKey r health model policy eps = Inl (ErrNoCompliantEndpoint m) \<longleftrightarrow>
     m = model \<and> (\<exists>ep \<in> set eps. hasCredential hasKey (ep_Provider ep)) \<and>
     (\<forall>ep \<in> set eps. hasCredential hasKey (ep_Provider ep) \<longrightarrow> \<not> satisfiesPolicy policy ep)"
  by (auto simp: route_among_def Let_def filter_empty_conv)

section \<open>The snapshot\<close>

lemma getHealth_fresh:
  "now - hs_fetchedAt s < healthCacheTTL \<Longrightarrow> getHealth now rows (Some s) = (s, Some s)"
  by (simp add: getHealth_def)

lemma getHealth_stale_error:
  "\<not> now - hs_fetchedAt s < healthCacheTTL \<Longrightarrow> getHealth now None (Some s) = (s, Some s)"
  by (simp add: getHealth_def Let_def)

lemma index_health_ok: "gm_ok (index_health rows)"
  unfolding index_health_def by (induction rows rule: rev_induct) auto

text \<open>The key separates provider and model, as long as no provider name holds the separator.\<close>

lemma healthKey_inj:
  "CHR 0x00 \<notin> set p \<Longrightarrow> CHR 0x00 \<notin> set p' \<Longrightarrow> healthKey p m = healthKey p' m' \<longleftrightarrow> p = p' \<and> m = m'"
proof
  assume "CHR 0x00 \<notin> set p" "CHR 0x00 \<notin> set p'" "healthKey p m = healthKey p' m'"
  then show "p = p' \<and> m = m'"
    by (auto simp: healthKey_def append_eq_append_conv2 Cons_eq_append_conv append_eq_Cons_conv)
qed simp

section \<open>Rewriting\<close>

lemma apply_defaults_ok:
  "gm_ok req \<Longrightarrow> gm_ok (fst (apply_defaults cs ds req ap))"
  by (induction cs ds req ap rule: apply_defaults.induct) auto

lemma apply_defaults_get:
  "gm_ok req \<Longrightarrow> distinct (map fst ds) \<Longrightarrow>
     gm_get (fst (apply_defaults cs ds req ap)) f =
       (case gm_get req f of
          Some v \<Rightarrow> Some v
        | None \<Rightarrow> if f \<in> set reasoningControlFields \<and> cs then None else map_of ds f)"
proof (induction cs ds req ap rule: apply_defaults.induct)
  case (2 cs g v ds req ap)
  have g: "map_of ds g = None" using 2(4) by (simp add: map_of_eq_None_iff)
  show ?case
  proof (cases "default_applies cs req g")
    case True
    then have "gm_get req g = None" "\<not> (g \<in> set reasoningControlFields \<and> cs)"
      by (simp_all add: default_applies_def has_field_def)
    with True 2(1) 2(3,4) g show ?thesis by (cases "f = g"; cases "gm_get req f") (simp_all add: gomap)
  next
    case False
    then have "gm_get req g \<noteq> None \<or> g \<in> set reasoningControlFields \<and> cs"
      by (auto simp: default_applies_def has_field_def)
    with False 2(2) 2(3,4) show ?thesis by (cases "f = g") (auto split: option.split)
  qed
qed (simp split: option.split)

lemma apply_defaults_applied:
  "gm_ok req \<Longrightarrow> distinct (map fst ds) \<Longrightarrow>
     snd (apply_defaults cs ds req ap) = ap @ filter (default_applies cs req) (map fst ds)"
proof (induction cs ds req ap rule: apply_defaults.induct)
  case (2 cs g v ds req ap)
  have "filter (default_applies cs (gm_put g v req)) (map fst ds) = filter (default_applies cs req) (map fst ds)"
    using 2(3,4) by (intro filter_cong) (auto simp: default_applies_def has_field_def gomap)
  with 2 show ?case by simp
qed simp

lemma apply_defaults_perm:
  assumes "gm_ok req" "distinct (map fst ds)" "mset ds = mset ds'"
  shows "fst (apply_defaults cs ds req []) = fst (apply_defaults cs ds' req [])"
    and "sort (snd (apply_defaults cs ds req [])) = sort (snd (apply_defaults cs ds' req []))"
proof -
  have d: "distinct (map fst ds')" using assms(2,3) by (metis mset_eq_imp_distinct_iff mset_map)
  have "map_of ds = map_of ds'" using assms(2,3) d by (subst map_of_inject_set) (auto dest: mset_eq_setD)
  then show "fst (apply_defaults cs ds req []) = fst (apply_defaults cs ds' req [])"
    using assms d by (intro gm_ext) (auto simp: apply_defaults_ok apply_defaults_get fun_eq_iff split: option.split)
  have "mset (map fst ds) = mset (map fst ds')" using assms(3) by simp
  then have "mset (filter (default_applies cs req) (map fst ds)) = mset (filter (default_applies cs req) (map fst ds'))"
    by (simp only: mset_filter)
  then show "sort (snd (apply_defaults cs ds req [])) = sort (snd (apply_defaults cs ds' req []))"
    using assms d by (intro properties_for_sort) (simp_all add: apply_defaults_applied)
qed

text \<open>What the rewrite does to the object of the body.\<close>

definition rewrite_map :: "(string \<times> json) list \<Rightarrow> string \<Rightarrow> raw_map \<Rightarrow> raw_map \<times> string list" where
  "rewrite_map ds providerModelID req =
     (let req1 = gm_put ''model'' (json_str providerModelID) req
      in apply_defaults (list_ex (has_field req1) reasoningControlFields) ds req1 [])"

lemma rewrite_with_eq:
  "rewrite_with ds model body =
     (case unmarshal_raw_map body of
        None \<Rightarrow> Inl RewriteUnmarshal
      | Some None \<Rightarrow> Inl RewriteNotObject
      | Some (Some req) \<Rightarrow>
          Inr (marshal_raw_map (fst (rewrite_map ds model req)), sort (snd (rewrite_map ds model req))))"
  by (simp add: rewrite_with_def rewrite_map_def Let_def case_prod_unfold split: option.split)

lemma rewrite_order:
  assumes "distinct (map fst ds)" "mset ds = mset ds'"
  shows "rewrite_with ds model body = rewrite_with ds' model body"
proof -
  have "fst (rewrite_map ds model req) = fst (rewrite_map ds' model req) \<and>
      sort (snd (rewrite_map ds model req)) = sort (snd (rewrite_map ds' model req))"
    if "unmarshal_raw_map body = Some (Some req)" for req
    using apply_defaults_perm [OF _ assms] unmarshal_raw_map_ok [OF that]
    by (simp add: rewrite_map_def Let_def raw_map_ok_def)
  then show ?thesis by (auto simp: rewrite_with_eq split: option.split)
qed

lemma reasoning_not_model: "''model'' \<notin> set reasoningControlFields"
  by (simp add: reasoningControlFields_def)

lemma rewrite_map_get:
  assumes "gm_ok req" "distinct (map fst ds)"
  shows "gm_get (fst (rewrite_map ds model req)) f =
     (if f = ''model'' then Some (json_str model)
      else case gm_get req f of
             Some v \<Rightarrow> Some v
           | None \<Rightarrow> if f \<in> set reasoningControlFields \<and> list_ex (has_field req) reasoningControlFields
                     then None else map_of ds f)"
proof -
  let ?req1 = "gm_put ''model'' (json_str model) req"
  have "list_ex (has_field ?req1) reasoningControlFields = list_ex (has_field req) reasoningControlFields"
    using assms(1) by (simp add: reasoningControlFields_def has_field_def gomap)
  then show ?thesis
    using assms apply_defaults_get [of ?req1 ds] by (simp add: rewrite_map_def Let_def gomap)
qed

lemma rewrite_map_ok:
  assumes "raw_map_ok req" "\<forall>(_, v) \<in> set ds. json_ok v"
  shows "raw_map_ok (fst (rewrite_map ds model req))"
proof -
  have "raw_map_ok (fst (apply_defaults cs ds r ap))" if "raw_map_ok r" "\<forall>(_, v) \<in> set ds. json_ok v" for cs r ap
    using that by (induction cs ds r ap rule: apply_defaults.induct) (auto simp: raw_map_ok_put)
  with assms show ?thesis by (simp add: rewrite_map_def Let_def raw_map_ok_put)
qed

text \<open>The rewritten body, read back.\<close>

lemma RewriteRoutedRequest_body:
  assumes "unmarshal_raw_map body = Some (Some req)" and "raw_map_ok d"
  shows "\<exists>out applied m. RewriteRoutedRequest body model (Some d) = Inr (out, applied)
    \<and> unmarshal_raw_map out = Some (Some m)
    \<and> gm_get m = (\<lambda>f. map_option html_escape_json (gm_get (fst (rewrite_map d model req)) f))
    \<and> applied = sort (snd (rewrite_map d model req))"
proof -
  let ?r = "fst (rewrite_map d model req)"
  have ok: "raw_map_ok ?r"
    using assms(2) unmarshal_raw_map_ok [OF assms(1)]
    by (intro rewrite_map_ok) (auto simp: raw_map_ok_def list_all_iff)
  then show ?thesis
    using assms(1) unmarshal_marshal_map [OF ok]
    by (auto simp: RewriteRoutedRequest_def rewrite_with_eq gm_get_map_value fun_eq_iff)
qed

lemma rewrite_map_applied:
  assumes "gm_ok req" "distinct (map fst ds)"
  shows "snd (rewrite_map ds model req) =
    filter (\<lambda>f. f \<noteq> ''model'' \<and> gm_get req f = None
      \<and> \<not> (f \<in> set reasoningControlFields \<and> list_ex (has_field req) reasoningControlFields)) (map fst ds)"
proof -
  let ?req1 = "gm_put ''model'' (json_str model) req"
  have "list_ex (has_field ?req1) reasoningControlFields = list_ex (has_field req) reasoningControlFields"
    using assms(1) by (simp add: reasoningControlFields_def has_field_def gomap)
  then show ?thesis
    using assms apply_defaults_applied [of ?req1 ds]
    by (auto simp: rewrite_map_def Let_def default_applies_def has_field_def gomap split: if_splits intro!: filter_cong)
qed

lemma OverrideModel_body:
  assumes "unmarshal_raw_map body = Some (Some req)"
  shows "\<exists>out m. OverrideModel body model = Overridden out \<and> unmarshal_raw_map out = Some (Some m)
    \<and> gm_get m = (\<lambda>f. if f = ''model'' then Some (json_str model) else map_option html_escape_json (gm_get req f))"
proof -
  let ?r = "gm_put ''model'' (json_str model) req"
  have ok: "raw_map_ok req" by (rule unmarshal_raw_map_ok [OF assms])
  then have "raw_map_ok ?r" by (simp add: raw_map_ok_put)
  from unmarshal_marshal_map [OF this] ok show ?thesis
    by (auto simp: OverrideModel_def assms gm_get_map_value fun_eq_iff gomap raw_map_ok_def)
qed

section \<open>Routing over a source of candidates\<close>

text \<open>
  What the router relies on: a source never lists a slug without endpoints, prices every endpoint
  it lists, and lets no default set the model.
\<close>

locale candidate_source =
  fixes loaded :: "'s \<Rightarrow> bool"
    and candidates :: "'s \<Rightarrow> string \<Rightarrow> Endpoint list option"
    and price :: "'s \<Rightarrow> pricer"
  assumes listed: "loaded s \<Longrightarrow> candidates s m = Some eps \<Longrightarrow> eps \<noteq> []"
    and priced: "loaded s \<Longrightarrow> candidates s m = Some eps \<Longrightarrow> ep \<in> set eps \<Longrightarrow>
      price s (ep_Provider ep) (ep_ProviderModelID ep) \<noteq> None"
    and model_free: "loaded s \<Longrightarrow> candidates s m = Some eps \<Longrightarrow> ep \<in> set eps \<Longrightarrow>
      ep_RequestDefaults ep = Some d \<Longrightarrow> gm_get d routedModelField = None"
begin

lemma route_priced:
  assumes "loaded s" "Route (candidates s) (price s) hasKey r now rows model policy snap = (Some (Inr d), snap')"
  shows "price s (rd_Provider d) (rd_ProviderModelID d) \<noteq> None"
    and "rd_RequestDefaults d = Some ds \<Longrightarrow> gm_get ds routedModelField = None"
proof -
  obtain eps h where c: "candidates s model = Some eps"
    and r: "route_among (price s) hasKey r h model policy eps = Inr d"
    using assms(2) by (auto simp: Route_def split: option.splits prod.splits)
  from route_among_decision [OF r] obtain ep where ep: "ep \<in> set eps" "d = decision_for ep (rd_Reason d)" by blast
  from ep(2) have e: "rd_Provider d = ep_Provider ep" "rd_ProviderModelID d = ep_ProviderModelID ep"
    "rd_RequestDefaults d = ep_RequestDefaults ep"
    by (metis RouteDecision.select_convs decision_for_def)+
  show "price s (rd_Provider d) (rd_ProviderModelID d) \<noteq> None"
    using priced [OF assms(1) c ep(1)] e by simp
  show "gm_get ds routedModelField = None" if "rd_RequestDefaults d = Some ds"
    using model_free [OF assms(1) c ep(1)] that e by simp
qed

lemma blended_known:
  assumes "loaded s" "candidates s model = Some eps" "ep \<in> set eps"
  shows "\<exists>p. price s (ep_Provider ep) (ep_ProviderModelID ep) = Some p
    \<and> blendedPrice (price s) ep = mp_InputPricePerMillion p + mp_OutputPricePerMillion p"
  using priced [OF assms] by (auto simp: blendedPrice_def)

text \<open>A listed model for which every provider has a key and no policy is asked for is always routed.\<close>

lemma route_total:
  assumes "loaded s" "candidates s model = Some eps" "\<And>p. hasKey p = Some True"
    and "\<not> dp_RequireZDR policy" "\<not> dp_RequireNoDataCollection policy"
  shows "\<exists>d. fst (Route (candidates s) (price s) hasKey r now rows model policy snap) = Some (Inr d)"
  using listed [OF assms(1,2)] assms(2-)
  by (auto simp: Route_def route_among_def Let_def hasCredential_def satisfiesPolicy_def split: prod.split)

end

interpretation cat: candidate_source catalog_loaded Candidates Price
  by unfold_locales (use loaded_candidates in blast)+

section \<open>Properties\<close>

text \<open>C7. The three hard filters hold of every decision: the endpoint chosen is one the catalog lists for
  the model, the gateway has a credential for its provider, and it satisfies the data policy of the
  request. It is healthy, unless every endpoint that passes the first two filters is unhealthy.\<close>

theorem route_respects_filters:
  assumes "Route candidates price hasKey r now rows model policy snap = (Some (Inr d), snap')"
  shows "\<exists>eps ep. candidates model = Some eps \<and> ep \<in> set eps \<and> d = decision_for ep (rd_Reason d)
    \<and> hasKey (ep_Provider ep) = Some True
    \<and> (dp_RequireZDR policy \<longrightarrow> ep_ZDR ep)
    \<and> (dp_RequireNoDataCollection policy \<longrightarrow> equal_fold (ep_DataCollection ep) ''deny'')
    \<and> (isHealthy (fst (getHealth now rows snap)) ep \<or>
        (\<forall>e \<in> set eps. hasKey (ep_Provider e) = Some True \<longrightarrow> satisfiesPolicy policy e \<longrightarrow>
           \<not> isHealthy (fst (getHealth now rows snap)) e))"
proof -
  obtain eps where c: "candidates model = Some eps"
    and r: "route_among price hasKey r (fst (getHealth now rows snap)) model policy eps = Inr d"
    using assms by (auto simp: Route_def split: option.splits prod.splits)
  from route_among_decision [OF r] c show ?thesis by (auto simp: hasCredential_def satisfiesPolicy_def)
qed

definition example_endpoint :: Endpoint where
  "example_endpoint = \<lparr>ep_Provider = ''p'', ep_BaseURL = ''u'', ep_ProviderModelID = ''m'', ep_Region = [],
     ep_ZDR = True, ep_DataCollection = ''Deny'', ep_RequestDefaults = None\<rparr>"

definition example_policy :: DataPolicy where
  "example_policy = \<lparr>dp_RequireZDR = True, dp_RequireNoDataCollection = True\<rparr>"

lemma example_route:
  "Route (\<lambda>_. Some [example_endpoint]) (\<lambda>_ _. None) (\<lambda>_. Some True) 0 0 (Some []) ''s'' example_policy None
     = (Some (Inr (decision_for example_endpoint (healthy_reason 1 1))),
        Some \<lparr>hs_byKey = [], hs_fetchedAt = 0\<rparr>)"
proof -
  have "satisfiesPolicy example_policy example_endpoint" by code_simp
  then show ?thesis
    by (simp add: Route_def route_among_def getHealth_def index_health_def hasCredential_def isHealthy_def
        selectByCost_zero sort_candidates_def Let_def)
qed

lemma route_respects_filters_witness:
  "dp_RequireZDR example_policy \<and> ep_ZDR example_endpoint \<and> equal_fold (ep_DataCollection example_endpoint) ''deny''"
  using route_respects_filters [OF example_route]
  by (auto simp: example_policy_def)

text \<open>A model that is not in the catalog is not routed; one that is gets a decision or one of two
  errors, which tell exactly whether no endpoint has a credential or none of those satisfies the
  policy. An empty set of healthy endpoints is never an error.\<close>

theorem route_outcome:
  "case candidates model of
     None \<Rightarrow> Route candidates price hasKey r now rows model policy snap = (None, snap)
   | Some eps \<Rightarrow>
       (let credentialed = filter (\<lambda>ep. hasKey (ep_Provider ep) = Some True) eps;
            eligible = filter (satisfiesPolicy policy) credentialed
        in if credentialed = [] then
             fst (Route candidates price hasKey r now rows model policy snap) = Some (Inl (ErrNoUsableEndpoint model))
           else if eligible = [] then
             fst (Route candidates price hasKey r now rows model policy snap) = Some (Inl (ErrNoCompliantEndpoint model))
           else \<exists>d. fst (Route candidates price hasKey r now rows model policy snap) = Some (Inr d))"
  by (auto simp: Route_def route_among_def Let_def hasCredential_def split: option.split prod.split)

text \<open>The selection takes one of its candidates whatever the random number, the cheapest one when
  that is zero, and gives a cheaper endpoint at least the weight of a dearer one.\<close>

theorem selection_by_cost:
  assumes "eps \<noteq> []"
  shows "selectByCost price r eps \<in> set eps
    \<and> (\<forall>ep \<in> set eps. blendedPrice price (selectByCost price 0 eps) \<le> blendedPrice price ep)
    \<and> (\<forall>p q. 0 < p \<longrightarrow> p \<le> q \<longrightarrow> weightForPrice q \<le> weightForPrice p)
    \<and> 0 < weightForPrice (blendedPrice price e)"
  using assms selectByCost_mem selectByCost_zero cheapest_first weight_antimono weight_pos by metis

lemma selection_by_cost_witness:
  "selectByCost (\<lambda>_ _. None) 1 [example_endpoint] \<in> set [example_endpoint]"
  using selection_by_cost [of "[example_endpoint]" "\<lambda>_ _. None" 1 example_endpoint] by simp

text \<open>C13. After a reload that read its catalog, a routed request never goes to an endpoint without a
  price, and the defaults added to it never set the model. This is what keeps the sentinel price for
  unknown models out of the selection.\<close>

theorem routed_endpoint_priced:
  assumes "catalog_loaded s"
    and "Route (Candidates s) (Price s) hasKey r now rows model policy snap = (Some (Inr d), snap')"
  shows "Price s (rd_Provider d) (rd_ProviderModelID d) \<noteq> None \<and>
    (\<forall>ds. rd_RequestDefaults d = Some ds \<longrightarrow> gm_get ds ''model'' = None)"
  using cat.route_priced [OF assms] by (auto simp: routedModelField_def)

lemma routed_endpoint_priced_witness:
  "\<exists>s d. catalog_loaded s \<and> fst (Route (Candidates s) (Price s) (\<lambda>_. Some True) 0 0 None ''s''
      \<lparr>dp_RequireZDR = False, dp_RequireNoDataCollection = False\<rparr> None) = Some (Inr d) \<and>
    Price s (rd_Provider d) (rd_ProviderModelID d) \<noteq> None"
proof -
  obtain s where s: "catalog_loaded s" "Candidates s ''s'' = Some [catalog_endpoint]" using example_loaded by blast
  let ?r = "Route (Candidates s) (Price s) (\<lambda>_. Some True) 0 0 None ''s''
      \<lparr>dp_RequireZDR = False, dp_RequireNoDataCollection = False\<rparr> None"
  obtain d where "fst ?r = Some (Inr d)"
    using cat.route_total [OF s, of "\<lambda>_. Some True"] by fastforce
  then obtain snap' where r: "?r = (Some (Inr d), snap')" by (cases ?r) auto
  from routed_endpoint_priced [OF s(1) r] r s(1) show ?thesis by auto
qed

text \<open>The health snapshot is at most thirty seconds old when the store answers: within that time
  it is reused without a query, after it the rows of the store replace it, and while the store fails
  the old one is served and kept.\<close>

theorem health_snapshot:
  "(case snap of
      Some s \<Rightarrow>
        if now - hs_fetchedAt s < 30000000000 then getHealth now rows snap = (s, Some s)
        else (case rows of
                None \<Rightarrow> getHealth now rows snap = (s, Some s)
              | Some rs \<Rightarrow> getHealth now rows snap =
                  (\<lparr>hs_byKey = index_health rs, hs_fetchedAt = now\<rparr>, Some \<lparr>hs_byKey = index_health rs, hs_fetchedAt = now\<rparr>))
    | None \<Rightarrow>
        (case rows of
           None \<Rightarrow> snd (getHealth now rows snap) = None \<and> (\<forall>ep. isHealthy (fst (getHealth now rows snap)) ep)
         | Some rs \<Rightarrow> hs_fetchedAt (fst (getHealth now rows snap)) = now))"
  by (simp add: getHealth_def healthCacheTTL_def isHealthy_def Let_def split: option.split)

text \<open>C10. A routed body is rewritten so that the caller wins: the model is the provider's, every other
  field of the body keeps its value, and a default is added only where the body lacks the field, and
  not for a reasoning control when the body sets any of them. The names reported as added are exactly
  those, sorted, and none of this depends on the order in which the defaults are iterated.\<close>

theorem rewrite_caller_wins:
  assumes "unmarshal_raw_map body = Some (Some req)" and "raw_map_ok d" and "mset ds = mset d"
  shows "\<exists>out applied m. RewriteRoutedRequest body model (Some d) = Inr (out, applied)
    \<and> rewrite_with ds model body = Inr (out, applied)
    \<and> unmarshal_raw_map out = Some (Some m)
    \<and> (\<forall>f. gm_get m f =
        (if f = ''model'' then Some (json_str model)
         else case gm_get req f of
           Some v \<Rightarrow> Some (html_escape_json v)
         | None \<Rightarrow>
             if f \<in> set reasoningControlFields \<and> list_ex (has_field req) reasoningControlFields then None
             else map_option html_escape_json (gm_get d f)))
    \<and> sorted applied
    \<and> set applied = {f. f \<noteq> ''model'' \<and> gm_get d f \<noteq> None \<and> gm_get req f = None
        \<and> \<not> (f \<in> set reasoningControlFields \<and> list_ex (has_field req) reasoningControlFields)}"
proof -
  have ok: "gm_ok req" "gm_ok d" using unmarshal_raw_map_ok [OF assms(1)] assms(2) by (simp_all add: raw_map_ok_def)
  have dd: "distinct (map fst d)" using ok(2) by (rule gm_ok_distinct)
  obtain out applied m where o: "RewriteRoutedRequest body model (Some d) = Inr (out, applied)"
    "unmarshal_raw_map out = Some (Some m)"
    "gm_get m = (\<lambda>f. map_option html_escape_json (gm_get (fst (rewrite_map d model req)) f))"
    "applied = sort (snd (rewrite_map d model req))"
    using RewriteRoutedRequest_body [OF assms(1,2)] by blast
  have "rewrite_with ds model body = Inr (out, applied)"
    using rewrite_order [OF dd, of ds model body] assms(3) o(1) by (simp add: RewriteRoutedRequest_def)
  moreover have "set applied = {f. f \<noteq> ''model'' \<and> gm_get d f \<noteq> None \<and> gm_get req f = None
        \<and> \<not> (f \<in> set reasoningControlFields \<and> list_ex (has_field req) reasoningControlFields)}"
    unfolding o(4) set_sort rewrite_map_applied [OF ok(1) dd] by (auto simp: map_of_eq_None_iff)
  ultimately show ?thesis
    using o by (auto simp: rewrite_map_get [OF ok(1) dd] split: option.split)
qed

lemma rewrite_caller_wins_witness:
  "\<exists>out m. RewriteRoutedRequest ''{}'' ''x'' (Some [(''a'', JNull)]) = Inr (out, [''a''])
    \<and> unmarshal_raw_map out = Some (Some m) \<and> gm_get m ''a'' = Some JNull"
proof -
  have "unmarshal_raw_map ''{}'' = Some (Some [])" by code_simp
  moreover have "raw_map_ok [(''a'', JNull)]" by (simp add: raw_map_ok_def)
  moreover have "RewriteRoutedRequest ''{}'' ''x'' (Some [(''a'', JNull)]) = Inr (doc ''{~a~:null,~model~:~x~}'', [''a''])"
    by code_simp
  ultimately show ?thesis
    using rewrite_caller_wins [of "''{}''" "[]" "[(''a'', JNull)]" "[(''a'', JNull)]" "''x''"]
    by (auto simp: reasoningControlFields_def has_field_def)
qed

text \<open>Overriding the model of a body replaces that field and keeps the others; a body that is not an
  object is an error, except the document \<open>null\<close>, on which the code panics. The rewrite for routing
  checks for that case and the override does not.\<close>

theorem override_model:
  "(case json_parse body of
      None \<Rightarrow> OverrideModel body model = OverrideError
    | Some JNull \<Rightarrow> OverrideModel body model = OverridePanic
        \<and> RewriteRoutedRequest body model defaults = Inl RewriteNotObject
    | Some (JObj ms) \<Rightarrow> (\<exists>out m. OverrideModel body model = Overridden out \<and> unmarshal_raw_map out = Some (Some m)
        \<and> gm_get m = (\<lambda>f. if f = ''model'' then Some (json_str model)
            else map_option html_escape_json (map_of (rev (map (\<lambda>(k, j). (unquote k, j)) ms)) f)))
    | Some _ \<Rightarrow> OverrideModel body model = OverrideError)"
proof (cases "json_parse body")
  case None
  then show ?thesis by (simp add: OverrideModel_def unmarshal_raw_map_def unmarshal_def)
next
  case (Some j)
  show ?thesis
  proof (cases j)
    case (JObj ms)
    with Some obtain req where "unmarshal_raw_map body = Some (Some req)"
      "gm_get req = map_of (rev (map (\<lambda>(k, j). (unquote k, j)) ms))"
      using unmarshal_raw_map_get by blast
    with OverrideModel_body Some JObj show ?thesis by fastforce
  qed (simp_all add: Some OverrideModel_def RewriteRoutedRequest_def rewrite_with_def unmarshal_raw_map_def unmarshal_def)
qed

end
