(* ===== verification/Repo_Keys.thy ===== *)
theory Repo_Keys
  imports Models
begin

text \<open>
  The two key tables of the database and the repositories over them
  (\<open>internal/repositories/api_keys.go\<close> and \<open>provider_keys.go\<close>, schema in \<open>migrations/\<close>). A table is
  the list of its rows. Every statement takes \<open>ok\<close>: whether the database executed it (it does not
  when the connection fails, or when a value breaks a length limit of the schema), and the values
  the database or the clock supplies: the generated id and the time. The uniqueness constraints of
  the schema are part of the statements.
\<close>

datatype repo_error =
  ErrAPIKeyNotFound | ErrRequestNotFound | ErrMetadataKeyNotFound | ErrProviderKeyNotFound | DBError

section \<open>Gateway keys\<close>

definition CreateAPIKey ::
    "bool \<Rightarrow> uuid \<Rightarrow> instant \<Rightarrow> string \<Rightarrow> create_api_key_input \<Rightarrow> api_key list \<Rightarrow> api_key list \<times> (repo_error + api_key)" where
  "CreateAPIKey ok new_id now keyHash input rows =
     (if \<not> ok \<or> (\<exists>k \<in> set rows. ak_ID k = new_id \<or> ak_KeyHash k = keyHash) then (rows, Inl DBError)
      else let key = \<lparr>ak_ID = new_id, ak_KeyHash = keyHash, ak_Name = ck_Name input,
                      ak_Description = ck_Description input, ak_IsActive = True, ak_CreatedAt = now,
                      ak_RevokedAt = None, ak_LastUsedAt = None, ak_RequestCount = 0,
                      ak_DeprecatedModelBehavior = BehaviorPassthrough\<rparr>
           in (rows @ [key], Inr key))"

definition GetAPIKeyByHash :: "bool \<Rightarrow> string \<Rightarrow> api_key list \<Rightarrow> repo_error + api_key option" where
  "GetAPIKeyByHash ok keyHash rows =
     (if ok then Inr (find (\<lambda>k. ak_KeyHash k = keyHash) rows) else Inl DBError)"

definition GetAPIKeyByID :: "bool \<Rightarrow> uuid \<Rightarrow> api_key list \<Rightarrow> repo_error + api_key" where
  "GetAPIKeyByID ok key_id rows =
     (if \<not> ok then Inl DBError
      else case find (\<lambda>k. ak_ID k = key_id) rows of None \<Rightarrow> Inl ErrAPIKeyNotFound | Some k \<Rightarrow> Inr k)"

text \<open>\<open>ORDER BY created_at DESC\<close>; keys created at the same instant keep the order of the table here,
  the database may return them in any order.\<close>

definition ListAPIKeys :: "bool \<Rightarrow> api_key list \<Rightarrow> repo_error + api_key list" where
  "ListAPIKeys ok rows = (if ok then Inr (sort_key (\<lambda>k. - ak_CreatedAt k) rows) else Inl DBError)"

text \<open>The SET clauses of the update, in the order they are built.\<close>

definition set_clauses :: "update_api_key_input \<Rightarrow> (api_key \<Rightarrow> api_key) list" where
  "set_clauses input =
     (case uk_Name input of None \<Rightarrow> [] | Some v \<Rightarrow> [ak_Name_update (\<lambda>_. v)])
     @ (case uk_Description input of None \<Rightarrow> [] | Some v \<Rightarrow> [ak_Description_update (\<lambda>_. Some v)])
     @ (case uk_DeprecatedModelBehavior input of None \<Rightarrow> []
        | Some v \<Rightarrow> [ak_DeprecatedModelBehavior_update (\<lambda>_. v)])"

definition UpdateAPIKey ::
    "bool \<Rightarrow> uuid \<Rightarrow> update_api_key_input \<Rightarrow> api_key list \<Rightarrow> api_key list \<times> (repo_error + api_key)" where
  "UpdateAPIKey ok key_id input rows =
     (if set_clauses input = [] then (rows, GetAPIKeyByID ok key_id rows)
      else if \<not> ok then (rows, Inl DBError)
      else let rows' = map (\<lambda>k. if ak_ID k = key_id then fold (\<lambda>f. f) (set_clauses input) k else k) rows
           in case find (\<lambda>k. ak_ID k = key_id) rows' of
                None \<Rightarrow> (rows', Inl ErrAPIKeyNotFound)
              | Some k \<Rightarrow> (rows', Inr k))"

definition RevokeAPIKey ::
    "bool \<Rightarrow> instant \<Rightarrow> uuid \<Rightarrow> api_key list \<Rightarrow> api_key list \<times> (repo_error + unit)" where
  "RevokeAPIKey ok now key_id rows =
     (if \<not> ok then (rows, Inl DBError)
      else let hit = (\<lambda>k. ak_ID k = key_id \<and> ak_IsActive k)
           in (map (\<lambda>k. if hit k then k\<lparr>ak_IsActive := False, ak_RevokedAt := Some now\<rparr> else k) rows,
               if \<exists>k \<in> set rows. hit k then Inr () else Inl ErrAPIKeyNotFound))"

definition UpdateAPIKeyLastUsed ::
    "bool \<Rightarrow> instant \<Rightarrow> uuid \<Rightarrow> api_key list \<Rightarrow> api_key list \<times> (repo_error + unit)" where
  "UpdateAPIKeyLastUsed ok now key_id rows =
     (if \<not> ok then (rows, Inl DBError)
      else (map (\<lambda>k. if ak_ID k = key_id
                      then k\<lparr>ak_LastUsedAt := Some now, ak_RequestCount := ak_RequestCount k + 1\<rparr> else k) rows,
            Inr ()))"

subsection \<open>The table stays well formed\<close>

text \<open>Ids and hashes are unique, and a revocation time is set only on an inactive key.\<close>

definition keys_ok :: "api_key list \<Rightarrow> bool" where
  "keys_ok rows \<longleftrightarrow> distinct (map ak_ID rows) \<and> distinct (map ak_KeyHash rows)
     \<and> (\<forall>k \<in> set rows. ak_RevokedAt k \<noteq> None \<longrightarrow> \<not> ak_IsActive k)"

lemma keys_ok_Nil [simp]: "keys_ok []"
  by (simp add: keys_ok_def)

lemma keys_ok_map:
  assumes "keys_ok rows" "\<And>k. ak_ID (f k) = ak_ID k" "\<And>k. ak_KeyHash (f k) = ak_KeyHash k"
    and "\<And>k. ak_IsActive (f k) \<Longrightarrow> ak_IsActive k \<and> ak_RevokedAt (f k) = ak_RevokedAt k"
  shows "keys_ok (map f rows)"
  using assms by (auto simp: keys_ok_def comp_def)

lemma set_clauses_keep:
  "f \<in> set (set_clauses input) \<Longrightarrow> ak_ID (f k) = ak_ID k \<and> ak_KeyHash (f k) = ak_KeyHash k
     \<and> ak_IsActive (f k) = ak_IsActive k \<and> ak_RevokedAt (f k) = ak_RevokedAt k"
  by (auto simp: set_clauses_def split: option.splits)

lemma fold_set_clauses:
  "set fs \<subseteq> set (set_clauses input) \<Longrightarrow>
     ak_ID (fold (\<lambda>f. f) fs k) = ak_ID k \<and> ak_KeyHash (fold (\<lambda>f. f) fs k) = ak_KeyHash k
     \<and> ak_IsActive (fold (\<lambda>f. f) fs k) = ak_IsActive k \<and> ak_RevokedAt (fold (\<lambda>f. f) fs k) = ak_RevokedAt k"
  by (induction fs arbitrary: k) (auto simp: set_clauses_keep)

lemmas set_clauses_frame [simp] = fold_set_clauses [OF order_refl]

lemma CreateAPIKey_ok: "keys_ok rows \<Longrightarrow> keys_ok (fst (CreateAPIKey ok i now h inp rows))"
  by (force simp: CreateAPIKey_def keys_ok_def Let_def)

lemma UpdateAPIKey_rows:
  "fst (UpdateAPIKey ok i inp rows) =
     (if ok then map (\<lambda>k. if ak_ID k = i then fold (\<lambda>f. f) (set_clauses inp) k else k) rows else rows)"
  by (auto simp: UpdateAPIKey_def Let_def map_idI split: option.splits)

lemma UpdateAPIKey_ok: "keys_ok rows \<Longrightarrow> keys_ok (fst (UpdateAPIKey ok i inp rows))"
  by (auto simp: UpdateAPIKey_rows split: if_splits intro!: keys_ok_map)

lemma RevokeAPIKey_ok: "keys_ok rows \<Longrightarrow> keys_ok (fst (RevokeAPIKey ok now i rows))"
  by (auto simp: RevokeAPIKey_def Let_def split: if_splits intro!: keys_ok_map)

lemma UpdateAPIKeyLastUsed_ok: "keys_ok rows \<Longrightarrow> keys_ok (fst (UpdateAPIKeyLastUsed ok now i rows))"
  by (auto simp: UpdateAPIKeyLastUsed_def split: if_splits intro!: keys_ok_map)

lemma find_unique:
  "distinct (map f rows) \<Longrightarrow> k \<in> set rows \<Longrightarrow> find (\<lambda>x. f x = f k) rows = Some k"
  by (induction rows) (auto simp: image_iff)

lemma GetAPIKeyByHash_row:
  "keys_ok rows \<Longrightarrow> k \<in> set rows \<Longrightarrow> GetAPIKeyByHash True (ak_KeyHash k) rows = Inr (Some k)"
  by (simp add: GetAPIKeyByHash_def keys_ok_def find_unique [where f = ak_KeyHash])

lemma GetAPIKeyByHash_Some:
  "GetAPIKeyByHash ok h rows = Inr (Some k) \<Longrightarrow> ok \<and> k \<in> set rows \<and> ak_KeyHash k = h"
  by (auto simp: GetAPIKeyByHash_def find_Some_iff split: if_splits)

text \<open>The newest key comes first in the list, and the list is the table.\<close>

lemma ListAPIKeys_order:
  assumes "ListAPIKeys ok rows = Inr keys"
  shows "mset keys = mset rows" and "sorted_wrt (\<lambda>k k'. ak_CreatedAt k' \<le> ak_CreatedAt k) keys"
proof -
  have k: "keys = sort_key (\<lambda>k. - ak_CreatedAt k) rows" using assms by (simp add: ListAPIKeys_def split: if_splits)
  then show "mset keys = mset rows" by simp
  have "sorted (map (\<lambda>k. - ak_CreatedAt k) keys)" unfolding k by (rule sorted_sort_key)
  then show "sorted_wrt (\<lambda>k k'. ak_CreatedAt k' \<le> ak_CreatedAt k) keys"
    by (simp add: sorted_map)
qed

section \<open>Provider credentials\<close>

text \<open>One row per provider: the insert overwrites the key of an existing row.\<close>

definition Upsert ::
    "bool \<Rightarrow> uuid \<Rightarrow> instant \<Rightarrow> string \<Rightarrow> string \<Rightarrow> provider_api_key list \<Rightarrow> provider_api_key list \<times> (repo_error + unit)" where
  "Upsert ok new_id now prov encryptedKey rows =
     (if \<not> ok then (rows, Inl DBError)
      else if \<exists>k \<in> set rows. pk_Provider k = prov then
        (map (\<lambda>k. if pk_Provider k = prov then k\<lparr>pk_EncryptedKey := encryptedKey, pk_UpdatedAt := now\<rparr> else k) rows,
         Inr ())
      else if \<exists>k \<in> set rows. pk_ID k = new_id then (rows, Inl DBError)
      else (rows @ [\<lparr>pk_ID = new_id, pk_Provider = prov, pk_EncryptedKey = encryptedKey,
                     pk_CreatedAt = now, pk_UpdatedAt = now\<rparr>], Inr ()))"

definition HasKey :: "bool \<Rightarrow> string \<Rightarrow> provider_api_key list \<Rightarrow> repo_error + bool" where
  "HasKey ok prov rows = (if ok then Inr (\<exists>k \<in> set rows. pk_Provider k = prov) else Inl DBError)"

definition GetKey :: "bool \<Rightarrow> string \<Rightarrow> provider_api_key list \<Rightarrow> repo_error + provider_api_key" where
  "GetKey ok prov rows =
     (if \<not> ok then Inl DBError
      else case find (\<lambda>k. pk_Provider k = prov) rows of None \<Rightarrow> Inl ErrProviderKeyNotFound | Some k \<Rightarrow> Inr k)"

definition List :: "bool \<Rightarrow> provider_api_key list \<Rightarrow> repo_error + provider_key_info list" where
  "List ok rows =
     (if ok then Inr (map (\<lambda>k. \<lparr>pi_Provider = pk_Provider k, pi_CreatedAt = pk_CreatedAt k\<rparr>)
                        (sort_key pk_Provider rows))
      else Inl DBError)"

definition Delete :: "bool \<Rightarrow> string \<Rightarrow> provider_api_key list \<Rightarrow> provider_api_key list \<times> (repo_error + unit)" where
  "Delete ok prov rows =
     (if \<not> ok then (rows, Inl DBError)
      else (filter (\<lambda>k. pk_Provider k \<noteq> prov) rows,
            if \<exists>k \<in> set rows. pk_Provider k = prov then Inr () else Inl ErrProviderKeyNotFound))"

definition prov_keys_ok :: "provider_api_key list \<Rightarrow> bool" where
  "prov_keys_ok rows \<longleftrightarrow> distinct (map pk_Provider rows)"

lemma Upsert_ok: "prov_keys_ok rows \<Longrightarrow> prov_keys_ok (fst (Upsert ok i now p e rows))"
proof -
  assume d: "prov_keys_ok rows"
  have "map pk_Provider (map (\<lambda>k. if pk_Provider k = p then k\<lparr>pk_EncryptedKey := e, pk_UpdatedAt := now\<rparr> else k) rows)
      = map pk_Provider rows" by simp
  with d show ?thesis unfolding Upsert_def prov_keys_ok_def by (auto simp del: map_map)
qed

lemma Delete_ok: "prov_keys_ok rows \<Longrightarrow> prov_keys_ok (fst (Delete ok p rows))"
  by (auto simp: Delete_def prov_keys_ok_def distinct_map inj_on_def)

text \<open>The view of the table a client sees: the stored text per provider.\<close>

definition stored :: "provider_api_key list \<Rightarrow> string \<Rightarrow> string option" where
  "stored rows p = map_option pk_EncryptedKey (find (\<lambda>k. pk_Provider k = p) rows)"

lemma find_map_same:
  "(\<And>k. pk_Provider (f k) = pk_Provider k) \<Longrightarrow>
     find (\<lambda>k. pk_Provider k = p) (map f rows) = map_option f (find (\<lambda>k. pk_Provider k = p) rows)"
  by (induction rows) auto

lemma find_append:
  "find P (xs @ ys) = (case find P xs of None \<Rightarrow> find P ys | Some x \<Rightarrow> Some x)"
  by (induction xs) auto

lemma stored_Upsert:
  assumes "snd (Upsert ok i now p e rows) = Inr ()"
  shows "stored (fst (Upsert ok i now p e rows)) = (stored rows)(p \<mapsto> e)"
proof
  fix q
  let ?f = "\<lambda>k. if pk_Provider k = p then k\<lparr>pk_EncryptedKey := e, pk_UpdatedAt := now\<rparr> else k"
  show "stored (fst (Upsert ok i now p e rows)) q = ((stored rows)(p \<mapsto> e)) q"
  proof (cases "\<exists>k \<in> set rows. pk_Provider k = p")
    case True
    then have "find (\<lambda>k. pk_Provider k = p) rows \<noteq> None" by (auto simp: find_None_iff)
    moreover have "pk_Provider k = q" if "find (\<lambda>k. pk_Provider k = q) rows = Some k" for k
      using that by (auto simp: find_Some_iff)
    ultimately show ?thesis
      using True assms find_map_same [of ?f q rows]
      by (cases "find (\<lambda>k. pk_Provider k = q) rows") (auto simp: Upsert_def stored_def split: if_splits)
  next
    case False
    then have "find (\<lambda>k. pk_Provider k = p) rows = None" by (auto simp: find_None_iff)
    with assms False show ?thesis
      by (auto simp: Upsert_def stored_def find_append split: if_splits option.splits)
  qed
qed

lemma stored_Delete:
  "ok \<Longrightarrow> stored (fst (Delete ok p rows)) = (stored rows)(p := None)"
  by (induction rows) (auto simp: Delete_def stored_def fun_eq_iff)

lemma GetKey_stored: "map_option pk_EncryptedKey (case GetKey True p rows of Inr k \<Rightarrow> Some k | _ \<Rightarrow> None) = stored rows p"
  by (simp add: GetKey_def stored_def split: option.splits)

lemma HasKey_stored: "HasKey True p rows = Inr (stored rows p \<noteq> None)"
  by (auto simp: HasKey_def stored_def find_None_iff)

end
