(* ===== verification/Encoding.thy ===== *)
theory Encoding
  imports Json_Codec
begin

text \<open>
  The parts of \<open>encoding/hex\<close> and \<open>encoding/base64\<close> the gateway uses: hex for the key hashes and
  the configured encryption key, base64 for stored ciphertexts, for the encryption key and (in the
  URL alphabet without padding) for the text of a gateway key. Decoding returns None where the Go
  function returns an error.
\<close>

section \<open>Hex\<close>

definition byte_hex :: "char \<Rightarrow> string" where
  "byte_hex c = [hex_digit (of_char c div 16), hex_digit (of_char c mod 16)]"

definition hex_encode :: "string \<Rightarrow> string" where
  "hex_encode s = concat (map byte_hex s)"

fun hex_decode :: "string \<Rightarrow> string option" where
  "hex_decode [] = Some []"
| "hex_decode [_] = None"
| "hex_decode (a # b # s) =
     (if is_hex a \<and> is_hex b
      then map_option ((#) (char_of (16 * hex_val a + hex_val b))) (hex_decode s) else None)"

lemma hex_encode_simps [simp]:
  "hex_encode [] = []" "hex_encode (c # s) = byte_hex c @ hex_encode s"
  by (simp_all add: hex_encode_def)

lemma length_hex_encode [simp]: "length (hex_encode s) = 2 * length s"
  by (induction s) (simp_all add: byte_hex_def)

lemma byte_split: "of_char (c :: char) div 16 < (16 :: nat)"
  using nat_of_char_less_256 [of c] by (auto simp: less_mult_imp_div_less)

lemma hex_decode_encode [gostr]: "hex_decode (hex_encode s) = Some s"
proof (induction s)
  case (Cons c s)
  have "is_hex (hex_digit (of_char c div 16))" "is_hex (hex_digit (of_char c mod 16))"
    and "hex_val (hex_digit (of_char c div 16)) = of_char c div 16"
    and "hex_val (hex_digit (of_char c mod 16)) = of_char c mod 16"
    using byte_split [of c] by (simp_all add: is_hex_digit hex_val_digit)
  with Cons show ?case by (simp add: byte_hex_def)
qed simp

lemma hex_encode_inj [gostr]: "hex_encode s = hex_encode t \<longleftrightarrow> s = t"
  by (metis hex_decode_encode option.inject)

lemma hex_decode_length: "hex_decode s = Some t \<Longrightarrow> length s = 2 * length t"
  by (induction s arbitrary: t rule: hex_decode.induct) (auto split: if_splits)

section \<open>Base64\<close>

text \<open>The two alphabets differ in the digits 62 and 63.\<close>

definition b64_char :: "bool \<Rightarrow> nat \<Rightarrow> char" where
  "b64_char url n =
     (if n < 26 then char_of (65 + n)
      else if n < 52 then char_of (71 + n)
      else if n < 62 then char_of (n - 4)
      else if n = 62 then (if url then CHR ''-'' else CHR ''+'')
      else (if url then CHR ''_'' else CHR ''/''))"

definition b64_val :: "bool \<Rightarrow> char \<Rightarrow> nat option" where
  "b64_val url c =
     (let n = of_char c :: nat in
      if 65 \<le> n \<and> n \<le> 90 then Some (n - 65)
      else if 97 \<le> n \<and> n \<le> 122 then Some (n - 71)
      else if 48 \<le> n \<and> n \<le> 57 then Some (n + 4)
      else if c = (if url then CHR ''-'' else CHR ''+'') then Some 62
      else if c = (if url then CHR ''_'' else CHR ''/'') then Some 63
      else None)"

definition pad_c :: char where "pad_c = CHR ''=''"

text \<open>Three bytes become four digits; a rest of one or two bytes becomes two or three digits,
  filled up with padding unless the encoding is raw.\<close>

fun b64_encode :: "bool \<Rightarrow> bool \<Rightarrow> string \<Rightarrow> string" where
  "b64_encode url pad [] = []"
| "b64_encode url pad [a] =
     (let v = of_char a * 65536 :: nat in
      [b64_char url (v div 262144), b64_char url (v div 4096 mod 64)] @ (if pad then [pad_c, pad_c] else []))"
| "b64_encode url pad [a, b] =
     (let v = of_char a * 65536 + of_char b * 256 :: nat in
      [b64_char url (v div 262144), b64_char url (v div 4096 mod 64), b64_char url (v div 64 mod 64)]
        @ (if pad then [pad_c] else []))"
| "b64_encode url pad (a # b # c # s) =
     (let v = of_char a * 65536 + of_char b * 256 + of_char c :: nat in
      [b64_char url (v div 262144), b64_char url (v div 4096 mod 64), b64_char url (v div 64 mod 64),
       b64_char url (v mod 64)] @ b64_encode url pad s)"

text \<open>\<open>base64.Encoding.DecodeString\<close>: line breaks are skipped anywhere, unused low bits of the
  last digit are ignored, padding must close the text exactly.\<close>

definition digits4 :: "nat \<Rightarrow> nat \<Rightarrow> nat \<Rightarrow> nat \<Rightarrow> nat" where
  "digits4 a b c d = a * 262144 + b * 4096 + c * 64 + d"

definition val_byte :: "nat \<Rightarrow> nat \<Rightarrow> char" where
  "val_byte v k = char_of (v div 256 ^ k mod 256)"

definition b64_last2 :: "bool \<Rightarrow> char \<Rightarrow> char \<Rightarrow> string option" where
  "b64_last2 url a b =
     (case (b64_val url a, b64_val url b) of
        (Some x, Some y) \<Rightarrow> Some [val_byte (digits4 x y 0 0) 2]
      | _ \<Rightarrow> None)"

definition b64_last3 :: "bool \<Rightarrow> char \<Rightarrow> char \<Rightarrow> char \<Rightarrow> string option" where
  "b64_last3 url a b c =
     (case (b64_val url a, b64_val url b, b64_val url c) of
        (Some x, Some y, Some z) \<Rightarrow>
          Some [val_byte (digits4 x y z 0) 2, val_byte (digits4 x y z 0) 1]
      | _ \<Rightarrow> None)"

fun b64_quanta :: "bool \<Rightarrow> bool \<Rightarrow> string \<Rightarrow> string option" where
  "b64_quanta url pad [] = Some []"
| "b64_quanta url pad [_] = None"
| "b64_quanta url pad [a, b] = (if pad then None else b64_last2 url a b)"
| "b64_quanta url pad [a, b, c] = (if pad then None else b64_last3 url a b c)"
| "b64_quanta url pad (a # b # c # d # s) =
     (if pad \<and> d = pad_c \<and> s = [] then
        (if c = pad_c then b64_last2 url a b else b64_last3 url a b c)
      else case (b64_val url a, b64_val url b, b64_val url c, b64_val url d) of
        (Some x, Some y, Some z, Some w) \<Rightarrow>
          map_option (\<lambda>r. val_byte (digits4 x y z w) 2 # val_byte (digits4 x y z w) 1
                         # val_byte (digits4 x y z w) 0 # r) (b64_quanta url pad s)
      | _ \<Rightarrow> None)"

definition b64_decode :: "bool \<Rightarrow> bool \<Rightarrow> string \<Rightarrow> string option" where
  "b64_decode url pad s = b64_quanta url pad (filter (\<lambda>c. c \<noteq> CHR 0x0A \<and> c \<noteq> CHR 0x0D) s)"

abbreviation std_encode :: "string \<Rightarrow> string" where "std_encode \<equiv> b64_encode False True"
abbreviation std_decode :: "string \<Rightarrow> string option" where "std_decode \<equiv> b64_decode False True"
abbreviation raw_std_decode :: "string \<Rightarrow> string option" where "raw_std_decode \<equiv> b64_decode False False"
abbreviation raw_url_encode :: "string \<Rightarrow> string" where "raw_url_encode \<equiv> b64_encode True False"

subsection \<open>The digits\<close>

lemma b64_val_char [simp]: "n < 64 \<Longrightarrow> b64_val url (b64_char url n) = Some n"
  by (auto simp: b64_val_def b64_char_def Let_def of_char_of)

lemma b64_char_plain:
  assumes "n < 64"
  shows "b64_char url n \<noteq> pad_c" "b64_char url n \<noteq> CHR 0x0A" "b64_char url n \<noteq> CHR 0x0D"
proof -
  have "b64_val url pad_c = None" "b64_val url (CHR 0x0A) = None" "b64_val url (CHR 0x0D) = None"
    by (simp_all add: b64_val_def pad_c_def Let_def)
  then show "b64_char url n \<noteq> pad_c" "b64_char url n \<noteq> CHR 0x0A" "b64_char url n \<noteq> CHR 0x0D"
    using b64_val_char [OF assms, of url] by auto
qed

lemma digits_of_val:
  "digits4 (v div 262144) (v div 4096 mod 64) (v div 64 mod 64) (v mod 64) = v"
proof -
  have d: "v div 262144 = v div 4096 div 64" "v div 4096 = v div 64 div 64"
    by (simp_all add: div_mult2_eq [symmetric])
  have "v div 262144 * 64 + v div 4096 mod 64 = v div 4096"
    and "v div 4096 * 64 + v div 64 mod 64 = v div 64" and "v div 64 * 64 + v mod 64 = v"
    unfolding d by (rule div_mult_mod_eq)+
  moreover have "x * 262144 + y * 4096 + z * 64 + w = ((x * 64 + y) * 64 + z) * 64 + w" for x y z w :: nat
    by simp
  ultimately show ?thesis by (simp only: digits4_def)
qed

lemma three_bytes:
  assumes "a < 256" "b < 256" "c < (256 :: nat)"
  shows "a * 65536 + b * 256 + c < 16777216"
    and "(a * 65536 + b * 256 + c) div 65536 = a"
    and "(a * 65536 + b * 256 + c) div 256 mod 256 = b"
    and "(a * 65536 + b * 256 + c) mod 256 = c"
proof -
  have v: "a * 65536 + b * 256 + c = (a * 256 + b) * 256 + c" by simp
  have q: "(a * 65536 + b * 256 + c) div 256 = a * 256 + b"
    unfolding v using assms(3) by (subst div_add1_eq) simp
  have "(a * 256 + b) div 256 = a" using assms(2) by (subst div_add1_eq) simp
  then show "(a * 65536 + b * 256 + c) div 65536 = a"
    using q div_mult2_eq [of "a * 65536 + b * 256 + c" 256 256] by simp
  show "(a * 65536 + b * 256 + c) div 256 mod 256 = b" unfolding q using assms(2) by simp
  show "(a * 65536 + b * 256 + c) mod 256 = c" unfolding v using assms(3) by (simp only: mod_mult_self3) simp
  show "a * 65536 + b * 256 + c < 16777216" using assms by linarith
qed

lemma val_bytes:
  assumes "a < 256" "b < 256" "c < 256"
  shows "val_byte (a * 65536 + b * 256 + c) 2 = char_of a"
    and "val_byte (a * 65536 + b * 256 + c) 1 = char_of b"
    and "val_byte (a * 65536 + b * 256 + c) 0 = char_of c"
  using three_bytes [OF assms] assms by (simp_all add: val_byte_def power2_eq_square)

lemma top_digit: "v < 16777216 \<Longrightarrow> v div 262144 < (64 :: nat)"
  by (rule less_mult_imp_div_less) simp

definition quantum :: "char \<Rightarrow> char \<Rightarrow> char \<Rightarrow> nat" where
  "quantum a b c = of_char a * 65536 + of_char b * 256 + of_char c"

lemma quantum_facts:
  shows "quantum a b c div 262144 < 64"
    and "val_byte (quantum a b c) 2 = a" and "val_byte (quantum a b c) 1 = b"
    and "val_byte (quantum a b c) 0 = c"
proof -
  note n = nat_of_char_less_256 [of a] nat_of_char_less_256 [of b] nat_of_char_less_256 [of c]
  show "quantum a b c div 262144 < 64"
    unfolding quantum_def by (intro top_digit three_bytes(1) n)
  show "val_byte (quantum a b c) 2 = a" "val_byte (quantum a b c) 1 = b" "val_byte (quantum a b c) 0 = c"
    unfolding quantum_def using val_bytes [OF n] by simp_all
qed

text \<open>The low digits of a rest of one or two bytes are zero.\<close>

lemma quantum_short:
  "quantum a b (CHR 0x00) mod 64 = 0" "quantum a (CHR 0x00) (CHR 0x00) div 64 mod 64 = 0"
  "quantum a (CHR 0x00) (CHR 0x00) mod 64 = 0"
proof -
  have e: "of_char a * 65536 + of_char b * 256 = (of_char a * 1024 + of_char b * 4) * (64 :: nat)"
    "of_char a * 65536 = of_char a * 1024 * (64 :: nat)" by simp_all
  show "quantum a b (CHR 0x00) mod 64 = 0" "quantum a (CHR 0x00) (CHR 0x00) mod 64 = 0"
    by (simp_all add: quantum_def e)
  have "of_char a * 65536 div 64 = of_char a * 16 * (64 :: nat)" by simp
  then show "quantum a (CHR 0x00) (CHR 0x00) div 64 mod 64 = 0" by (simp add: quantum_def)
qed

lemma b64_encode_quantum:
  "b64_encode url pad [a] =
     [b64_char url (quantum a (CHR 0x00) (CHR 0x00) div 262144),
      b64_char url (quantum a (CHR 0x00) (CHR 0x00) div 4096 mod 64)] @ (if pad then [pad_c, pad_c] else [])"
  "b64_encode url pad [a, b] =
     [b64_char url (quantum a b (CHR 0x00) div 262144), b64_char url (quantum a b (CHR 0x00) div 4096 mod 64),
      b64_char url (quantum a b (CHR 0x00) div 64 mod 64)] @ (if pad then [pad_c] else [])"
  "b64_encode url pad (a # b # c # s) =
     [b64_char url (quantum a b c div 262144), b64_char url (quantum a b c div 4096 mod 64),
      b64_char url (quantum a b c div 64 mod 64), b64_char url (quantum a b c mod 64)] @ b64_encode url pad s"
  by (simp_all add: quantum_def Let_def)

lemma b64_encode_plain:
  "c \<in> set (b64_encode url pad s) \<Longrightarrow> c \<noteq> CHR 0x0A \<and> c \<noteq> CHR 0x0D"
  by (induction url pad s rule: b64_encode.induct)
    (auto simp del: b64_encode.simps(2,3,4) simp: b64_encode_quantum b64_char_plain quantum_facts(1) pad_c_def
      split: if_splits)

lemma b64_quanta_encode: "b64_quanta url pad (b64_encode url pad s) = Some s"
proof (induction url pad s rule: b64_encode.induct)
  case (2 url pad a)
  let ?v = "quantum a (CHR 0x00) (CHR 0x00)"
  have "digits4 (?v div 262144) (?v div 4096 mod 64) 0 0 = ?v"
    using digits_of_val [of ?v] by (simp add: quantum_short)
  then have "b64_last2 url (b64_char url (?v div 262144)) (b64_char url (?v div 4096 mod 64)) = Some [a]"
    by (simp add: b64_last2_def quantum_facts)
  then show ?case by (simp add: b64_encode_quantum del: b64_encode.simps)
next
  case (3 url pad a b)
  let ?v = "quantum a b (CHR 0x00)"
  have "digits4 (?v div 262144) (?v div 4096 mod 64) (?v div 64 mod 64) 0 = ?v"
    using digits_of_val [of ?v] by (simp add: quantum_short)
  then have "b64_last3 url (b64_char url (?v div 262144)) (b64_char url (?v div 4096 mod 64))
      (b64_char url (?v div 64 mod 64)) = Some [a, b]"
    by (simp add: b64_last3_def quantum_facts [simplified])
  then show ?case by (simp add: b64_encode_quantum b64_char_plain del: b64_encode.simps)
next
  case (4 url pad a b c s)
  then show ?case
    by (simp add: b64_encode_quantum b64_char_plain digits_of_val quantum_facts quantum_facts(3) [simplified] del: b64_encode.simps)
qed simp

theorem b64_decode_encode [gostr]: "b64_decode url pad (b64_encode url pad s) = Some s"
proof -
  have "filter (\<lambda>c. c \<noteq> CHR 0x0A \<and> c \<noteq> CHR 0x0D) (b64_encode url pad s) = b64_encode url pad s"
    using b64_encode_plain by (intro filter_True) blast
  then show ?thesis by (simp add: b64_decode_def b64_quanta_encode)
qed

lemma b64_encode_inj [gostr]: "b64_encode url pad s = b64_encode url pad t \<longleftrightarrow> s = t"
  by (metis b64_decode_encode option.inject)

lemma raw_encode_length: "length (b64_encode url False s) = (4 * length s + 2) div 3"
  by (induction url "False" s rule: b64_encode.induct)
    (simp_all add: b64_encode_quantum del: b64_encode.simps(2,3,4))

end
