(* ===== verification/Key_Material.thy ===== *)
theory Key_Material
  imports Encoding Models
begin

text \<open>
  Key material: SHA-256 as \<open>crypto/sha256\<close> computes it, the gateway keys of
  \<open>internal/auth/keygen.go\<close> and their hash, and the AES-256-GCM secret store of
  \<open>internal/secrets\<close>. The cipher itself is the standard library's and is an argument of the store
  (sealing and opening a message); the random bytes are arguments of the operations that draw them.
\<close>

unbundle bit_operations_syntax

section \<open>SHA-256\<close>

type_synonym w32 = "32 word"

definition rotr :: "nat \<Rightarrow> w32 \<Rightarrow> w32" where
  "rotr n x = word_rotr n x"

definition sha_k :: "w32 list" where
  "sha_k =
    [1116352408, 1899447441, 3049323471, 3921009573, 961987163, 1508970993, 2453635748, 2870763221,
     3624381080, 310598401, 607225278, 1426881987, 1925078388, 2162078206, 2614888103, 3248222580,
     3835390401, 4022224774, 264347078, 604807628, 770255983, 1249150122, 1555081692, 1996064986,
     2554220882, 2821834349, 2952996808, 3210313671, 3336571891, 3584528711, 113926993, 338241895,
     666307205, 773529912, 1294757372, 1396182291, 1695183700, 1986661051, 2177026350, 2456956037,
     2730485921, 2820302411, 3259730800, 3345764771, 3516065817, 3600352804, 4094571909, 275423344,
     430227734, 506948616, 659060556, 883997877, 958139571, 1322822218, 1537002063, 1747873779,
     1955562222, 2024104815, 2227730452, 2361852424, 2428436474, 2756734187, 3204031479, 3329325298]"

record sha_state =
  sh_a :: w32 sh_b :: w32 sh_c :: w32 sh_d :: w32
  sh_e :: w32 sh_f :: w32 sh_g :: w32 sh_h :: w32

definition sha_init :: sha_state where
  "sha_init = \<lparr>sh_a = 1779033703, sh_b = 3144134277, sh_c = 1013904242, sh_d = 2773480762,
     sh_e = 1359893119, sh_f = 2600822924, sh_g = 528734635, sh_h = 1541459225\<rparr>"

text \<open>The message is followed by the bit 1, zeros up to 56 modulo 64 bytes, and its length in bits.\<close>

definition be_bytes :: "nat \<Rightarrow> nat \<Rightarrow> string" where
  "be_bytes k n = map (\<lambda>i. char_of (n div 256 ^ i mod 256)) (rev [0..<k])"

definition sha_pad :: "string \<Rightarrow> string" where
  "sha_pad s = s @ [CHR 0x80] @ replicate ((119 - length s mod 64) mod 64) (CHR 0x00) @ be_bytes 8 (8 * length s)"

definition be_word :: "string \<Rightarrow> w32" where
  "be_word s = foldl (\<lambda>w c. push_bit 8 w OR of_nat (of_char c)) 0 s"

fun chunks :: "nat \<Rightarrow> 'a list \<Rightarrow> 'a list list" where
  "chunks k xs = (if k = 0 \<or> xs = [] then [] else take k xs # chunks k (drop k xs))"

declare chunks.simps [simp del]

lemma chunks_exact:
  "length xs = k * n \<Longrightarrow> 0 < k \<Longrightarrow>
     length (chunks k xs) = n \<and> (\<forall>c \<in> set (chunks k xs). length c = k \<and> set c \<subseteq> set xs)"
proof (induction n arbitrary: xs)
  case 0
  then show ?case by (simp add: chunks.simps)
next
  case (Suc n)
  have len: "length (drop k xs) = k * n" "length (take k xs) = k" using Suc.prems by simp_all
  have sub: "set (take k xs) \<subseteq> set xs" "set (drop k xs) \<subseteq> set xs"
    by (rule set_take_subset, rule set_drop_subset)
  have "chunks k xs = take k xs # chunks k (drop k xs)"
    using Suc.prems by (subst chunks.simps) auto
  then have eq: "length (chunks k xs) = Suc (length (chunks k (drop k xs)))"
    "set (chunks k xs) = insert (take k xs) (set (chunks k (drop k xs)))"
    by simp_all
  note ih = Suc.IH [OF len(1) Suc.prems(2)]
  show ?case
  proof (intro conjI ballI)
    show "length (chunks k xs) = Suc n" using eq(1) ih by metis
  next
    fix c assume "c \<in> set (chunks k xs)"
    then have "c = take k xs \<or> c \<in> set (chunks k (drop k xs))" unfolding eq(2) by blast
    then show "length c = k" "set c \<subseteq> set xs" using len(2) sub ih by blast+
  qed
qed

text \<open>The message schedule, kept in reverse: each new word is computed from words 2, 7, 15 and 16 back.\<close>

definition sha_expand :: "w32 list \<Rightarrow> w32 list" where
  "sha_expand ws =
     (let x = ws ! 14; y = ws ! 1;
          s0 = rotr 7 x XOR rotr 18 x XOR drop_bit 3 x;
          s1 = rotr 17 y XOR rotr 19 y XOR drop_bit 10 y
      in (ws ! 15 + s0 + ws ! 6 + s1) # ws)"

definition sha_schedule :: "w32 list \<Rightarrow> w32 list" where
  "sha_schedule ws = rev ((sha_expand ^^ 48) (rev ws))"

definition sha_round :: "sha_state \<Rightarrow> w32 \<times> w32 \<Rightarrow> sha_state" where
  "sha_round st = (\<lambda>(k, w).
     let e = sh_e st; a = sh_a st;
         s1 = rotr 6 e XOR rotr 11 e XOR rotr 25 e;
         ch = (e AND sh_f st) XOR (NOT e AND sh_g st);
         t1 = sh_h st + s1 + ch + k + w;
         s0 = rotr 2 a XOR rotr 13 a XOR rotr 22 a;
         mj = (a AND sh_b st) XOR (a AND sh_c st) XOR (sh_b st AND sh_c st);
         t2 = s0 + mj
     in \<lparr>sh_a = t1 + t2, sh_b = a, sh_c = sh_b st, sh_d = sh_c st,
         sh_e = sh_d st + t1, sh_f = e, sh_g = sh_f st, sh_h = sh_g st\<rparr>)"

definition sha_block :: "sha_state \<Rightarrow> string \<Rightarrow> sha_state" where
  "sha_block h blk =
     (let r = foldl sha_round h (zip sha_k (sha_schedule (map be_word (chunks 4 blk))))
      in \<lparr>sh_a = sh_a h + sh_a r, sh_b = sh_b h + sh_b r, sh_c = sh_c h + sh_c r, sh_d = sh_d h + sh_d r,
          sh_e = sh_e h + sh_e r, sh_f = sh_f h + sh_f r, sh_g = sh_g h + sh_g r, sh_h = sh_h h + sh_h r\<rparr>)"

definition sha_words :: "sha_state \<Rightarrow> w32 list" where
  "sha_words h = [sh_a h, sh_b h, sh_c h, sh_d h, sh_e h, sh_f h, sh_g h, sh_h h]"

definition sha256 :: "string \<Rightarrow> string" where
  "sha256 s = concat (map (\<lambda>w. be_bytes 4 (unat w)) (sha_words (foldl sha_block sha_init (chunks 64 (sha_pad s)))))"

lemma length_be_bytes [simp]: "length (be_bytes k n) = k"
  by (simp add: be_bytes_def)

lemma length_sha256 [simp]: "length (sha256 s) = 32"
  by (simp add: sha256_def sha_words_def)

text \<open>The padded message is a whole number of 64-byte blocks.\<close>

lemma sha_pad_blocks: "64 dvd length (sha_pad s)"
proof -
  obtain q r where n: "length s = 64 * q + r" and r: "r < 64"
    by (rule that [of "length s div 64" "length s mod 64"]) simp_all
  then have m: "length s mod 64 = r" by simp
  show ?thesis
  proof (cases "r \<le> 55")
    case True
    then have "119 - r = 64 + (55 - r)" by simp
    moreover have "(64 + (55 - r)) mod 64 = 55 - r" by simp
    ultimately have "(119 - r) mod 64 = 55 - r" by metis
    then have "length (sha_pad s) = 64 * (q + 1)" using True n m by (simp add: sha_pad_def)
    then show ?thesis by (metis dvd_triv_left)
  next
    case False
    then have "(119 - r) mod 64 = 119 - r" by simp
    then have "length (sha_pad s) = 64 * (q + 2)" using False r n m by (simp add: sha_pad_def)
    then show ?thesis by (metis dvd_triv_left)
  qed
qed

section \<open>Gateway keys\<close>

definition KeyPrefix :: string where "KeyPrefix = ''mdm_sk_''"
definition KeyByteLength :: nat where "KeyByteLength = 32"

definition HashAPIKey :: "string \<Rightarrow> string" where
  "HashAPIKey key = hex_encode (sha256 key)"

text \<open>The bytes drawn by \<open>rand.Read\<close> are the argument, None when it fails.\<close>

definition GenerateAPIKey :: "string option \<Rightarrow> (string \<times> string) option" where
  "GenerateAPIKey rnd =
     (case rnd of
        None \<Rightarrow> None
      | Some bytes \<Rightarrow>
          let plaintext = KeyPrefix @ raw_url_encode bytes
          in Some (plaintext, HashAPIKey plaintext))"

definition ValidateKeyFormat :: "string \<Rightarrow> bool" where
  "ValidateKeyFormat key \<longleftrightarrow>
     (if length key \<le> length KeyPrefix then False else prefix KeyPrefix key)"

lemma length_HashAPIKey [simp]: "length (HashAPIKey key) = 64"
  by (simp add: HashAPIKey_def)

lemma GenerateAPIKey_Some:
  "GenerateAPIKey rnd = Some (p, h) \<longleftrightarrow>
     (\<exists>bytes. rnd = Some bytes \<and> p = KeyPrefix @ raw_url_encode bytes \<and> h = HashAPIKey p)"
  by (auto simp: GenerateAPIKey_def Let_def split: option.splits)

text \<open>Two draws give the same key text only when they drew the same bytes.\<close>

lemma GenerateAPIKey_inj:
  "GenerateAPIKey (Some b) = Some (p, h) \<Longrightarrow> GenerateAPIKey (Some b') = Some (p, h') \<Longrightarrow> b = b'"
  by (auto simp: GenerateAPIKey_Some b64_encode_inj)

lemma ValidateKeyFormat_generated:
  "GenerateAPIKey (Some b) = Some (p, h) \<Longrightarrow> b \<noteq> [] \<Longrightarrow> ValidateKeyFormat p"
proof -
  assume g: "GenerateAPIKey (Some b) = Some (p, h)" and "b \<noteq> []"
  then have "raw_url_encode b \<noteq> []" using b64_encode_inj [of True False b "[]"] by auto
  with g show ?thesis by (simp add: GenerateAPIKey_Some ValidateKeyFormat_def)
qed

end
