(* ===== verification/Aes_Gcm.thy ===== *)
theory Aes_Gcm
  imports Key_Material
begin

text \<open>
  AES-256 and its Galois/counter mode with a 12-byte nonce and a 16-byte tag, as \<open>crypto/aes\<close> and
  \<open>crypto/cipher\<close> provide them to \<open>internal/secrets\<close>, and the secret store built on them. Sealing
  without additional data; the nonce drawn at random is an argument.
\<close>

section \<open>The block cipher\<close>

type_synonym w8 = "8 word"

definition aes_sbox :: "w8 list" where
  "aes_sbox =
    [0x63, 0x7c, 0x77, 0x7b, 0xf2, 0x6b, 0x6f, 0xc5, 0x30, 0x01, 0x67, 0x2b, 0xfe, 0xd7, 0xab, 0x76,
     0xca, 0x82, 0xc9, 0x7d, 0xfa, 0x59, 0x47, 0xf0, 0xad, 0xd4, 0xa2, 0xaf, 0x9c, 0xa4, 0x72, 0xc0,
     0xb7, 0xfd, 0x93, 0x26, 0x36, 0x3f, 0xf7, 0xcc, 0x34, 0xa5, 0xe5, 0xf1, 0x71, 0xd8, 0x31, 0x15,
     0x04, 0xc7, 0x23, 0xc3, 0x18, 0x96, 0x05, 0x9a, 0x07, 0x12, 0x80, 0xe2, 0xeb, 0x27, 0xb2, 0x75,
     0x09, 0x83, 0x2c, 0x1a, 0x1b, 0x6e, 0x5a, 0xa0, 0x52, 0x3b, 0xd6, 0xb3, 0x29, 0xe3, 0x2f, 0x84,
     0x53, 0xd1, 0x00, 0xed, 0x20, 0xfc, 0xb1, 0x5b, 0x6a, 0xcb, 0xbe, 0x39, 0x4a, 0x4c, 0x58, 0xcf,
     0xd0, 0xef, 0xaa, 0xfb, 0x43, 0x4d, 0x33, 0x85, 0x45, 0xf9, 0x02, 0x7f, 0x50, 0x3c, 0x9f, 0xa8,
     0x51, 0xa3, 0x40, 0x8f, 0x92, 0x9d, 0x38, 0xf5, 0xbc, 0xb6, 0xda, 0x21, 0x10, 0xff, 0xf3, 0xd2,
     0xcd, 0x0c, 0x13, 0xec, 0x5f, 0x97, 0x44, 0x17, 0xc4, 0xa7, 0x7e, 0x3d, 0x64, 0x5d, 0x19, 0x73,
     0x60, 0x81, 0x4f, 0xdc, 0x22, 0x2a, 0x90, 0x88, 0x46, 0xee, 0xb8, 0x14, 0xde, 0x5e, 0x0b, 0xdb,
     0xe0, 0x32, 0x3a, 0x0a, 0x49, 0x06, 0x24, 0x5c, 0xc2, 0xd3, 0xac, 0x62, 0x91, 0x95, 0xe4, 0x79,
     0xe7, 0xc8, 0x37, 0x6d, 0x8d, 0xd5, 0x4e, 0xa9, 0x6c, 0x56, 0xf4, 0xea, 0x65, 0x7a, 0xae, 0x08,
     0xba, 0x78, 0x25, 0x2e, 0x1c, 0xa6, 0xb4, 0xc6, 0xe8, 0xdd, 0x74, 0x1f, 0x4b, 0xbd, 0x8b, 0x8a,
     0x70, 0x3e, 0xb5, 0x66, 0x48, 0x03, 0xf6, 0x0e, 0x61, 0x35, 0x57, 0xb9, 0x86, 0xc1, 0x1d, 0x9e,
     0xe1, 0xf8, 0x98, 0x11, 0x69, 0xd9, 0x8e, 0x94, 0x9b, 0x1e, 0x87, 0xe9, 0xce, 0x55, 0x28, 0xdf,
     0x8c, 0xa1, 0x89, 0x0d, 0xbf, 0xe6, 0x42, 0x68, 0x41, 0x99, 0x2d, 0x0f, 0xb0, 0x54, 0xbb, 0x16]"

definition sub_byte :: "w8 \<Rightarrow> w8" where
  "sub_byte x = aes_sbox ! unat x"

definition xtime :: "w8 \<Rightarrow> w8" where
  "xtime x = push_bit 1 x XOR (if bit x 7 then 0x1b else 0)"

definition xor_bytes :: "w8 list \<Rightarrow> w8 list \<Rightarrow> w8 list" where
  "xor_bytes xs ys = map2 (XOR) xs ys"

text \<open>A block is 16 bytes, column by column.\<close>

definition shift_rows :: "w8 list \<Rightarrow> w8 list" where
  "shift_rows b = map (\<lambda>i. b ! ((5 * i) mod 16)) [0..<16]"

definition mix_column :: "w8 list \<Rightarrow> w8 list" where
  "mix_column c =
     map (\<lambda>i. xtime (c ! i) XOR xtime (c ! ((i + 1) mod 4)) XOR c ! ((i + 1) mod 4)
              XOR c ! ((i + 2) mod 4) XOR c ! ((i + 3) mod 4)) [0..<4]"

text \<open>The key schedule, in reverse: each new four-byte word from the word before and the word eight back.\<close>

definition key_step :: "w8 list list \<Rightarrow> nat \<Rightarrow> w8 list list" where
  "key_step ws i =
     (let t = ws ! 0;
          t' = (if i mod 8 = 0
                then xor_bytes (map sub_byte (rotate1 t)) [push_bit (i div 8 - 1) 1, 0, 0, 0]
                else if i mod 8 = 4 then map sub_byte t else t)
      in xor_bytes (ws ! 7) t' # ws)"

definition round_keys :: "w8 list \<Rightarrow> w8 list list" where
  "round_keys k = map concat (chunks 4 (rev (foldl key_step (rev (chunks 4 k)) [8..<60])))"

definition aes_round :: "w8 list \<Rightarrow> w8 list \<Rightarrow> w8 list" where
  "aes_round b rk = xor_bytes (concat (map mix_column (chunks 4 (shift_rows (map sub_byte b))))) rk"

definition aes_block :: "w8 list \<Rightarrow> w8 list \<Rightarrow> w8 list" where
  "aes_block k b =
     (let rks = round_keys k;
          s = foldl aes_round (xor_bytes b (rks ! 0)) (take 13 (tl rks))
      in xor_bytes (shift_rows (map sub_byte s)) (rks ! 14))"

section \<open>Galois/counter mode\<close>

type_synonym w128 = "128 word"

definition to_w128 :: "w8 list \<Rightarrow> w128" where
  "to_w128 bs = foldl (\<lambda>w b. push_bit 8 w OR ucast b) 0 bs"

definition of_w128 :: "w128 \<Rightarrow> w8 list" where
  "of_w128 w = map (\<lambda>i. ucast (drop_bit (8 * i) w)) (rev [0..<16])"

text \<open>Multiplication in the field of 2 to the 128 elements, bit 0 being the leftmost.\<close>

fun gf_mult :: "nat \<Rightarrow> w128 \<Rightarrow> w128 \<Rightarrow> w128 \<Rightarrow> w128" where
  "gf_mult 0 x v z = z"
| "gf_mult (Suc n) x v z =
     gf_mult n x (drop_bit 1 v XOR (if bit v 0 then 0xe1000000000000000000000000000000 else 0))
       (if bit x n then z XOR v else z)"

definition ghash :: "w128 \<Rightarrow> w8 list \<Rightarrow> w128" where
  "ghash h bs = foldl (\<lambda>y blk. gf_mult 128 (y XOR to_w128 (blk @ replicate (16 - length blk) 0)) h 0) 0 (chunks 16 bs)"

definition counter_block :: "w8 list \<Rightarrow> nat \<Rightarrow> w8 list" where
  "counter_block nonce i = nonce @ map (\<lambda>j. of_nat (i div 256 ^ j mod 256)) (rev [0..<4])"

definition keystream :: "w8 list \<Rightarrow> w8 list \<Rightarrow> nat \<Rightarrow> w8 list" where
  "keystream k nonce n = take n (concat (map (\<lambda>i. aes_block k (counter_block nonce (i + 2))) [0..<(n + 15) div 16]))"

definition gcm_tag :: "w8 list \<Rightarrow> w8 list \<Rightarrow> w8 list \<Rightarrow> w8 list" where
  "gcm_tag k nonce ct =
     (let h = to_w128 (aes_block k (replicate 16 0));
          padded = ct @ replicate ((16 - length ct mod 16) mod 16) 0;
          lens = of_w128 (of_nat (8 * length ct))
      in of_w128 (ghash h (padded @ lens) XOR to_w128 (aes_block k (counter_block nonce 1))))"

definition xor_stream :: "w8 list \<Rightarrow> w8 list \<Rightarrow> w8 list \<Rightarrow> w8 list" where
  "xor_stream k nonce s = xor_bytes s (keystream k nonce (length s))"

definition gcm_seal :: "w8 list \<Rightarrow> w8 list \<Rightarrow> w8 list \<Rightarrow> w8 list" where
  "gcm_seal k nonce s = (let ct = xor_stream k nonce s in ct @ gcm_tag k nonce ct)"

definition gcm_open :: "w8 list \<Rightarrow> w8 list \<Rightarrow> w8 list \<Rightarrow> w8 list option" where
  "gcm_open k nonce c =
     (if length c < 16 then None
      else let ct = take (length c - 16) c; tag = drop (length c - 16) c
           in if gcm_tag k nonce ct = tag then Some (xor_stream k nonce ct) else None)"

subsection \<open>Opening undoes sealing\<close>

lemma length_xor_bytes [simp]: "length (xor_bytes xs ys) = min (length xs) (length ys)"
  by (simp add: xor_bytes_def)

lemma xor_bytes_cancel: "length xs \<le> length ys \<Longrightarrow> xor_bytes (xor_bytes xs ys) ys = xs"
  unfolding xor_bytes_def by (induction xs ys rule: list_induct2') (simp_all add: xor.assoc)

definition key_words :: "nat \<Rightarrow> w8 list list \<Rightarrow> bool" where
  "key_words n ws \<longleftrightarrow> length ws = n \<and> (\<forall>w \<in> set ws. length w = 4)"

lemma key_step_words:
  assumes "key_words n ws" "8 \<le> n"
  shows "key_words (Suc n) (key_step ws i)"
proof -
  have "length (ws ! 0) = 4" "length (ws ! 7) = 4" using assms by (auto simp: key_words_def)
  then show ?thesis using assms by (auto simp: key_words_def key_step_def Let_def)
qed

lemma key_fold_words:
  "key_words n ws \<Longrightarrow> 8 \<le> n \<Longrightarrow> key_words (n + length is) (foldl key_step ws is)"
  by (induction "is" arbitrary: n ws) (simp_all, metis add_Suc key_step_words le_Suc_eq)

lemma length_concat_words: "\<forall>w \<in> set ws. length w = 4 \<Longrightarrow> length (concat ws) = 4 * length ws"
  by (induction ws) auto

lemma round_keys_length:
  assumes "length k = 32"
  shows "length (round_keys k) = 15" and "\<forall>rk \<in> set (round_keys k). length rk = 16"
proof -
  have "key_words 8 (rev (chunks 4 k))" using chunks_exact [of k 4 8] assms by (simp add: key_words_def)
  from key_fold_words [OF this, of "[8..<60]"]
  have ws: "key_words 60 (rev (foldl key_step (rev (chunks 4 k)) [8..<60]))" by (simp add: key_words_def)
  let ?ws = "rev (foldl key_step (rev (chunks 4 k)) [8..<60])"
  have c: "length (chunks 4 ?ws) = 15" "\<forall>c \<in> set (chunks 4 ?ws). length c = 4 \<and> set c \<subseteq> set ?ws"
    using chunks_exact [of ?ws 4 15] ws unfolding key_words_def by simp_all
  show "length (round_keys k) = 15" using c(1) by (simp add: round_keys_def)
  have "length (concat c) = 16" if "c \<in> set (chunks 4 ?ws)" for c
  proof -
    have "\<forall>w \<in> set c. length w = 4" "length c = 4" using c(2) ws that by (auto simp: key_words_def)
    then show ?thesis using length_concat_words [of c] by simp
  qed
  then show "\<forall>rk \<in> set (round_keys k). length rk = 16" by (simp add: round_keys_def)
qed

lemma length_aes_block: "length k = 32 \<Longrightarrow> length (aes_block k b) = 16"
  using round_keys_length [of k] by (simp add: aes_block_def Let_def shift_rows_def)

lemma length_blocks: "\<forall>b \<in> set bs. length b = 16 \<Longrightarrow> length (concat bs) = 16 * length bs"
  by (induction bs) auto

lemma length_keystream: "length k = 32 \<Longrightarrow> length (keystream k nonce n) = n"
proof -
  assume k: "length k = 32"
  have "n \<le> 16 * ((n + 15) div 16)" by presburger
  then show ?thesis
    using k by (simp add: keystream_def length_blocks length_aes_block)
qed

lemma xor_stream_twice:
  "length k = 32 \<Longrightarrow> length (xor_stream k nonce s) = length s \<and> xor_stream k nonce (xor_stream k nonce s) = s"
  by (simp add: xor_stream_def length_keystream xor_bytes_cancel)

lemma length_of_w128 [simp]: "length (of_w128 w) = 16"
  by (simp add: of_w128_def)

lemma gcm_open_seal: "length k = 32 \<Longrightarrow> gcm_open k nonce (gcm_seal k nonce s) = Some s"
  using xor_stream_twice [of k nonce s] by (simp add: gcm_open_def gcm_seal_def gcm_tag_def Let_def)

text \<open>A message is opened only under the tag it was sealed with.\<close>

lemma gcm_open_Some:
  assumes "length k = 32"
  shows "gcm_open k nonce c = Some s \<longleftrightarrow> c = gcm_seal k nonce s"
proof
  assume "gcm_open k nonce c = Some s"
  then have c: "16 \<le> length c" "gcm_tag k nonce (take (length c - 16) c) = drop (length c - 16) c"
    "s = xor_stream k nonce (take (length c - 16) c)"
    by (simp_all add: gcm_open_def Let_def split: if_splits)
  then have "xor_stream k nonce s = take (length c - 16) c" using xor_stream_twice [OF assms] by simp
  then show "c = gcm_seal k nonce s" using c(2) by (simp add: gcm_seal_def Let_def)
qed (simp add: gcm_open_seal assms)

section \<open>The secret store\<close>

record aes_store =
  as_key :: string

datatype secret_error =
  KeyRequired | KeyNot32Bytes | NonceFailed | NotBase64 | CiphertextTooShort | DecryptFailed

definition key_of_length_32 :: "string option \<Rightarrow> string option" where
  "key_of_length_32 k = (case k of Some b \<Rightarrow> if length b = 32 then Some b else None | None \<Rightarrow> None)"

text \<open>\<open>NewAESStore\<close> tries hex, then padded base64, then raw base64.\<close>

definition NewAESStore :: "string \<Rightarrow> secret_error + aes_store" where
  "NewAESStore key =
     (if key = [] then Inl KeyRequired
      else case key_of_length_32 (hex_decode key) of
        Some b \<Rightarrow> Inr \<lparr>as_key = b\<rparr>
      | None \<Rightarrow>
          (case key_of_length_32 (std_decode key) of
             Some b \<Rightarrow> Inr \<lparr>as_key = b\<rparr>
           | None \<Rightarrow>
               (case key_of_length_32 (raw_std_decode key) of
                  Some b \<Rightarrow> Inr \<lparr>as_key = b\<rparr>
                | None \<Rightarrow> Inl KeyNot32Bytes)))"

definition to_bytes :: "string \<Rightarrow> w8 list" where
  "to_bytes s = map (\<lambda>c. of_nat (of_char c)) s"

definition of_bytes :: "w8 list \<Rightarrow> string" where
  "of_bytes bs = map (\<lambda>b. char_of (unat b)) bs"

definition nonce_size :: nat where "nonce_size = 12"

text \<open>The nonce is None when the random source fails. The 32-byte key is what \<open>aes.NewCipher\<close>
  and \<open>cipher.NewGCM\<close> accept, so their errors do not occur.\<close>

definition Encrypt :: "aes_store \<Rightarrow> string option \<Rightarrow> string \<Rightarrow> secret_error + string" where
  "Encrypt st rnd plaintext =
     (case rnd of
        None \<Rightarrow> Inl NonceFailed
      | Some nonce \<Rightarrow>
          Inr (std_encode (nonce @ of_bytes (gcm_seal (to_bytes (as_key st)) (to_bytes nonce) (to_bytes plaintext)))))"

definition Decrypt :: "aes_store \<Rightarrow> string \<Rightarrow> secret_error + string" where
  "Decrypt st ciphertext =
     (case std_decode ciphertext of
        None \<Rightarrow> Inl NotBase64
      | Some data \<Rightarrow>
          if length data < nonce_size then Inl CiphertextTooShort
          else case gcm_open (to_bytes (as_key st)) (to_bytes (take nonce_size data)) (to_bytes (drop nonce_size data)) of
                 None \<Rightarrow> Inl DecryptFailed
               | Some p \<Rightarrow> Inr (of_bytes p))"

lemma of_to_bytes [simp]: "of_bytes (to_bytes s) = s"
  by (simp add: of_bytes_def to_bytes_def unat_of_nat comp_def map_idI)

lemma to_of_bytes [simp]: "to_bytes (of_bytes b) = b"
proof -
  have "of_nat (of_char (char_of (unat x) :: char)) = x" for x :: w8
  proof -
    have "unat x < 256" by (rule order_less_le_trans [OF unsigned_less]) simp
    then show ?thesis by (simp add: of_char_of)
  qed
  then show ?thesis by (simp only: of_bytes_def to_bytes_def map_map comp_def map_ident)
qed

lemma length_to_bytes [simp]: "length (to_bytes s) = length s"
  by (simp add: to_bytes_def)

lemma to_bytes_append: "to_bytes (s @ t) = to_bytes s @ to_bytes t"
  by (simp add: to_bytes_def)

definition store_ok :: "aes_store \<Rightarrow> bool" where
  "store_ok st \<longleftrightarrow> length (as_key st) = 32"

lemma NewAESStore_ok: "NewAESStore key = Inr st \<Longrightarrow> store_ok st"
  by (auto simp: NewAESStore_def key_of_length_32_def store_ok_def split: if_splits option.splits)

lemma Decrypt_Encrypt:
  assumes "store_ok st" "length nonce = nonce_size" "Encrypt st (Some nonce) p = Inr c"
  shows "Decrypt st c = Inr p"
  using assms gcm_open_seal [of "to_bytes (as_key st)"]
  by (auto simp: Encrypt_def Decrypt_def b64_decode_encode store_ok_def)

text \<open>What the store decrypts is exactly what it encrypted, under the same key and some nonce.\<close>

lemma Decrypt_only_encrypted:
  assumes "store_ok st"
  shows "Decrypt st c = Inr p \<longleftrightarrow>
    (\<exists>nonce. length nonce = nonce_size \<and>
       std_decode c = Some (nonce @ of_bytes (gcm_seal (to_bytes (as_key st)) (to_bytes nonce) (to_bytes p))))"
    (is "_ \<longleftrightarrow> (\<exists>nonce. ?enc nonce)")
proof
  assume d: "Decrypt st c = Inr p"
  then obtain data q where data: "std_decode c = Some data" "\<not> length data < nonce_size" "p = of_bytes q"
    and o: "gcm_open (to_bytes (as_key st)) (to_bytes (take nonce_size data)) (to_bytes (drop nonce_size data)) = Some q"
    by (auto simp: Decrypt_def split: option.splits if_splits)
  from o have "to_bytes (drop nonce_size data)
      = gcm_seal (to_bytes (as_key st)) (to_bytes (take nonce_size data)) (to_bytes p)"
    using gcm_open_Some [of "to_bytes (as_key st)"] assms data(3) by (simp add: store_ok_def)
  then have "drop nonce_size data
      = of_bytes (gcm_seal (to_bytes (as_key st)) (to_bytes (take nonce_size data)) (to_bytes p))"
    by (metis of_to_bytes)
  then show "\<exists>nonce. ?enc nonce"
    using data(1,2) append_take_drop_id [of nonce_size data] by (intro exI [of _ "take nonce_size data"]) simp
next
  assume "\<exists>nonce. ?enc nonce"
  then show "Decrypt st c = Inr p"
    using gcm_open_seal [of "to_bytes (as_key st)"] assms by (auto simp: Decrypt_def store_ok_def)
qed

section \<open>The store as an interface\<close>

text \<open>What the clients of \<open>secrets.SecretStore\<close> rely on: a stored text decrypts to what was encrypted.\<close>

locale secret_store =
  fixes enc :: "'n \<Rightarrow> string \<Rightarrow> 'e + string"
    and dec :: "string \<Rightarrow> 'e + string"
    and good :: "'n \<Rightarrow> bool"
  assumes dec_enc: "good n \<Longrightarrow> enc n p = Inr c \<Longrightarrow> dec c = Inr p"
begin

lemma enc_inj: "good n \<Longrightarrow> good m \<Longrightarrow> enc n p = Inr c \<Longrightarrow> enc m q = Inr c \<Longrightarrow> p = q"
  using dec_enc by (metis sum.inject(2))

end

interpretation aes: secret_store "\<lambda>(st, rnd). Encrypt st rnd" "\<lambda>c. Decrypt st c"
    "\<lambda>(st', rnd). st' = st \<and> store_ok st \<and> (\<exists>nonce. rnd = Some nonce \<and> length nonce = nonce_size)" for st
  by unfold_locales (auto intro: Decrypt_Encrypt)

end
