(* ===== verification/Read_Through.thy ===== *)
theory Read_Through
  imports Models
begin

text \<open>
  A cache in front of the database, filled on a miss and trusted for a fixed time: the shape of
  the key resolver (\<open>internal/auth/resolver.go\<close>) and of the cache of active metadata keys
  (\<open>internal/repositories/active_keys_cache.go\<close>). The world is run by events, so that lookups,
  database changes, evictions and the passing of time interleave freely: a miss reads the database
  at one moment and stores what it read at a later one. The contract of such a cache is a locale;
  each component instantiates it with its own operations.
\<close>

record ('d, 'c, 'k, 'v) cache_ops =
  op_fetch :: "'d \<Rightarrow> 'k \<Rightarrow> 'v option"
  op_serve :: "instant \<Rightarrow> 'k \<Rightarrow> 'c \<Rightarrow> 'c \<times> 'v option"
  op_store :: "instant \<Rightarrow> 'k \<Rightarrow> 'v \<Rightarrow> 'c \<Rightarrow> 'c"
  op_forget :: "'k \<Rightarrow> 'c \<Rightarrow> 'c"

text \<open>
  \<open>cw_pending\<close> holds the loads in flight: the key, what the database said, and when it was asked.
  Two fields record the history: \<open>cw_past\<close>, the database at each moment so far, and
  \<open>cw_served\<close>, the answers given.
\<close>

record ('d, 'c, 'k, 'v) cache_world =
  cw_now :: instant
  cw_db :: 'd
  cw_cache :: 'c
  cw_pending :: "('k \<times> 'v option \<times> instant) list"
  cw_past :: "(instant \<times> 'd) list"
  cw_served :: "(instant \<times> 'k \<times> 'v) list"

datatype ('d, 'k) cache_event = Wait nat | Change 'd | Ask 'k | Finish nat "'k list" | Forget 'k

definition cache_start :: "instant \<Rightarrow> 'd \<Rightarrow> 'c \<Rightarrow> ('d, 'c, 'k, 'v) cache_world" where
  "cache_start now d c = \<lparr>cw_now = now, cw_db = d, cw_cache = c, cw_pending = [],
     cw_past = [(now, d)], cw_served = []\<rparr>"

text \<open>A load that finishes stores and answers what it read, unless the read failed; the cache may
  evict keys when it stores. A load lasts at most \<open>lat\<close>.\<close>

fun cache_step ::
    "('d, 'c, 'k, 'v) cache_ops \<Rightarrow> duration \<Rightarrow> ('d, 'c, 'k, 'v) cache_world \<Rightarrow> ('d, 'k) cache_event
      \<Rightarrow> ('d, 'c, 'k, 'v) cache_world option" where
  "cache_step ops lat w (Wait d) =
     Some (w\<lparr>cw_now := cw_now w + int d, cw_past := (cw_now w + int d, cw_db w) # cw_past w\<rparr>)"
| "cache_step ops lat w (Change d) = Some (w\<lparr>cw_db := d, cw_past := (cw_now w, d) # cw_past w\<rparr>)"
| "cache_step ops lat w (Ask k) =
     (case op_serve ops (cw_now w) k (cw_cache w) of
        (c, Some v) \<Rightarrow> Some (w\<lparr>cw_cache := c, cw_served := (cw_now w, k, v) # cw_served w\<rparr>)
      | (c, None) \<Rightarrow>
          Some (w\<lparr>cw_cache := c, cw_pending := cw_pending w @ [(k, op_fetch ops (cw_db w) k, cw_now w)]\<rparr>))"
| "cache_step ops lat w (Finish i evicted) =
     (if i < length (cw_pending w) then
        (case cw_pending w ! i of (k, r, t) \<Rightarrow>
           let w' = w\<lparr>cw_pending := take i (cw_pending w) @ drop (Suc i) (cw_pending w)\<rparr>
           in if t + lat < cw_now w then None
              else case r of
                None \<Rightarrow> Some w'
              | Some v \<Rightarrow>
                  Some (w'\<lparr>cw_cache := fold (op_forget ops) evicted (op_store ops (cw_now w) k v (cw_cache w)),
                           cw_served := (cw_now w, k, v) # cw_served w\<rparr>))
      else None)"
| "cache_step ops lat w (Forget k) = Some (w\<lparr>cw_cache := op_forget ops k (cw_cache w)\<rparr>)"

fun cache_run ::
    "('d, 'c, 'k, 'v) cache_ops \<Rightarrow> duration \<Rightarrow> ('d, 'c, 'k, 'v) cache_world \<Rightarrow> ('d, 'k) cache_event list
      \<Rightarrow> ('d, 'c, 'k, 'v) cache_world option" where
  "cache_run ops lat w [] = Some w"
| "cache_run ops lat w (e # es) =
     (case cache_step ops lat w e of None \<Rightarrow> None | Some w' \<Rightarrow> cache_run ops lat w' es)"

text \<open>An answer is backed when the database said so at a moment at most \<open>age\<close> before.\<close>

definition backed ::
    "('d, 'c, 'k, 'v) cache_ops \<Rightarrow> (instant \<times> 'd) list \<Rightarrow> duration \<Rightarrow> instant \<Rightarrow> 'k \<Rightarrow> 'v \<Rightarrow> bool" where
  "backed ops past age t k v \<longleftrightarrow>
     (\<exists>(t0, d) \<in> set past. op_fetch ops d k = Some v \<and> t0 \<le> t \<and> t \<le> t0 + age)"

lemma backed_mono:
  "backed ops past age t k v \<Longrightarrow> set past \<subseteq> set past' \<Longrightarrow> age \<le> age' \<Longrightarrow> backed ops past' age' t k v"
  unfolding backed_def by fastforce

locale read_through =
  fixes ops :: "('d, 'c, 'k, 'v) cache_ops"
    and ttl :: duration
    and entry :: "'c \<Rightarrow> 'k \<Rightarrow> ('v \<times> instant) option"
    and ok :: "'c \<Rightarrow> bool"
  assumes ttl: "0 \<le> ttl"
    and serve: "ok c \<Longrightarrow> snd (op_serve ops now k c) = Some v \<Longrightarrow> \<exists>e. entry c k = Some (v, e) \<and> now \<le> e"
    and serve_sub: "ok c \<Longrightarrow> entry (fst (op_serve ops now k c)) k' = Some x \<Longrightarrow> entry c k' = Some x"
    and store: "ok c \<Longrightarrow> entry (op_store ops now k v c) k' = Some (v', e) \<Longrightarrow>
          k' = k \<and> v' = v \<and> e = now + ttl \<or> entry c k' = Some (v', e)"
    and forget: "ok c \<Longrightarrow> entry (op_forget ops k c) k' = Some x \<Longrightarrow> entry c k' = Some x"
    and ok_serve: "ok c \<Longrightarrow> ok (fst (op_serve ops now k c))"
    and ok_store: "ok c \<Longrightarrow> ok (op_store ops now k v c)"
    and ok_forget: "ok c \<Longrightarrow> ok (op_forget ops k c)"
begin

text \<open>Every entry was in the database at most a load and the lifetime before it expires.\<close>

definition entries_ok :: "duration \<Rightarrow> instant \<Rightarrow> (instant \<times> 'd) list \<Rightarrow> 'c \<Rightarrow> bool" where
  "entries_ok lat now past c \<longleftrightarrow>
     (\<forall>k v e. entry c k = Some (v, e) \<longrightarrow>
        (\<exists>t0 d. (t0, d) \<in> set past \<and> op_fetch ops d k = Some v \<and> t0 \<le> now \<and> e \<le> t0 + lat + ttl))"

definition loads_ok :: "instant \<Rightarrow> (instant \<times> 'd) list \<Rightarrow> ('k \<times> 'v option \<times> instant) list \<Rightarrow> bool" where
  "loads_ok now past ls \<longleftrightarrow>
     (\<forall>k v t. (k, Some v, t) \<in> set ls \<longrightarrow>
        t \<le> now \<and> (\<exists>d. (t, d) \<in> set past \<and> op_fetch ops d k = Some v))"

definition served_ok :: "duration \<Rightarrow> (instant \<times> 'd) list \<Rightarrow> (instant \<times> 'k \<times> 'v) list \<Rightarrow> bool" where
  "served_ok lat past ss \<longleftrightarrow> (\<forall>t k v. (t, k, v) \<in> set ss \<longrightarrow> backed ops past (lat + ttl) t k v)"

definition cache_inv :: "duration \<Rightarrow> ('d, 'c, 'k, 'v) cache_world \<Rightarrow> bool" where
  "cache_inv lat w \<longleftrightarrow>
     ok (cw_cache w)
     \<and> (cw_now w, cw_db w) \<in> set (cw_past w)
     \<and> entries_ok lat (cw_now w) (cw_past w) (cw_cache w)
     \<and> loads_ok (cw_now w) (cw_past w) (cw_pending w)
     \<and> served_ok lat (cw_past w) (cw_served w)"

lemmas inv_parts = entries_ok_def loads_ok_def served_ok_def

lemma entries_ok_sub:
  "entries_ok lat now past c \<Longrightarrow> (\<And>k x. entry c' k = Some x \<Longrightarrow> entry c k = Some x) \<Longrightarrow> entries_ok lat now past c'"
  unfolding entries_ok_def by meson

lemma entries_ok_forget:
  "ok c \<Longrightarrow> entries_ok lat now past c \<Longrightarrow>
     ok (fold (op_forget ops) ks c) \<and> entries_ok lat now past (fold (op_forget ops) ks c)"
  by (induction ks arbitrary: c) (auto intro: entries_ok_sub forget ok_forget)

lemma inv_grow:
  assumes "cache_inv lat w" "set (cw_past w) \<subseteq> set past" "cw_now w \<le> now" "(now, db) \<in> set past"
  shows "cache_inv lat (w\<lparr>cw_now := now, cw_db := db, cw_past := past\<rparr>)"
proof -
  have "entries_ok lat now past (cw_cache w)"
    using assms unfolding cache_inv_def entries_ok_def by (meson order_trans subsetD)
  moreover have "loads_ok now past (cw_pending w)"
    using assms unfolding cache_inv_def loads_ok_def by (meson order_trans subsetD)
  moreover have "served_ok lat past (cw_served w)"
    using assms backed_mono [of ops "cw_past w" "lat + ttl" _ _ _ past "lat + ttl"]
    unfolding cache_inv_def served_ok_def by blast
  ultimately show ?thesis using assms(1,4) by (simp add: cache_inv_def)
qed

lemma start_inv: "ok c \<Longrightarrow> (\<And>k. entry c k = None) \<Longrightarrow> cache_inv lat (cache_start now d c)"
  by (simp add: cache_inv_def cache_start_def inv_parts)

lemma ask_inv:
  assumes "cache_step ops lat w (Ask k) = Some w'" and "cache_inv lat w"
  shows "cache_inv lat w'"
proof -
  obtain c r where s: "op_serve ops (cw_now w) k (cw_cache w) = (c, r)" by fastforce
  have old: "entries_ok lat (cw_now w) (cw_past w) (cw_cache w)" using assms(2) by (simp add: cache_inv_def)
  moreover have ok: "ok (cw_cache w)" using assms(2) by (simp add: cache_inv_def)
  ultimately have c: "entries_ok lat (cw_now w) (cw_past w) c" "ok c"
    using serve_sub [of "cw_cache w" "cw_now w" k] ok_serve [of "cw_cache w" "cw_now w" k] s
    by (auto elim: entries_ok_sub)
  show ?thesis
  proof (cases r)
    case None
    then show ?thesis using assms s c by (auto simp: cache_inv_def loads_ok_def) metis
  next
    case (Some v)
    obtain e where e: "entry (cw_cache w) k = Some (v, e)" "cw_now w \<le> e"
      using serve [OF ok, of "cw_now w" k v] s Some by auto
    then have "backed ops (cw_past w) (lat + ttl) (cw_now w) k v"
      using old unfolding entries_ok_def backed_def by fastforce
    then show ?thesis using assms s c Some by (auto simp: cache_inv_def served_ok_def)
  qed
qed

lemma finish_inv:
  assumes "cache_step ops lat w (Finish i evicted) = Some w'" and "cache_inv lat w"
  shows "cache_inv lat w'"
proof -
  obtain k r t where p: "i < length (cw_pending w)" "cw_pending w ! i = (k, r, t)" "cw_now w \<le> t + lat"
    using assms(1) by (cases "cw_pending w ! i") (auto simp: Let_def split: if_splits)
  let ?rest = "take i (cw_pending w) @ drop (Suc i) (cw_pending w)"
  have "set ?rest \<subseteq> set (cw_pending w)" by (auto dest: in_set_takeD in_set_dropD)
  then have rest: "loads_ok (cw_now w) (cw_past w) ?rest"
    using assms(2) unfolding cache_inv_def loads_ok_def by blast
  have ok: "ok (cw_cache w)" using assms(2) by (simp add: cache_inv_def)
  have old: "entries_ok lat (cw_now w) (cw_past w) (cw_cache w)" "served_ok lat (cw_past w) (cw_served w)"
    using assms(2) by (simp_all add: cache_inv_def)
  show ?thesis
  proof (cases r)
    case None
    then show ?thesis using assms p rest by (auto simp: cache_inv_def)
  next
    case (Some v)
    have "(k, r, t) \<in> set (cw_pending w)" using p nth_mem by metis
    then obtain d where d: "(t, d) \<in> set (cw_past w)" "op_fetch ops d k = Some v" "t \<le> cw_now w"
      using assms(2) Some unfolding cache_inv_def loads_ok_def by blast
    have "entries_ok lat (cw_now w) (cw_past w) (op_store ops (cw_now w) k v (cw_cache w))"
      unfolding entries_ok_def
    proof (intro allI impI)
      fix k' v' e assume "entry (op_store ops (cw_now w) k v (cw_cache w)) k' = Some (v', e)"
      then consider "k' = k" "v' = v" "e = cw_now w + ttl" | "entry (cw_cache w) k' = Some (v', e)"
        using store [OF ok] by blast
      then show "\<exists>t0 d. (t0, d) \<in> set (cw_past w) \<and> op_fetch ops d k' = Some v' \<and> t0 \<le> cw_now w \<and> e \<le> t0 + lat + ttl"
        by cases (use d p(3) old(1) in \<open>force simp: entries_ok_def\<close>)+
    qed
    moreover have "backed ops (cw_past w) (lat + ttl) (cw_now w) k v"
      using d p(3) ttl unfolding backed_def by force
    ultimately show ?thesis
      using assms p rest old(2) Some ok by (auto simp: cache_inv_def served_ok_def entries_ok_forget ok_store)
  qed
qed

lemma step_inv:
  assumes "cache_step ops lat w ev = Some w'" and "cache_inv lat w"
  shows "cache_inv lat w'"
proof (cases ev)
  case (Wait d)
  then show ?thesis
    using assms inv_grow [of lat w "(cw_now w + int d, cw_db w) # cw_past w" "cw_now w + int d" "cw_db w"] by auto
next
  case (Change d)
  then show ?thesis using assms inv_grow [of lat w "(cw_now w, d) # cw_past w" "cw_now w" d] by auto
next
  case (Forget k)
  then show ?thesis
    using assms entries_ok_forget [of "cw_cache w" lat "cw_now w" "cw_past w" "[k]"] by (auto simp: cache_inv_def)
qed (use assms ask_inv finish_inv in blast)+

lemma run_inv: "cache_run ops lat w es = Some w' \<Longrightarrow> cache_inv lat w \<Longrightarrow> cache_inv lat w'"
  by (induction es arbitrary: w) (auto split: option.splits intro: step_inv)

lemma served_backed:
  assumes "cache_run ops lat (cache_start now d c) es = Some w" and "ok c" and "\<And>k. entry c k = None"
    and "(t, k, v) \<in> set (cw_served w)"
  shows "backed ops (cw_past w) (lat + ttl) t k v"
  using run_inv [OF assms(1) start_inv [OF assms(2,3)]] assms(4) by (auto simp: cache_inv_def served_ok_def)

end

text \<open>The past is the database at each moment so far, latest first.\<close>

lemma cache_step_past:
  "cache_step ops lat w ev = Some w' \<Longrightarrow> \<exists>new. cw_past w' = new @ cw_past w"
  by (cases "(ops, lat, w, ev)" rule: cache_step.cases)
    (auto simp: Let_def split: if_splits option.splits prod.splits)

end
