(* ===== verification/Auth.thy ===== *)
theory Auth
  imports Repo_Keys Aes_Gcm Read_Through Provider
begin

text \<open>
  The key resolver (\<open>internal/auth/resolver.go\<close>) and the services that manage keys
  (\<open>internal/services/key_service.go\<close>, \<open>provider_key_service.go\<close>). The resolver's cache is the
  third-party LRU cache: a map from which the library may also drop entries when one is added;
  which ones is an argument of the operations that add. Each reading of the clock is an argument.
\<close>

section \<open>The key resolver\<close>

datatype auth_error = ErrInvalidAPIKey | ErrAPIKeyRevoked | ErrAPIKeyInactive | AuthStorage repo_error

record cached_key =
  cc_info :: "api_key_info option"
  cc_expiresAt :: instant
  cc_isValid :: bool

record resolver =
  rs_cache :: "(string, cached_key) gomap"
  rs_cacheTTL :: duration

definition NewResolver :: resolver where
  "NewResolver = \<lparr>rs_cache = [], rs_cacheTTL = 5 * minute\<rparr>"

text \<open>\<open>lru.Cache.Add\<close>: the entry is written and the entries \<open>evicted\<close> are dropped.\<close>

definition lru_add :: "string list \<Rightarrow> string \<Rightarrow> cached_key \<Rightarrow> (string, cached_key) gomap \<Rightarrow> (string, cached_key) gomap" where
  "lru_add evicted h e c = fold gm_del evicted (gm_put h e c)"

definition getFromCache :: "instant \<Rightarrow> string \<Rightarrow> resolver \<Rightarrow> resolver \<times> cached_key option" where
  "getFromCache now hash r =
     (case gm_get (rs_cache r) hash of
        None \<Rightarrow> (r, None)
      | Some cached \<Rightarrow>
          if cc_expiresAt cached < now then (r\<lparr>rs_cache := gm_del hash (rs_cache r)\<rparr>, None)
          else (r, Some cached))"

definition cacheValid :: "instant \<Rightarrow> string list \<Rightarrow> string \<Rightarrow> api_key_info \<Rightarrow> resolver \<Rightarrow> resolver" where
  "cacheValid now evicted hash info r =
     r\<lparr>rs_cache := lru_add evicted hash
         \<lparr>cc_info = Some info, cc_expiresAt = now + rs_cacheTTL r, cc_isValid = True\<rparr> (rs_cache r)\<rparr>"

definition cacheInvalid :: "instant \<Rightarrow> string list \<Rightarrow> string \<Rightarrow> resolver \<Rightarrow> resolver" where
  "cacheInvalid now evicted hash r =
     r\<lparr>rs_cache := lru_add evicted hash
         \<lparr>cc_info = None, cc_expiresAt = now + rs_cacheTTL r, cc_isValid = False\<rparr> (rs_cache r)\<rparr>"

definition InvalidateCache :: "string \<Rightarrow> resolver \<Rightarrow> resolver" where
  "InvalidateCache hash r = r\<lparr>rs_cache := gm_del hash (rs_cache r)\<rparr>"

text \<open>What the resolver makes of the row it found, if any.\<close>

definition key_info :: "string \<Rightarrow> api_key \<Rightarrow> api_key_info" where
  "key_info hash key = \<lparr>ki_ID = ak_ID key, ki_Hash = hash, ki_Alias = Some (ak_Name key),
     ki_DeprecatedModelBehavior = ak_DeprecatedModelBehavior key\<rparr>"

definition resolve_row :: "string \<Rightarrow> api_key option \<Rightarrow> auth_error + api_key_info" where
  "resolve_row hash row =
     (case row of
        None \<Rightarrow> Inl ErrInvalidAPIKey
      | Some key \<Rightarrow>
          if \<not> ak_IsActive key then
            (if ak_RevokedAt key \<noteq> None then Inl ErrAPIKeyRevoked else Inl ErrAPIKeyInactive)
          else Inr (key_info hash key))"

definition cache_row :: "instant \<Rightarrow> string list \<Rightarrow> string \<Rightarrow> api_key option \<Rightarrow> resolver \<Rightarrow> resolver" where
  "cache_row now evicted hash row r =
     (case resolve_row hash row of
        Inl _ \<Rightarrow> cacheInvalid now evicted hash r
      | Inr info \<Rightarrow> cacheValid now evicted hash info r)"

definition cached_answer :: "cached_key \<Rightarrow> auth_error + api_key_info" where
  "cached_answer c = (if \<not> cc_isValid c then Inl ErrAPIKeyInactive else Inr (the (cc_info c)))"

text \<open>The lookup is the storage's \<open>GetAPIKeyByHash\<close>. The third result is the id of the key whose last
  use is then recorded in the background.\<close>

definition ResolveAPIKey ::
    "instant \<Rightarrow> instant \<Rightarrow> string list \<Rightarrow> (string \<Rightarrow> repo_error + api_key option) \<Rightarrow> string \<Rightarrow> resolver
      \<Rightarrow> resolver \<times> (auth_error + api_key_info) \<times> uuid option" where
  "ResolveAPIKey now now' evicted lookup apiKey r =
     (if apiKey = [] then (r, Inl ErrInvalidAPIKey, None)
      else let hash = HashAPIKey apiKey in
        case getFromCache now hash r of
          (r1, Some cached) \<Rightarrow> (r1, cached_answer cached, None)
        | (r1, None) \<Rightarrow>
            (case lookup hash of
               Inl e \<Rightarrow> (r1, Inl (AuthStorage e), None)
             | Inr row \<Rightarrow>
                 (cache_row now' evicted hash row r1, resolve_row hash row,
                  case resolve_row hash row of Inl _ \<Rightarrow> None | Inr info \<Rightarrow> Some (ki_ID info))))"

subsection \<open>The cache keeps its invariant\<close>

definition cached_key_ok :: "cached_key \<Rightarrow> bool" where
  "cached_key_ok c \<longleftrightarrow> (cc_isValid c \<longleftrightarrow> cc_info c \<noteq> None)"

definition resolver_ok :: "resolver \<Rightarrow> bool" where
  "resolver_ok r \<longleftrightarrow> gm_ok (rs_cache r) \<and> (\<forall>h c. gm_get (rs_cache r) h = Some c \<longrightarrow> cached_key_ok c)"

lemma fold_gm_del_get: "gm_get (fold gm_del ks m) k = (if k \<in> set ks then None else gm_get m k)"
  by (induction ks arbitrary: m) (auto simp: gm_get_del)

lemma fold_gm_del_ok [simp]: "gm_ok m \<Longrightarrow> gm_ok (fold gm_del ks m)"
  by (induction ks arbitrary: m) auto

lemma lru_add_get:
  "gm_ok c \<Longrightarrow> gm_get (lru_add ev h e c) k = (if k \<in> set ev then None else if k = h then Some e else gm_get c k)"
  by (simp add: lru_add_def fold_gm_del_get gm_get_put)

lemma lru_add_ok [simp]: "gm_ok c \<Longrightarrow> gm_ok (lru_add ev h e c)"
  by (simp add: lru_add_def)

lemma NewResolver_ok [simp]: "resolver_ok NewResolver"
  by (simp add: resolver_ok_def NewResolver_def)

lemma getFromCache_cases:
  assumes "getFromCache now h r = (r', x)"
  shows "rs_cacheTTL r' = rs_cacheTTL r" and "resolver_ok r \<Longrightarrow> resolver_ok r'"
    and "gm_get (rs_cache r') k = Some c \<Longrightarrow> gm_get (rs_cache r) k = Some c"
    and "x = Some c \<Longrightarrow> r' = r \<and> gm_get (rs_cache r) h = Some c \<and> now \<le> cc_expiresAt c"
  using assms by (auto simp: getFromCache_def resolver_ok_def gm_get_del split: option.splits if_splits)

lemma cache_row_cache:
  "cache_row now ev h row r = r\<lparr>rs_cache := lru_add ev h
     \<lparr>cc_info = (case resolve_row h row of Inl _ \<Rightarrow> None | Inr i \<Rightarrow> Some i), cc_expiresAt = now + rs_cacheTTL r,
      cc_isValid = (case resolve_row h row of Inl _ \<Rightarrow> False | Inr _ \<Rightarrow> True)\<rparr> (rs_cache r)\<rparr>"
  by (simp add: cache_row_def cacheInvalid_def cacheValid_def split: sum.splits)

lemma cache_row_ok: "resolver_ok r \<Longrightarrow> resolver_ok (cache_row now ev h row r)"
  by (auto simp: cache_row_cache resolver_ok_def lru_add_get cached_key_ok_def split: sum.splits if_splits)

lemma ResolveAPIKey_ok:
  "resolver_ok r \<Longrightarrow> resolver_ok (fst (ResolveAPIKey now now' ev lookup key r))"
  by (auto simp: ResolveAPIKey_def Let_def cache_row_ok getFromCache_cases(2) split: prod.splits option.splits sum.splits)

lemma InvalidateCache_ok: "resolver_ok r \<Longrightarrow> resolver_ok (InvalidateCache h r)"
  by (auto simp: InvalidateCache_def resolver_ok_def gm_get_del split: if_splits)

subsection \<open>The resolver as a read-through cache\<close>

text \<open>The value kept for a hash: the info of an accepted key, or None for a refused one. The database
  of the world is the key table and whether it can be reached.\<close>

definition resolver_fetch :: "bool \<times> api_key list \<Rightarrow> string \<Rightarrow> api_key_info option option" where
  "resolver_fetch db hash =
     (case GetAPIKeyByHash (fst db) hash (snd db) of
        Inl _ \<Rightarrow> None
      | Inr row \<Rightarrow> Some (case resolve_row hash row of Inl _ \<Rightarrow> None | Inr info \<Rightarrow> Some info))"

definition resolver_serve :: "instant \<Rightarrow> string \<Rightarrow> resolver \<Rightarrow> resolver \<times> api_key_info option option" where
  "resolver_serve now hash r =
     (case getFromCache now hash r of
        (r', None) \<Rightarrow> (r', None)
      | (r', Some c) \<Rightarrow> (r', Some (case cached_answer c of Inl _ \<Rightarrow> None | Inr info \<Rightarrow> Some info)))"

definition resolver_store :: "instant \<Rightarrow> string \<Rightarrow> api_key_info option \<Rightarrow> resolver \<Rightarrow> resolver" where
  "resolver_store now hash v r =
     (case v of None \<Rightarrow> cacheInvalid now [] hash r | Some info \<Rightarrow> cacheValid now [] hash info r)"

definition resolver_ops :: "(bool \<times> api_key list, resolver, string, api_key_info option) cache_ops" where
  "resolver_ops = \<lparr>op_fetch = resolver_fetch, op_serve = resolver_serve, op_store = resolver_store,
     op_forget = InvalidateCache\<rparr>"

definition resolver_entry :: "resolver \<Rightarrow> string \<Rightarrow> (api_key_info option \<times> instant) option" where
  "resolver_entry r hash =
     map_option (\<lambda>c. (case cached_answer c of Inl _ \<Rightarrow> None | Inr info \<Rightarrow> Some info, cc_expiresAt c))
       (gm_get (rs_cache r) hash)"

definition resolver_set :: "resolver \<Rightarrow> bool" where
  "resolver_set r \<longleftrightarrow> resolver_ok r \<and> rs_cacheTTL r = 5 * minute"

lemma resolver_store_row:
  "resolver_fetch (True, rows) h = Some v \<Longrightarrow>
     fold InvalidateCache ev (resolver_store now h v r) = cache_row now ev h (find (\<lambda>k. ak_KeyHash k = h) rows) r"
proof -
  have "fold InvalidateCache ev (r\<lparr>rs_cache := c\<rparr>) = r\<lparr>rs_cache := fold gm_del ev c\<rparr>" for r c
    by (induction ev arbitrary: c) (simp_all add: InvalidateCache_def)
  then show "resolver_fetch (True, rows) h = Some v \<Longrightarrow> ?thesis"
    by (auto simp: resolver_fetch_def GetAPIKeyByHash_def resolver_store_def cache_row_def cacheInvalid_def
        cacheValid_def lru_add_def split: sum.splits)
qed

interpretation resolver_cache: read_through resolver_ops "5 * minute" resolver_entry resolver_set
proof
  fix c k now v v' e and k' :: string and x
  assume ok: "resolver_set c"
  obtain c' r where g: "getFromCache now k c = (c', r)" by fastforce
  note gc = getFromCache_cases [OF g]
  show "snd (op_serve resolver_ops now k c) = Some v \<Longrightarrow> \<exists>e. resolver_entry c k = Some (v, e) \<and> now \<le> e"
    using g gc(4) by (auto simp: resolver_ops_def resolver_serve_def resolver_entry_def split: option.splits)
  show "resolver_entry (fst (op_serve resolver_ops now k c)) k' = Some x \<Longrightarrow> resolver_entry c k' = Some x"
    using g gc(3) by (auto simp: resolver_ops_def resolver_serve_def resolver_entry_def split: option.splits)
  show "resolver_set (fst (op_serve resolver_ops now k c))"
    using g gc(1,2) ok by (auto simp: resolver_ops_def resolver_serve_def resolver_set_def split: option.splits)
  show "resolver_entry (op_store resolver_ops now k v c) k' = Some (v', e) \<Longrightarrow>
      k' = k \<and> v' = v \<and> e = now + 5 * minute \<or> resolver_entry c k' = Some (v', e)"
    using ok by (auto simp: resolver_ops_def resolver_store_def resolver_entry_def resolver_set_def resolver_ok_def
        cacheInvalid_def cacheValid_def lru_add_get cached_answer_def split: option.splits if_splits)
  show "resolver_set (op_store resolver_ops now k v c)"
    using ok by (auto simp: resolver_ops_def resolver_store_def resolver_set_def resolver_ok_def cached_key_ok_def
        cacheInvalid_def cacheValid_def lru_add_get split: option.splits if_splits)
  show "resolver_entry (op_forget resolver_ops k c) k' = Some x \<Longrightarrow> resolver_entry c k' = Some x"
    by (auto simp: resolver_ops_def InvalidateCache_def resolver_entry_def gm_get_del split: if_splits)
  show "resolver_set (op_forget resolver_ops k c)"
    using ok InvalidateCache_ok by (simp add: resolver_ops_def resolver_set_def InvalidateCache_def)
qed simp

subsection \<open>Answers\<close>

lemma resolver_fetch_Some:
  assumes "resolver_fetch db h = Some (Some info)"
  obtains key where "fst db" "key \<in> set (snd db)" "ak_KeyHash key = h" "ak_IsActive key" "info = key_info h key"
proof -
  from assms obtain key where f: "GetAPIKeyByHash (fst db) h (snd db) = Inr (Some key)"
    and r: "ak_IsActive key" "info = key_info h key"
    by (auto simp: resolver_fetch_def resolve_row_def split: if_splits option.splits sum.splits)
  from GetAPIKeyByHash_Some [OF f] r show thesis using that by blast
qed

text \<open>C16. An accepted key was active within the last five minutes. However lookups, changes of the key
  table, evictions and invalidations interleave, and when a database lookup takes at most \<open>lat\<close>: if
  the resolver accepts the hash \<open>h\<close> at time \<open>t\<close> with some key info, then at a moment at most
  \<open>lat\<close> and five minutes before, the key table held an active key with that hash, and the info is
  that key's.\<close>

theorem accepted_key_backed:
  assumes "cache_run resolver_ops lat (cache_start now db NewResolver) es = Some w"
    and "(t, h, Some info) \<in> set (cw_served w)"
  shows "\<exists>t0 rows key. (t0, True, rows) \<in> set (cw_past w) \<and> t0 \<le> t \<and> t \<le> t0 + lat + 5 * minute
    \<and> key \<in> set rows \<and> ak_KeyHash key = h \<and> ak_IsActive key \<and> info = key_info h key"
proof -
  have "backed resolver_ops (cw_past w) (lat + 5 * minute) t h (Some info)"
    by (rule resolver_cache.served_backed [OF assms(1) _ _ assms(2)])
      (simp_all add: resolver_set_def resolver_entry_def NewResolver_def resolver_ok_def)
  then obtain t0 db' where d: "(t0, db') \<in> set (cw_past w)" "t0 \<le> t" "t \<le> t0 + (lat + 5 * minute)"
    and f: "resolver_fetch db' h = Some (Some info)"
    by (auto simp: backed_def resolver_ops_def)
  from f obtain key where "fst db'" "key \<in> set (snd db')" "ak_KeyHash key = h" "ak_IsActive key" "info = key_info h key"
    by (rule resolver_fetch_Some)
  with d show ?thesis
    by (intro exI [of _ t0] exI [of _ "snd db'"] exI [of _ key]) (cases db', simp)
qed

definition example_key :: api_key where
  "example_key = \<lparr>ak_ID = 7, ak_KeyHash = ''h'', ak_Name = ''ci'', ak_Description = None, ak_IsActive = True,
     ak_CreatedAt = 0, ak_RevokedAt = None, ak_LastUsedAt = None, ak_RequestCount = 0,
     ak_DeprecatedModelBehavior = BehaviorPassthrough\<rparr>"

definition revoked_key :: api_key where
  "revoked_key = example_key\<lparr>ak_IsActive := False, ak_RevokedAt := Some 0\<rparr>"

text \<open>A key is looked up while active, revoked, and still accepted from the cache.\<close>

definition stale_run :: "(bool \<times> api_key list, string) cache_event list" where
  "stale_run = [Ask ''h'', Finish 0 [], Change (True, [revoked_key]), Ask ''h'']"

lemma stale_run_served:
  "\<exists>w. cache_run resolver_ops 0 (cache_start 0 (True, [example_key]) NewResolver) stale_run = Some w
     \<and> (0, ''h'', Some (key_info ''h'' example_key)) \<in> set (cw_served w)
     \<and> cw_past w = [(0, True, [revoked_key]), (0, True, [example_key])]"
  by (simp add: stale_run_def cache_start_def resolver_ops_def resolver_serve_def getFromCache_def NewResolver_def
      resolver_fetch_def GetAPIKeyByHash_def resolve_row_def resolver_store_def cacheValid_def lru_add_def
      cached_answer_def key_info_def example_key_def)

theorem accepted_key_backed_witness:
  "\<exists>w t0 rows key. cache_run resolver_ops 0 (cache_start 0 (True, [example_key]) NewResolver) stale_run = Some w
     \<and> (t0, True, rows) \<in> set (cw_past w) \<and> key \<in> set rows \<and> ak_IsActive key
     \<and> key_info ''h'' example_key = key_info ''h'' key"
proof -
  obtain w where w: "cache_run resolver_ops 0 (cache_start 0 (True, [example_key]) NewResolver) stale_run = Some w"
    "(0, ''h'', Some (key_info ''h'' example_key)) \<in> set (cw_served w)"
    using stale_run_served by blast
  from accepted_key_backed [OF this] w(1) show ?thesis by blast
qed



definition resolve_events :: "resolver \<Rightarrow> instant \<Rightarrow> string \<Rightarrow> string list \<Rightarrow> (bool \<times> api_key list, string) cache_event list" where
  "resolve_events r now h ev = Ask h # (case snd (getFromCache now h r) of Some _ \<Rightarrow> [] | None \<Rightarrow> [Finish 0 ev])"

lemma fold_Invalidate:
  "fold InvalidateCache ev (r\<lparr>rs_cache := c\<rparr>) = r\<lparr>rs_cache := fold gm_del ev c\<rparr>"
  by (induction ev arbitrary: c) (simp_all add: InvalidateCache_def)

text \<open>C18. \<open>ResolveAPIKey\<close> is the asking and finishing of one load of the read-through cache: run without
  interruption it leaves the same cache, and its answer is the one the cache served; when the
  database fails nothing is served and nothing is cached.\<close>

theorem resolve_is_read_through:
  fixes w :: "(bool \<times> api_key list, resolver, string, api_key_info option) cache_world"
  assumes "key \<noteq> []" and "cw_pending w = []" and "0 \<le> lat"
    and "ResolveAPIKey (cw_now w) (cw_now w) ev (\<lambda>h. GetAPIKeyByHash (fst (cw_db w)) h (snd (cw_db w))) key (cw_cache w)
      = (r', ans, touched)"
  shows "\<exists>w'. cache_run resolver_ops lat w (resolve_events (cw_cache w) (cw_now w) (HashAPIKey key) ev) = Some w'
    \<and> cw_cache w' = r'
    \<and> cw_served w' = (case ans of
          Inr info \<Rightarrow> [(cw_now w, HashAPIKey key, Some info)]
        | Inl (AuthStorage _) \<Rightarrow> []
        | Inl _ \<Rightarrow> [(cw_now w, HashAPIKey key, None)]) @ cw_served w"
proof -
  obtain r1 c where g: "getFromCache (cw_now w) (HashAPIKey key) (cw_cache w) = (r1, c)" by fastforce
  show ?thesis
  proof (cases c)
    case (Some cached)
    then show ?thesis
      using assms g by (auto simp: ResolveAPIKey_def resolve_events_def resolver_ops_def resolver_serve_def
          cached_answer_def)
  next
    case None
    show ?thesis
    proof (cases "fst (cw_db w)")
      case False
      then show ?thesis
        using assms g None by (auto simp: ResolveAPIKey_def resolve_events_def resolver_ops_def resolver_serve_def
            resolver_fetch_def GetAPIKeyByHash_def)
    next
      case True
      have e: "resolve_row h row \<noteq> Inl (AuthStorage x)" for h row x
        by (simp add: resolve_row_def split: option.splits)
      define R where "R = resolve_row (HashAPIKey key) (find (\<lambda>k. ak_KeyHash k = HashAPIKey key) (snd (cw_db w)))"
      have R: "resolve_row (HashAPIKey key) (find (\<lambda>k. ak_KeyHash k = HashAPIKey key) (snd (cw_db w))) = R"
        and eR: "R \<noteq> Inl (AuthStorage x)" for x
        using e by (simp_all add: R_def)
      show ?thesis
        using assms g None True eR
        by (cases R) (auto simp: ResolveAPIKey_def resolve_events_def resolver_ops_def resolver_serve_def resolver_store_def
            resolver_fetch_def GetAPIKeyByHash_def cache_row_def cacheInvalid_def cacheValid_def lru_add_def
            fold_Invalidate R split: auth_error.splits)
    qed
  qed
qed

theorem resolve_is_read_through_witness:
  "\<exists>w'. cache_run resolver_ops 0 (cache_start 0 (False, []) NewResolver)
     (resolve_events NewResolver 0 (HashAPIKey ''k'') []) = Some w' \<and> cw_served w' = []"
proof -
  let ?w = "cache_start 0 (False, []) NewResolver :: (bool \<times> api_key list, resolver, string, api_key_info option) cache_world"
  have "ResolveAPIKey 0 0 [] (\<lambda>h. GetAPIKeyByHash False h []) ''k'' NewResolver = (NewResolver, Inl (AuthStorage DBError), None)"
    by (simp add: ResolveAPIKey_def getFromCache_def NewResolver_def GetAPIKeyByHash_def)
  then show ?thesis
    using resolve_is_read_through [of "''k''" ?w 0 "[]" NewResolver "Inl (AuthStorage DBError)" None]
    by (auto simp: cache_start_def)
qed

end
