(* ===== verification/Key_Services.thy ===== *)
theory Key_Services
  imports Auth
begin

text \<open>
  The services that manage keys: \<open>internal/services/key_service.go\<close> for the gateway's own keys and
  \<open>provider_key_service.go\<close> for the stored upstream credentials, with the lookup of a credential that
  the proxy injects (\<open>resolveRoutedCredential\<close> in \<open>internal/proxy/handler.go\<close>).
\<close>

section \<open>Gateway keys\<close>

datatype key_service_error = GenerateError | KeyRepoError repo_error

definition CreateKey ::
    "string option \<Rightarrow> bool \<Rightarrow> uuid \<Rightarrow> instant \<Rightarrow> create_api_key_input \<Rightarrow> api_key list
      \<Rightarrow> api_key list \<times> (key_service_error + api_key \<times> string)" where
  "CreateKey rnd ok new_id now input rows =
     (case GenerateAPIKey rnd of
        None \<Rightarrow> (rows, Inl GenerateError)
      | Some (plaintext, hash) \<Rightarrow>
          (case CreateAPIKey ok new_id now hash input rows of
             (rows', Inl e) \<Rightarrow> (rows', Inl (KeyRepoError e))
           | (rows', Inr key) \<Rightarrow> (rows', Inr (key, plaintext))))"

definition ListKeys :: "bool \<Rightarrow> api_key list \<Rightarrow> repo_error + api_key list" where
  "ListKeys ok rows = ListAPIKeys ok rows"

definition RevokeKey :: "bool \<Rightarrow> instant \<Rightarrow> uuid \<Rightarrow> api_key list \<Rightarrow> api_key list \<times> (repo_error + unit)" where
  "RevokeKey ok now key_id rows = RevokeAPIKey ok now key_id rows"

lemma CreateKey_Inr:
  assumes "CreateKey rnd ok i now inp rows = (rows', Inr (key, plaintext))"
  shows "ok" and "rows' = rows @ [key]" and "ak_KeyHash key = HashAPIKey plaintext" and "ak_ID key = i"
    and "ak_IsActive key" and "ak_RevokedAt key = None" and "ak_Name key = ck_Name inp"
    and "\<exists>bytes. rnd = Some bytes \<and> plaintext = KeyPrefix @ raw_url_encode bytes"
    and "\<forall>k \<in> set rows. ak_KeyHash k \<noteq> HashAPIKey plaintext \<and> ak_ID k \<noteq> i"
  using assms by (auto simp: CreateKey_def CreateAPIKey_def GenerateAPIKey_def Let_def split: option.splits if_splits)

lemma created_key_authenticates_facts:
  assumes "keys_ok rows" and "CreateKey (Some bytes) ok i now inp rows = (rows', Inr (key, plaintext))"
    and "bytes \<noteq> []" and "gm_get (rs_cache r) (HashAPIKey plaintext) = None"
  shows "fst (snd (ResolveAPIKey t t' ev (\<lambda>h. GetAPIKeyByHash True h rows') plaintext r))
      = Inr \<lparr>ki_ID = i, ki_Hash = HashAPIKey plaintext, ki_Alias = Some (ck_Name inp),
             ki_DeprecatedModelBehavior = ak_DeprecatedModelBehavior key\<rparr>"
    and "ValidateKeyFormat plaintext" and "rows' = rows @ [key]" and "keys_ok rows'"
proof -
  note c = CreateKey_Inr [OF assms(2)]
  have g: "GenerateAPIKey (Some bytes) = Some (plaintext, HashAPIKey plaintext)"
    using c(8) by (simp add: GenerateAPIKey_def Let_def)
  show "rows' = rows @ [key]" by (rule c(2))
  show ok': "keys_ok rows'"
    using assms(1) c by (auto simp: keys_ok_def)
  show "ValidateKeyFormat plaintext" by (rule ValidateKeyFormat_generated [OF g assms(3)])
  have "GetAPIKeyByHash True (HashAPIKey plaintext) rows' = Inr (Some key)"
    using GetAPIKeyByHash_row [OF ok', of key] c(2,3) by simp
  moreover have "plaintext \<noteq> []" using c(8) by (auto simp: KeyPrefix_def)
  ultimately show "fst (snd (ResolveAPIKey t t' ev (\<lambda>h. GetAPIKeyByHash True h rows') plaintext r))
      = Inr \<lparr>ki_ID = i, ki_Hash = HashAPIKey plaintext, ki_Alias = Some (ck_Name inp),
             ki_DeprecatedModelBehavior = ak_DeprecatedModelBehavior key\<rparr>"
    using assms(4) c(4,5,7)
    by (simp add: ResolveAPIKey_def Let_def getFromCache_def resolve_row_def key_info_def)
qed

text \<open>C15. A key just created authenticates: the resolver, with nothing cached for the key, accepts the
  plaintext handed out and answers with the new key's id, name and hash; the plaintext has the key
  format, and the table afterwards is the table before and the new key, still well formed.\<close>

theorem created_key_authenticates:
  assumes "keys_ok rows" and "CreateKey (Some bytes) ok i now inp rows = (rows', Inr (key, plaintext))"
    and "bytes \<noteq> []" and "gm_get (rs_cache r) (HashAPIKey plaintext) = None"
  shows "(fst (snd (ResolveAPIKey t t' ev (\<lambda>h. GetAPIKeyByHash True h rows') plaintext r))
      = Inr \<lparr>ki_ID = i, ki_Hash = HashAPIKey plaintext, ki_Alias = Some (ck_Name inp),
             ki_DeprecatedModelBehavior = ak_DeprecatedModelBehavior key\<rparr>)
    \<and> (ValidateKeyFormat plaintext)
    \<and> (rows' = rows @ [key])
    \<and> (keys_ok rows')"
  by (intro conjI impI created_key_authenticates_facts [OF assms]; assumption?)

theorem created_key_authenticates_witness:
  "\<exists>rows' key plaintext. CreateKey (Some ''0'') True 1 0 \<lparr>ck_Name = ''ci'', ck_Description = None\<rparr> [] = (rows', Inr (key, plaintext))
     \<and> ValidateKeyFormat plaintext \<and> keys_ok rows'"
proof -
  obtain rows' key plaintext where c: "CreateKey (Some ''0'') True 1 0 \<lparr>ck_Name = ''ci'', ck_Description = None\<rparr> []
      = (rows', Inr (key, plaintext))"
    by (simp add: CreateKey_def CreateAPIKey_def GenerateAPIKey_def Let_def)
  from created_key_authenticates [OF keys_ok_Nil c, of NewResolver] c show ?thesis
    by (auto simp: NewResolver_def)
qed

subsection \<open>Refusals\<close>

lemma refused_then_inactive:
  assumes "resolver_ok r" "key \<noteq> []" "gm_get (rs_cache r) (HashAPIKey key) = None" "HashAPIKey key \<notin> set ev"
    and "lookup (HashAPIKey key) = Inr row" "resolve_row (HashAPIKey key) row = Inl e"
    and "t \<le> now' + rs_cacheTTL r"
  shows "ResolveAPIKey now now' ev lookup key r = (cacheInvalid now' ev (HashAPIKey key) r, Inl e, None)"
    and "fst (snd (ResolveAPIKey t t' ev' lookup' key (cacheInvalid now' ev (HashAPIKey key) r))) = Inl ErrAPIKeyInactive"
  using assms by (simp_all add: ResolveAPIKey_def getFromCache_def cache_row_def cacheInvalid_def lru_add_get
      resolver_ok_def cached_answer_def)

lemma refusal_answers_facts:
  assumes "resolver_ok r" and "key \<noteq> []" and "gm_get (rs_cache r) (HashAPIKey key) = None"
    and "HashAPIKey key \<notin> set ev" and "lookup (HashAPIKey key) = Inr row"
    and "\<And>k. row = Some k \<Longrightarrow> \<not> ak_IsActive k"
    and "ResolveAPIKey now now' ev lookup key r = (r1, ans, touched)"
    and "now' \<le> t" and "t \<le> now' + rs_cacheTTL r"
  shows "ans = Inl (case row of None \<Rightarrow> ErrInvalidAPIKey
                    | Some k \<Rightarrow> if ak_RevokedAt k = None then ErrAPIKeyInactive else ErrAPIKeyRevoked)"
    and "touched = None"
    and "fst (snd (ResolveAPIKey t t' ev' lookup' key r1)) = Inl ErrAPIKeyInactive"
proof -
  let ?e = "case row of None \<Rightarrow> ErrInvalidAPIKey
    | Some k \<Rightarrow> if ak_RevokedAt k = None then ErrAPIKeyInactive else ErrAPIKeyRevoked"
  have "resolve_row (HashAPIKey key) row = Inl ?e"
    using assms(6) by (auto simp: resolve_row_def split: option.splits)
  note r = refused_then_inactive(1) [where lookup = lookup and now = now, OF assms(1-5) this assms(9)]
    refused_then_inactive(2) [where lookup = lookup and ev' = ev' and lookup' = lookup' and t' = t', OF assms(1-5) this assms(9)]
  from r(1) assms(7) show "ans = Inl ?e" "touched = None" by simp_all
  from r(1) assms(7) have "r1 = cacheInvalid now' ev (HashAPIKey key) r" by simp
  with r(2) show "fst (snd (ResolveAPIKey t t' ev' lookup' key r1)) = Inl ErrAPIKeyInactive" by simp
qed

text \<open>How a key is refused. The first lookup says why: an unknown key is invalid, an inactive key with
  a revocation time is revoked, any other inactive key is inactive. Every repetition while the
  refusal is cached answers that the key is inactive, whatever the reason was and whatever the
  database says by then.\<close>

theorem refusal_answers:
  assumes "resolver_ok r" and "key \<noteq> []" and "gm_get (rs_cache r) (HashAPIKey key) = None"
    and "HashAPIKey key \<notin> set ev" and "lookup (HashAPIKey key) = Inr row"
    and "\<And>k. row = Some k \<Longrightarrow> \<not> ak_IsActive k"
    and "ResolveAPIKey now now' ev lookup key r = (r1, ans, touched)"
    and "now' \<le> t" and "t \<le> now' + rs_cacheTTL r"
  shows "(ans = Inl (case row of None \<Rightarrow> ErrInvalidAPIKey
                    | Some k \<Rightarrow> if ak_RevokedAt k = None then ErrAPIKeyInactive else ErrAPIKeyRevoked))
    \<and> (touched = None)
    \<and> (fst (snd (ResolveAPIKey t t' ev' lookup' key r1)) = Inl ErrAPIKeyInactive)"
  by (intro conjI impI refusal_answers_facts [OF assms]; assumption?)

theorem refusal_answers_witness:
  "fst (snd (ResolveAPIKey 60 60 [] (\<lambda>_. Inr (Some example_key)) ''k'' (cacheInvalid 0 [] (HashAPIKey ''k'') NewResolver)))
     = Inl ErrAPIKeyInactive"
proof (rule refusal_answers [THEN conjunct2, THEN conjunct2])
  show "ResolveAPIKey 0 0 [] (\<lambda>_. Inr (Some revoked_key)) ''k'' NewResolver
      = (cacheInvalid 0 [] (HashAPIKey ''k'') NewResolver, Inl ErrAPIKeyRevoked, None)"
    by (simp add: ResolveAPIKey_def getFromCache_def NewResolver_def cache_row_def resolve_row_def revoked_key_def)
qed (auto simp: NewResolver_def resolver_ok_def revoked_key_def)

section \<open>Provider credentials\<close>

datatype provider_key_error = ErrUnknownProvider | EncryptError secret_error | StoreKeyError repo_error

definition UpsertKey ::
    "aes_store \<Rightarrow> string option \<Rightarrow> bool \<Rightarrow> uuid \<Rightarrow> instant \<Rightarrow> string \<Rightarrow> string \<Rightarrow> provider_api_key list
      \<Rightarrow> provider_api_key list \<times> (provider_key_error + unit)" where
  "UpsertKey st rnd ok new_id now providerName plaintextKey rows =
     (if \<not> IsCredentialProvider providerName then (rows, Inl ErrUnknownProvider)
      else case Encrypt st rnd plaintextKey of
        Inl e \<Rightarrow> (rows, Inl (EncryptError e))
      | Inr encrypted \<Rightarrow>
          (case Upsert ok new_id now providerName encrypted rows of
             (rows', Inl e) \<Rightarrow> (rows', Inl (StoreKeyError e))
           | (rows', Inr _) \<Rightarrow> (rows', Inr ())))"

definition ListProviderKeys :: "bool \<Rightarrow> provider_api_key list \<Rightarrow> repo_error + provider_key_info list" where
  "ListProviderKeys ok rows = List ok rows"

definition DeleteKey :: "bool \<Rightarrow> string \<Rightarrow> provider_api_key list \<Rightarrow> provider_api_key list \<times> (repo_error + unit)" where
  "DeleteKey ok providerName rows = Delete ok providerName rows"

datatype credential_error = NoResolver | GetKeyError repo_error | DecryptError secret_error

text \<open>The key repository and the secret store are None on a handler built without routing.\<close>

definition resolveRoutedCredential ::
    "(string \<Rightarrow> repo_error + provider_api_key) option \<Rightarrow> aes_store option \<Rightarrow> string \<Rightarrow> credential_error + string" where
  "resolveRoutedCredential providerKeys secretStore providerName =
     (case (providerKeys, secretStore) of
        (Some get, Some st) \<Rightarrow>
          (case get providerName of
             Inl e \<Rightarrow> Inl (GetKeyError e)
           | Inr rec \<Rightarrow>
               (case Decrypt st (pk_EncryptedKey rec) of
                  Inl e \<Rightarrow> Inl (DecryptError e)
                | Inr plaintext \<Rightarrow> Inr plaintext))
      | _ \<Rightarrow> Inl NoResolver)"

lemma UpsertKey_Inr:
  assumes "UpsertKey st rnd ok i now p k rows = (rows', Inr ())"
  obtains e where "Encrypt st rnd k = Inr e" "stored rows' = (stored rows)(p \<mapsto> e)" "IsCredentialProvider p"
proof -
  from assms obtain e where e: "Encrypt st rnd k = Inr e" "Upsert ok i now p e rows = (rows', Inr ())" "IsCredentialProvider p"
    by (auto simp: UpsertKey_def split: if_splits sum.splits prod.splits)
  with stored_Upsert [of ok i now p e rows] that show thesis by simp
qed

lemma credential_of_stored:
  "resolveRoutedCredential (Some (\<lambda>q. GetKey True q rows)) (Some st) p =
     (case stored rows p of None \<Rightarrow> Inl (GetKeyError ErrProviderKeyNotFound)
      | Some e \<Rightarrow> (case Decrypt st e of Inl x \<Rightarrow> Inl (DecryptError x) | Inr k \<Rightarrow> Inr k))"
  by (simp add: resolveRoutedCredential_def GetKey_def stored_def split: option.splits)

lemma credential_roundtrip_facts:
  assumes "NewAESStore enc_key = Inr st" and "length nonce = nonce_size"
    and "UpsertKey st (Some nonce) ok i now p k rows = (rows', Inr ())"
  shows "resolveRoutedCredential (Some (\<lambda>q. GetKey True q rows')) (Some st) p = Inr k"
    and "q \<noteq> p \<Longrightarrow> resolveRoutedCredential (Some (\<lambda>q. GetKey True q rows')) (Some st) q
      = resolveRoutedCredential (Some (\<lambda>q. GetKey True q rows)) (Some st) q"
    and "resolveRoutedCredential (Some (\<lambda>q. GetKey True q (fst (DeleteKey True p rows')))) (Some st) p
      = Inl (GetKeyError ErrProviderKeyNotFound)"
proof -
  obtain e where e: "Encrypt st (Some nonce) k = Inr e" "stored rows' = (stored rows)(p \<mapsto> e)"
    using assms(3) by (rule UpsertKey_Inr)
  have "store_ok st" using assms(1) by (rule NewAESStore_ok)
  then have "Decrypt st e = Inr k" using aes.dec_enc [of st "(st, Some nonce)" k e] assms(2) e(1) by simp
  then show "resolveRoutedCredential (Some (\<lambda>q. GetKey True q rows')) (Some st) p = Inr k"
    using e(2) by (simp add: credential_of_stored)
  show "q \<noteq> p \<Longrightarrow> resolveRoutedCredential (Some (\<lambda>q. GetKey True q rows')) (Some st) q
      = resolveRoutedCredential (Some (\<lambda>q. GetKey True q rows)) (Some st) q"
    using e(2) by (simp add: credential_of_stored)
  show "resolveRoutedCredential (Some (\<lambda>q. GetKey True q (fst (DeleteKey True p rows')))) (Some st) p
      = Inl (GetKeyError ErrProviderKeyNotFound)"
    by (simp add: credential_of_stored DeleteKey_def stored_Delete)
qed

text \<open>C19. A stored credential comes back. After a credential has been stored for a provider, the key the
  proxy injects for that provider is the plaintext that was stored, for every store key and random
  nonce; the credentials of all other providers are as before; and once deleted it is not found.\<close>

theorem credential_roundtrip:
  assumes "NewAESStore enc_key = Inr st" and "length nonce = nonce_size"
    and "UpsertKey st (Some nonce) ok i now p k rows = (rows', Inr ())"
  shows "(resolveRoutedCredential (Some (\<lambda>q. GetKey True q rows')) (Some st) p = Inr k)
    \<and> (q \<noteq> p \<longrightarrow> resolveRoutedCredential (Some (\<lambda>q. GetKey True q rows')) (Some st) q
      = resolveRoutedCredential (Some (\<lambda>q. GetKey True q rows)) (Some st) q)
    \<and> (resolveRoutedCredential (Some (\<lambda>q. GetKey True q (fst (DeleteKey True p rows')))) (Some st) p
      = Inl (GetKeyError ErrProviderKeyNotFound))"
  by (intro conjI impI credential_roundtrip_facts [OF assms]; assumption?)

definition example_store :: aes_store where
  "example_store = \<lparr>as_key = replicate 32 (CHR ''k'')\<rparr>"

lemma example_store_new: "NewAESStore (hex_encode (replicate 32 (CHR ''k''))) = Inr example_store"
proof -
  have "hex_encode (replicate 32 (CHR ''k'')) \<noteq> []"
    using length_hex_encode [of "replicate 32 (CHR ''k'')"] by fastforce
  then show ?thesis
    by (simp add: NewAESStore_def hex_decode_encode key_of_length_32_def example_store_def)
qed

theorem credential_roundtrip_witness:
  "resolveRoutedCredential
     (Some (\<lambda>q. GetKey True q (fst (UpsertKey example_store (Some (replicate 12 (CHR ''n''))) True 1 0 ''openai'' ''sk-1'' []))))
     (Some example_store) ''openai'' = Inr ''sk-1''"
proof (rule credential_roundtrip [THEN conjunct1])
  show "NewAESStore (hex_encode (replicate 32 (CHR ''k''))) = Inr example_store" by (rule example_store_new)
  show "length (replicate 12 (CHR ''n'')) = nonce_size" by (simp add: nonce_size_def)
  have "IsCredentialProvider ''openai''" by code_simp
  then have "snd (UpsertKey example_store (Some (replicate 12 (CHR ''n''))) True 1 0 ''openai'' ''sk-1'' []) = Inr ()"
    by (simp add: UpsertKey_def Encrypt_def Upsert_def)
  then show "UpsertKey example_store (Some (replicate 12 (CHR ''n''))) True 1 0 ''openai'' ''sk-1'' []
      = (fst (UpsertKey example_store (Some (replicate 12 (CHR ''n''))) True 1 0 ''openai'' ''sk-1'' []), Inr ())"
    by (simp add: prod_eq_iff)
qed

end
