(* ===== verification/Spans.thy ===== *)
theory Spans
  imports Models
begin

text \<open>
  Span paths and the identity of interior nodes (\<open>internal/spanid/spanid.go\<close>). The UUID derivation
  \<open>uuid.NewSHA1\<close> is third-party and is an argument; what the module decides is the name hashed.
\<close>

definition runSpanNamespace :: uuid where
  "runSpanNamespace = 0x6f1a2b3c00005000a000000000000001"

definition pathSeparator :: char where "pathSeparator = CHR ''/''"

text \<open>The bytes hashed for the node with the canonical path \<open>p\<close> of the run \<open>traceID\<close>.\<close>

definition interior_name :: "string \<Rightarrow> string \<Rightarrow> string" where
  "interior_name traceID canonicalPath = traceID @ [CHR 0x00] @ canonicalPath"

definition InteriorSpanID :: "(uuid \<Rightarrow> string \<Rightarrow> uuid) \<Rightarrow> string \<Rightarrow> string \<Rightarrow> uuid" where
  "InteriorSpanID newSHA1 traceID canonicalPath = newSHA1 runSpanNamespace (interior_name traceID canonicalPath)"

definition SplitPath :: "string \<Rightarrow> string list" where
  "SplitPath path = (if path = [] then [] else filter (\<lambda>s. s \<noteq> []) (split_on pathSeparator path))"

definition CanonicalPath :: "string \<Rightarrow> string" where
  "CanonicalPath path = join_with pathSeparator (SplitPath path)"

definition AncestorPaths :: "string \<Rightarrow> string list" where
  "AncestorPaths canonicalPath =
     (let segments = SplitPath canonicalPath
      in map (\<lambda>i. join_with pathSeparator (take (i + 1) segments)) [0..<length segments])"

section \<open>Canonical paths\<close>

text \<open>A segment list as SplitPath yields them: no empty segment, no separator inside one.\<close>

definition segments_ok :: "string list \<Rightarrow> bool" where
  "segments_ok segs \<longleftrightarrow> (\<forall>s \<in> set segs. s \<noteq> [] \<and> pathSeparator \<notin> set s)"

lemma SplitPath_filter: "SplitPath path = filter (\<lambda>s. s \<noteq> []) (split_on pathSeparator path)"
  by (simp add: SplitPath_def)

lemma SplitPath_ok [simp]: "segments_ok (SplitPath path)"
  by (auto simp: SplitPath_filter segments_ok_def dest: split_on_parts)

lemma segments_ok_take [simp]: "segments_ok segs \<Longrightarrow> segments_ok (take n segs)"
  by (auto simp: segments_ok_def dest: in_set_takeD)

lemma SplitPath_join [gostr]:
  assumes "segments_ok segs"
  shows "SplitPath (join_with pathSeparator segs) = segs"
proof (cases "segs = []")
  case False
  then have "split_on pathSeparator (join_with pathSeparator segs) = segs"
    using assms by (intro split_join) (auto simp: segments_ok_def)
  then show ?thesis using assms by (simp add: SplitPath_filter segments_ok_def)
qed (simp add: SplitPath_def)

lemma SplitPath_Canonical [gostr]: "SplitPath (CanonicalPath path) = SplitPath path"
  by (simp add: CanonicalPath_def SplitPath_join)

lemma CanonicalPath_idem [gostr]: "CanonicalPath (CanonicalPath path) = CanonicalPath path"
  by (simp add: CanonicalPath_def [of "CanonicalPath path"] SplitPath_Canonical) (simp add: CanonicalPath_def)

lemma CanonicalPath_eq_iff: "CanonicalPath p = CanonicalPath q \<longleftrightarrow> SplitPath p = SplitPath q"
  by (metis CanonicalPath_def SplitPath_Canonical)

lemma join_inj:
  "segments_ok a \<Longrightarrow> segments_ok b \<Longrightarrow> join_with pathSeparator a = join_with pathSeparator b \<longleftrightarrow> a = b"
  by (metis SplitPath_join)

lemma length_AncestorPaths [simp]: "length (AncestorPaths p) = length (SplitPath p)"
  by (simp add: AncestorPaths_def Let_def)

lemma AncestorPaths_nth:
  "i < length (SplitPath p) \<Longrightarrow> AncestorPaths p ! i = join_with pathSeparator (take (Suc i) (SplitPath p))"
  by (simp add: AncestorPaths_def Let_def)

lemma join_with_not_Nil: "segments_ok segs \<Longrightarrow> segs \<noteq> [] \<Longrightarrow> join_with pathSeparator segs \<noteq> []"
  by (metis SplitPath_def SplitPath_join)

lemma interior_name_inj:
  assumes "CHR 0x00 \<notin> set t" "CHR 0x00 \<notin> set t'"
  shows "interior_name t p = interior_name t' p' \<longleftrightarrow> t = t' \<and> p = p'"
proof
  assume e: "interior_name t p = interior_name t' p'"
  have t: "takeWhile (\<lambda>c. c \<noteq> CHR 0x00) (interior_name t p) = t"
    "takeWhile (\<lambda>c. c \<noteq> CHR 0x00) (interior_name t' p') = t'"
    using assms by (auto simp: interior_name_def takeWhile_append)
  then have "t = t'" using e by metis
  then show "t = t' \<and> p = p'" using e by (simp add: interior_name_def)
qed simp

lemma span_identity_facts:
  shows "CanonicalPath (CanonicalPath p) = CanonicalPath p"
    and "SplitPath (CanonicalPath p) = SplitPath p"
    and "CHR 0x00 \<notin> set t \<Longrightarrow> CHR 0x00 \<notin> set t' \<Longrightarrow>
      interior_name t (CanonicalPath p) = interior_name t' (CanonicalPath p') \<longleftrightarrow> t = t' \<and> SplitPath p = SplitPath p'"
    and "map SplitPath (AncestorPaths p) = map (\<lambda>n. take (Suc n) (SplitPath p)) [0..<length (SplitPath p)]"
    and "SplitPath p \<noteq> [] \<Longrightarrow> last (AncestorPaths p) = CanonicalPath p"
proof -
  show "CanonicalPath (CanonicalPath p) = CanonicalPath p" by (rule CanonicalPath_idem)
  show "SplitPath (CanonicalPath p) = SplitPath p" by (rule SplitPath_Canonical)
  show "CHR 0x00 \<notin> set t \<Longrightarrow> CHR 0x00 \<notin> set t' \<Longrightarrow>
      interior_name t (CanonicalPath p) = interior_name t' (CanonicalPath p') \<longleftrightarrow> t = t' \<and> SplitPath p = SplitPath p'"
    by (simp add: interior_name_inj CanonicalPath_eq_iff)
  show "map SplitPath (AncestorPaths p) = map (\<lambda>n. take (Suc n) (SplitPath p)) [0..<length (SplitPath p)]"
    by (rule nth_equalityI) (simp_all add: AncestorPaths_nth SplitPath_join)
  show "SplitPath p \<noteq> [] \<Longrightarrow> last (AncestorPaths p) = CanonicalPath p"
  proof -
    assume n: "SplitPath p \<noteq> []"
    then have "AncestorPaths p \<noteq> []" using length_AncestorPaths [of p] by fastforce
    then have "last (AncestorPaths p) = AncestorPaths p ! (length (SplitPath p) - 1)" by (simp add: last_conv_nth)
    also have "\<dots> = join_with pathSeparator (take (Suc (length (SplitPath p) - 1)) (SplitPath p))"
      using n by (intro AncestorPaths_nth) simp
    finally show ?thesis using n by (simp add: CanonicalPath_def)
  qed
qed

text \<open>C21. A node's identity is its run and its logical path. However a client writes a span path, with
  leading, trailing or repeated separators, the same steps give the same canonical path and the same
  hashed name; two nodes have the same hashed name only when run and steps agree (run ids hold no NUL
  byte, as HTTP header values do not); canonicalisation is idempotent and keeps the steps; and the
  ancestors of a path are exactly its non-empty prefixes, outermost first, ending in the path.\<close>

theorem span_identity:
  shows "(CanonicalPath (CanonicalPath p) = CanonicalPath p)
    \<and> (SplitPath (CanonicalPath p) = SplitPath p)
    \<and> (CHR 0x00 \<notin> set t \<longrightarrow> CHR 0x00 \<notin> set t' \<longrightarrow>
      interior_name t (CanonicalPath p) = interior_name t' (CanonicalPath p') \<longleftrightarrow> t = t' \<and> SplitPath p = SplitPath p')
    \<and> (map SplitPath (AncestorPaths p) = map (\<lambda>n. take (Suc n) (SplitPath p)) [0..<length (SplitPath p)])
    \<and> (SplitPath p \<noteq> [] \<longrightarrow> last (AncestorPaths p) = CanonicalPath p)"
  by (intro conjI impI span_identity_facts; assumption?)

theorem span_identity_witness:
  "interior_name ''run'' (CanonicalPath ''/a//b/'') = interior_name ''run'' (CanonicalPath ''a/b'')
   \<and> last (AncestorPaths ''a//b'') = ''a/b''"
proof -
  have s: "SplitPath ''/a//b/'' = SplitPath ''a/b''" "SplitPath ''a//b'' \<noteq> []" by code_simp+
  have "CanonicalPath ''a//b'' = ''a/b''" by code_simp
  with span_identity [of "''a//b''" "''run''" "''run''"] span_identity [of "''/a//b/''" "''run''" "''run''" "''a/b''"] s
  show ?thesis by simp
qed

end
