(* ===== verification/Run_Tree.thy ===== *)
theory Run_Tree
  imports Spans
begin

text \<open>
  The waterfall of one agent run (\<open>runLeafRow\<close>, \<open>GetRunTree\<close>, \<open>assembleRunTree\<close>, \<open>runLabel\<close> and
  \<open>rollUpRunNode\<close> of \<open>internal/repositories/usage.go\<close>, \<open>RunNode\<close> and \<open>RunTree\<close> of
  \<open>internal/models/usage.go\<close>). The code keeps a map from a canonical path to a pointer to the interior
  node with that path; here a pointer to an interior node is its path, which identifies the node in
  the tree, and the map is the list of paths that have a node.
\<close>

section \<open>Rows and nodes\<close>

definition RunNodeKindRun :: string where "RunNodeKindRun = ''run''"
definition RunNodeKindStep :: string where "RunNodeKindStep = ''step''"
definition RunNodeKindLLM :: string where "RunNodeKindLLM = ''llm''"

definition runTreeFetchCap :: nat where "runTreeFetchCap = 5000"
definition maxSpanDepth :: nat where "maxSpanDepth = 64"

record run_leaf_row =
  lf_ID :: uuid
  lf_SpanID :: "uuid option"
  lf_ParentSpanID :: "uuid option"
  lf_SpanPath :: string
  lf_SpanName :: string
  lf_Provider :: string
  lf_Model :: string
  lf_RequestedAt :: instant
  lf_RespondedAt :: instant
  lf_ResponseTimeMs :: int
  lf_StatusCode :: int
  lf_TotalCost :: f64

text \<open>The fields of a node apart from its children; those of a call are set only on a leaf.\<close>

record node_info =
  rn_SpanID :: uuid
  rn_ParentSpanID :: "uuid option"
  rn_Name :: string
  rn_Path :: string
  rn_Kind :: string
  rn_Row :: "run_leaf_row option"
  rn_SelfCost :: f64
  rn_TotalCost :: f64
  rn_RequestCount :: int

datatype run_node = RunNode (node_data: node_info) (node_children: "run_node list")

record run_tree =
  rt_TraceID :: string
  rt_Root :: run_node
  rt_TotalCost :: f64
  rt_RequestCount :: int
  rt_StartedAt :: instant
  rt_EndedAt :: instant
  rt_Truncated :: bool

definition runLabel :: "run_leaf_row \<Rightarrow> string" where
  "runLabel row = (case SplitPath (lf_SpanPath row) of s # _ \<Rightarrow> s | [] \<Rightarrow> lf_SpanName row)"

section \<open>Assembly\<close>

definition root_info :: "(uuid \<Rightarrow> string \<Rightarrow> uuid) \<Rightarrow> string \<Rightarrow> run_leaf_row \<Rightarrow> node_info" where
  "root_info newSHA1 traceID row =
     \<lparr>rn_SpanID = InteriorSpanID newSHA1 traceID [], rn_ParentSpanID = None, rn_Name = runLabel row,
      rn_Path = [], rn_Kind = RunNodeKindRun, rn_Row = None, rn_SelfCost = 0, rn_TotalCost = 0,
      rn_RequestCount = 0\<rparr>"

definition step_info :: "(uuid \<Rightarrow> string \<Rightarrow> uuid) \<Rightarrow> string \<Rightarrow> string \<Rightarrow> node_info \<Rightarrow> node_info" where
  "step_info newSHA1 traceID path parent =
     \<lparr>rn_SpanID = InteriorSpanID newSHA1 traceID path, rn_ParentSpanID = Some (rn_SpanID parent),
      rn_Name = last (SplitPath path), rn_Path = path, rn_Kind = RunNodeKindStep, rn_Row = None,
      rn_SelfCost = 0, rn_TotalCost = 0, rn_RequestCount = 0\<rparr>"

definition leaf_info :: "run_leaf_row \<Rightarrow> node_info \<Rightarrow> node_info" where
  "leaf_info row parent =
     \<lparr>rn_SpanID = (case lf_SpanID row of None \<Rightarrow> lf_ID row | Some i \<Rightarrow> i),
      rn_ParentSpanID = Some (rn_SpanID parent), rn_Name = lf_SpanName row, rn_Path = rn_Path parent,
      rn_Kind = RunNodeKindLLM, rn_Row = Some row, rn_SelfCost = lf_TotalCost row,
      rn_TotalCost = lf_TotalCost row, rn_RequestCount = 1\<rparr>"

definition interior :: "node_info \<Rightarrow> bool" where
  "interior i \<longleftrightarrow> rn_Kind i \<noteq> RunNodeKindLLM"

text \<open>\<open>parent.Children = append(parent.Children, child)\<close> for the interior node \<open>parent\<close> with the path
  \<open>p\<close>; the child is built from the parent's fields.\<close>

fun append_child :: "string \<Rightarrow> (node_info \<Rightarrow> run_node) \<Rightarrow> run_node \<Rightarrow> run_node" where
  "append_child p mk (RunNode i cs) =
     (if interior i \<and> rn_Path i = p then RunNode i (cs @ [mk i])
      else RunNode i (map (append_child p mk) cs))"

record assembly =
  as_root :: run_node
  as_nodes :: "string list"

text \<open>One prefix of the walk down to a path: an existing node becomes the parent, a missing one is made
  under the parent.\<close>

definition ensure_prefix ::
    "(uuid \<Rightarrow> string \<Rightarrow> uuid) \<Rightarrow> string \<Rightarrow> assembly \<times> string \<Rightarrow> string \<Rightarrow> assembly \<times> string" where
  "ensure_prefix newSHA1 traceID = (\<lambda>(a, parent) path.
     if path \<in> set (as_nodes a) then (a, path)
     else (a\<lparr>as_root := append_child parent (\<lambda>i. RunNode (step_info newSHA1 traceID path i) []) (as_root a),
             as_nodes := path # as_nodes a\<rparr>, path))"

definition ensurePath :: "(uuid \<Rightarrow> string \<Rightarrow> uuid) \<Rightarrow> string \<Rightarrow> string \<Rightarrow> assembly \<Rightarrow> assembly \<times> string" where
  "ensurePath newSHA1 traceID canonicalPath a =
     (if canonicalPath \<in> set (as_nodes a) then (a, canonicalPath)
      else foldl (ensure_prefix newSHA1 traceID) (a, []) (take maxSpanDepth (AncestorPaths canonicalPath)))"

definition add_row :: "(uuid \<Rightarrow> string \<Rightarrow> uuid) \<Rightarrow> string \<Rightarrow> assembly \<Rightarrow> run_leaf_row \<Rightarrow> assembly" where
  "add_row newSHA1 traceID a row =
     (case ensurePath newSHA1 traceID (CanonicalPath (lf_SpanPath row)) a of
        (a', parent) \<Rightarrow> a'\<lparr>as_root := append_child parent (\<lambda>i. RunNode (leaf_info row i) []) (as_root a')\<rparr>)"

definition add_child_totals :: "node_info \<Rightarrow> run_node \<Rightarrow> node_info" where
  "add_child_totals i c =
     i\<lparr>rn_TotalCost := rn_TotalCost i + rn_TotalCost (node_data c),
       rn_RequestCount := rn_RequestCount i + rn_RequestCount (node_data c)\<rparr>"

fun rollUpRunNode :: "run_node \<Rightarrow> run_node" where
  "rollUpRunNode (RunNode i cs) =
     (let cs' = map rollUpRunNode cs in RunNode (foldl add_child_totals i cs') cs')"

text \<open>The code takes \<open>rows[0]\<close>: it is called with at least one row.\<close>

definition assembleRunTree ::
    "(uuid \<Rightarrow> string \<Rightarrow> uuid) \<Rightarrow> string \<Rightarrow> run_leaf_row list \<Rightarrow> bool \<Rightarrow> run_tree option" where
  "assembleRunTree newSHA1 traceID rows truncated =
     (case rows of
        [] \<Rightarrow> None
      | first # _ \<Rightarrow>
          let a = foldl (add_row newSHA1 traceID)
                    \<lparr>as_root = RunNode (root_info newSHA1 traceID first) [], as_nodes = [[]]\<rparr> rows;
              endedAt = foldl (\<lambda>e row. if e < lf_RespondedAt row then lf_RespondedAt row else e)
                          (lf_RespondedAt first) rows;
              root = rollUpRunNode (as_root a)
          in Some \<lparr>rt_TraceID = traceID, rt_Root = root, rt_TotalCost = rn_TotalCost (node_data root),
               rt_RequestCount = rn_RequestCount (node_data root), rt_StartedAt = lf_RequestedAt first,
               rt_EndedAt = endedAt, rt_Truncated = truncated\<rparr>)"

section \<open>The fetch\<close>

definition coalesce :: "'a option \<Rightarrow> 'a \<Rightarrow> 'a" where
  "coalesce x d = (case x of None \<Rightarrow> d | Some v \<Rightarrow> v)"

definition leaf_row :: "request_log \<Rightarrow> run_leaf_row" where
  "leaf_row l = \<lparr>lf_ID = lg_ID l, lf_SpanID = lg_SpanID l, lf_ParentSpanID = lg_ParentSpanID l,
     lf_SpanPath = coalesce (lg_SpanPath l) [], lf_SpanName = coalesce (lg_SpanName l) (lg_Model l),
     lf_Provider = lg_Provider l, lf_Model = lg_Model l, lf_RequestedAt = lg_RequestedAt l,
     lf_RespondedAt = lg_RespondedAt l, lf_ResponseTimeMs = lg_ResponseTimeMs l,
     lf_StatusCode = lg_StatusCode l, lf_TotalCost = lg_TotalCost l\<rparr>"

text \<open>\<open>GetRunTree\<close> reads one row more than the cap to see whether the run is larger. None as the result is
  the nil tree of a run without calls; the query fails when \<open>ok\<close> is false. Calls requested at the same
  instant come in the order of the table here.\<close>

definition GetRunTree ::
    "(uuid \<Rightarrow> string \<Rightarrow> uuid) \<Rightarrow> bool \<Rightarrow> request_log list \<Rightarrow> string \<Rightarrow> (unit + run_tree option)" where
  "GetRunTree newSHA1 ok table traceID =
     (if \<not> ok then Inl ()
      else let rows = map leaf_row (take (runTreeFetchCap + 1)
                 (sort_key lg_RequestedAt (filter (\<lambda>l. lg_TraceID l = Some traceID) table)))
        in if rows = [] then Inr None
           else if runTreeFetchCap < length rows
                then Inr (assembleRunTree newSHA1 traceID (take runTreeFetchCap rows) True)
                else Inr (assembleRunTree newSHA1 traceID rows False))"

section \<open>The shape of the tree\<close>

text \<open>The calls of a tree with the path they hang under, the paths of its interior nodes, in
  depth-first order.\<close>

fun calls :: "run_node \<Rightarrow> (string \<times> run_leaf_row) list" where
  "calls (RunNode i cs) = (case rn_Row i of None \<Rightarrow> [] | Some r \<Rightarrow> [(rn_Path i, r)]) @ concat (map calls cs)"

fun interior_paths :: "run_node \<Rightarrow> string list" where
  "interior_paths (RunNode i cs) = (if interior i then [rn_Path i] else []) @ concat (map interior_paths cs)"

text \<open>Before the roll-up a node counts itself: an interior node nothing, a call one and its cost.\<close>

definition self_totals :: "node_info \<Rightarrow> bool" where
  "self_totals i \<longleftrightarrow> (case rn_Row i of
       None \<Rightarrow> interior i \<and> rn_RequestCount i = 0 \<and> rn_TotalCost i = 0
     | Some r \<Rightarrow> \<not> interior i \<and> rn_RequestCount i = 1 \<and> rn_TotalCost i = lf_TotalCost r)"

fun fresh :: "run_node \<Rightarrow> bool" where
  "fresh (RunNode i cs) \<longleftrightarrow> self_totals i \<and> list_all fresh cs"

lemma append_child_absent:
  "p \<notin> set (interior_paths t) \<Longrightarrow> append_child p mk t = t"
proof (induction t)
  case (RunNode i cs)
  then show ?case by (auto split: if_splits intro!: map_idI)
qed

text \<open>A child is appended exactly once, below the one node with the path.\<close>

lemma append_child_mset:
  assumes "distinct (interior_paths t)" and "p \<in> set (interior_paths t)"
    and one: "\<And>i. interior i \<Longrightarrow> rn_Path i = p \<Longrightarrow> mset (f (mk i)) = new"
    and f: "\<And>i cs. f (RunNode i cs) = g i @ concat (map f cs)"
  shows "mset (f (append_child p mk t)) = mset (f t) + new"
  using assms(1,2)
proof (induction t)
  case (RunNode i cs)
  show ?case
  proof (cases "interior i \<and> rn_Path i = p")
    case True
    then show ?thesis using one by (simp add: f)
  next
    case False
    have "p \<in> set (concat (map interior_paths cs))" using RunNode.prems(2) False by (auto split: if_splits)
    then obtain xs c ys where cs: "cs = xs @ c # ys" and c: "p \<in> set (interior_paths c)"
      by (auto dest!: split_list)
    have d: "distinct (interior_paths c)" "\<forall>x \<in> set xs \<union> set ys. p \<notin> set (interior_paths x)"
      using RunNode.prems(1) c by (auto simp: cs split: if_splits)
    then have "map (append_child p mk) xs = xs" "map (append_child p mk) ys = ys"
      by (auto intro!: map_idI append_child_absent)
    then have "append_child p mk (RunNode i cs) = RunNode i (xs @ append_child p mk c # ys)"
      using False by (auto simp: cs)
    moreover have "mset (f (append_child p mk c)) = mset (f c) + new"
      using RunNode.IH [of c] d(1) c by (simp add: cs)
    ultimately show ?thesis by (simp add: f cs)
  qed
qed

lemma append_child_fresh:
  "fresh t \<Longrightarrow> (\<And>i. interior i \<Longrightarrow> rn_Path i = p \<Longrightarrow> fresh (mk i)) \<Longrightarrow> fresh (append_child p mk t)"
proof (induction t)
  case (RunNode i cs)
  then show ?case by (auto simp: list_all_iff)
qed

text \<open>A step extends its parent's path by its name, a call sits under the path of its parent.\<close>

definition child_ok :: "node_info \<Rightarrow> node_info \<Rightarrow> bool" where
  "child_ok i c \<longleftrightarrow> rn_ParentSpanID c = Some (rn_SpanID i) \<and>
     (if interior c then SplitPath (rn_Path c) = SplitPath (rn_Path i) @ [rn_Name c] else rn_Path c = rn_Path i)"

fun nested :: "run_node \<Rightarrow> bool" where
  "nested (RunNode i cs) \<longleftrightarrow> list_all (\<lambda>c. child_ok i (node_data c) \<and> nested c) cs"

lemma append_child_data [simp]: "node_data (append_child p mk t) = node_data t"
  by (cases t) simp

lemma append_child_nested:
  "nested t \<Longrightarrow> (\<And>i. interior i \<Longrightarrow> rn_Path i = p \<Longrightarrow> child_ok i (node_data (mk i)) \<and> nested (mk i)) \<Longrightarrow>
     nested (append_child p mk t)"
proof (induction t)
  case (RunNode i cs)
  then show ?case by (auto simp: list_all_iff)
qed

text \<open>The path a call hangs under: its canonical span path, cut at the depth limit.\<close>

definition call_path :: "run_leaf_row \<Rightarrow> string" where
  "call_path row = join_with pathSeparator (take maxSpanDepth (SplitPath (lf_SpanPath row)))"

definition prefix_path :: "string list \<Rightarrow> nat \<Rightarrow> string" where
  "prefix_path segs n = join_with pathSeparator (take n segs)"

lemma AncestorPaths_prefixes: "AncestorPaths p = map (\<lambda>i. prefix_path (SplitPath p) (Suc i)) [0..<length (SplitPath p)]"
  by (simp add: AncestorPaths_def Let_def prefix_path_def)

lemma SplitPath_prefix_path: "segments_ok segs \<Longrightarrow> SplitPath (prefix_path segs n) = take n segs"
  by (simp add: prefix_path_def SplitPath_join)

lemma take_AncestorPaths:
  "take m (AncestorPaths p) = map (\<lambda>i. prefix_path (SplitPath p) (Suc i)) [0..<min m (length (SplitPath p))]"
  by (simp add: AncestorPaths_prefixes take_map min_def)

definition path_ok :: "string \<Rightarrow> bool" where
  "path_ok p \<longleftrightarrow> CanonicalPath p = p \<and> length (SplitPath p) \<le> maxSpanDepth"

definition nodes_closed :: "string set \<Rightarrow> bool" where
  "nodes_closed N \<longleftrightarrow> [] \<in> N \<and> (\<forall>p \<in> N. path_ok p \<and> set (AncestorPaths p) \<subseteq> N)"

definition assembly_ok :: "assembly \<Rightarrow> bool" where
  "assembly_ok a \<longleftrightarrow> distinct (interior_paths (as_root a))
     \<and> set (as_nodes a) = set (interior_paths (as_root a)) \<and> fresh (as_root a) \<and> nested (as_root a)"

lemma step_info_fields [simp]:
  "interior (step_info h t q i)" "rn_Path (step_info h t q i) = q" "rn_Row (step_info h t q i) = None"
  "self_totals (step_info h t q i)"
  by (simp_all add: step_info_def interior_def RunNodeKindStep_def RunNodeKindLLM_def self_totals_def)

lemma leaf_info_fields [simp]:
  "\<not> interior (leaf_info row i)" "rn_Path (leaf_info row i) = rn_Path i" "rn_Row (leaf_info row i) = Some row"
  "self_totals (leaf_info row i)"
  by (simp_all add: leaf_info_def interior_def self_totals_def)

lemma child_ok_leaf: "child_ok i (leaf_info row i)"
  by (simp add: child_ok_def leaf_info_def interior_def)

lemma child_ok_step:
  "SplitPath q = SplitPath (rn_Path i) @ [s] \<Longrightarrow> child_ok i (step_info h t q i)"
  by (simp add: child_ok_def step_info_def interior_def RunNodeKindStep_def RunNodeKindLLM_def)

lemma ensure_prefix_ok:
  assumes "assembly_ok a" "parent \<in> set (as_nodes a)" "SplitPath q = SplitPath parent @ [s]"
    and "ensure_prefix h t (a, parent) q = (a', p')"
  shows "assembly_ok a' \<and> p' = q \<and> set (as_nodes a') = insert q (set (as_nodes a))
    \<and> mset (calls (as_root a')) = mset (calls (as_root a))"
proof (cases "q \<in> set (as_nodes a)")
  case True
  then show ?thesis using assms by (auto simp: ensure_prefix_def)
next
  case False
  let ?mk = "\<lambda>i. RunNode (step_info h t q i) []"
  let ?r = "append_child parent ?mk (as_root a)"
  have a': "a' = a\<lparr>as_root := ?r, as_nodes := q # as_nodes a\<rparr>" "p' = q"
    using assms(4) False by (auto simp: ensure_prefix_def)
  have d: "distinct (interior_paths (as_root a))" "parent \<in> set (interior_paths (as_root a))"
    using assms(1,2) by (auto simp: assembly_ok_def)
  have ip: "mset (interior_paths ?r) = mset (interior_paths (as_root a)) + {#q#}"
    by (rule append_child_mset [OF d, where g = "\<lambda>i. if interior i then [rn_Path i] else []"]) simp_all
  have cl: "mset (calls ?r) = mset (calls (as_root a)) + {#}"
    by (rule append_child_mset [OF d, where g = "\<lambda>i. case rn_Row i of None \<Rightarrow> [] | Some r \<Rightarrow> [(rn_Path i, r)]"]) simp_all
  have "distinct (interior_paths ?r)"
    using ip d(1) False assms(1) by (metis assembly_ok_def add_mset_add_single mset.simps(2) mset_eq_imp_distinct_iff distinct.simps(2))
  moreover have "set (interior_paths ?r) = insert q (set (interior_paths (as_root a)))"
    using arg_cong [OF ip, of set_mset] by simp
  moreover have "fresh ?r" using assms(1) by (intro append_child_fresh) (simp_all add: assembly_ok_def)
  moreover have "nested ?r" using assms(1,3) by (intro append_child_nested) (auto simp: assembly_ok_def child_ok_step)
  ultimately show ?thesis using a' cl assms(1) by (simp add: assembly_ok_def)
qed

lemma ensure_prefixes_ok:
  assumes "assembly_ok a" "[] \<in> set (as_nodes a)" "segments_ok segs" "m \<le> length segs"
  shows "\<exists>a'. foldl (ensure_prefix h t) (a, []) (map (\<lambda>i. prefix_path segs (Suc i)) [0..<m]) = (a', prefix_path segs m)
    \<and> assembly_ok a' \<and> set (as_nodes a') = set (as_nodes a) \<union> (\<lambda>i. prefix_path segs (Suc i)) ` {0..<m}
    \<and> mset (calls (as_root a')) = mset (calls (as_root a))"
  using assms(4)
proof (induction m)
  case 0
  then show ?case using assms by (simp add: prefix_path_def)
next
  case (Suc m)
  then obtain a1 where a1: "foldl (ensure_prefix h t) (a, []) (map (\<lambda>i. prefix_path segs (Suc i)) [0..<m]) = (a1, prefix_path segs m)"
    "assembly_ok a1" "set (as_nodes a1) = set (as_nodes a) \<union> (\<lambda>i. prefix_path segs (Suc i)) ` {0..<m}"
    "mset (calls (as_root a1)) = mset (calls (as_root a))" by auto
  have "prefix_path segs m \<in> set (as_nodes a1)"
    using a1(3) assms(2) by (cases m) (auto simp: prefix_path_def)
  moreover have "SplitPath (prefix_path segs (Suc m)) = SplitPath (prefix_path segs m) @ [segs ! m]"
    using assms(3) Suc.prems by (simp add: SplitPath_prefix_path take_Suc_conv_app_nth)
  moreover obtain a2 p2 where a2: "ensure_prefix h t (a1, prefix_path segs m) (prefix_path segs (Suc m)) = (a2, p2)"
    by fastforce
  ultimately have r: "assembly_ok a2 \<and> p2 = prefix_path segs (Suc m)
      \<and> set (as_nodes a2) = insert (prefix_path segs (Suc m)) (set (as_nodes a1))
      \<and> mset (calls (as_root a2)) = mset (calls (as_root a1))"
    using ensure_prefix_ok [OF a1(2)] by blast
  have "foldl (ensure_prefix h t) (a, []) (map (\<lambda>i. prefix_path segs (Suc i)) [0..<Suc m]) = (a2, prefix_path segs (Suc m))"
    using a1(1) a2 r by simp
  moreover have "set (as_nodes a2) = set (as_nodes a) \<union> (\<lambda>i. prefix_path segs (Suc i)) ` {0..<Suc m}"
    using r a1(3) by (auto simp: atLeast0_lessThan_Suc)
  ultimately show ?case using r a1(4) by metis
qed

lemma nodes_closedD: "nodes_closed N \<Longrightarrow> [] \<in> N" "nodes_closed N \<Longrightarrow> p \<in> N \<Longrightarrow> path_ok p \<and> set (AncestorPaths p) \<subseteq> N"
  by (auto simp: nodes_closed_def)

lemma prefix_path_ok:
  assumes "segments_ok segs" "n \<le> maxSpanDepth"
  shows "path_ok (prefix_path segs n)"
  using assms by (simp add: path_ok_def CanonicalPath_def SplitPath_prefix_path) (simp add: prefix_path_def)

lemma AncestorPaths_prefix_path:
  assumes "segments_ok segs" "n \<le> length segs"
  shows "set (AncestorPaths (prefix_path segs n)) = (\<lambda>i. prefix_path segs (Suc i)) ` {0..<n}"
proof -
  have "prefix_path (take n segs) (Suc i) = prefix_path segs (Suc i)" if "i < n" for i
    using that by (simp add: prefix_path_def min_def)
  then show ?thesis using assms by (auto simp: AncestorPaths_prefixes SplitPath_prefix_path min_def)
qed

lemma ensurePath_ok:
  assumes a: "assembly_ok a" "nodes_closed (set (as_nodes a))"
    and e: "ensurePath h t (CanonicalPath p) a = (a', q)"
  shows "q = prefix_path (SplitPath p) maxSpanDepth" and "assembly_ok a'"
    and "set (as_nodes a') = set (as_nodes a) \<union> set (take maxSpanDepth (AncestorPaths p))"
    and "mset (calls (as_root a')) = mset (calls (as_root a))" and "nodes_closed (set (as_nodes a'))"
    and "q \<in> set (as_nodes a')"
proof -
  let ?s = "SplitPath p" and ?m = "min maxSpanDepth (length (SplitPath p))"
  have anc: "AncestorPaths (CanonicalPath p) = AncestorPaths p"
    by (simp add: AncestorPaths_def SplitPath_Canonical)
  have m: "prefix_path ?s ?m = prefix_path ?s maxSpanDepth" by (simp add: prefix_path_def min_def)
  have "q = prefix_path ?s maxSpanDepth \<and> assembly_ok a'
    \<and> set (as_nodes a') = set (as_nodes a) \<union> set (take maxSpanDepth (AncestorPaths p))
    \<and> mset (calls (as_root a')) = mset (calls (as_root a)) \<and> nodes_closed (set (as_nodes a')) \<and> q \<in> set (as_nodes a')"
  proof (cases "CanonicalPath p \<in> set (as_nodes a)")
    case True
    then have c: "path_ok (CanonicalPath p)" "set (AncestorPaths p) \<subseteq> set (as_nodes a)"
      using a(2) anc unfolding nodes_closed_def by metis+
    from c(1) have "length ?s \<le> maxSpanDepth" by (simp add: path_ok_def SplitPath_Canonical)
    then have "prefix_path ?s maxSpanDepth = CanonicalPath p" by (simp add: prefix_path_def CanonicalPath_def)
    moreover have "set (as_nodes a) \<union> set (take maxSpanDepth (AncestorPaths p)) = set (as_nodes a)"
      using c(2) set_take_subset by fastforce
    ultimately show ?thesis using True e a by (simp add: ensurePath_def)
  next
    case False
    have "foldl (ensure_prefix h t) (a, []) (take maxSpanDepth (AncestorPaths p)) = (a', q)"
      using e False by (simp add: ensurePath_def anc)
    with ensure_prefixes_ok [OF a(1) nodes_closedD(1) [OF a(2)] SplitPath_ok, of ?m p h t]
    have r: "q = prefix_path ?s ?m" "assembly_ok a'" "mset (calls (as_root a')) = mset (calls (as_root a))"
      "set (as_nodes a') = set (as_nodes a) \<union> (\<lambda>i. prefix_path ?s (Suc i)) ` {0..<?m}"
      by (auto simp: take_AncestorPaths)
    have tk: "set (take maxSpanDepth (AncestorPaths p)) = (\<lambda>i. prefix_path ?s (Suc i)) ` {0..<?m}"
      by (simp add: take_AncestorPaths)
    have "path_ok x \<and> set (AncestorPaths x) \<subseteq> set (as_nodes a')" if "x \<in> set (as_nodes a')" for x
    proof (cases "x \<in> set (as_nodes a)")
      case True
      then show ?thesis using nodes_closedD(2) [OF a(2)] r(4) by blast
    next
      case False
      then have "x \<in> (\<lambda>i. prefix_path ?s (Suc i)) ` {0..<?m}" using that unfolding r(4) by blast
      then obtain i where i: "i < ?m" "x = prefix_path ?s (Suc i)" by auto
      then have "(\<lambda>i. prefix_path ?s (Suc i)) ` {0..<Suc i} \<subseteq> set (as_nodes a')" using r(4) by auto
      then show ?thesis using i prefix_path_ok [of ?s "Suc i"] AncestorPaths_prefix_path [of ?s "Suc i"] by simp
    qed
    then have "nodes_closed (set (as_nodes a'))" using nodes_closedD(1) [OF a(2)] r(4) by (auto simp: nodes_closed_def)
    moreover have "q \<in> set (as_nodes a')"
      using r(1,4) nodes_closedD(1) [OF a(2)] by (cases ?m) (auto simp: prefix_path_def)
    ultimately show ?thesis using r m tk by simp
  qed
  then show "q = prefix_path (SplitPath p) maxSpanDepth" "assembly_ok a'"
    "set (as_nodes a') = set (as_nodes a) \<union> set (take maxSpanDepth (AncestorPaths p))"
    "mset (calls (as_root a')) = mset (calls (as_root a))" "nodes_closed (set (as_nodes a'))" "q \<in> set (as_nodes a')"
    by blast+
qed

lemma add_row_ok:
  assumes a: "assembly_ok a" "nodes_closed (set (as_nodes a))"
  shows "assembly_ok (add_row h t a row)" and "nodes_closed (set (as_nodes (add_row h t a row)))"
    and "mset (calls (as_root (add_row h t a row))) = mset (calls (as_root a)) + {#(call_path row, row)#}"
    and "set (as_nodes (add_row h t a row)) = set (as_nodes a) \<union> set (take maxSpanDepth (AncestorPaths (lf_SpanPath row)))"
proof -
  obtain a1 q where e: "ensurePath h t (CanonicalPath (lf_SpanPath row)) a = (a1, q)" by fastforce
  note p = ensurePath_ok [OF a e]
  let ?mk = "\<lambda>i. RunNode (leaf_info row i) []"
  have r: "add_row h t a row = a1\<lparr>as_root := append_child q ?mk (as_root a1)\<rparr>" by (simp add: add_row_def e)
  have d: "distinct (interior_paths (as_root a1))" "q \<in> set (interior_paths (as_root a1))"
    using p(2,6) by (auto simp: assembly_ok_def)
  have ip: "mset (interior_paths (append_child q ?mk (as_root a1))) = mset (interior_paths (as_root a1)) + {#}"
    by (rule append_child_mset [OF d, where g = "\<lambda>i. if interior i then [rn_Path i] else []"]) simp_all
  have cl: "mset (calls (append_child q ?mk (as_root a1))) = mset (calls (as_root a1)) + {#(q, row)#}"
    by (rule append_child_mset [OF d, where g = "\<lambda>i. case rn_Row i of None \<Rightarrow> [] | Some r \<Rightarrow> [(rn_Path i, r)]"]) simp_all
  have "distinct (interior_paths (append_child q ?mk (as_root a1)))"
    using ip d(1) mset_eq_imp_distinct_iff by fastforce
  moreover have "set (interior_paths (append_child q ?mk (as_root a1))) = set (interior_paths (as_root a1))"
    using arg_cong [OF ip, of set_mset] by simp
  moreover have "fresh (append_child q ?mk (as_root a1))" using p(2) by (intro append_child_fresh) (simp_all add: assembly_ok_def)
  moreover have "nested (append_child q ?mk (as_root a1))"
    using p(2) by (intro append_child_nested) (simp_all add: assembly_ok_def child_ok_leaf)
  ultimately show "assembly_ok (add_row h t a row)" using p(2) by (simp add: r assembly_ok_def)
  show "nodes_closed (set (as_nodes (add_row h t a row)))" using p(5) by (simp add: r)
  show "mset (calls (as_root (add_row h t a row))) = mset (calls (as_root a)) + {#(call_path row, row)#}"
    using cl p(1,4) by (simp add: r call_path_def prefix_path_def)
  show "set (as_nodes (add_row h t a row)) = set (as_nodes a) \<union> set (take maxSpanDepth (AncestorPaths (lf_SpanPath row)))"
    using p(3) by (simp add: r)
qed

lemma add_rows_ok:
  "assembly_ok a \<Longrightarrow> nodes_closed (set (as_nodes a)) \<Longrightarrow>
     assembly_ok (foldl (add_row h t) a rows)
     \<and> mset (calls (as_root (foldl (add_row h t) a rows))) = mset (calls (as_root a)) + mset (map (\<lambda>r. (call_path r, r)) rows)
     \<and> set (as_nodes (foldl (add_row h t) a rows))
        = set (as_nodes a) \<union> (\<Union>r \<in> set rows. set (take maxSpanDepth (AncestorPaths (lf_SpanPath r))))"
proof (induction rows arbitrary: a)
  case (Cons r rows)
  note s = add_row_ok [OF Cons.prems, of h t r]
  from Cons.IH [OF s(1,2)] s(3,4) show ?case by auto
qed simp

section \<open>The roll-up\<close>

lemma rollUp_node [simp]:
  "rollUpRunNode (RunNode i cs)
     = RunNode (foldl add_child_totals i (map rollUpRunNode cs)) (map rollUpRunNode cs)"
  by (simp add: Let_def)

declare rollUpRunNode.simps [simp del]

lemma add_child_totals_frame [simp]:
  "rn_SpanID (foldl add_child_totals i cs) = rn_SpanID i" "rn_Path (foldl add_child_totals i cs) = rn_Path i"
  "rn_ParentSpanID (foldl add_child_totals i cs) = rn_ParentSpanID i" "rn_Name (foldl add_child_totals i cs) = rn_Name i"
  "rn_Kind (foldl add_child_totals i cs) = rn_Kind i" "rn_Row (foldl add_child_totals i cs) = rn_Row i"
  by (induction cs arbitrary: i) (simp_all add: add_child_totals_def)

lemma add_child_totals_count:
  "rn_RequestCount (foldl add_child_totals i cs) = rn_RequestCount i + (\<Sum>c \<leftarrow> cs. rn_RequestCount (node_data c))"
  by (induction cs arbitrary: i) (simp_all add: add_child_totals_def)

lemma interior_totals [simp]: "interior (foldl add_child_totals i cs) = interior i"
  by (simp add: interior_def)

lemma rollUp_calls: "calls (rollUpRunNode t) = calls t"
proof (induction t)
  case (RunNode i cs)
  then have "map (\<lambda>c. calls (rollUpRunNode c)) cs = map calls cs" by simp
  then have "concat (map (\<lambda>c. calls (rollUpRunNode c)) cs) = concat (map calls cs)" by (rule arg_cong)
  then show ?case by (simp only: rollUp_node calls.simps map_map comp_def add_child_totals_frame)
qed

lemma rollUp_paths: "interior_paths (rollUpRunNode t) = interior_paths t"
proof (induction t)
  case (RunNode i cs)
  then have "map (\<lambda>c. interior_paths (rollUpRunNode c)) cs = map interior_paths cs" by simp
  then have "concat (map (\<lambda>c. interior_paths (rollUpRunNode c)) cs) = concat (map interior_paths cs)" by (rule arg_cong)
  then show ?case by (simp only: rollUp_node interior_paths.simps map_map comp_def add_child_totals_frame interior_totals)
qed

lemma node_data_rollUp: "child_ok i (node_data (rollUpRunNode c)) = child_ok i (node_data c)"
  by (cases c) (simp add: child_ok_def)

lemma child_ok_parent: "rn_SpanID i = rn_SpanID j \<Longrightarrow> rn_Path i = rn_Path j \<Longrightarrow> child_ok i c = child_ok j c"
  by (simp add: child_ok_def)

lemma rollUp_nested: "nested t \<Longrightarrow> nested (rollUpRunNode t)"
proof (induction t)
  case (RunNode i cs)
  then show ?case
    using child_ok_parent [of "foldl add_child_totals i (map rollUpRunNode cs)" i]
    by (auto simp: list_all_iff node_data_rollUp)
qed

lemma rollUp_count: "fresh t \<Longrightarrow> rn_RequestCount (node_data (rollUpRunNode t)) = int (length (calls t))"
proof (induction t)
  case (RunNode i cs)
  have "(\<Sum>c \<leftarrow> map rollUpRunNode cs. rn_RequestCount (node_data c)) = (\<Sum>c \<leftarrow> cs. int (length (calls c)))"
    using RunNode by (auto simp: list_all_iff comp_def intro!: arg_cong [of _ _ sum_list])
  moreover have "(\<Sum>c \<leftarrow> cs. int (length (calls c))) = int (length (concat (map calls cs)))"
    by (induction cs) simp_all
  ultimately show ?case using RunNode.prems
    by (auto simp: add_child_totals_count self_totals_def split: option.splits)
qed

text \<open>With costs that are not negative, a node's rolled-up cost is at least that of each call below it.\<close>

lemma add_child_totals_cost:
  "\<forall>c \<in> set cs. 0 \<le> rn_TotalCost (node_data c) \<Longrightarrow> 0 \<le> rn_TotalCost i \<Longrightarrow>
     0 \<le> rn_TotalCost (foldl add_child_totals i cs) \<and> rn_TotalCost i \<le> rn_TotalCost (foldl add_child_totals i cs)
     \<and> (\<forall>c \<in> set cs. rn_TotalCost (node_data c) \<le> rn_TotalCost (foldl add_child_totals i cs))"
proof (induction cs arbitrary: i)
  case (Cons c cs)
  let ?i = "add_child_totals i c"
  have c: "0 \<le> rn_TotalCost (node_data c)" using Cons.prems(1) by simp
  then have t: "rn_TotalCost i \<le> rn_TotalCost ?i" "rn_TotalCost (node_data c) \<le> rn_TotalCost ?i" "0 \<le> rn_TotalCost ?i"
    using Cons.prems(2) by (simp_all add: add_child_totals_def f64_arith)
  from Cons.IH [of ?i] Cons.prems(1) t show ?case by (auto intro: order_trans)
qed simp

lemma rollUp_cost:
  assumes "fresh t" "\<forall>(p, r) \<in> set (calls t). 0 \<le> lf_TotalCost r"
  shows "0 \<le> rn_TotalCost (node_data (rollUpRunNode t))
    \<and> (\<forall>(p, r) \<in> set (calls t). lf_TotalCost r \<le> rn_TotalCost (node_data (rollUpRunNode t)))"
  using assms
proof (induction t)
  case (RunNode i cs)
  have self: "0 \<le> rn_TotalCost i" "rn_Row i = Some r \<Longrightarrow> rn_TotalCost i = lf_TotalCost r" for r
    using RunNode.prems by (auto simp: self_totals_def split: option.splits)
  have ch: "0 \<le> rn_TotalCost (node_data (rollUpRunNode c))
      \<and> (\<forall>(p, r) \<in> set (calls c). lf_TotalCost r \<le> rn_TotalCost (node_data (rollUpRunNode c)))" if "c \<in> set cs" for c
    using RunNode.IH [OF that] RunNode.prems that by (fastforce simp: list_all_iff)
  let ?t = "rn_TotalCost (node_data (rollUpRunNode (RunNode i cs)))"
  have top: "0 \<le> ?t" "rn_TotalCost i \<le> ?t" "c \<in> set cs \<Longrightarrow> rn_TotalCost (node_data (rollUpRunNode c)) \<le> ?t" for c
    using add_child_totals_cost [of "map rollUpRunNode cs" i] self(1) ch by simp_all
  have "lf_TotalCost r \<le> ?t" if m: "(p, r) \<in> set (calls (RunNode i cs))" for p r
  proof (cases "rn_Row i = Some r")
    case True
    then show ?thesis using self(2) top(2) by simp
  next
    case False
    then obtain c where "c \<in> set cs" "(p, r) \<in> set (calls c)"
      using m by (cases "rn_Row i") auto
    then show ?thesis using ch top(3) by (fastforce intro: order_trans)
  qed
  with top(1) show ?case by blast
qed

section \<open>The assembled run\<close>

lemma start_assembly:
  "assembly_ok \<lparr>as_root = RunNode (root_info h t row) [], as_nodes = [[]]\<rparr>" "nodes_closed (set [[]])"
  "calls (RunNode (root_info h t row) []) = []"
  by (simp_all add: assembly_ok_def root_info_def interior_def RunNodeKindRun_def RunNodeKindLLM_def self_totals_def
      nodes_closed_def path_ok_def CanonicalPath_def SplitPath_def AncestorPaths_def)

lemma ended_at_bounds:
  "e \<le> foldl (\<lambda>e row. if e < lf_RespondedAt row then lf_RespondedAt row else e) e rows
   \<and> (\<forall>r \<in> set rows. lf_RespondedAt r \<le> foldl (\<lambda>e row. if e < lf_RespondedAt row then lf_RespondedAt row else e) e rows)"
proof (induction rows arbitrary: e)
  case (Cons r rows)
  show ?case using Cons.IH [of "if e < lf_RespondedAt r then lf_RespondedAt r else e"] by auto
qed simp

lemma assembleRunTree_Cons:
  "assembleRunTree h t (first # rest) trunc = Some tree \<Longrightarrow>
     rt_TotalCost tree = rn_TotalCost (node_data (rt_Root tree)) \<and> rt_StartedAt tree = lf_RequestedAt first
     \<and> rt_EndedAt tree = foldl (\<lambda>e row. if e < lf_RespondedAt row then lf_RespondedAt row else e)
          (lf_RespondedAt first) (first # rest)"
  by (drule sym) (simp only: assembleRunTree_def Let_def list.case option.inject run_tree.simps simp_thms)

lemma assembled:
  assumes "assembleRunTree h t rows trunc = Some tree"
  obtains a first rest where "rows = first # rest" "assembly_ok a" "rt_Root tree = rollUpRunNode (as_root a)"
    "mset (calls (as_root a)) = mset (map (\<lambda>r. (call_path r, r)) rows)"
    "set (as_nodes a) = insert [] (\<Union>r \<in> set rows. set (take maxSpanDepth (AncestorPaths (lf_SpanPath r))))"
proof -
  obtain first rest where r: "rows = first # rest" using assms by (cases rows) (auto simp: assembleRunTree_def)
  let ?a0 = "\<lparr>as_root = RunNode (root_info h t first) [], as_nodes = [[]]\<rparr>"
  let ?a = "foldl (add_row h t) ?a0 rows"
  have "rt_Root tree = rollUpRunNode (as_root ?a)" using assms r by (auto simp: assembleRunTree_def Let_def)
  moreover have "assembly_ok ?a \<and> mset (calls (as_root ?a)) = mset (map (\<lambda>r. (call_path r, r)) rows)
      \<and> set (as_nodes ?a) = insert [] (\<Union>r \<in> set rows. set (take maxSpanDepth (AncestorPaths (lf_SpanPath r))))"
    using add_rows_ok [OF start_assembly(1) [of h t first], of h t rows] start_assembly(2) start_assembly(3) [of h t first]
    by (simp del: calls.simps)
  ultimately show thesis using that [OF r, of ?a] by blast
qed

lemma run_tree_complete_facts:
  assumes "assembleRunTree newSHA1 traceID rows truncated = Some tree"
  shows "mset (calls (rt_Root tree)) = mset (map (\<lambda>r. (call_path r, r)) rows)"
    and "distinct (interior_paths (rt_Root tree))"
    and "set (interior_paths (rt_Root tree))
      = insert [] (\<Union>r \<in> set rows. set (take maxSpanDepth (AncestorPaths (lf_SpanPath r))))"
    and "nested (rt_Root tree)"
    and "rt_RequestCount tree = int (length rows)"
proof -
  obtain a where a: "assembly_ok a" "rt_Root tree = rollUpRunNode (as_root a)"
    "mset (calls (as_root a)) = mset (map (\<lambda>r. (call_path r, r)) rows)"
    "set (as_nodes a) = insert [] (\<Union>r \<in> set rows. set (take maxSpanDepth (AncestorPaths (lf_SpanPath r))))"
    by (rule assembled [OF assms])
  show "mset (calls (rt_Root tree)) = mset (map (\<lambda>r. (call_path r, r)) rows)" using a by (simp add: rollUp_calls)
  show "distinct (interior_paths (rt_Root tree))" using a by (simp add: rollUp_paths assembly_ok_def)
  show "set (interior_paths (rt_Root tree))
      = insert [] (\<Union>r \<in> set rows. set (take maxSpanDepth (AncestorPaths (lf_SpanPath r))))"
    using a by (simp add: rollUp_paths assembly_ok_def)
  show "nested (rt_Root tree)" using a by (simp add: rollUp_nested assembly_ok_def)
  have calls_length: "length (calls (as_root a)) = length rows" using a(3) by (metis length_map size_mset)
  have "rt_RequestCount tree = rn_RequestCount (node_data (rt_Root tree))"
    using assms by (auto simp: assembleRunTree_def Let_def split: list.splits)
  then show "rt_RequestCount tree = int (length rows)"
    using a(1,2) rollUp_count [of "as_root a"] calls_length by (simp add: assembly_ok_def)
qed


lemma run_tree_totals_facts:
  assumes "assembleRunTree newSHA1 traceID rows truncated = Some tree" and "\<forall>r \<in> set rows. 0 \<le> lf_TotalCost r"
  shows "r \<in> set rows \<Longrightarrow> lf_TotalCost r \<le> rt_TotalCost tree"
    and "r \<in> set rows \<Longrightarrow> lf_RespondedAt r \<le> rt_EndedAt tree"
    and "0 \<le> rt_TotalCost tree" and "rt_StartedAt tree = lf_RequestedAt (hd rows)"
proof -
  obtain a first rest where rows: "rows = first # rest" and a: "assembly_ok a" "rt_Root tree = rollUpRunNode (as_root a)"
    "mset (calls (as_root a)) = mset (map (\<lambda>r. (call_path r, r)) rows)"
    by (rule assembled [OF assms(1)])
  have set: "set (calls (as_root a)) = (\<lambda>r. (call_path r, r)) ` set rows"
    using arg_cong [OF a(3), of set_mset] by simp
  have t: "rt_TotalCost tree = rn_TotalCost (node_data (rt_Root tree))" "rt_StartedAt tree = lf_RequestedAt first"
    "rt_EndedAt tree = foldl (\<lambda>e row. if e < lf_RespondedAt row then lf_RespondedAt row else e) (lf_RespondedAt first) rows"
    using assembleRunTree_Cons [OF assms(1) [unfolded rows]] by (simp_all only: rows)
  have "fresh (as_root a)" using a(1) by (simp add: assembly_ok_def)
  moreover have "\<forall>(p, r) \<in> set (calls (as_root a)). 0 \<le> lf_TotalCost r" unfolding set using assms(2) by simp
  ultimately have c: "0 \<le> rt_TotalCost tree" "\<forall>(p, r) \<in> set (calls (as_root a)). lf_TotalCost r \<le> rt_TotalCost tree"
    using rollUp_cost [of "as_root a"] unfolding t(1) a(2) by blast+
  show "0 \<le> rt_TotalCost tree" by (rule c(1))
  show "r \<in> set rows \<Longrightarrow> lf_TotalCost r \<le> rt_TotalCost tree" using c(2) unfolding set by simp
  show "r \<in> set rows \<Longrightarrow> lf_RespondedAt r \<le> rt_EndedAt tree" unfolding t(3) using ended_at_bounds by blast
  show "rt_StartedAt tree = lf_RequestedAt (hd rows)" using t(2) rows by simp
qed

text \<open>C23. The totals of a run. With costs that are not negative the run's cost is at least the cost of every
  call in it, and the run ends no earlier than any of its calls responded.\<close>

theorem run_tree_totals:
  assumes "assembleRunTree newSHA1 traceID rows truncated = Some tree" and "\<forall>r \<in> set rows. 0 \<le> lf_TotalCost r"
  shows "(r \<in> set rows \<longrightarrow> lf_TotalCost r \<le> rt_TotalCost tree)
    \<and> (r \<in> set rows \<longrightarrow> lf_RespondedAt r \<le> rt_EndedAt tree)
    \<and> (0 \<le> rt_TotalCost tree)
    \<and> (rt_StartedAt tree = lf_RequestedAt (hd rows))"
  by (intro conjI impI run_tree_totals_facts [OF assms]; assumption?)

definition example_row :: "uuid \<Rightarrow> string \<Rightarrow> run_leaf_row" where
  "example_row i path = \<lparr>lf_ID = i, lf_SpanID = Some i, lf_ParentSpanID = None, lf_SpanPath = path, lf_SpanName = ''m'',
     lf_Provider = ''openai'', lf_Model = ''m'', lf_RequestedAt = 1, lf_RespondedAt = 2, lf_ResponseTimeMs = 1,
     lf_StatusCode = 200, lf_TotalCost = 1\<rparr>"

definition example_rows :: "run_leaf_row list" where
  "example_rows = [example_row 1 ''a/b'', example_row 2 ''a//c'', example_row 3 []]"

definition example_tree :: run_tree where
  "example_tree = the (assembleRunTree (\<lambda>_ _. 0) ''t'' example_rows False)"

lemma example_tree: "assembleRunTree (\<lambda>_ _. 0) ''t'' example_rows False = Some example_tree"
  by (simp add: example_tree_def assembleRunTree_def example_rows_def Let_def)


theorem run_tree_totals_witness: "(1 :: f64) \<le> rt_TotalCost example_tree \<and> 2 \<le> rt_EndedAt example_tree"
proof -
  have "\<forall>r \<in> set example_rows. 0 \<le> lf_TotalCost r"
    by (simp add: example_rows_def example_row_def less_eq_f64.rep_eq zero_f64.rep_eq one_f64.rep_eq)
  from run_tree_totals [OF example_tree this, of "example_row 1 ''a/b''"] show ?thesis
    by (simp add: example_rows_def example_row_def)
qed

end
