(* ===== verification/Go_Time.thy ===== *)
theory Go_Time
  imports Models
begin

text \<open>
  The parts of package \<open>time\<close> the gateway uses: the calendar, the date layouts \<open>2006-01-02\<close> and
  \<open>2006/01/02\<close>, parsing of \<open>2006-01-02\<close> and of RFC 3339, and truncation to a day. An instant is the
  number of nanoseconds since 1970-01-01 UTC.
\<close>

section \<open>The calendar\<close>

abbreviation (input) day :: duration where "day \<equiv> 24 * (60 * minute)"

definition leap :: "int \<Rightarrow> bool" where
  "leap y \<longleftrightarrow> y mod 4 = 0 \<and> (y mod 100 \<noteq> 0 \<or> y mod 400 = 0)"

text \<open>Days from the start of year 1 to the start of year \<open>y\<close>.\<close>

definition days_before_year :: "int \<Rightarrow> int" where
  "days_before_year y = 365 * (y - 1) + (y - 1) div 4 - (y - 1) div 100 + (y - 1) div 400"

definition epoch_days :: int where "epoch_days = 719162"

fun days_in_month :: "int \<Rightarrow> nat \<Rightarrow> int" where
  "days_in_month y m = (if m = 2 then (if leap y then 29 else 28) else if m \<in> {4, 6, 9, 11} then 30 else 31)"

definition days_before_month :: "int \<Rightarrow> nat \<Rightarrow> int" where
  "days_before_month y m = (\<Sum>i \<leftarrow> [1..<m]. days_in_month y i)"

definition days_of_date :: "int \<Rightarrow> nat \<Rightarrow> int \<Rightarrow> int" where
  "days_of_date y m d = days_before_year y + days_before_month y m + (d - 1) - epoch_days"

definition year_of_days :: "int \<Rightarrow> int" where
  "year_of_days n =
     (let g = 400 * n div 146097
      in if days_before_year (g + 2) \<le> n then g + 2 else if days_before_year (g + 1) \<le> n then g + 1 else g)"

definition month_of_days :: "int \<Rightarrow> int \<Rightarrow> nat" where
  "month_of_days y k = hd (filter (\<lambda>m. days_before_month y m \<le> k) (rev [1..<13]))"

definition date_of_days :: "int \<Rightarrow> int \<times> nat \<times> int" where
  "date_of_days n =
     (let N = n + epoch_days; y = year_of_days N; k = N - days_before_year y; m = month_of_days y k
      in (y, m, k - days_before_month y m + 1))"

definition valid_date :: "int \<Rightarrow> nat \<Rightarrow> int \<Rightarrow> bool" where
  "valid_date y m d \<longleftrightarrow> 1 \<le> m \<and> m \<le> 12 \<and> 1 \<le> d \<and> d \<le> days_in_month y m"

subsection \<open>The calendar is consistent\<close>

lemma year_length: "days_before_year (y + 1) = days_before_year y + (if leap y then 366 else 365)"
proof -
  have step: "y div k = (y - 1) div k + (if y mod k = 0 then 1 else 0)" if k: "0 < k" for k :: int
  proof -
    obtain q r where qr: "y div k = q" "y mod k = r" by blast
    then have y: "y = k * q + r" "0 \<le> r" "r < k" using k by auto
    have "(y - 1) div k = (if r = 0 then q - 1 else q)"
    proof (cases "r = 0")
      case True
      have "(y - 1) div k = q - 1"
        by (rule int_div_pos_eq [where r = "k - 1"]) (use k y(1) True in \<open>simp_all add: right_diff_distrib\<close>)
      then show ?thesis using True by simp
    next
      case False
      have "(y - 1) div k = q"
        by (rule int_div_pos_eq [where r = "r - 1"]) (use y False in simp_all)
      then show ?thesis using False by simp
    qed
    with qr show ?thesis by simp
  qed
  have i: "y mod 400 = 0 \<Longrightarrow> y mod 100 = 0" "y mod 100 = 0 \<Longrightarrow> y mod 4 = 0"
    using mod_mod_cancel [of 100 400 y] mod_mod_cancel [of 4 100 y] by auto
  define a b c where abc: "a = (y mod 4 = 0)" "b = (y mod 100 = 0)" "c = (y mod 400 = 0)"
  have l: "leap y = (a \<and> (\<not> b \<or> c))" "c \<longrightarrow> b" "b \<longrightarrow> a" using i by (auto simp: leap_def abc)
  have "days_before_year (y + 1) = days_before_year y + 365 + (if a then 1 else 0) - (if b then 1 else 0) + (if c then 1 else 0)"
  proof -
    have e: "y div 4 = (y - 1) div 4 + (if a then 1 else 0)" "y div 100 = (y - 1) div 100 + (if b then 1 else 0)"
      "y div 400 = (y - 1) div 400 + (if c then 1 else 0)"
      unfolding abc by (rule step, simp)+
    have y: "y + 1 - 1 = y" by simp
    show ?thesis unfolding days_before_year_def y e by simp
  qed
  then show ?thesis using l by (cases a; cases b; cases c) simp_all
qed

lemma year_bounds:
  "- 800 < 400 * days_before_year y - 146097 * (y - 1)" "400 * days_before_year y - 146097 * (y - 1) < 800"
proof -
  have b: "400 * (365 * x + a - b + c) - 146097 * x < 800 \<and> - 800 < 400 * (365 * x + a - b + c) - 146097 * x"
    if "4 * a \<le> x" "x < 4 * a + 4" "100 * b \<le> x" "x < 100 * b + 100" "400 * c \<le> x" "x < 400 * c + 400"
    for x a b c :: int
    using that by (simp add: algebra_simps)
  have "4 * ((y - 1) div 4) \<le> y - 1" "y - 1 < 4 * ((y - 1) div 4) + 4" "100 * ((y - 1) div 100) \<le> y - 1"
    "y - 1 < 100 * ((y - 1) div 100) + 100" "400 * ((y - 1) div 400) \<le> y - 1"
    "y - 1 < 400 * ((y - 1) div 400) + 400" by linarith+
  from b [OF this] show "- 800 < 400 * days_before_year y - 146097 * (y - 1)"
    "400 * days_before_year y - 146097 * (y - 1) < 800"
    unfolding days_before_year_def by blast+
qed

lemma year_mono_nat: "days_before_year (y + 1) \<le> days_before_year (y + 1 + int n)"
proof (induction n)
  case (Suc n)
  then show ?case using year_length [of "y + 1 + int n"] by (simp add: ac_simps split: if_splits)
qed simp

lemma year_mono: "y < z \<Longrightarrow> days_before_year (y + 1) \<le> days_before_year z"
  using year_mono_nat [of y "nat (z - y - 1)"] by simp

lemma year_of_days_eq:
  assumes "days_before_year y \<le> n" "n < days_before_year (y + 1)"
  shows "year_of_days n = y"
proof -
  let ?g = "400 * n div 146097"
  have g: "146097 * ?g \<le> 400 * n" "400 * n < 146097 * ?g + 146097" by linarith+
  have le: "g \<le> y" if "146097 * g \<le> 400 * n" "n < b" "400 * b - 146097 * y < 800" for g b :: int
    using that by linarith
  have ge: "y \<le> g + 2" if "400 * n < 146097 * g + 146097" "b \<le> n" "- 800 < 400 * b - 146097 * (y - 1)" for g b :: int
    using that by (simp add: algebra_simps)
  have "?g \<le> y" using le [OF g(1) assms(2)] year_bounds(2) [of "y + 1"] by simp
  moreover have "y \<le> ?g + 2" by (rule ge [OF g(2) assms(1) year_bounds(1)])
  moreover have "days_before_year z \<le> n \<longleftrightarrow> z \<le> y" for z
    using year_mono [of y z] year_mono [of z y] year_length [of z] assms by (cases "z \<le> y"; cases "z = y") (auto split: if_splits)
  ultimately show ?thesis unfolding year_of_days_def Let_def by auto
qed

lemma month_numbers: "1 \<le> m \<Longrightarrow> m \<le> 12 \<Longrightarrow> m \<in> {1, 2, 3, 4, 5, 6, 7, 8, 9, 10, 11, 12 :: nat}"
proof -
  assume "1 \<le> m" "m \<le> 12"
  then have "m \<in> set [1..<13]" by simp
  moreover have "[1..<13] = [1, 2, 3, 4, 5, 6, 7, 8, 9, 10, 11, 12 :: nat]" by (simp add: upt_rec)
  ultimately show ?thesis by (simp only: list.set)
qed

lemma days_before_month_table:
  "days_before_month y 1 = 0" "days_before_month y 2 = 31" "days_before_month y 3 = (if leap y then 60 else 59)"
  "days_before_month y 4 = (if leap y then 91 else 90)" "days_before_month y 5 = (if leap y then 121 else 120)"
  "days_before_month y 6 = (if leap y then 152 else 151)" "days_before_month y 7 = (if leap y then 182 else 181)"
  "days_before_month y 8 = (if leap y then 213 else 212)" "days_before_month y 9 = (if leap y then 244 else 243)"
  "days_before_month y 10 = (if leap y then 274 else 273)" "days_before_month y 11 = (if leap y then 305 else 304)"
  "days_before_month y 12 = (if leap y then 335 else 334)"
  by (simp_all add: days_before_month_def upt_rec)

lemma days_before_month_Suc: "1 \<le> m \<Longrightarrow> days_before_month y (Suc m) = days_before_month y m + days_in_month y m"
  by (simp add: days_before_month_def)

lemma days_before_month_mono: "1 \<le> m \<Longrightarrow> days_before_month y m \<le> days_before_month y (m + n)"
proof (induction n)
  case (Suc n)
  then show ?case using days_before_month_Suc [of "m + n" y] by (simp split: if_splits)
qed simp

lemma month_of_days_eq:
  assumes "valid_date y m d"
  shows "month_of_days y (days_before_month y m + (d - 1)) = m"
proof -
  let ?k = "days_before_month y m + (d - 1)"
  have m: "1 \<le> m" "m \<le> 12" and d: "1 \<le> d" "d \<le> days_in_month y m" using assms by (simp_all add: valid_date_def)
  have "(days_before_month y n \<le> ?k) = (n \<le> m)" if "1 \<le> n" for n
  proof (cases "n \<le> m")
    case True
    then show ?thesis using days_before_month_mono [OF that, of y "m - n"] d by simp
  next
    case False
    then have "days_before_month y (Suc m) \<le> days_before_month y n"
      using days_before_month_mono [of "Suc m" y "n - Suc m"] by simp
    then show ?thesis using False days_before_month_Suc [OF m(1), of y] d by linarith
  qed
  then have f: "filter (\<lambda>n. days_before_month y n \<le> ?k) (rev [1..<13]) = filter (\<lambda>n. n \<le> m) (rev [1..<13])"
    by (intro filter_cong) auto
  have "[1..<13] = [1..<m] @ m # [Suc m..<13]"
  proof -
    have "[1..<13] = [1..<m] @ [m..<13]" using m upt_add_eq_append [of 1 m "13 - m"] by simp
    then show ?thesis using m upt_conv_Cons [of m 13] by simp
  qed
  then have "filter (\<lambda>n. n \<le> m) (rev [1..<13]) = m # filter (\<lambda>n. n \<le> m) (rev [1..<m])"
    by (simp add: filter_empty_conv)
  then show ?thesis unfolding month_of_days_def f by simp
qed

lemma date_in_year:
  assumes "valid_date y m d"
  shows "0 \<le> days_before_month y m + (d - 1)" and "days_before_month y m + (d - 1) < (if leap y then 366 else 365)"
proof -
  have m: "m \<in> {1, 2, 3, 4, 5, 6, 7, 8, 9, 10, 11, 12}"
    by (rule month_numbers) (use assms in \<open>simp_all add: valid_date_def\<close>)
  have d: "1 \<le> d" "d \<le> days_in_month y m" using assms by (simp_all add: valid_date_def)
  from m d show "0 \<le> days_before_month y m + (d - 1)" "days_before_month y m + (d - 1) < (if leap y then 366 else 365)"
    by (auto simp: days_before_month_table days_before_month_table(1) [simplified] split: if_splits)
qed

lemma date_roundtrip: "valid_date y m d \<Longrightarrow> date_of_days (days_of_date y m d) = (y, m, d)"
proof -
  assume v: "valid_date y m d"
  let ?k = "days_before_month y m + (d - 1)"
  have n: "days_of_date y m d + epoch_days = days_before_year y + ?k" by (simp add: days_of_date_def)
  have "year_of_days (days_before_year y + ?k) = y"
    using date_in_year [OF v] year_length [of y] by (intro year_of_days_eq) auto
  then show ?thesis
    using month_of_days_eq [OF v] unfolding date_of_days_def n Let_def by simp
qed

section \<open>Formatting and parsing\<close>

definition pad2 :: "nat \<Rightarrow> string" where
  "pad2 n = (if n < 10 then ''0'' @ dec_of_nat n else dec_of_nat n)"

definition pad4 :: "int \<Rightarrow> string" where
  "pad4 y = (let s = dec_of_nat (nat y) in replicate (4 - length s) (CHR ''0'') @ s)"

text \<open>\<open>t.UTC().Format("2006-01-02")\<close> and \<open>t.UTC().Format("2006/01/02")\<close>, for the years 0 to 9999.\<close>

definition day_number :: "instant \<Rightarrow> int" where
  "day_number t = t div day"

definition format_date :: "char \<Rightarrow> instant \<Rightarrow> string" where
  "format_date sep t =
     (case date_of_days (day_number t) of
        (y, m, d) \<Rightarrow> pad4 y @ sep # pad2 m @ sep # pad2 (nat d))"

text \<open>\<open>t.Truncate(24 * time.Hour)\<close>.\<close>

definition truncate_day :: "instant \<Rightarrow> instant" where
  "truncate_day t = day_number t * day"

definition all_digits :: "string \<Rightarrow> bool" where
  "all_digits s \<longleftrightarrow> s \<noteq> [] \<and> (\<forall>c \<in> set s. is_digit c)"

text \<open>Exactly \<open>n\<close> digits at the head of the text; the value and the rest.\<close>

definition take_digits :: "nat \<Rightarrow> string \<Rightarrow> (nat \<times> string) option" where
  "take_digits n s =
     (if n \<le> length s \<and> all_digits (take n s) then Some (nat_of_dec (take n s), drop n s) else None)"

text \<open>\<open>getnum\<close> without a fixed width: one digit, or two when a second follows.\<close>

definition take_1_2_digits :: "string \<Rightarrow> (nat \<times> string) option" where
  "take_1_2_digits s = (case take_digits 2 s of None \<Rightarrow> take_digits 1 s | r \<Rightarrow> r)"

fun expect :: "char \<Rightarrow> string \<Rightarrow> string option" where
  "expect c [] = None"
| "expect c (x # s) = (if x = c then Some s else None)"

text \<open>The date part: year, month and day, checked against the calendar at the end of the whole parse.\<close>

definition parse_ymd :: "string \<Rightarrow> ((int \<times> nat \<times> int) \<times> string) option" where
  "parse_ymd s =
     Option.bind (take_digits 4 s) (\<lambda>(y, s).
     Option.bind (expect CHR ''-'' s) (\<lambda>s.
     Option.bind (take_digits 2 s) (\<lambda>(m, s).
     Option.bind (expect CHR ''-'' s) (\<lambda>s.
     Option.bind (take_digits 2 s) (\<lambda>(d, s).
       if 1 \<le> m \<and> m \<le> 12 then Some ((int y, m, int d), s) else None)))))"

definition parse_day :: "string \<Rightarrow> instant option" where
  "parse_day s =
     (case parse_ymd s of
        Some ((y, m, d), []) \<Rightarrow> if valid_date y m d then Some (days_of_date y m d * day) else None
      | _ \<Rightarrow> None)"

text \<open>A fraction of a second after a dot or a comma: nine digits count.\<close>

definition parse_fraction :: "string \<Rightarrow> nat \<times> string" where
  "parse_fraction s =
     (case s of
        p # c # _ \<Rightarrow>
          if p \<in> {CHR ''.'', CHR '',''} \<and> is_digit c then
            (let ds = takeWhile is_digit (tl s)
             in (nat_of_dec (take 9 (ds @ replicate 9 (CHR ''0''))), drop (length ds) (tl s)))
          else (0, s)
      | _ \<Rightarrow> (0, s))"

text \<open>The zone: Z, or an offset; the comparison of the offset is lenient as in package time.\<close>

definition parse_zone :: "string \<Rightarrow> (int \<times> string) option" where
  "parse_zone s =
     (case s of
        [] \<Rightarrow> None
      | z # r \<Rightarrow>
          if z = CHR ''Z'' then Some (0, r)
          else
            Option.bind (if z = CHR ''+'' then Some 1 else if z = CHR ''-'' then Some (- 1) else None) (\<lambda>sign.
            Option.bind (take_digits 2 r) (\<lambda>(h, r).
            Option.bind (expect CHR '':'' r) (\<lambda>r.
            Option.bind (take_digits 2 r) (\<lambda>(m, r).
              if h \<le> 24 \<and> m \<le> 60 then Some (sign * (int h * 60 + int m) * minute, r) else None)))))"

text \<open>\<open>time.Parse(time.RFC3339, s)\<close>: the instant, and the offset of the zone it was written in.\<close>

definition parse_rfc3339_zone :: "string \<Rightarrow> (instant \<times> duration) option" where
  "parse_rfc3339_zone s =
     Option.bind (parse_ymd s) (\<lambda>((y, mo, d), s).
     Option.bind (expect CHR ''T'' s) (\<lambda>s.
     Option.bind (take_1_2_digits s) (\<lambda>(h, s).
     Option.bind (expect CHR '':'' s) (\<lambda>s.
     Option.bind (take_digits 2 s) (\<lambda>(mi, s).
     Option.bind (expect CHR '':'' s) (\<lambda>s.
     Option.bind (take_digits 2 s) (\<lambda>(sec, s).
       (case parse_fraction s of (ns, s) \<Rightarrow>
     Option.bind (parse_zone s) (\<lambda>(off, s).
       if s = [] \<and> h < 24 \<and> mi < 60 \<and> sec < 60 \<and> valid_date y mo d
       then Some (days_of_date y mo d * day + int h * (60 * minute) + int mi * minute + int sec * second + int ns - off, off)
       else None)))))))))"

definition parse_rfc3339 :: "string \<Rightarrow> instant option" where
  "parse_rfc3339 s = map_option fst (parse_rfc3339_zone s)"

subsection \<open>Dates survive formatting\<close>

lemma dec_small: "n < 10 \<Longrightarrow> dec_of_nat n = [digit_char n]"
  by (simp add: dec_of_nat.simps [of n])

lemma length_dec: "k \<noteq> 0 \<Longrightarrow> n < 10 ^ k \<Longrightarrow> length (dec_of_nat n) \<le> k"
proof (induction k arbitrary: n)
  case (Suc k)
  show ?case
  proof (cases "n < 10")
    case False
    then have "k \<noteq> 0" using Suc.prems by (cases k) auto
    moreover have "n div 10 < 10 ^ k" using Suc.prems by (simp add: less_mult_imp_div_less)
    ultimately show ?thesis using Suc.IH [of "n div 10"] False by (simp add: dec_of_nat.simps [of n])
  qed (simp add: dec_small)
qed simp

lemma length_dec_ge: "10 \<le> n \<Longrightarrow> 2 \<le> length (dec_of_nat n)"
proof -
  assume "10 \<le> n"
  moreover have "dec_of_nat (n div 10) \<noteq> []" by (subst dec_of_nat.simps) simp
  ultimately show ?thesis by (subst dec_of_nat.simps) (cases "dec_of_nat (n div 10)", auto)
qed

lemma nat_of_dec_zeros: "nat_of_dec (replicate k (CHR ''0'') @ s) = nat_of_dec s"
proof -
  have "foldl (\<lambda>a c. 10 * a + digit_val c) 0 (replicate k (CHR ''0'')) = 0"
    by (induction k) (simp_all add: digit_val_def)
  then show ?thesis by (simp add: nat_of_dec_def)
qed

lemma pad2_facts: "n < 100 \<Longrightarrow> length (pad2 n) = 2 \<and> nat_of_dec (pad2 n) = n \<and> all_digits (pad2 n)"
proof -
  assume n: "n < 100"
  have v: "nat_of_dec (pad2 n) = n"
    using nat_of_dec_zeros [of 1 "dec_of_nat n"] by (simp add: pad2_def nat_of_dec_of_nat)
  have l: "length (pad2 n) = 2"
    using n length_dec [of 2 n] length_dec_ge [of n] by (simp add: pad2_def dec_small)
  have "all_digits (pad2 n)"
    using l dec_of_nat_digits [of n] by (auto simp: pad2_def all_digits_def is_digit_def)
  with v l show ?thesis by blast
qed

lemma pad4_facts: "0 \<le> y \<Longrightarrow> y < 10000 \<Longrightarrow> length (pad4 y) = 4 \<and> nat_of_dec (pad4 y) = nat y \<and> all_digits (pad4 y)"
proof -
  assume y: "0 \<le> y" "y < 10000"
  then have l: "length (dec_of_nat (nat y)) \<le> 4" by (intro length_dec) auto
  then have "length (pad4 y) = 4" by (simp add: pad4_def Let_def)
  moreover have "nat_of_dec (pad4 y) = nat y" by (simp add: pad4_def Let_def nat_of_dec_zeros nat_of_dec_of_nat)
  moreover have "all_digits (pad4 y)"
    using dec_of_nat_digits [of "nat y"] \<open>length (pad4 y) = 4\<close>
    by (auto simp: pad4_def Let_def all_digits_def is_digit_def)
  ultimately show ?thesis by blast
qed

lemma take_digits_append: "length a = n \<Longrightarrow> all_digits a \<Longrightarrow> take_digits n (a @ s) = Some (nat_of_dec a, s)"
  by (simp add: take_digits_def)

lemma valid_date_bounds: "valid_date y m d \<Longrightarrow> m < 100 \<and> 0 \<le> d \<and> d < 100"
  by (auto simp: valid_date_def split: if_splits)

text \<open>Parsing a formatted date gives the start of its day: for every instant of a day of the years 0
  to 9999, the text \<open>2006-01-02\<close> of the instant parses to the instant truncated to the day.\<close>

lemma date_text_roundtrip:
  assumes "valid_date y m d" and "0 \<le> y" and "y < 10000" and "0 \<le> r" and "r < day"
  shows "parse_day (format_date CHR ''-'' (days_of_date y m d * day + r)) = Some (days_of_date y m d * day)"
    and "truncate_day (days_of_date y m d * day + r) = days_of_date y m d * day"
proof -
  have n: "day_number (days_of_date y m d * day + r) = days_of_date y m d"
    using assms(4,5) unfolding day_number_def by (simp add: div_add1_eq [of _ r] div_pos_pos_trivial mod_pos_pos_trivial)
  note v = valid_date_bounds [OF assms(1)]
  have f: "format_date CHR ''-'' (days_of_date y m d * day + r) = pad4 y @ CHR ''-'' # pad2 m @ CHR ''-'' # pad2 (nat d)"
    unfolding format_date_def n date_roundtrip [OF assms(1)] by simp
  have p: "take_digits 2 (pad2 (nat d)) = Some (nat d, [])"
  proof -
    have "nat d < 100" using v by auto
    from pad2_facts [OF this] take_digits_append [of "pad2 (nat d)" 2 "[]"] show ?thesis by simp
  qed
  have "parse_ymd (pad4 y @ CHR ''-'' # pad2 m @ CHR ''-'' # pad2 (nat d)) = Some ((y, m, d), [])"
    using pad4_facts [OF assms(2,3)] pad2_facts [of m] v p assms(1,2)
    by (simp add: parse_ymd_def take_digits_append valid_date_def)
  then show "parse_day (format_date CHR ''-'' (days_of_date y m d * day + r)) = Some (days_of_date y m d * day)"
    unfolding f using assms(1) by (simp add: parse_day_def)
  show "truncate_day (days_of_date y m d * day + r) = days_of_date y m d * day" unfolding truncate_day_def n ..
qed

lemma date_text_roundtrip_witness: "parse_day (format_date CHR ''-'' (days_of_date 2024 2 29 * day + 5)) = Some (days_of_date 2024 2 29 * day)"
  by (rule date_text_roundtrip(1)) (simp_all add: valid_date_def leap_def)

end
