(* ===== verification/Http.thy ===== *)
theory Http
  imports Provider Go_Time
begin

text \<open>
  HTTP messages as the gateway handles them: header maps, the header copying rules of
  \<open>internal/proxy/upstream.go\<close>, JSON error responses (\<open>internal/httputil/response.go\<close>), and the choice
  of compression (\<open>internal/proxy/compression.go\<close>). A header map has its keys in canonical form, as
  net/http keeps them, and iterates here in key order. Deflating itself is an argument.
\<close>

section \<open>Header maps\<close>

type_synonym header = "(string, string list) gomap"

definition hdr_get :: "header \<Rightarrow> string \<Rightarrow> string" where
  "hdr_get h k = (case gm_get h k of Some (v # _) \<Rightarrow> v | _ \<Rightarrow> [])"

definition hdr_set :: "string \<Rightarrow> string \<Rightarrow> header \<Rightarrow> header" where
  "hdr_set k v h = gm_put k [v] h"

definition hdr_del :: "string \<Rightarrow> header \<Rightarrow> header" where
  "hdr_del k h = gm_del k h"

definition hdr_values :: "header \<Rightarrow> string \<Rightarrow> string list" where
  "hdr_values h k = (case gm_get h k of None \<Rightarrow> [] | Some vs \<Rightarrow> vs)"

definition hdr_add :: "string \<Rightarrow> string \<Rightarrow> header \<Rightarrow> header" where
  "hdr_add k v h = gm_put k (hdr_values h k @ [v]) h"

lemma hdr_ok [simp]:
  "gm_ok h \<Longrightarrow> gm_ok (hdr_set k v h)" "gm_ok h \<Longrightarrow> gm_ok (hdr_del k h)" "gm_ok h \<Longrightarrow> gm_ok (hdr_add k v h)"
  by (simp_all add: hdr_set_def hdr_del_def hdr_add_def)

lemma hdr_get_set: "gm_ok h \<Longrightarrow> hdr_get (hdr_set k v h) k' = (if k' = k then v else hdr_get h k')"
  by (simp add: hdr_get_def hdr_set_def gm_get_put)

lemma hdr_get_del: "hdr_get (hdr_del k h) k' = (if k' = k then [] else hdr_get h k')"
  by (simp add: hdr_get_def hdr_del_def gm_get_del)

lemma hdr_values_add: "gm_ok h \<Longrightarrow> hdr_values (hdr_add k v h) k' = (if k' = k then hdr_values h k @ [v] else hdr_values h k')"
  by (simp add: hdr_values_def hdr_add_def gm_get_put)

lemma hdr_values_set: "gm_ok h \<Longrightarrow> hdr_values (hdr_set k v h) k' = (if k' = k then [v] else hdr_values h k')"
  by (simp add: hdr_values_def hdr_set_def gm_get_put)

lemma hdr_values_del: "hdr_values (hdr_del k h) k' = (if k' = k then [] else hdr_values h k')"
  by (simp add: hdr_values_def hdr_del_def gm_get_del)

lemma hdr_get_values: "hdr_get h k = (case hdr_values h k of v # _ \<Rightarrow> v | [] \<Rightarrow> [])"
  by (simp add: hdr_get_def hdr_values_def split: option.splits list.splits)

section \<open>Copying headers\<close>

definition hopByHopHeaders :: "string list" where
  "hopByHopHeaders = [''connection'', ''keep-alive'', ''proxy-authenticate'', ''proxy-authorization'', ''te'',
     ''trailers'', ''transfer-encoding'', ''upgrade'', ''host'', ''content-length'', ''accept-encoding'']"

definition add_values :: "string \<Rightarrow> string list \<Rightarrow> header \<Rightarrow> header" where
  "add_values k vs dst = foldl (\<lambda>d v. hdr_add k v d) dst vs"

definition copy_unless :: "(string \<Rightarrow> bool) \<Rightarrow> header \<Rightarrow> header \<Rightarrow> header" where
  "copy_unless skip src dst = foldl (\<lambda>d (k, vs). if skip (to_lower k) then d else add_values k vs d) dst src"

definition skip_request_header :: "string \<Rightarrow> bool" where
  "skip_request_header lowerKey \<longleftrightarrow> prefix ''x-majordomo'' lowerKey \<or> lowerKey \<in> set hopByHopHeaders"

definition copyHeaders :: "header \<Rightarrow> header \<Rightarrow> header" where
  "copyHeaders src dst = copy_unless skip_request_header src dst"

definition skip_response_header :: "string \<Rightarrow> bool" where
  "skip_response_header lowerKey \<longleftrightarrow> lowerKey \<in> set hopByHopHeaders \<or> lowerKey = ''content-encoding''"

definition copyResponseHeaders :: "header \<Rightarrow> header \<Rightarrow> header" where
  "copyResponseHeaders src dst = copy_unless skip_response_header src dst"

lemma add_values_ok [simp]: "gm_ok dst \<Longrightarrow> gm_ok (add_values k vs dst)"
  unfolding add_values_def by (induction vs arbitrary: dst) simp_all

lemma add_values_values:
  "gm_ok dst \<Longrightarrow> hdr_values (add_values k vs dst) k' = (if k' = k then hdr_values dst k @ vs else hdr_values dst k')"
  unfolding add_values_def by (induction vs arbitrary: dst) (simp_all add: hdr_values_add)

lemma copy_unless_values:
  "gm_ok src \<Longrightarrow> gm_ok dst \<Longrightarrow>
     gm_ok (copy_unless skip src dst) \<and>
     hdr_values (copy_unless skip src dst) k =
       (if skip (to_lower k) then hdr_values dst k else hdr_values dst k @ hdr_values src k)"
proof (induction src arbitrary: dst)
  case Nil
  then show ?case by (simp add: copy_unless_def hdr_values_def)
next
  case (Cons p src)
  obtain k0 vs where p: "p = (k0, vs)" by fastforce
  let ?d = "if skip (to_lower k0) then dst else add_values k0 vs dst"
  have c: "copy_unless skip (p # src) dst = copy_unless skip src ?d" by (simp add: copy_unless_def p)
  have ok: "gm_ok src" "\<forall>k' \<in> fst ` set src. k0 < k'" using Cons.prems(1) p by (simp_all add: gm_ok_Cons)
  then have n: "hdr_values src k0 = []" by (simp add: hdr_values_def gm_get_above)
  have s: "hdr_values (p # src) k = (if k = k0 then vs else hdr_values src k)" by (simp add: hdr_values_def p)
  from Cons.IH [OF ok(1), of ?d] Cons.prems(2) n show ?case
    by (auto simp: c s add_values_values)
qed

lemma forwarded_headers_facts:
  assumes "gm_ok src" and "gm_ok dst"
  shows "hdr_values (copyHeaders src []) k =
      (if prefix ''x-majordomo'' (to_lower k) \<or> to_lower k \<in> set hopByHopHeaders then [] else hdr_values src k)"
    and "hdr_values (copyResponseHeaders src dst) k =
      (if to_lower k \<in> set hopByHopHeaders \<or> to_lower k = ''content-encoding'' then hdr_values dst k
       else hdr_values dst k @ hdr_values src k)"
  using copy_unless_values [OF assms(1) gm_ok_Nil, of skip_request_header k]
    copy_unless_values [OF assms, of skip_response_header k]
  by (auto simp: copyHeaders_def copyResponseHeaders_def skip_request_header_def skip_response_header_def hdr_values_def)

text \<open>What is forwarded. The upstream request carries no X-Majordomo header and no hop-by-hop header of
  the client, and every other header with all its values in order; the response sent back likewise
  carries every upstream header but the hop-by-hop ones and Content-Encoding, after the values the
  gateway itself set.\<close>

theorem forwarded_headers:
  assumes "gm_ok src" and "gm_ok dst"
  shows "(hdr_values (copyHeaders src []) k =
      (if prefix ''x-majordomo'' (to_lower k) \<or> to_lower k \<in> set hopByHopHeaders then [] else hdr_values src k))
    \<and> (hdr_values (copyResponseHeaders src dst) k =
      (if to_lower k \<in> set hopByHopHeaders \<or> to_lower k = ''content-encoding'' then hdr_values dst k
       else hdr_values dst k @ hdr_values src k))"
  by (intro conjI impI forwarded_headers_facts [OF assms]; assumption?)

theorem forwarded_headers_witness:
  "hdr_values (copyHeaders [(''Authorization'', [''Bearer k'']), (''X-Majordomo-Key'', [''mdm'' ])] []) ''X-Majordomo-Key'' = []
   \<and> hdr_values (copyHeaders [(''Authorization'', [''Bearer k'']), (''X-Majordomo-Key'', [''mdm'' ])] []) ''Authorization'' = [''Bearer k'']"
proof -
  have ok: "gm_ok [(''Authorization'', [''Bearer k'']), (''X-Majordomo-Key'', [''mdm'' ])]"
    by (simp add: gm_ok_def less_char_def)
  have l: "to_lower ''X-Majordomo-Key'' = ''x-majordomo-key''" "to_lower ''Authorization'' = ''authorization''" by code_simp+
  show ?thesis
    unfolding forwarded_headers [OF ok gm_ok_Nil, THEN conjunct1] l by (simp add: hopByHopHeaders_def hdr_values_def)
qed

section \<open>Requests and responses\<close>

text \<open>A body that cannot be read is None. \<open>rp_Flushed\<close> says whether the response was flushed to the client
  chunk by chunk.\<close>

record http_request =
  hq_Method :: string
  hq_Path :: string
  hq_RawQuery :: string
  hq_Host :: string
  hq_Header :: header
  hq_Body :: "string option"

record http_response =
  rp_Status :: int
  rp_Header :: header
  rp_Body :: string
  rp_Flushed :: bool

definition newline :: string where "newline = [CHR 0x0A]"

definition WriteJSON :: "header \<Rightarrow> int \<Rightarrow> json \<Rightarrow> http_response" where
  "WriteJSON h code v = \<lparr>rp_Status = code, rp_Header = hdr_set ''Content-Type'' ''application/json'' h,
     rp_Body = print_json v @ newline, rp_Flushed = False\<rparr>"

definition WriteJSONError :: "header \<Rightarrow> int \<Rightarrow> string \<Rightarrow> http_response" where
  "WriteJSONError h code message = \<lparr>rp_Status = code, rp_Header = hdr_set ''Content-Type'' ''application/json'' h,
     rp_Body = print_json (JObj [(''error'', json_str message)]) @ newline, rp_Flushed = False\<rparr>"

section \<open>Compression\<close>

definition MinCompressionSize :: nat where "MinCompressionSize = 1024"

definition AcceptsGzip :: "string \<Rightarrow> bool" where
  "AcceptsGzip acceptEncoding \<longleftrightarrow>
     list_ex (\<lambda>encoding. prefix ''gzip'' (trim_space encoding)) (split_on CHR '','' acceptEncoding)"

definition compressibleTypes :: "string list" where
  "compressibleTypes = [''text/'', ''application/json'', ''application/xml'', ''application/javascript'',
     ''application/x-javascript'', ''application/ld+json'', ''application/manifest+json'', ''application/vnd.api+json'']"

definition isCompressibleContentType :: "string \<Rightarrow> bool" where
  "isCompressibleContentType contentType \<longleftrightarrow> list_ex (\<lambda>ct. sublist ct (to_lower contentType)) compressibleTypes"

definition ShouldCompress :: "string \<Rightarrow> string \<Rightarrow> nat \<Rightarrow> bool" where
  "ShouldCompress acceptEncoding contentType bodySize \<longleftrightarrow>
     (if \<not> AcceptsGzip acceptEncoding then False
      else if bodySize < MinCompressionSize then False
      else isCompressibleContentType contentType)"

end
