(* ===== verification/Archive.thy ===== *)
theory Archive
  imports Http Models
begin

text \<open>
  The body store, \<open>internal/storage\<close>: the object key of a request, the stored document and its
  round trip, and the S3 and GCS stores. Compression (compress/gzip), the text of a UUID
  (github.com/google/uuid) and the two cloud clients are arguments.
\<close>

section \<open>Payloads and contents\<close>

record body_payload =
  bp_RequestID :: uuid
  bp_Timestamp :: instant
  bp_RequestMethod :: string
  bp_RequestPath :: string
  bp_RequestHeaders :: "(string, string) gomap"
  bp_RequestBody :: string
  bp_ResponseStatus :: int
  bp_ResponseHeaders :: "(string, string) gomap"
  bp_ResponseBody :: string

record request_content =
  rc_Method :: string
  rc_Path :: string
  rc_Headers :: "(string, string) gomap"
  rc_Body :: "json option"

record response_content =
  sc_StatusCode :: int64
  sc_Headers :: "(string, string) gomap"
  sc_Body :: "json option"

record body_content =
  bc_RequestID :: string
  bc_Timestamp :: string
  bc_Request :: request_content
  bc_Response :: response_content

definition GenerateKey :: "(uuid \<Rightarrow> string) \<Rightarrow> string \<Rightarrow> uuid \<Rightarrow> uuid \<Rightarrow> instant \<Rightarrow> string" where
  "GenerateKey uuid_text pre apiKeyID requestID ts =
     (let key = format_date CHR ''/'' ts @ CHR ''/'' # uuid_text apiKeyID @ CHR ''/'' # uuid_text requestID @ ''.json.gz''
      in if pre \<noteq> [] then pre @ CHR ''/'' # key else key)"

definition ExtractResponseHeaders :: "header \<Rightarrow> (string, string) gomap" where
  "ExtractResponseHeaders h =
     foldl (\<lambda>result (key, values). case values of v # _ \<Rightarrow> gm_put key v result | [] \<Rightarrow> result) [] h"

definition toJSONRawMessage :: "string \<Rightarrow> json option" where
  "toJSONRawMessage data =
     (if data = [] then None
      else case json_parse data of Some j \<Rightarrow> Some j | None \<Rightarrow> Some (json_str data))"

section \<open>Encoding\<close>

text \<open>The time of day of a UTC instant, and \<open>time.RFC3339\<close>.\<close>

definition format_rfc3339 :: "instant \<Rightarrow> string" where
  "format_rfc3339 t =
     (let s = nat ((t mod day) div second) in
      format_date CHR ''-'' t @ CHR ''T'' # pad2 (s div 3600) @ CHR '':'' # pad2 (s div 60 mod 60) @ CHR '':'' # pad2 (s mod 60) @ ''Z'')"

definition string_map_doc :: "(string, string) gomap \<Rightarrow> json" where
  "string_map_doc m = JObj (map (\<lambda>(k, v). (quote_str k, json_str v)) m)"

text \<open>\<open>omitempty\<close>: an empty map and a nil message are left out.\<close>

definition headers_member :: "(string, string) gomap \<Rightarrow> (string \<times> json) list" where
  "headers_member m = (if m = [] then [] else [(''headers'', string_map_doc m)])"

definition body_member :: "json option \<Rightarrow> (string \<times> json) list" where
  "body_member b = (case b of None \<Rightarrow> [] | Some j \<Rightarrow> [(''body'', html_escape_json j)])"

definition request_doc :: "request_content \<Rightarrow> json" where
  "request_doc c = JObj ([(''method'', json_str (rc_Method c)), (''path'', json_str (rc_Path c))]
     @ headers_member (rc_Headers c) @ body_member (rc_Body c))"

definition response_doc :: "response_content \<Rightarrow> json" where
  "response_doc c = JObj ([(''status_code'', json_num (sc_StatusCode c))]
     @ headers_member (sc_Headers c) @ body_member (sc_Body c))"

definition content_doc :: "body_content \<Rightarrow> json" where
  "content_doc c = JObj [(''request_id'', json_str (bc_RequestID c)), (''timestamp'', json_str (bc_Timestamp c)),
     (''request'', request_doc (bc_Request c)), (''response'', response_doc (bc_Response c))]"

definition content_of :: "(uuid \<Rightarrow> string) \<Rightarrow> body_payload \<Rightarrow> body_content" where
  "content_of uuid_text p =
     \<lparr>bc_RequestID = uuid_text (bp_RequestID p), bc_Timestamp = format_rfc3339 (bp_Timestamp p),
      bc_Request = \<lparr>rc_Method = bp_RequestMethod p, rc_Path = bp_RequestPath p, rc_Headers = bp_RequestHeaders p,
        rc_Body = toJSONRawMessage (bp_RequestBody p)\<rparr>,
      bc_Response = \<lparr>sc_StatusCode = word_of_int (bp_ResponseStatus p), sc_Headers = bp_ResponseHeaders p,
        sc_Body = toJSONRawMessage (bp_ResponseBody p)\<rparr>\<rparr>"

definition encode :: "(uuid \<Rightarrow> string) \<Rightarrow> (string \<Rightarrow> string) \<Rightarrow> body_payload \<Rightarrow> string" where
  "encode uuid_text gzip p = gzip (print_json (content_doc (content_of uuid_text p)))"

section \<open>Decoding\<close>

text \<open>\<open>map[string]string\<close>: every value is decoded into a fresh string, so \<open>null\<close> gives the empty one.\<close>

fun decode_string_members :: "(string \<times> json) list \<Rightarrow> (string, string) gomap \<Rightarrow> (string, string) gomap option" where
  "decode_string_members [] m = Some m"
| "decode_string_members ((k, j) # ms) m =
     (case decode_string j [] of None \<Rightarrow> None | Some v \<Rightarrow> decode_string_members ms (gm_put (unquote k) v m))"

fun decode_string_map :: "json \<Rightarrow> (string, string) gomap \<Rightarrow> (string, string) gomap option" where
  "decode_string_map JNull m = Some []"
| "decode_string_map (JObj ms) m = decode_string_members ms m"
| "decode_string_map _ m = None"

text \<open>A field of type \<open>json.RawMessage\<close>.\<close>

definition decode_raw :: "json \<Rightarrow> json option \<Rightarrow> json option option" where
  "decode_raw j b = Some (Some j)"

definition request_fields :: "request_content json_field list" where
  "request_fields = [field ''method'' decode_string rc_Method (\<lambda>x s. s\<lparr>rc_Method := x\<rparr>),
     field ''path'' decode_string rc_Path (\<lambda>x s. s\<lparr>rc_Path := x\<rparr>),
     field ''headers'' decode_string_map rc_Headers (\<lambda>x s. s\<lparr>rc_Headers := x\<rparr>),
     field ''body'' decode_raw rc_Body (\<lambda>x s. s\<lparr>rc_Body := x\<rparr>)]"

definition response_fields :: "response_content json_field list" where
  "response_fields = [field ''status_code'' decode_int sc_StatusCode (\<lambda>x s. s\<lparr>sc_StatusCode := x\<rparr>),
     field ''headers'' decode_string_map sc_Headers (\<lambda>x s. s\<lparr>sc_Headers := x\<rparr>),
     field ''body'' decode_raw sc_Body (\<lambda>x s. s\<lparr>sc_Body := x\<rparr>)]"

definition content_fields :: "body_content json_field list" where
  "content_fields = [field ''request_id'' decode_string bc_RequestID (\<lambda>x s. s\<lparr>bc_RequestID := x\<rparr>),
     field ''timestamp'' decode_string bc_Timestamp (\<lambda>x s. s\<lparr>bc_Timestamp := x\<rparr>),
     field ''request'' (decode_struct request_fields) bc_Request (\<lambda>x s. s\<lparr>bc_Request := x\<rparr>),
     field ''response'' (decode_struct response_fields) bc_Response (\<lambda>x s. s\<lparr>bc_Response := x\<rparr>)]"

definition zero_content :: body_content where
  "zero_content = \<lparr>bc_RequestID = [], bc_Timestamp = [],
     bc_Request = \<lparr>rc_Method = [], rc_Path = [], rc_Headers = [], rc_Body = None\<rparr>,
     bc_Response = \<lparr>sc_StatusCode = 0, sc_Headers = [], sc_Body = None\<rparr>\<rparr>"

datatype store_error = GzipError | UnmarshalError | ObjectError

definition decode :: "(string \<Rightarrow> string option) \<Rightarrow> string \<Rightarrow> store_error + body_content" where
  "decode gunzip compressed =
     (case gunzip compressed of
        None \<Rightarrow> Inl GzipError
      | Some decompressed \<Rightarrow>
          (case unmarshal (decode_struct content_fields) zero_content decompressed of
             None \<Rightarrow> Inl UnmarshalError
           | Some content \<Rightarrow> Inr content))"

section \<open>The stores\<close>

text \<open>An object carries its content encoding. A client puts an object at a key, which may fail, and
  reads the bytes of one.\<close>

record stored_object =
  so_Data :: string
  so_ContentType :: string
  so_ContentEncoding :: string

definition Upload :: "(uuid \<Rightarrow> string) \<Rightarrow> (string \<Rightarrow> string) \<Rightarrow> (string \<Rightarrow> stored_object \<Rightarrow> 'b \<Rightarrow> 'b \<times> bool)
    \<Rightarrow> string \<Rightarrow> body_payload \<Rightarrow> 'b \<Rightarrow> 'b \<times> (store_error + unit)" where
  "Upload uuid_text gzip put key p b =
     (case put key \<lparr>so_Data = encode uuid_text gzip p, so_ContentType = ''application/json'', so_ContentEncoding = ''gzip''\<rparr> b of
        (b', ok) \<Rightarrow> (b', if ok then Inr () else Inl ObjectError))"

definition Download :: "(string \<Rightarrow> string option) \<Rightarrow> (string \<Rightarrow> 'b \<Rightarrow> string option) \<Rightarrow> string \<Rightarrow> 'b \<Rightarrow> store_error + body_content" where
  "Download gunzip read key b =
     (case read key b of None \<Rightarrow> Inl ObjectError | Some compressed \<Rightarrow> decode gunzip compressed)"

section \<open>What is stored comes back\<close>

lemma decode_string_members_put:
  "decode_string_members (map (\<lambda>(k, v). (quote_str k, json_str v)) m) acc = Some (foldl (\<lambda>a (k, v). gm_put k v a) acc m)"
  by (induction m arbitrary: acc) auto

lemma decode_headers [simp]: "gm_ok m \<Longrightarrow> decode_string_map (string_map_doc m) [] = Some m"
  using gm_of_list_sorted [of m] by (simp add: string_map_doc_def decode_string_members_put gm_of_list_def)

lemma decode_request:
  "gm_ok (rc_Headers c) \<Longrightarrow> decode_struct request_fields (request_doc c) (bc_Request zero_content)
     = Some (c\<lparr>rc_Body := map_option html_escape_json (rc_Body c)\<rparr>)"
  by (simp add: request_doc_def headers_member_def body_member_def request_fields_def decode_simps field_def decode_raw_def
      zero_content_def split: option.split)

lemma decode_response:
  "gm_ok (sc_Headers c) \<Longrightarrow> decode_struct response_fields (response_doc c) (bc_Response zero_content)
     = Some (c\<lparr>sc_Body := map_option html_escape_json (sc_Body c)\<rparr>)"
  by (simp add: response_doc_def headers_member_def body_member_def response_fields_def decode_simps field_def decode_raw_def
      zero_content_def split: option.split)

lemma decode_content:
  assumes "gm_ok (rc_Headers (bc_Request c))" and "gm_ok (sc_Headers (bc_Response c))"
  shows "decode_struct content_fields (content_doc c) zero_content
     = Some \<lparr>bc_RequestID = bc_RequestID c, bc_Timestamp = bc_Timestamp c,
         bc_Request = (bc_Request c)\<lparr>rc_Body := map_option html_escape_json (rc_Body (bc_Request c))\<rparr>,
         bc_Response = (bc_Response c)\<lparr>sc_Body := map_option html_escape_json (sc_Body (bc_Response c))\<rparr>\<rparr>"
  using decode_request [OF assms(1)] decode_response [OF assms(2)]
  by (simp add: content_doc_def content_fields_def decode_simps field_def)

lemma string_map_doc_ok [simp]: "json_ok (string_map_doc m)"
  by (auto simp: string_map_doc_def list_all_iff)

lemma toJSONRawMessage_ok: "toJSONRawMessage data = Some j \<Longrightarrow> json_ok j"
  by (auto simp: toJSONRawMessage_def dest: json_parse_ok split: if_splits option.splits)

lemma member_names_ok [simp]: "str_ok ''method''" "str_ok ''path''" "str_ok ''headers''" "str_ok ''body''" "str_ok ''status_code''"
    "str_ok ''request_id''" "str_ok ''timestamp''" "str_ok ''request''" "str_ok ''response''"
  by code_simp+

lemma members_ok: "json_ok (JObj (headers_member m @ body_member (toJSONRawMessage data)))"
proof (cases "toJSONRawMessage data")
  case (Some j)
  then show ?thesis using json_ok_html [OF toJSONRawMessage_ok [OF Some]]
    by (simp add: headers_member_def body_member_def)
qed (simp add: headers_member_def body_member_def)

lemma json_ok_JObj_append: "json_ok (JObj (xs @ ys)) \<longleftrightarrow> json_ok (JObj xs) \<and> json_ok (JObj ys)"
  by auto

lemma content_doc_ok: "json_ok (content_doc (content_of u p))"
proof -
  have "json_ok (request_doc (bc_Request (content_of u p)))" "json_ok (response_doc (bc_Response (content_of u p)))"
    using members_ok [of "bp_RequestHeaders p" "bp_RequestBody p"] members_ok [of "bp_ResponseHeaders p" "bp_ResponseBody p"]
    by (simp_all add: request_doc_def response_doc_def content_of_def json_ok_JObj_append)
  then show ?thesis by (simp add: content_doc_def)
qed

text \<open>What a stored message denotes: the JSON value of the body, or the body as a string.\<close>

definition stored_value :: "string \<Rightarrow> json option" where
  "stored_value data = (if data = [] then None
     else Some (case json_parse data of Some j \<Rightarrow> json_value j | None \<Rightarrow> JStr data))"

lemma stored_value_html: "map_option json_value (map_option html_escape_json (toJSONRawMessage data)) = stored_value data"
  by (auto simp: toJSONRawMessage_def stored_value_def json_value_html dest: json_parse_ok split: option.split)

section \<open>Properties\<close>

text \<open>A body that was archived is read back: with a store that reads what it accepted and a gunzip that
  inverts gzip, downloading the key just uploaded gives the identity, the method, path, headers and
  status of the request, and bodies that denote the archived ones: the same JSON value, or the text
  as a string when the body was not JSON.\<close>

theorem archive_roundtrip:
  assumes "Upload uuid_text gzip put key p b = (b', Inr ())"
    and "\<And>x. gunzip (gzip x) = Some x"
    and "\<And>obj. put key obj b = (b', True) \<Longrightarrow> read key b' = Some (so_Data obj)"
    and "gm_ok (bp_RequestHeaders p)" and "gm_ok (bp_ResponseHeaders p)"
  shows "\<exists>c. Download gunzip read key b' = Inr c
    \<and> bc_RequestID c = uuid_text (bp_RequestID p) \<and> bc_Timestamp c = format_rfc3339 (bp_Timestamp p)
    \<and> rc_Method (bc_Request c) = bp_RequestMethod p \<and> rc_Path (bc_Request c) = bp_RequestPath p
    \<and> rc_Headers (bc_Request c) = bp_RequestHeaders p
    \<and> sc_StatusCode (bc_Response c) = word_of_int (bp_ResponseStatus p)
    \<and> sc_Headers (bc_Response c) = bp_ResponseHeaders p
    \<and> map_option json_value (rc_Body (bc_Request c)) = stored_value (bp_RequestBody p)
    \<and> map_option json_value (sc_Body (bc_Response c)) = stored_value (bp_ResponseBody p)"
proof -
  from assms(1) have "read key b' = Some (encode uuid_text gzip p)"
    using assms(3) by (auto simp: Upload_def split: prod.splits if_splits)
  then have "Download gunzip read key b' = decode gunzip (encode uuid_text gzip p)" by (simp add: Download_def)
  also have "\<dots> = (case decode_struct content_fields (content_doc (content_of uuid_text p)) zero_content of
      None \<Rightarrow> Inl UnmarshalError | Some c \<Rightarrow> Inr c)"
    by (simp add: decode_def encode_def assms(2) unmarshal_print [OF content_doc_ok])
  also have "\<dots> = Inr (case content_of uuid_text p of c \<Rightarrow>
      \<lparr>bc_RequestID = bc_RequestID c, bc_Timestamp = bc_Timestamp c,
       bc_Request = (bc_Request c)\<lparr>rc_Body := map_option html_escape_json (rc_Body (bc_Request c))\<rparr>,
       bc_Response = (bc_Response c)\<lparr>sc_Body := map_option html_escape_json (sc_Body (bc_Response c))\<rparr>\<rparr>)"
  proof -
    have "gm_ok (rc_Headers (bc_Request (content_of uuid_text p)))" "gm_ok (sc_Headers (bc_Response (content_of uuid_text p)))"
      using assms(4,5) by (simp_all add: content_of_def)
    from decode_content [OF this] show ?thesis by simp
  qed
  finally show ?thesis
    by (simp add: content_of_def stored_value_html [unfolded option.map_comp] option.map_comp)
qed

definition example_payload :: body_payload where
  "example_payload = \<lparr>bp_RequestID = 7, bp_Timestamp = 0, bp_RequestMethod = ''POST'', bp_RequestPath = ''/v1/messages'',
     bp_RequestHeaders = [(''team'', ''core'')], bp_RequestBody = ''{}'', bp_ResponseStatus = 200, bp_ResponseHeaders = [],
     bp_ResponseBody = ''plain<''\<rparr>"

definition one_object :: "string \<Rightarrow> stored_object \<Rightarrow> (string \<rightharpoonup> stored_object) \<Rightarrow> (string \<rightharpoonup> stored_object) \<times> bool" where
  "one_object key obj b = (b(key \<mapsto> obj), True)"

theorem archive_roundtrip_witness:
  "\<exists>c. Download Some (\<lambda>k b. map_option so_Data (b k)) ''k''
       (fst (Upload (\<lambda>_. ''u'') (\<lambda>x. x) one_object ''k'' example_payload Map.empty)) = Inr c
     \<and> rc_Headers (bc_Request c) = [(''team'', ''core'')]
     \<and> map_option json_value (sc_Body (bc_Response c)) = Some (JStr ''plain<'')"
proof -
  have u: "Upload (\<lambda>_. ''u'') (\<lambda>x. x) one_object ''k'' example_payload Map.empty
      = (fst (Upload (\<lambda>_. ''u'') (\<lambda>x. x) one_object ''k'' example_payload Map.empty), Inr ())"
    by (simp add: Upload_def one_object_def)
  have v: "stored_value ''plain<'' = Some (JStr ''plain<'')" by code_simp
  have "\<exists>c. Download Some (\<lambda>k b. map_option so_Data (b k)) ''k''
       (fst (Upload (\<lambda>_. ''u'') (\<lambda>x. x) one_object ''k'' example_payload Map.empty)) = Inr c
    \<and> rc_Headers (bc_Request c) = bp_RequestHeaders example_payload
    \<and> map_option json_value (sc_Body (bc_Response c)) = stored_value (bp_ResponseBody example_payload)"
  proof -
    have r: "(\<lambda>k b. map_option so_Data (b k)) ''k'' (fst (Upload (\<lambda>_. ''u'') (\<lambda>x. x) one_object ''k'' example_payload Map.empty))
        = Some (so_Data obj)"
      if "one_object ''k'' obj Map.empty = (fst (Upload (\<lambda>_. ''u'') (\<lambda>x. x) one_object ''k'' example_payload Map.empty), True)" for obj
      using that by (auto simp: one_object_def Upload_def dest: map_upd_eqD1)
    have g: "gm_ok (bp_RequestHeaders example_payload)" "gm_ok (bp_ResponseHeaders example_payload)"
      by (simp_all add: example_payload_def)
    show ?thesis
      using archive_roundtrip [OF u, of Some "\<lambda>k b. map_option so_Data (b k)", OF _ r g] by blast
  qed
  then show ?thesis by (simp add: example_payload_def v)
qed

text \<open>An object stored with the content encoding gzip is not readable through a client that
  decompresses such objects on reading, as the GCS client does unless told otherwise: the gateway
  gunzips again, and the JSON text it gets has no gzip header.\<close>

theorem decompressing_client_fails:
  assumes "Upload uuid_text gzip put key p b = (b', Inr ())"
    and "\<And>x. gunzip (gzip x) = Some x"
    and "\<And>x y. gunzip x = Some y \<Longrightarrow> prefix [CHR 0x1F, CHR 0x8B] x"
    and "\<And>obj. put key obj b = (b', True) \<Longrightarrow> so_ContentEncoding obj = ''gzip'' \<Longrightarrow> read key b' = gunzip (so_Data obj)"
  shows "Download gunzip read key b' = Inl GzipError"
proof -
  let ?j = "content_doc (content_of uuid_text p)"
  from assms(1) have "read key b' = Some (print_json ?j)"
    using assms(4) by (auto simp: Upload_def encode_def assms(2) split: prod.splits if_splits)
  moreover have "gunzip (print_json ?j) = None"
    using assms(3) [of "print_json ?j"] by (cases "gunzip (print_json ?j)") (auto simp: content_doc_def)
  ultimately show ?thesis by (simp add: Download_def decode_def)
qed

definition tag_gzip :: "string \<Rightarrow> string" where
  "tag_gzip x = [CHR 0x1F, CHR 0x8B] @ x"

definition tag_gunzip :: "string \<Rightarrow> string option" where
  "tag_gunzip x = (if prefix [CHR 0x1F, CHR 0x8B] x then Some (drop 2 x) else None)"

theorem decompressing_client_fails_witness:
  "Download tag_gunzip (\<lambda>k b. case b k of None \<Rightarrow> None | Some obj \<Rightarrow> tag_gunzip (so_Data obj)) ''k''
     (fst (Upload (\<lambda>_. ''u'') tag_gzip one_object ''k'' example_payload Map.empty)) = Inl GzipError"
  by (rule decompressing_client_fails [where uuid_text = "\<lambda>_. ''u''" and gzip = tag_gzip and put = one_object and p = example_payload
        and b = Map.empty])
    (auto simp: Upload_def one_object_def tag_gzip_def tag_gunzip_def dest: map_upd_eqD1 split: if_splits)

end
