(* ===== verification/Request_Context.thy ===== *)
theory Request_Context
  imports Archive Router Key_Services Spans
begin

text \<open>
  What \<open>internal/proxy/handler.go\<close> reads off a request: its X-Majordomo headers, the hash of the
  relayed provider key, the Bedrock region, the wish to be routed, the data policy, the custom
  metadata and the agent-run identity; and the deprecated-model map of \<open>internal/deprecated\<close>.
\<close>

section \<open>Deprecated models\<close>

text \<open>The file is its path and what reading it gives; an unreadable or ill-formed file leaves the map
  empty.\<close>

definition zero_models :: "(string, string) gomap" where "zero_models = []"

definition deprecated_NewService :: "string \<Rightarrow> string option \<Rightarrow> (string, string) gomap" where
  "deprecated_NewService filePath content =
     (if filePath = [] then zero_models
      else case content of
        None \<Rightarrow> zero_models
      | Some data \<Rightarrow>
          (case unmarshal decode_string_map [] data of
             None \<Rightarrow> zero_models
           | Some raw \<Rightarrow> foldl (\<lambda>models (k, v). if k = ''_comment'' then models else gm_put k v models) zero_models raw))"

definition Lookup :: "(string, string) gomap \<Rightarrow> string \<Rightarrow> string option" where
  "Lookup models model = gm_get models model"

section \<open>Headers\<close>

text \<open>The value of a key, empty when it is absent.\<close>

definition gm_str :: "(string, string) gomap \<Rightarrow> string \<Rightarrow> string" where
  "gm_str m k = (case gm_get m k of None \<Rightarrow> [] | Some v \<Rightarrow> v)"

text \<open>net/http gives every header it parses at least one value.\<close>

definition extractHeaders :: "header \<Rightarrow> (string, string) gomap" where
  "extractHeaders h =
     foldl (\<lambda>result (key, values).
         if prefix ''x-majordomo'' (to_lower key) then gm_put (to_lower key) (hd values) result else result) [] h"

record relayed_key =
  rk_Hash :: "string option"
  rk_Alias :: "string option"

definition extractProviderKeyInfo :: "header \<Rightarrow> relayed_key" where
  "extractProviderKeyInfo h =
     \<lparr>rk_Hash = (if hdr_get h ''Authorization'' \<noteq> [] then Some (HashAPIKey (hdr_get h ''Authorization'')) else None),
      rk_Alias = (if hdr_get h ''X-Majordomo-Provider-Alias'' \<noteq> [] then Some (hdr_get h ''X-Majordomo-Provider-Alias'')
                  else None)\<rparr>"

definition traceIDHeader :: string where "traceIDHeader = ''x-majordomo-trace-id''"
definition spanPathHeader :: string where "spanPathHeader = ''x-majordomo-span-path''"
definition spanNameHeader :: string where "spanNameHeader = ''x-majordomo-span-name''"

definition reservedMajordomoHeaders :: "string list" where
  "reservedMajordomoHeaders = [''x-majordomo-key'', ''x-majordomo-provider'', ''x-majordomo-provider-alias'',
     ''x-majordomo-client'', traceIDHeader, spanPathHeader, spanNameHeader]"

text \<open>Two headers with the same name after the trimming (\<open>x-majordomofoo\<close> and
  \<open>x-majordomo-x-majordomofoo\<close>) are one entry, which of them Go's map order decides; here the
  greater name wins.\<close>

definition extractCustomMetadata :: "(string, string) gomap \<Rightarrow> (string, string) gomap" where
  "extractCustomMetadata headers =
     foldl (\<lambda>metadata (key, value).
         if key \<in> set reservedMajordomoHeaders then metadata
         else gm_put (trim_prefix ''x-majordomo-'' key) value metadata) [] headers"

section \<open>Regions\<close>

definition BedrockRegionHeader :: string where "BedrockRegionHeader = ''X-Majordomo-Bedrock-Region''"

definition isValidAWSRegion :: "string \<Rightarrow> bool" where
  "isValidAWSRegion s \<longleftrightarrow> (if s = [] then False
     else list_all (\<lambda>r. CHR ''a'' \<le> r \<and> r \<le> CHR ''z'' \<or> CHR ''0'' \<le> r \<and> r \<le> CHR ''9'' \<or> r = CHR ''-'') s)"

text \<open>The slice \<open>host[len(prefix):len(host)-len(suffix)]\<close> panics when the two overlap.\<close>

datatype region = NoRegion | InRegion string | RegionPanic

definition region_prefix :: string where "region_prefix = ''bedrock-runtime.''"
definition region_suffix :: string where "region_suffix = ''.amazonaws.com''"

definition parseBedrockRegionFromHost :: "string \<Rightarrow> region" where
  "parseBedrockRegionFromHost host0 =
     (let host = takeWhile (\<lambda>c. c \<noteq> CHR '':'') host0 in
      if \<not> prefix region_prefix host \<or> \<not> suffix region_suffix host then NoRegion
      else if length host < length region_prefix + length region_suffix then RegionPanic
      else let region = drop (length region_prefix) (take (length host - length region_suffix) host)
           in if \<not> isValidAWSRegion region then NoRegion else InRegion region)"

definition resolveBedrockRegion :: "http_request \<Rightarrow> region" where
  "resolveBedrockRegion r =
     (let v = hdr_get (hq_Header r) BedrockRegionHeader in
      if v \<noteq> [] then (if isValidAWSRegion v then InRegion v else NoRegion)
      else parseBedrockRegionFromHost (hq_Host r))"

section \<open>Routing wishes\<close>

definition shouldConsiderRouting :: "(string, string) gomap \<Rightarrow> provider \<Rightarrow> bool" where
  "shouldConsiderRouting headers p \<longleftrightarrow>
     (if \<not> equal_fold (gm_str headers ''x-majordomo-provider'') ProviderMajordomo then False else p = ProviderOpenAI)"

definition isTruthyHeader :: "string \<Rightarrow> bool" where
  "isTruthyHeader v \<longleftrightarrow> to_lower (trim_space v) \<in> set [''1'', ''true'', ''yes'', ''on'', ''require'', ''required'']"

definition resolveDataPolicy :: "bool \<Rightarrow> string \<Rightarrow> (string, string) gomap \<Rightarrow> DataPolicy" where
  "resolveDataPolicy defaultRequireZDR defaultDataCollection headers =
     \<lparr>dp_RequireZDR = (case gm_get headers ''x-majordomo-zdr'' of
        Some v \<Rightarrow> if isTruthyHeader v then True else defaultRequireZDR
      | None \<Rightarrow> defaultRequireZDR),
      dp_RequireNoDataCollection = (case gm_get headers ''x-majordomo-data-collection'' of
        Some v \<Rightarrow> if equal_fold v ''deny'' then True else equal_fold defaultDataCollection ''deny''
      | None \<Rightarrow> equal_fold defaultDataCollection ''deny'')\<rparr>"

section \<open>The call tree of an agent run\<close>

definition applyRunTracing :: "(uuid \<Rightarrow> string \<Rightarrow> uuid) \<Rightarrow> request_log \<Rightarrow> uuid \<Rightarrow> (string, string) gomap \<Rightarrow> request_log" where
  "applyRunTracing newSHA1 lg requestID headers =
     (let traceID = gm_str headers traceIDHeader in
      if traceID = [] then lg
      else let canonicalPath = CanonicalPath (gm_str headers spanPathHeader);
               spanName = (if gm_str headers spanNameHeader = [] then lg_Model lg else gm_str headers spanNameHeader)
           in lg\<lparr>lg_TraceID := Some traceID, lg_SpanPath := Some canonicalPath, lg_SpanName := Some spanName,
                  lg_SpanID := Some requestID, lg_ParentSpanID := Some (InteriorSpanID newSHA1 traceID canonicalPath)\<rparr>)"

end
