(* ===== verification/Proxy_Log.thy ===== *)
theory Proxy_Log
  imports Request_Context Bedrock_Stream Translator
begin

text \<open>
  The request log of \<open>internal/proxy/handler.go\<close>: \<open>logRequest\<close> builds one row from the request,
  the upstream response and the decisions made on the way, and \<open>archiveBodies\<close> uploads the bodies.
\<close>

text \<open>What the proxy hands over when an exchange is over: the values of the arguments of \<open>logRequest\<close>.
  \<open>ud_Body\<close> is the upstream body as read, or translated.\<close>

record upstream_done =
  ud_StatusCode :: int
  ud_Headers :: header
  ud_Body :: string
  ud_ResponseTime :: duration

record finished =
  fi_RequestID :: uuid
  fi_Key :: api_key_info
  fi_Relayed :: relayed_key
  fi_Provider :: provider
  fi_Method :: string
  fi_Path :: string
  fi_Body :: string
  fi_Response :: upstream_done
  fi_RequestedAt :: instant
  fi_RespondedAt :: instant
  fi_Headers :: "(string, string) gomap"
  fi_Redirected :: bool
  fi_OriginalModel :: string
  fi_Route :: "RouteDecision option"

section \<open>Metrics\<close>

text \<open>The metrics of the response, with the model of the request when the response names none, and the
  provider the request was forwarded to.\<close>

definition log_metrics :: "finished \<Rightarrow> usage_metrics" where
  "log_metrics f =
     (let parser = GetParser (fi_Provider f);
          parsed = (case ParseResponse parser (ud_Body (fi_Response f)) of
              Inl _ \<Rightarrow> zero_metrics\<lparr>um_Provider := fi_Provider f, um_Model := ExtractModel parser (fi_Body f)\<rparr>
            | Inr m \<Rightarrow> m);
          m1 = (if um_Model parsed = [] then parsed\<lparr>um_Model := ExtractModel parser (fi_Body f)\<rparr> else parsed);
          m2 = (if um_Model m1 = [] \<and> fi_Provider f = ProviderBedrock
                then m1\<lparr>um_Model := ExtractBedrockModelFromPath (fi_Path f)\<rparr> else m1)
      in m2\<lparr>um_ResponseTime := ud_ResponseTime (fi_Response f), um_Provider := fi_Provider f\<rparr>)"

definition error_message :: "upstream_done \<Rightarrow> string option" where
  "error_message resp = (if ud_StatusCode resp \<ge> 400 then Some (take 500 (ud_Body resp)) else None)"

text \<open>Go's zero \<open>time.Time\<close>, January 1 of the year 1.\<close>

definition zero_time :: instant where "zero_time = days_of_date 1 1 1 * day"

definition base_log :: "pricing_service \<Rightarrow> finished \<Rightarrow> request_log" where
  "base_log prices f =
     (let metrics = log_metrics f; cost = Calculate prices metrics; resp = fi_Response f in
      \<lparr>lg_ID = fi_RequestID f, lg_MajordomoAPIKeyID = Some (ki_ID (fi_Key f)),
       lg_ProviderAPIKeyHash = rk_Hash (fi_Relayed f), lg_ProviderAPIKeyAlias = rk_Alias (fi_Relayed f),
       lg_Provider = fi_Provider f, lg_Model = um_Model metrics, lg_RequestPath = fi_Path f, lg_RequestMethod = fi_Method f,
       lg_RequestedAt = fi_RequestedAt f, lg_RespondedAt = fi_RespondedAt f,
       lg_ResponseTimeMs = ud_ResponseTime resp div millisecond,
       lg_InputTokens = um_InputTokens metrics, lg_OutputTokens = um_OutputTokens metrics,
       lg_CachedTokens = um_CachedTokens metrics, lg_CacheCreationTokens = um_CacheCreationTokens metrics,
       lg_CacheCreation5mTokens = um_CacheCreation5mTokens metrics, lg_CacheCreation1hTokens = um_CacheCreation1hTokens metrics,
       lg_InputCost = co_InputCost cost, lg_CachedCost = co_CachedCost cost, lg_CacheCreationCost = co_CacheCreationCost cost,
       lg_OutputCost = co_OutputCost cost, lg_TotalCost = co_TotalCost cost,
       lg_StatusCode = ud_StatusCode resp, lg_ErrorMessage = error_message resp,
       lg_RawMetadata = extractCustomMetadata (fi_Headers f), lg_IndexedMetadata = [], lg_BodyS3Key = None,
       lg_ModelAliasFound = co_ModelAliasFound cost, lg_CreatedAt = zero_time,
       lg_DeprecatedModelRedirected = False, lg_OriginalModel = None, lg_RoutedProvider = None,
       lg_RoutingReason = None, lg_RoutingOriginalModel = None, lg_TraceID = None, lg_SpanPath = None,
       lg_SpanName = None, lg_SpanID = None, lg_ParentSpanID = None\<rparr>)"

section \<open>Traces and bodies\<close>

definition attach_redirect :: "finished \<Rightarrow> request_log \<Rightarrow> request_log" where
  "attach_redirect f lg =
     (if fi_Redirected f then lg\<lparr>lg_DeprecatedModelRedirected := True, lg_OriginalModel := Some (fi_OriginalModel f)\<rparr> else lg)"

definition attach_route :: "finished \<Rightarrow> request_log \<Rightarrow> request_log" where
  "attach_route f lg =
     (case fi_Route f of
        None \<Rightarrow> lg
      | Some d \<Rightarrow> lg\<lparr>lg_RoutedProvider := Some (rd_Provider d), lg_RoutingReason := Some (rd_Reason d),
          lg_RoutingOriginalModel := Some (ExtractModel (GetParser (fi_Provider f)) (fi_Body f))\<rparr>)"

text \<open>The body store is None when archival is disabled; its upload says whether it succeeded. The second
  result is the upload attempted.\<close>

definition body_payload_of :: "finished \<Rightarrow> body_payload" where
  "body_payload_of f =
     \<lparr>bp_RequestID = fi_RequestID f, bp_Timestamp = fi_RequestedAt f, bp_RequestMethod = fi_Method f,
      bp_RequestPath = fi_Path f, bp_RequestHeaders = extractCustomMetadata (fi_Headers f), bp_RequestBody = fi_Body f,
      bp_ResponseStatus = ud_StatusCode (fi_Response f),
      bp_ResponseHeaders = ExtractResponseHeaders (ud_Headers (fi_Response f)), bp_ResponseBody = ud_Body (fi_Response f)\<rparr>"

definition archiveBodies :: "(uuid \<Rightarrow> string) \<Rightarrow> (string \<Rightarrow> body_payload \<Rightarrow> bool) option \<Rightarrow> string \<Rightarrow> finished \<Rightarrow> request_log
    \<Rightarrow> request_log \<times> (string \<times> body_payload) option" where
  "archiveBodies uuid_text bodyStore bodyKeyPrefix f lg =
     (case bodyStore of
        None \<Rightarrow> (lg, None)
      | Some upload \<Rightarrow>
          (let key = GenerateKey uuid_text bodyKeyPrefix (ki_ID (fi_Key f)) (fi_RequestID f) (fi_RequestedAt f);
               payload = body_payload_of f
           in (if upload key payload then lg\<lparr>lg_BodyS3Key := Some key\<rparr> else lg, Some (key, payload))))"

definition logRequest :: "(uuid \<Rightarrow> string) \<Rightarrow> (uuid \<Rightarrow> string \<Rightarrow> uuid) \<Rightarrow> pricing_service \<Rightarrow> (string \<Rightarrow> body_payload \<Rightarrow> bool) option
    \<Rightarrow> string \<Rightarrow> finished \<Rightarrow> request_log \<times> (string \<times> body_payload) option" where
  "logRequest uuid_text newSHA1 prices bodyStore bodyKeyPrefix f =
     archiveBodies uuid_text bodyStore bodyKeyPrefix f
       (attach_route f (attach_redirect f
         (applyRunTracing newSHA1 (base_log prices f) (fi_RequestID f) (fi_Headers f))))"

end
