(* ===== verification/Proxy.thy ===== *)
theory Proxy
  imports Proxy_Log
begin

text \<open>
  The proxy handler, \<open>ServeHTTP\<close> of \<open>internal/proxy/handler.go\<close>, as stages over the state of one
  request: authentication, detection, the substitution of a deprecated model, routing, translation,
  forwarding and responding. A stage goes on with a new state, replies, or panics.

  A \<open>world\<close> is what the handler observes while it serves the request: the clocks, the rows of the
  database, the state of the pricing service, the random number, and the upstream, a function of the
  request it receives. The state kept from request to request is the key resolver's cache and the
  router's health snapshot. Writes to the client succeed.
\<close>

section \<open>The handler and its surroundings\<close>

record providers_config =
  pc_OpenAI :: string
  pc_Anthropic :: string
  pc_Gemini :: string
  pc_Fireworks :: string
  pc_Together :: string
  pc_Baseten :: string

record handler =
  hd_providers :: "(provider, string) gomap"
  hd_deprecatedModels :: "(string, string) gomap option"
  hd_DefaultRequireZDR :: bool
  hd_DefaultDataCollection :: string
  hd_bodyStore :: "(string \<Rightarrow> body_payload \<Rightarrow> bool) option"
  hd_bodyKeyPrefix :: string
  hd_routing :: bool
  hd_secretStore :: "aes_store option"

text \<open>\<open>NewHandler\<close>; the upstream client has no state of its own.\<close>

definition NewHandler :: "providers_config \<Rightarrow> (string, string) gomap option \<Rightarrow> bool \<Rightarrow> string
    \<Rightarrow> (string \<Rightarrow> body_payload \<Rightarrow> bool) option \<Rightarrow> string \<Rightarrow> handler" where
  "NewHandler cfg deprecated requireZDR dataCollection bodyStore keyPrefix =
     \<lparr>hd_providers = gm_of_list [(ProviderOpenAI, pc_OpenAI cfg), (ProviderAnthropic, pc_Anthropic cfg),
        (ProviderGemini, pc_Gemini cfg), (ProviderFireworks, pc_Fireworks cfg), (ProviderTogether, pc_Together cfg),
        (ProviderBaseten, pc_Baseten cfg)],
      hd_deprecatedModels = deprecated, hd_DefaultRequireZDR = requireZDR, hd_DefaultDataCollection = dataCollection,
      hd_bodyStore = bodyStore, hd_bodyKeyPrefix = keyPrefix, hd_routing = False, hd_secretStore = None\<rparr>"

definition WithProviderRouting :: "aes_store \<Rightarrow> handler \<Rightarrow> handler" where
  "WithProviderRouting st h = h\<lparr>hd_routing := True, hd_secretStore := Some st\<rparr>"

record upstream_request =
  ur_Method :: string
  ur_URL :: string
  ur_Header :: header
  ur_Body :: string

text \<open>A reply with the body as far as it could be read.\<close>

record upstream_reply =
  us_StatusCode :: int
  us_Headers :: header
  us_Body :: string
  us_ReadError :: bool
  us_ResponseTime :: duration

record world =
  wd_uuid_text :: "uuid \<Rightarrow> string"
  wd_newSHA1 :: "uuid \<Rightarrow> string \<Rightarrow> uuid"
  wd_requestedAt :: instant
  wd_requestID :: uuid
  wd_cacheRead :: instant
  wd_cacheWrite :: instant
  wd_evicted :: "string list"
  wd_keysOk :: bool
  wd_keys :: "api_key list"
  wd_prices :: pricing_service
  wd_healthAt :: instant
  wd_healthRows :: "endpoint_health list option"
  wd_randFloat :: f64
  wd_providerKeysOk :: bool
  wd_providerKeys :: "provider_api_key list"
  wd_upstream :: "upstream_request \<Rightarrow> upstream_reply option"
  wd_respondedAt :: instant
  wd_pricesAtLog :: pricing_service
  wd_gzip :: "string \<Rightarrow> string option"
  wd_canFlush :: bool

datatype 'a stage = Next 'a | Reply http_response | Crash

primrec next_stage :: "'a stage \<Rightarrow> ('a \<Rightarrow> 'b stage) \<Rightarrow> 'b stage" where
  "next_stage (Next x) f = f x"
| "next_stage (Reply r) f = Reply r"
| "next_stage Crash f = Crash"

text \<open>The state of one request: what was read of it, the request as it is being rewritten, and the
  headers of the response so far.\<close>

record call =
  cl_Key :: api_key_info
  cl_Relayed :: relayed_key
  cl_Body :: string
  cl_Headers :: "(string, string) gomap"
  cl_Request :: http_request
  cl_Provider :: provider
  cl_BaseURL :: string
  cl_UpstreamBody :: string
  cl_Redirected :: bool
  cl_OriginalModel :: string
  cl_Route :: "RouteDecision option"
  cl_Response :: header

section \<open>Authentication and detection\<close>

definition authenticate :: "world \<Rightarrow> http_request \<Rightarrow> resolver \<Rightarrow> resolver \<times> uuid option \<times> api_key_info stage" where
  "authenticate w req r =
     (case ResolveAPIKey (wd_cacheRead w) (wd_cacheWrite w) (wd_evicted w)
             (\<lambda>hash. GetAPIKeyByHash (wd_keysOk w) hash (wd_keys w)) (hdr_get (hq_Header req) ''X-Majordomo-Key'') r of
        (r', answer, touched) \<Rightarrow>
          (r', touched, case answer of Inl _ \<Rightarrow> Reply (WriteJSONError [] 401 ''unauthorized'') | Inr info \<Rightarrow> Next info))"

text \<open>\<open>%q\<close>, for printable text: quotation marks and backslashes are escaped, and so is a control character.\<close>

definition go_quote_char :: "char \<Rightarrow> string" where
  "go_quote_char c =
     (if c = quote_c \<or> c = bslash_c then [bslash_c, c]
      else if c = CHR 0x07 then bslash_c # ''a'' else if c = CHR 0x08 then bslash_c # ''b''
      else if c = CHR 0x0C then bslash_c # ''f'' else if c = CHR 0x0A then bslash_c # ''n''
      else if c = CHR 0x0D then bslash_c # ''r'' else if c = CHR 0x09 then bslash_c # ''t''
      else if c = CHR 0x0B then bslash_c # ''v''
      else if c < CHR 0x20 \<or> c = CHR 0x7F
      then bslash_c # ''x'' @ [hex_digit (of_char c div 16), hex_digit (of_char c mod 16)]
      else [c])"

definition go_quote :: "string \<Rightarrow> string" where
  "go_quote s = quote_c # concat (map go_quote_char s) @ [quote_c]"

definition unrecognized_path :: "string \<Rightarrow> string \<Rightarrow> string" where
  "unrecognized_path path host = ''unrecognized request path '' @ go_quote path @ '' (host '' @ go_quote host
     @ ''); supported paths: /v1/chat/completions, /v1/completions, /v1/embeddings, /v1/responses (OpenAI; /v1 prefix optional), /v1/messages (Anthropic), /<model>:generateContent (Gemini), /model/<modelId>/converse[-stream] (Bedrock). Alternatively, set X-Majordomo-Provider header.''"

definition bedrock_region_needed :: string where
  "bedrock_region_needed = ''Bedrock requests require either an X-Majordomo-Bedrock-Region header or a Host header of the form bedrock-runtime.<region>.amazonaws.com''"

text \<open>The base URL of a Bedrock provider carries the region; others keep the one detected.\<close>

definition regional_base :: "http_request \<Rightarrow> provider_info \<Rightarrow> string stage" where
  "regional_base req info =
     (if pv_Provider info = ProviderBedrock \<or> pv_Provider info = ProviderBedrockMantle then
        (case resolveBedrockRegion req of
           RegionPanic \<Rightarrow> Crash
         | NoRegion \<Rightarrow> Reply (WriteJSONError [] 400 bedrock_region_needed)
         | InRegion region \<Rightarrow>
             Next (if pv_Provider info = ProviderBedrockMantle
                   then ''https://bedrock-mantle.'' @ region @ ''.api.aws/anthropic''
                   else ''https://bedrock-runtime.'' @ region @ ''.amazonaws.com''))
      else Next (pv_BaseURL info))"

definition configured_base :: "(provider, string) gomap \<Rightarrow> provider \<Rightarrow> string \<Rightarrow> string" where
  "configured_base providers p detected =
     (case gm_get providers p of Some u \<Rightarrow> if u = [] then detected else u | None \<Rightarrow> detected)"

definition read_call :: "handler \<Rightarrow> http_request \<Rightarrow> api_key_info \<Rightarrow> call stage" where
  "read_call h req0 key =
     (case hq_Body req0 of
        None \<Rightarrow> Reply (WriteJSONError [] 400 ''failed to read request body'')
      | Some body \<Rightarrow>
          (let headers = extractHeaders (hq_Header req0);
               req = req0\<lparr>hq_Path := NormalizeOpenAIPath (hq_Path req0)\<rparr>;
               info = Detect (hq_Path req) headers
           in if pv_Provider info = ProviderUnknown
              then Reply (WriteJSONError [] 400 (unrecognized_path (hq_Path req) (hq_Host req)))
              else next_stage (regional_base req info) (\<lambda>detected.
                Next \<lparr>cl_Key = key, cl_Relayed = extractProviderKeyInfo (hq_Header req0), cl_Body = body, cl_Headers = headers,
                      cl_Request = req, cl_Provider = pv_Provider info,
                      cl_BaseURL = configured_base (hd_providers h) (pv_Provider info) detected,
                      cl_UpstreamBody = body, cl_Redirected = False, cl_OriginalModel = [], cl_Route = None,
                      cl_Response = []\<rparr>)))"

section \<open>Deprecated models\<close>

definition requested_model :: "call \<Rightarrow> string" where
  "requested_model c =
     (if cl_Provider c = ProviderBedrock then ExtractBedrockModelFromPath (hq_Path (cl_Request c))
      else ExtractModel (GetParser (cl_Provider c)) (cl_Body c))"

definition substituted :: "string \<Rightarrow> string \<Rightarrow> string \<Rightarrow> call \<Rightarrow> call" where
  "substituted model replacement overridden c =
     c\<lparr>cl_UpstreamBody := overridden, cl_Redirected := True, cl_OriginalModel := model,
       cl_Response := (if ki_DeprecatedModelBehavior (cl_Key c) = BehaviorWarn
         then hdr_set ''X-Majordomo-Deprecated-Replacement'' replacement
                (hdr_set ''X-Majordomo-Deprecated-Model'' model (cl_Response c))
         else cl_Response c)\<rparr>"

definition replace_deprecated :: "handler \<Rightarrow> call \<Rightarrow> call stage" where
  "replace_deprecated h c =
     (case hd_deprecatedModels h of
        None \<Rightarrow> Next c
      | Some models \<Rightarrow>
          (case Lookup models (requested_model c) of
             None \<Rightarrow> Next c
           | Some replacement \<Rightarrow>
               if ki_DeprecatedModelBehavior (cl_Key c) = BehaviorRedirect
                  \<or> ki_DeprecatedModelBehavior (cl_Key c) = BehaviorWarn
               then (case OverrideModel (cl_Body c) replacement of
                       OverridePanic \<Rightarrow> Crash
                     | OverrideError \<Rightarrow> Next c
                     | Overridden overridden \<Rightarrow> Next (substituted (requested_model c) replacement overridden c))
               else Next c))"

section \<open>Routing\<close>

definition has_key :: "world \<Rightarrow> string \<Rightarrow> bool option" where
  "has_key w p = (case HasKey (wd_providerKeysOk w) p (wd_providerKeys w) of Inl _ \<Rightarrow> None | Inr b \<Rightarrow> Some b)"

definition stored_credential :: "handler \<Rightarrow> world \<Rightarrow> string \<Rightarrow> credential_error + string" where
  "stored_credential h w p =
     resolveRoutedCredential (Some (\<lambda>q. GetKey (wd_providerKeysOk w) q (wd_providerKeys w))) (hd_secretStore h) p"

definition route_error_message :: "route_error \<Rightarrow> string \<Rightarrow> string" where
  "route_error_message e model =
     (case e of
        ErrNoUsableEndpoint _ \<Rightarrow> ''no configured provider can serve model '' @ go_quote model
      | ErrNoCompliantEndpoint _ \<Rightarrow> ''no provider for model '' @ go_quote model @ '' satisfies the requested data policy'')"

definition not_routable :: "string \<Rightarrow> string" where
  "not_routable model = ''model '' @ go_quote model
     @ '' is not routable; set x-majordomo-provider to a concrete provider or request a routable model slug''"

text \<open>\<open>strings.Join\<close> with a comma and a space.\<close>

fun comma_join :: "string list \<Rightarrow> string" where
  "comma_join [] = []"
| "comma_join [x] = x"
| "comma_join (x # y # ys) = x @ '', '' @ comma_join (y # ys)"

definition routed :: "RouteDecision \<Rightarrow> string \<Rightarrow> string \<Rightarrow> string list \<Rightarrow> call \<Rightarrow> call" where
  "routed d key rewritten applied c =
     (let fields = comma_join applied;
          marked = hdr_set ''X-Majordomo-Routed-Model'' (rd_ProviderModelID d)
                     (hdr_set ''X-Majordomo-Routed-Provider'' (rd_Provider d) (cl_Response c))
      in c\<lparr>cl_UpstreamBody := rewritten, cl_Provider := rd_Provider d, cl_BaseURL := rd_BaseURL d,
           cl_Request := (cl_Request c)\<lparr>hq_Header := hdr_set ''Authorization'' (''Bearer '' @ key) (hq_Header (cl_Request c))\<rparr>,
           cl_Response := (if applied \<noteq> [] then hdr_set ''X-Majordomo-Routed-Defaults'' fields marked else marked),
           cl_Route := Some (if applied \<noteq> []
             then d\<lparr>rd_Reason := rd_Reason d @ ''; applied request defaults: '' @ fields\<rparr> else d)\<rparr>)"

definition apply_decision :: "handler \<Rightarrow> world \<Rightarrow> call \<Rightarrow> RouteDecision \<Rightarrow> call stage" where
  "apply_decision h w c d =
     (case stored_credential h w (rd_Provider d) of
        Inl _ \<Rightarrow> Reply (WriteJSONError (cl_Response c) 502 ''failed to resolve provider credential for routed request'')
      | Inr key \<Rightarrow>
          (case RewriteRoutedRequest (cl_UpstreamBody c) (rd_ProviderModelID d) (rd_RequestDefaults d) of
             Inl _ \<Rightarrow> Reply (WriteJSONError (cl_Response c) 500 ''failed to prepare routed request'')
           | Inr (rewritten, applied) \<Rightarrow> Next (routed d key rewritten applied c)))"

definition route_call :: "handler \<Rightarrow> world \<Rightarrow> healthSnapshot option \<Rightarrow> call \<Rightarrow> healthSnapshot option \<times> call stage" where
  "route_call h w snapshot c =
     (if hd_routing h \<and> shouldConsiderRouting (cl_Headers c) (cl_Provider c)
      then let model = ExtractModel (GetParser (cl_Provider c)) (cl_UpstreamBody c);
               policy = resolveDataPolicy (hd_DefaultRequireZDR h) (hd_DefaultDataCollection h) (cl_Headers c)
           in case Route (Candidates (wd_prices w)) (Price (wd_prices w)) (has_key w) (wd_randFloat w)
                     (wd_healthAt w) (wd_healthRows w) model policy snapshot of
                (answer, snapshot') \<Rightarrow>
                  (snapshot', case answer of
                     None \<Rightarrow> Reply (WriteJSONError (cl_Response c) 400 (not_routable model))
                   | Some (Inl e) \<Rightarrow> Reply (WriteJSONError (cl_Response c) 502 (route_error_message e model))
                   | Some (Inr d) \<Rightarrow> apply_decision h w c d)
      else (snapshot, Next c))"

section \<open>Translation and the upstream request\<close>

definition bearer_to_api_key :: "header \<Rightarrow> header" where
  "bearer_to_api_key h =
     (let authHeader = hdr_get h ''Authorization'' in
      if authHeader = [] then h
      else hdr_set ''Anthropic-Version'' ''2023-06-01''
             (hdr_del ''Authorization'' (hdr_set ''X-Api-Key'' (trim_prefix ''Bearer '' authHeader) h)))"

definition translate_call :: "call \<Rightarrow> call" where
  "translate_call c =
     (if IsTranslationRequired (cl_Provider c)
      then let c' = (case TranslateOpenAIToAnthropic (cl_Body c) of
                   None \<Rightarrow> c
                 | Some (translated, newPath) \<Rightarrow>
                     c\<lparr>cl_UpstreamBody := translated, cl_Request := (cl_Request c)\<lparr>hq_Path := newPath\<rparr>\<rparr>)
           in c'\<lparr>cl_Request := (cl_Request c')\<lparr>hq_Header := bearer_to_api_key (hq_Header (cl_Request c'))\<rparr>\<rparr>
      else c)"

definition strip_version :: "call \<Rightarrow> call" where
  "strip_version c =
     (if BaseURLHasVersionSegment (cl_Provider c)
      then c\<lparr>cl_Request := (cl_Request c)\<lparr>hq_Path := StripOpenAIVersionPrefix (hq_Path (cl_Request c))\<rparr>\<rparr> else c)"

text \<open>What \<open>Forward\<close> and \<open>ForwardStream\<close> send; they differ in how the response is read.\<close>

definition forward_request :: "call \<Rightarrow> upstream_request" where
  "forward_request c =
     (let req = cl_Request c in
      \<lparr>ur_Method = hq_Method req,
       ur_URL = cl_BaseURL c @ hq_Path req @ (if hq_RawQuery req \<noteq> [] then CHR ''?'' # hq_RawQuery req else []),
       ur_Header = copyHeaders (hq_Header req) [], ur_Body = cl_UpstreamBody c\<rparr>)"

section \<open>Responding\<close>

definition upstream_failed :: "call \<Rightarrow> http_response" where
  "upstream_failed c = WriteJSONError (cl_Response c) 502 ''upstream request failed''"

definition done_of :: "upstream_reply \<Rightarrow> upstream_done" where
  "done_of u = \<lparr>ud_StatusCode = us_StatusCode u, ud_Headers = us_Headers u, ud_Body = us_Body u,
     ud_ResponseTime = us_ResponseTime u\<rparr>"

definition is_stream :: "header \<Rightarrow> bool" where
  "is_stream h \<longleftrightarrow> sublist ''text/event-stream'' (hdr_get h ''Content-Type'')
     \<or> sublist ''vnd.amazon.eventstream'' (hdr_get h ''Content-Type'')"

definition respond_stream :: "world \<Rightarrow> call \<Rightarrow> upstream_done \<Rightarrow> http_response" where
  "respond_stream w c u = \<lparr>rp_Status = ud_StatusCode u, rp_Header = copyResponseHeaders (ud_Headers u) (cl_Response c),
     rp_Body = ud_Body u, rp_Flushed = wd_canFlush w\<rparr>"

definition respond_buffered :: "world \<Rightarrow> call \<Rightarrow> upstream_done \<Rightarrow> http_response" where
  "respond_buffered w c u =
     (let header = copyResponseHeaders (ud_Headers u) (cl_Response c);
          contentType = hdr_get (ud_Headers u) ''Content-Type'';
          plain = \<lparr>rp_Status = ud_StatusCode u, rp_Header = header, rp_Body = ud_Body u, rp_Flushed = False\<rparr>
      in if \<not> sublist ''text/event-stream'' contentType
            \<and> ShouldCompress (hdr_get (hq_Header (cl_Request c)) ''Accept-Encoding'') contentType (length (ud_Body u))
         then (case wd_gzip w (ud_Body u) of
                 None \<Rightarrow> plain
               | Some compressed \<Rightarrow>
                   plain\<lparr>rp_Body := compressed,
                     rp_Header := hdr_set ''Vary'' ''Accept-Encoding'' (hdr_set ''Content-Encoding'' ''gzip'' header)\<rparr>)
         else plain)"

definition translate_done :: "upstream_done \<Rightarrow> upstream_done" where
  "translate_done u =
     (if ud_StatusCode u < 400
      then (case TranslateAnthropicToOpenAI (ud_Body u) [] of None \<Rightarrow> u | Some t \<Rightarrow> u\<lparr>ud_Body := t\<rparr>)
      else u)"

text \<open>The response, and what is logged: nothing when the upstream failed.\<close>

definition exchange :: "world \<Rightarrow> call \<Rightarrow> http_response \<times> upstream_done option" where
  "exchange w c =
     (case wd_upstream w (forward_request c) of
        None \<Rightarrow> (upstream_failed c, None)
      | Some reply \<Rightarrow>
          if \<not> IsTranslationRequired (cl_Provider c)
          then if is_stream (us_Headers reply) then (respond_stream w c (done_of reply), Some (done_of reply))
               else if us_ReadError reply then (upstream_failed c, None)
               else (respond_buffered w c (done_of reply), Some (done_of reply))
          else if us_ReadError reply then (upstream_failed c, None)
               else let u = translate_done (done_of reply) in (respond_buffered w c u, Some u))"

definition finished_of :: "world \<Rightarrow> call \<Rightarrow> upstream_done \<Rightarrow> finished" where
  "finished_of w c u =
     \<lparr>fi_RequestID = wd_requestID w, fi_Key = cl_Key c, fi_Relayed = cl_Relayed c, fi_Provider = cl_Provider c,
      fi_Method = hq_Method (cl_Request c), fi_Path = hq_Path (cl_Request c), fi_Body = cl_Body c, fi_Response = u,
      fi_RequestedAt = wd_requestedAt w, fi_RespondedAt = wd_respondedAt w, fi_Headers = cl_Headers c,
      fi_Redirected = cl_Redirected c, fi_OriginalModel = cl_OriginalModel c, fi_Route = cl_Route c\<rparr>"

section \<open>The handler\<close>

text \<open>All that one request brings about: the response, or none after a panic; the request sent upstream;
  the log entry and the upload of the bodies, made in the background; and the key whose last use is
  recorded.\<close>

record outcome =
  oc_Response :: "http_response option"
  oc_Forwarded :: "upstream_request option"
  oc_Log :: "request_log option"
  oc_Archived :: "(string \<times> body_payload) option"
  oc_Touched :: "uuid option"

record proxy_state =
  px_resolver :: resolver
  px_health :: "healthSnapshot option"

definition replied :: "http_response option \<Rightarrow> uuid option \<Rightarrow> outcome" where
  "replied r touched = \<lparr>oc_Response = r, oc_Forwarded = None, oc_Log = None, oc_Archived = None, oc_Touched = touched\<rparr>"

definition forward_call :: "handler \<Rightarrow> world \<Rightarrow> uuid option \<Rightarrow> call \<Rightarrow> outcome" where
  "forward_call h w touched c =
     (let fwd = Some (forward_request c) in
      case exchange w c of
        (r, None) \<Rightarrow> (replied (Some r) touched)\<lparr>oc_Forwarded := fwd\<rparr>
      | (r, Some u) \<Rightarrow>
          (case logRequest (wd_uuid_text w) (wd_newSHA1 w) (wd_pricesAtLog w) (hd_bodyStore h) (hd_bodyKeyPrefix h)
                  (finished_of w c u) of
             (lg, archived) \<Rightarrow> \<lparr>oc_Response = Some r, oc_Forwarded = fwd, oc_Log = Some lg, oc_Archived = archived,
                oc_Touched = touched\<rparr>))"

primrec conclude :: "handler \<Rightarrow> world \<Rightarrow> uuid option \<Rightarrow> call stage \<Rightarrow> outcome" where
  "conclude h w touched (Next c) = forward_call h w touched (strip_version (translate_call c))"
| "conclude h w touched (Reply r) = replied (Some r) touched"
| "conclude h w touched Crash = replied None touched"

primrec route_stage :: "handler \<Rightarrow> world \<Rightarrow> healthSnapshot option \<Rightarrow> call stage \<Rightarrow> healthSnapshot option \<times> call stage" where
  "route_stage h w snapshot (Next c) = route_call h w snapshot c"
| "route_stage h w snapshot (Reply r) = (snapshot, Reply r)"
| "route_stage h w snapshot Crash = (snapshot, Crash)"

definition ServeHTTP :: "handler \<Rightarrow> world \<Rightarrow> http_request \<Rightarrow> proxy_state \<Rightarrow> proxy_state \<times> outcome" where
  "ServeHTTP h w req s =
     (case authenticate w req (px_resolver s) of
        (resolver', touched, key) \<Rightarrow>
          (case route_stage h w (px_health s) (next_stage (next_stage key (read_call h req)) (replace_deprecated h)) of
             (health', c) \<Rightarrow> (\<lparr>px_resolver = resolver', px_health = health'\<rparr>, conclude h w touched c)))"

end
