(* ===== verification/Proxy_Properties.thy ===== *)
theory Proxy_Properties
  imports Proxy
begin

text \<open>
  What the proxy handler guarantees: only an accepted key gets through, the gateway's own headers stay
  inside, a routed request goes to a compliant endpoint with its stored credential, what is logged is
  what was forwarded and priced, and what becomes of a deprecated model.
\<close>

named_theorems call_fields "what the stages keep of the state of a request"

section \<open>The way of a forwarded request\<close>

text \<open>\<open>served h w req s info c0 c1 c2\<close>: the key info accepted, the request as read, with a deprecated model
  replaced, and routed.\<close>

definition served :: "handler \<Rightarrow> world \<Rightarrow> http_request \<Rightarrow> proxy_state \<Rightarrow> api_key_info \<Rightarrow> call \<Rightarrow> call \<Rightarrow> call \<Rightarrow> bool" where
  "served h w req s info c0 c1 c2 \<longleftrightarrow>
     snd (snd (authenticate w req (px_resolver s))) = Next info
     \<and> read_call h req info = Next c0
     \<and> replace_deprecated h c0 = Next c1
     \<and> snd (route_call h w (px_health s) c1) = Next c2"

definition sent :: "call \<Rightarrow> call" where
  "sent c = strip_version (translate_call c)"

lemma next_stage_Next: "next_stage x f = Next y \<longleftrightarrow> (\<exists>z. x = Next z \<and> f z = Next y)"
  by (cases x) auto

lemma replied_simps [simp]:
  "oc_Response (replied r t) = r" "oc_Forwarded (replied r t) = None" "oc_Log (replied r t) = None"
  "oc_Archived (replied r t) = None" "oc_Touched (replied r t) = t"
  by (simp_all add: replied_def)

lemma forward_call_simps [simp]:
  "oc_Forwarded (forward_call h w t c) = Some (forward_request c)"
  "oc_Response (forward_call h w t c) = Some (fst (exchange w c))"
  "oc_Touched (forward_call h w t c) = t"
  "oc_Log (forward_call h w t c) =
     map_option (\<lambda>u. fst (logRequest (wd_uuid_text w) (wd_newSHA1 w) (wd_pricesAtLog w) (hd_bodyStore h) (hd_bodyKeyPrefix h)
       (finished_of w c u))) (snd (exchange w c))"
  by (simp_all add: forward_call_def Let_def split: prod.split option.split)

lemma conclude_forwarded:
  "oc_Forwarded (conclude h w t x) = Some u \<longleftrightarrow> (\<exists>c. x = Next c \<and> u = forward_request (sent c))"
  by (cases x) (auto simp: sent_def)

lemma conclude_log:
  assumes "oc_Log (conclude h w t x) = Some lg"
  obtains c r u where "x = Next c" "exchange w (sent c) = (r, Some u)"
    "oc_Forwarded (conclude h w t x) = Some (forward_request (sent c))" "oc_Response (conclude h w t x) = Some r"
    "lg = fst (logRequest (wd_uuid_text w) (wd_newSHA1 w) (wd_pricesAtLog w) (hd_bodyStore h) (hd_bodyKeyPrefix h)
            (finished_of w (sent c) u))"
proof (cases x)
  case (Next c)
  with assms obtain u where u: "snd (exchange w (sent c)) = Some u"
    "lg = fst (logRequest (wd_uuid_text w) (wd_newSHA1 w) (wd_pricesAtLog w) (hd_bodyStore h) (hd_bodyKeyPrefix h)
            (finished_of w (sent c) u))"
    by (auto simp: sent_def)
  show thesis
    by (rule that [of c "fst (exchange w (sent c))" u]) (simp_all add: Next u prod_eq_iff, simp_all add: sent_def)
qed (use assms in auto)

lemma route_stage_Next: "snd (route_stage h w sn x) = Next c \<longleftrightarrow> (\<exists>c1. x = Next c1 \<and> snd (route_call h w sn c1) = Next c)"
  by (cases x) auto

lemma ServeHTTP_conclude:
  obtains t x where "snd (ServeHTTP h w req s) = conclude h w t x"
    "\<And>c2. x = Next c2 \<longleftrightarrow> (\<exists>info c0 c1. served h w req s info c0 c1 c2)"
proof -
  obtain r' t key where a: "authenticate w req (px_resolver s) = (r', t, key)" by (cases "authenticate w req (px_resolver s)")
  obtain h' x where x: "route_stage h w (px_health s) (next_stage (next_stage key (read_call h req)) (replace_deprecated h)) = (h', x)"
    by fastforce
  have "x = snd (route_stage h w (px_health s) (next_stage (next_stage key (read_call h req)) (replace_deprecated h)))"
    by (simp add: x)
  then have "x = Next c2 \<longleftrightarrow> (\<exists>info c0 c1. served h w req s info c0 c1 c2)" for c2
    by (auto simp: route_stage_Next served_def a next_stage_Next)
  with that [of t x] a x show thesis by (simp add: ServeHTTP_def)
qed

lemma forwarded_served:
  assumes "oc_Forwarded (snd (ServeHTTP h w req s)) = Some u"
  obtains info c0 c1 c2 where "served h w req s info c0 c1 c2" "u = forward_request (sent c2)"
proof -
  obtain t x where x: "snd (ServeHTTP h w req s) = conclude h w t x"
    "\<And>c2. x = Next c2 \<longleftrightarrow> (\<exists>info c0 c1. served h w req s info c0 c1 c2)"
    by (rule ServeHTTP_conclude [of h w req s]) blast
  with assms that show thesis by (auto simp: conclude_forwarded)
qed

lemma logged_served:
  assumes "oc_Log (snd (ServeHTTP h w req s)) = Some lg"
  obtains info c0 c1 c2 r u where "served h w req s info c0 c1 c2" "exchange w (sent c2) = (r, Some u)"
    "oc_Forwarded (snd (ServeHTTP h w req s)) = Some (forward_request (sent c2))"
    "oc_Response (snd (ServeHTTP h w req s)) = Some r"
    "lg = fst (logRequest (wd_uuid_text w) (wd_newSHA1 w) (wd_pricesAtLog w) (hd_bodyStore h) (hd_bodyKeyPrefix h)
            (finished_of w (sent c2) u))"
proof -
  obtain t x where x: "snd (ServeHTTP h w req s) = conclude h w t x"
    "\<And>c2. x = Next c2 \<longleftrightarrow> (\<exists>info c0 c1. served h w req s info c0 c1 c2)"
    by (rule ServeHTTP_conclude [of h w req s]) blast
  from assms x(1) have "oc_Log (conclude h w t x) = Some lg" by simp
  then show thesis by (rule conclude_log) (metis that x)
qed

lemma archiveBodies_fields [simp]:
  "lg_ID (fst (archiveBodies u b p f lg)) = lg_ID lg"
  "lg_MajordomoAPIKeyID (fst (archiveBodies u b p f lg)) = lg_MajordomoAPIKeyID lg"
  "lg_ProviderAPIKeyHash (fst (archiveBodies u b p f lg)) = lg_ProviderAPIKeyHash lg"
  "lg_Provider (fst (archiveBodies u b p f lg)) = lg_Provider lg"
  "lg_Model (fst (archiveBodies u b p f lg)) = lg_Model lg"
  "lg_RequestPath (fst (archiveBodies u b p f lg)) = lg_RequestPath lg"
  "lg_RequestMethod (fst (archiveBodies u b p f lg)) = lg_RequestMethod lg"
  "lg_InputTokens (fst (archiveBodies u b p f lg)) = lg_InputTokens lg"
  "lg_OutputTokens (fst (archiveBodies u b p f lg)) = lg_OutputTokens lg"
  "lg_CachedTokens (fst (archiveBodies u b p f lg)) = lg_CachedTokens lg"
  "lg_CacheCreationTokens (fst (archiveBodies u b p f lg)) = lg_CacheCreationTokens lg"
  "lg_TotalCost (fst (archiveBodies u b p f lg)) = lg_TotalCost lg"
  "lg_StatusCode (fst (archiveBodies u b p f lg)) = lg_StatusCode lg"
  "lg_ErrorMessage (fst (archiveBodies u b p f lg)) = lg_ErrorMessage lg"
  "lg_RawMetadata (fst (archiveBodies u b p f lg)) = lg_RawMetadata lg"
  "lg_ModelAliasFound (fst (archiveBodies u b p f lg)) = lg_ModelAliasFound lg"
  "lg_DeprecatedModelRedirected (fst (archiveBodies u b p f lg)) = lg_DeprecatedModelRedirected lg"
  "lg_OriginalModel (fst (archiveBodies u b p f lg)) = lg_OriginalModel lg"
  "lg_RoutedProvider (fst (archiveBodies u b p f lg)) = lg_RoutedProvider lg"
  "lg_RoutingReason (fst (archiveBodies u b p f lg)) = lg_RoutingReason lg"
  "lg_RoutingOriginalModel (fst (archiveBodies u b p f lg)) = lg_RoutingOriginalModel lg"
  "lg_TraceID (fst (archiveBodies u b p f lg)) = lg_TraceID lg"
  "lg_SpanPath (fst (archiveBodies u b p f lg)) = lg_SpanPath lg"
  "lg_SpanName (fst (archiveBodies u b p f lg)) = lg_SpanName lg"
  "lg_SpanID (fst (archiveBodies u b p f lg)) = lg_SpanID lg"
  "lg_ParentSpanID (fst (archiveBodies u b p f lg)) = lg_ParentSpanID lg"
  by (simp_all add: archiveBodies_def Let_def split: option.split)

lemma applyRunTracing_fields [simp]:
  "lg_ID (applyRunTracing n lg i hs) = lg_ID lg"
  "lg_MajordomoAPIKeyID (applyRunTracing n lg i hs) = lg_MajordomoAPIKeyID lg"
  "lg_ProviderAPIKeyHash (applyRunTracing n lg i hs) = lg_ProviderAPIKeyHash lg"
  "lg_Provider (applyRunTracing n lg i hs) = lg_Provider lg"
  "lg_Model (applyRunTracing n lg i hs) = lg_Model lg"
  "lg_RequestPath (applyRunTracing n lg i hs) = lg_RequestPath lg"
  "lg_RequestMethod (applyRunTracing n lg i hs) = lg_RequestMethod lg"
  "lg_InputTokens (applyRunTracing n lg i hs) = lg_InputTokens lg"
  "lg_OutputTokens (applyRunTracing n lg i hs) = lg_OutputTokens lg"
  "lg_CachedTokens (applyRunTracing n lg i hs) = lg_CachedTokens lg"
  "lg_CacheCreationTokens (applyRunTracing n lg i hs) = lg_CacheCreationTokens lg"
  "lg_TotalCost (applyRunTracing n lg i hs) = lg_TotalCost lg"
  "lg_StatusCode (applyRunTracing n lg i hs) = lg_StatusCode lg"
  "lg_ErrorMessage (applyRunTracing n lg i hs) = lg_ErrorMessage lg"
  "lg_RawMetadata (applyRunTracing n lg i hs) = lg_RawMetadata lg"
  "lg_ModelAliasFound (applyRunTracing n lg i hs) = lg_ModelAliasFound lg"
  "lg_DeprecatedModelRedirected (applyRunTracing n lg i hs) = lg_DeprecatedModelRedirected lg"
  "lg_OriginalModel (applyRunTracing n lg i hs) = lg_OriginalModel lg"
  "lg_RoutedProvider (applyRunTracing n lg i hs) = lg_RoutedProvider lg"
  "lg_RoutingReason (applyRunTracing n lg i hs) = lg_RoutingReason lg"
  "lg_RoutingOriginalModel (applyRunTracing n lg i hs) = lg_RoutingOriginalModel lg"
  by (simp_all add: applyRunTracing_def Let_def)

lemma attach_redirect_fields [simp]:
  "lg_ID (attach_redirect f lg) = lg_ID lg"
  "lg_MajordomoAPIKeyID (attach_redirect f lg) = lg_MajordomoAPIKeyID lg"
  "lg_ProviderAPIKeyHash (attach_redirect f lg) = lg_ProviderAPIKeyHash lg"
  "lg_Provider (attach_redirect f lg) = lg_Provider lg"
  "lg_Model (attach_redirect f lg) = lg_Model lg"
  "lg_RequestPath (attach_redirect f lg) = lg_RequestPath lg"
  "lg_RequestMethod (attach_redirect f lg) = lg_RequestMethod lg"
  "lg_InputTokens (attach_redirect f lg) = lg_InputTokens lg"
  "lg_OutputTokens (attach_redirect f lg) = lg_OutputTokens lg"
  "lg_CachedTokens (attach_redirect f lg) = lg_CachedTokens lg"
  "lg_CacheCreationTokens (attach_redirect f lg) = lg_CacheCreationTokens lg"
  "lg_TotalCost (attach_redirect f lg) = lg_TotalCost lg"
  "lg_StatusCode (attach_redirect f lg) = lg_StatusCode lg"
  "lg_ErrorMessage (attach_redirect f lg) = lg_ErrorMessage lg"
  "lg_RawMetadata (attach_redirect f lg) = lg_RawMetadata lg"
  "lg_ModelAliasFound (attach_redirect f lg) = lg_ModelAliasFound lg"
  "lg_RoutedProvider (attach_redirect f lg) = lg_RoutedProvider lg"
  "lg_RoutingReason (attach_redirect f lg) = lg_RoutingReason lg"
  "lg_RoutingOriginalModel (attach_redirect f lg) = lg_RoutingOriginalModel lg"
  "lg_TraceID (attach_redirect f lg) = lg_TraceID lg"
  "lg_SpanPath (attach_redirect f lg) = lg_SpanPath lg"
  "lg_SpanName (attach_redirect f lg) = lg_SpanName lg"
  "lg_SpanID (attach_redirect f lg) = lg_SpanID lg"
  "lg_ParentSpanID (attach_redirect f lg) = lg_ParentSpanID lg"
  by (simp_all add: attach_redirect_def)

lemma attach_route_fields [simp]:
  "lg_ID (attach_route f lg) = lg_ID lg"
  "lg_MajordomoAPIKeyID (attach_route f lg) = lg_MajordomoAPIKeyID lg"
  "lg_ProviderAPIKeyHash (attach_route f lg) = lg_ProviderAPIKeyHash lg"
  "lg_Provider (attach_route f lg) = lg_Provider lg"
  "lg_Model (attach_route f lg) = lg_Model lg"
  "lg_RequestPath (attach_route f lg) = lg_RequestPath lg"
  "lg_RequestMethod (attach_route f lg) = lg_RequestMethod lg"
  "lg_InputTokens (attach_route f lg) = lg_InputTokens lg"
  "lg_OutputTokens (attach_route f lg) = lg_OutputTokens lg"
  "lg_CachedTokens (attach_route f lg) = lg_CachedTokens lg"
  "lg_CacheCreationTokens (attach_route f lg) = lg_CacheCreationTokens lg"
  "lg_TotalCost (attach_route f lg) = lg_TotalCost lg"
  "lg_StatusCode (attach_route f lg) = lg_StatusCode lg"
  "lg_ErrorMessage (attach_route f lg) = lg_ErrorMessage lg"
  "lg_RawMetadata (attach_route f lg) = lg_RawMetadata lg"
  "lg_ModelAliasFound (attach_route f lg) = lg_ModelAliasFound lg"
  "lg_DeprecatedModelRedirected (attach_route f lg) = lg_DeprecatedModelRedirected lg"
  "lg_OriginalModel (attach_route f lg) = lg_OriginalModel lg"
  "lg_TraceID (attach_route f lg) = lg_TraceID lg"
  "lg_SpanPath (attach_route f lg) = lg_SpanPath lg"
  "lg_SpanName (attach_route f lg) = lg_SpanName lg"
  "lg_SpanID (attach_route f lg) = lg_SpanID lg"
  "lg_ParentSpanID (attach_route f lg) = lg_ParentSpanID lg"
  by (simp_all add: attach_route_def split: option.split)

lemma base_log_unset [simp]:
  "lg_DeprecatedModelRedirected (base_log ps f) = False" "lg_OriginalModel (base_log ps f) = None"
  "lg_RoutedProvider (base_log ps f) = None" "lg_RoutingReason (base_log ps f) = None"
  by (simp_all add: base_log_def Let_def)

lemma logRequest_fields:
  fixes f n ps u b k
  defines "lg \<equiv> fst (logRequest u n ps b k f)"
  shows "lg_MajordomoAPIKeyID lg = Some (ki_ID (fi_Key f))" "lg_Provider lg = fi_Provider f"
    "lg_Model lg = um_Model (log_metrics f)"
    "lg_InputTokens lg = um_InputTokens (log_metrics f)" "lg_OutputTokens lg = um_OutputTokens (log_metrics f)"
    "lg_CachedTokens lg = um_CachedTokens (log_metrics f)"
    "lg_CacheCreationTokens lg = um_CacheCreationTokens (log_metrics f)"
    "lg_TotalCost lg = co_TotalCost (Calculate ps (log_metrics f))"
    "lg_StatusCode lg = ud_StatusCode (fi_Response f)" "lg_ErrorMessage lg = error_message (fi_Response f)"
    "lg_RawMetadata lg = extractCustomMetadata (fi_Headers f)"
    "lg_RoutedProvider lg = map_option rd_Provider (fi_Route f)"
    "lg_DeprecatedModelRedirected lg = fi_Redirected f"
    "fi_Redirected f \<Longrightarrow> lg_OriginalModel lg = Some (fi_OriginalModel f)"
  unfolding lg_def logRequest_def
  by (simp_all add: base_log_def Let_def) (simp_all add: attach_route_def attach_redirect_def split: option.split)

lemma finished_of_fields [simp]:
  "fi_Provider (finished_of w c u) = cl_Provider c" "fi_Key (finished_of w c u) = cl_Key c"
  "fi_Body (finished_of w c u) = cl_Body c" "fi_Route (finished_of w c u) = cl_Route c"
  "fi_Redirected (finished_of w c u) = cl_Redirected c" "fi_OriginalModel (finished_of w c u) = cl_OriginalModel c"
  "fi_Response (finished_of w c u) = u" "fi_Headers (finished_of w c u) = cl_Headers c"
  "fi_RequestID (finished_of w c u) = wd_requestID w"
  by (simp_all add: finished_of_def)

section \<open>What the stages keep\<close>

lemma sent_fields [simp]:
  "cl_Key (sent c) = cl_Key c" "cl_Body (sent c) = cl_Body c" "cl_Headers (sent c) = cl_Headers c"
  "cl_Provider (sent c) = cl_Provider c" "cl_BaseURL (sent c) = cl_BaseURL c" "cl_Redirected (sent c) = cl_Redirected c"
  "cl_OriginalModel (sent c) = cl_OriginalModel c" "cl_Route (sent c) = cl_Route c" "cl_Response (sent c) = cl_Response c"
  "hq_Method (cl_Request (sent c)) = hq_Method (cl_Request c)" "hq_RawQuery (cl_Request (sent c)) = hq_RawQuery (cl_Request c)"
  by (simp_all add: sent_def translate_call_def strip_version_def Let_def split: option.split prod.split)

lemma forward_request_fields [simp]:
  "ur_Body (forward_request c) = cl_UpstreamBody c" "ur_Method (forward_request c) = hq_Method (cl_Request c)"
  "ur_Header (forward_request c) = copyHeaders (hq_Header (cl_Request c)) []"
  by (simp_all add: forward_request_def Let_def)

lemma sent_untranslated:
  "\<not> IsTranslationRequired (cl_Provider c) \<Longrightarrow> cl_UpstreamBody (sent c) = cl_UpstreamBody c
     \<and> hq_Header (cl_Request (sent c)) = hq_Header (cl_Request c)"
  by (simp add: sent_def translate_call_def strip_version_def)

lemma replace_deprecated_fields:
  assumes "replace_deprecated h c = Next c'"
  shows "cl_Key c' = cl_Key c" "cl_Body c' = cl_Body c" "cl_Headers c' = cl_Headers c" "cl_Request c' = cl_Request c"
    "cl_Provider c' = cl_Provider c" "cl_BaseURL c' = cl_BaseURL c" "cl_Route c' = cl_Route c"
  using assms by (auto simp: replace_deprecated_def substituted_def split: option.splits if_splits override_result.splits)

lemma replace_deprecated_redirected:
  assumes "replace_deprecated h c = Next c'" and "cl_Redirected c'" and "\<not> cl_Redirected c"
  obtains models replacement overridden where "hd_deprecatedModels h = Some models"
    "Lookup models (requested_model c) = Some replacement"
    "ki_DeprecatedModelBehavior (cl_Key c) \<in> {BehaviorRedirect, BehaviorWarn}"
    "OverrideModel (cl_Body c) replacement = Overridden overridden"
    "c' = substituted (requested_model c) replacement overridden c"
proof -
  have ne: "c' \<noteq> c" using assms(2,3) by blast
  with assms(1) obtain models where models: "hd_deprecatedModels h = Some models"
    by (cases "hd_deprecatedModels h") (auto simp: replace_deprecated_def)
  with assms(1) ne obtain replacement where r: "Lookup models (requested_model c) = Some replacement"
    by (cases "Lookup models (requested_model c)") (auto simp: replace_deprecated_def)
  have b: "ki_DeprecatedModelBehavior (cl_Key c) \<in> {BehaviorRedirect, BehaviorWarn}"
    using assms(1) ne models r by (simp add: replace_deprecated_def split: if_splits)
  with assms(1) ne models r obtain overridden where "OverrideModel (cl_Body c) replacement = Overridden overridden"
      "c' = substituted (requested_model c) replacement overridden c"
    by (cases "OverrideModel (cl_Body c) replacement") (auto simp: replace_deprecated_def)
  with that [OF models r b] show thesis by blast
qed

lemma read_call_fields:
  assumes "read_call h req info = Next c"
  shows "cl_Key c = info" "hq_Body req = Some (cl_Body c)" "cl_UpstreamBody c = cl_Body c"
    "cl_Headers c = extractHeaders (hq_Header req)" "hq_Header (cl_Request c) = hq_Header req"
    "hq_Method (cl_Request c) = hq_Method req" "cl_Route c = None" "cl_Redirected c = False" "cl_Response c = []"
    "cl_Provider c = pv_Provider (Detect (NormalizeOpenAIPath (hq_Path req)) (extractHeaders (hq_Header req)))"
  using assms by (auto simp: read_call_def Let_def next_stage_Next split: option.splits if_splits)

lemma routed_fields [simp]:
  "cl_Key (routed d key b ds c) = cl_Key c" "cl_Body (routed d key b ds c) = cl_Body c"
  "cl_Headers (routed d key b ds c) = cl_Headers c" "cl_Provider (routed d key b ds c) = rd_Provider d"
  "cl_BaseURL (routed d key b ds c) = rd_BaseURL d" "cl_UpstreamBody (routed d key b ds c) = b"
  "cl_Redirected (routed d key b ds c) = cl_Redirected c" "cl_OriginalModel (routed d key b ds c) = cl_OriginalModel c"
  "hq_Header (cl_Request (routed d key b ds c)) = hdr_set ''Authorization'' (''Bearer '' @ key) (hq_Header (cl_Request c))"
  "hq_Path (cl_Request (routed d key b ds c)) = hq_Path (cl_Request c)"
  "map_option rd_Provider (cl_Route (routed d key b ds c)) = Some (rd_Provider d)"
  by (simp_all add: routed_def Let_def)

text \<open>A call leaves routing untouched, or by a decision among the endpoints of its model.\<close>

lemma route_call_cases:
  assumes "snd (route_call h w sn c) = Next c'"
  obtains (Unrouted) "c' = c" "\<not> (hd_routing h \<and> shouldConsiderRouting (cl_Headers c) (cl_Provider c))"
  | (Routed) d key rewritten applied eps model health where
      "hd_routing h" "shouldConsiderRouting (cl_Headers c) (cl_Provider c)"
      "model = ExtractModel (GetParser (cl_Provider c)) (cl_UpstreamBody c)"
      "Candidates (wd_prices w) model = Some eps"
      "route_among (Price (wd_prices w)) (has_key w) (wd_randFloat w) health model
         (resolveDataPolicy (hd_DefaultRequireZDR h) (hd_DefaultDataCollection h) (cl_Headers c)) eps = Inr d"
      "stored_credential h w (rd_Provider d) = Inr key"
      "RewriteRoutedRequest (cl_UpstreamBody c) (rd_ProviderModelID d) (rd_RequestDefaults d) = Inr (rewritten, applied)"
      "c' = routed d key rewritten applied c"
proof (cases "hd_routing h \<and> shouldConsiderRouting (cl_Headers c) (cl_Provider c)")
  case False
  with assms Unrouted show thesis by (auto simp: route_call_def)
next
  case True
  with assms show thesis
    by (auto simp: route_call_def Let_def Route_def apply_decision_def split: prod.splits option.splits sum.splits intro: Routed)
qed

section \<open>Authentication\<close>

abbreviation answer_of :: "world \<Rightarrow> http_request \<Rightarrow> proxy_state \<Rightarrow> auth_error + api_key_info" where
  "answer_of w req s \<equiv> fst (snd (ResolveAPIKey (wd_cacheRead w) (wd_cacheWrite w) (wd_evicted w)
     (\<lambda>hash. GetAPIKeyByHash (wd_keysOk w) hash (wd_keys w)) (hdr_get (hq_Header req) ''X-Majordomo-Key'') (px_resolver s)))"

lemma authenticate_answer:
  "snd (snd (authenticate w req (px_resolver s))) =
     (case answer_of w req s of Inl _ \<Rightarrow> Reply (WriteJSONError [] 401 ''unauthorized'') | Inr info \<Rightarrow> Next info)"
  by (simp add: authenticate_def split: prod.split)

lemma served_answer: "served h w req s info c0 c1 c2 \<Longrightarrow> answer_of w req s = Inr info"
  by (auto simp: served_def authenticate_answer split: sum.splits)

lemma sent_gm_ok: "gm_ok (hq_Header (cl_Request c)) \<Longrightarrow> gm_ok (hq_Header (cl_Request (sent c)))"
  by (auto simp: sent_def translate_call_def strip_version_def bearer_to_api_key_def Let_def split: option.split prod.split)

lemma served_start:
  assumes "served h w req s info c0 c1 c2"
  shows "cl_Key c1 = info" "hq_Body req = Some (cl_Body c1)" "cl_Headers c1 = extractHeaders (hq_Header req)"
    "hq_Header (cl_Request c1) = hq_Header req" "hq_Method (cl_Request c1) = hq_Method req" "cl_Route c1 = None"
    "cl_Provider c1 = pv_Provider (Detect (NormalizeOpenAIPath (hq_Path req)) (extractHeaders (hq_Header req)))"
    "snd (route_call h w (px_health s) c1) = Next c2" "replace_deprecated h c0 = Next c1"
    "cl_UpstreamBody c0 = cl_Body c1" "cl_Redirected c0 = False" "cl_Response c0 = []"
proof -
  from assms have r: "read_call h req info = Next c0" "replace_deprecated h c0 = Next c1"
    and "snd (route_call h w (px_health s) c1) = Next c2"
    by (simp_all add: served_def)
  then show "snd (route_call h w (px_health s) c1) = Next c2" "replace_deprecated h c0 = Next c1" by simp_all
  note read_call_fields [OF r(1)] replace_deprecated_fields [OF r(2)]
  then show "cl_Key c1 = info" "hq_Body req = Some (cl_Body c1)" "cl_Headers c1 = extractHeaders (hq_Header req)"
    "hq_Header (cl_Request c1) = hq_Header req" "hq_Method (cl_Request c1) = hq_Method req" "cl_Route c1 = None"
    "cl_Provider c1 = pv_Provider (Detect (NormalizeOpenAIPath (hq_Path req)) (extractHeaders (hq_Header req)))"
    "cl_UpstreamBody c0 = cl_Body c1" "cl_Redirected c0 = False" "cl_Response c0 = []"
    by simp_all
qed

lemma served_fields:
  assumes "served h w req s info c0 c1 c2"
  shows "cl_Key c2 = info" "hq_Body req = Some (cl_Body c2)" "cl_Headers c2 = extractHeaders (hq_Header req)"
    "cl_Redirected c2 = cl_Redirected c1" "cl_OriginalModel c2 = cl_OriginalModel c1"
    "gm_ok (hq_Header req) \<Longrightarrow> gm_ok (hq_Header (cl_Request c2))"
  using served_start [OF assms] by (auto elim!: route_call_cases)

text \<open>C5. Only an accepted gateway key gets through, and no gateway header leaves. When the key resolver
  refuses, the answer is 401 and nothing is forwarded, logged or archived. Otherwise a log entry
  carries the id of the accepted key, and the request sent upstream has no X-Majordomo header, the
  gateway key included, and no hop-by-hop header of the client.\<close>

theorem gateway_key_guards:
  assumes "gm_ok (hq_Header req)"
  shows "(\<forall>e. answer_of w req s = Inl e \<longrightarrow>
      oc_Response (snd (ServeHTTP h w req s)) = Some (WriteJSONError [] 401 ''unauthorized'')
      \<and> oc_Forwarded (snd (ServeHTTP h w req s)) = None \<and> oc_Log (snd (ServeHTTP h w req s)) = None
      \<and> oc_Archived (snd (ServeHTTP h w req s)) = None)
    \<and> (\<forall>lg. oc_Log (snd (ServeHTTP h w req s)) = Some lg \<longrightarrow>
      (\<exists>info. answer_of w req s = Inr info \<and> lg_MajordomoAPIKeyID lg = Some (ki_ID info)))
    \<and> (\<forall>u k. oc_Forwarded (snd (ServeHTTP h w req s)) = Some u \<longrightarrow>
      prefix ''x-majordomo'' (to_lower k) \<or> to_lower k \<in> set hopByHopHeaders \<longrightarrow> hdr_values (ur_Header u) k = [])"
proof (intro conjI allI impI)
  fix e assume e: "answer_of w req s = Inl e"
  obtain r' t x where a: "authenticate w req (px_resolver s) = (r', t, x)" by (cases "authenticate w req (px_resolver s)")
  with authenticate_answer [of w req s] e have "x = Reply (WriteJSONError [] 401 ''unauthorized'')" by simp
  with a show "oc_Response (snd (ServeHTTP h w req s)) = Some (WriteJSONError [] 401 ''unauthorized'')"
    "oc_Forwarded (snd (ServeHTTP h w req s)) = None" "oc_Log (snd (ServeHTTP h w req s)) = None"
    "oc_Archived (snd (ServeHTTP h w req s)) = None"
    by (simp_all add: ServeHTTP_def)
next
  fix lg assume "oc_Log (snd (ServeHTTP h w req s)) = Some lg"
  then obtain info c0 c1 c2 u where sv: "served h w req s info c0 c1 c2"
    and lg: "lg = fst (logRequest (wd_uuid_text w) (wd_newSHA1 w) (wd_pricesAtLog w) (hd_bodyStore h) (hd_bodyKeyPrefix h)
      (finished_of w (sent c2) u))"
    by (rule logged_served)
  have "lg_MajordomoAPIKeyID lg = Some (ki_ID (cl_Key c2))" by (simp add: lg logRequest_fields)
  with served_answer [OF sv] served_fields(1) [OF sv]
  show "\<exists>info. answer_of w req s = Inr info \<and> lg_MajordomoAPIKeyID lg = Some (ki_ID info)" by auto
next
  fix u k assume "oc_Forwarded (snd (ServeHTTP h w req s)) = Some u"
    and k: "prefix ''x-majordomo'' (to_lower k) \<or> to_lower k \<in> set hopByHopHeaders"
  then obtain info c0 c1 c2 where sv: "served h w req s info c0 c1 c2" and u: "u = forward_request (sent c2)"
    by (elim forwarded_served)
  from forwarded_headers_facts(1) [OF sent_gm_ok [OF served_fields(6) [OF sv assms]] gm_ok_Nil] k
  show "hdr_values (ur_Header u) k = []" by (simp add: u forward_request_def Let_def)
qed

section \<open>Routing\<close>

lemma policy_floor:
  "z \<Longrightarrow> dp_RequireZDR (resolveDataPolicy z d hs)"
  "equal_fold d ''deny'' \<Longrightarrow> dp_RequireNoDataCollection (resolveDataPolicy z d hs)"
  by (auto simp: resolveDataPolicy_def split: option.split)

lemma authorization_forwarded:
  "gm_ok src \<Longrightarrow> hdr_values (copyHeaders src []) ''Authorization'' = hdr_values src ''Authorization''"
proof -
  assume ok: "gm_ok src"
  have l: "to_lower ''Authorization'' = ''authorization''" by code_simp
  show ?thesis unfolding forwarded_headers_facts(1) [OF ok gm_ok_Nil] l by (simp add: hopByHopHeaders_def)
qed

lemma attach_route_RoutedProvider:
  "lg_RoutedProvider lg = None \<Longrightarrow> lg_RoutedProvider (attach_route f lg) = map_option rd_Provider (fi_Route f)"
  by (simp add: attach_route_def split: option.split)


section \<open>The log entry\<close>

lemma exchange_status: "exchange w c = (r, Some u) \<Longrightarrow> rp_Status r = ud_StatusCode u"
  by (auto simp: exchange_def respond_stream_def respond_buffered_def Let_def split: option.splits if_splits)

lemma log_metrics_provider: "um_Provider (log_metrics f) = fi_Provider f"
  by (simp add: log_metrics_def Let_def)


section \<open>Deprecated models\<close>

text \<open>A deprecated model. When an entry says that the request was redirected, the model it names as the
  original is in the deprecated map, the key asked for redirection or a warning, and, for a request
  that is neither routed nor translated, the body sent upstream is the client's with the replacement
  as its model. A translated request, however, is sent with the model the client asked for: it is
  translated from the original body.\<close>

theorem deprecated_substitution:
  assumes "oc_Log (snd (ServeHTTP h w req s)) = Some lg" and "lg_DeprecatedModelRedirected lg"
  shows "\<exists>u models model replacement body. oc_Forwarded (snd (ServeHTTP h w req s)) = Some u
    \<and> hd_deprecatedModels h = Some models \<and> Lookup models model = Some replacement \<and> lg_OriginalModel lg = Some model
    \<and> hq_Body req = Some body
    \<and> (\<exists>info. answer_of w req s = Inr info \<and> ki_DeprecatedModelBehavior info \<in> {BehaviorRedirect, BehaviorWarn})
    \<and> (lg_RoutedProvider lg = None \<longrightarrow> \<not> IsTranslationRequired (lg_Provider lg) \<longrightarrow>
         OverrideModel body replacement = Overridden (ur_Body u))
    \<and> (IsTranslationRequired (lg_Provider lg) \<longrightarrow>
         (\<forall>t p. TranslateOpenAIToAnthropic body = Some (t, p) \<longrightarrow> ur_Body u = t))"
proof -
  from assms(1) obtain info c0 c1 c2 r u where sv: "served h w req s info c0 c1 c2"
    and fw: "oc_Forwarded (snd (ServeHTTP h w req s)) = Some (forward_request (sent c2))"
    and lg: "lg = fst (logRequest (wd_uuid_text w) (wd_newSHA1 w) (wd_pricesAtLog w) (hd_bodyStore h) (hd_bodyKeyPrefix h)
      (finished_of w (sent c2) u))"
    by (rule logged_served)
  note st = served_start [OF sv] and sf = served_fields [OF sv]
  have lf: "lg_Provider lg = cl_Provider c2" "lg_RoutedProvider lg = map_option rd_Provider (cl_Route c2)"
    by (simp_all add: lg logRequest_fields)
  have red: "cl_Redirected c1" "lg_OriginalModel lg = Some (cl_OriginalModel c1)"
    using assms(2) sf(4,5) by (simp_all add: lg logRequest_fields)
  have nr: "\<not> cl_Redirected c0" using st(11) by simp
  obtain models replacement overridden where
      m: "hd_deprecatedModels h = Some models" "Lookup models (requested_model c0) = Some replacement"
      and b: "ki_DeprecatedModelBehavior (cl_Key c0) \<in> {BehaviorRedirect, BehaviorWarn}"
      and o: "OverrideModel (cl_Body c0) replacement = Overridden overridden"
      and c1: "c1 = substituted (requested_model c0) replacement overridden c0"
    by (rule replace_deprecated_redirected [OF st(9) red(1) nr])
  have same: "cl_Body c0 = cl_Body c1" "cl_Key c0 = cl_Key c1" "cl_UpstreamBody c1 = overridden"
      "cl_OriginalModel c1 = requested_model c0"
    by (simp_all add: c1 substituted_def)
  have un: "cl_UpstreamBody (sent c2) = overridden"
    if "cl_Route c2 = None" "\<not> IsTranslationRequired (cl_Provider c2)"
    using st(8)
  proof (cases rule: route_call_cases)
    case Unrouted
    with that same sent_untranslated [of c2] show ?thesis by simp
  next
    case (Routed d key rewritten applied eps model health)
    then have "map_option rd_Provider (cl_Route c2) = Some (rd_Provider d)" by simp
    with that show ?thesis by simp
  qed
  have tr: "cl_UpstreamBody (sent c2) = t"
    if "IsTranslationRequired (cl_Provider c2)" "TranslateOpenAIToAnthropic (cl_Body c2) = Some (t, p)" for t p
    using that by (simp add: sent_def translate_call_def strip_version_def Let_def)
  have info: "ki_DeprecatedModelBehavior info \<in> {BehaviorRedirect, BehaviorWarn}" using b same(2) st(1) by simp
  have body: "hq_Body req = Some (cl_Body c0)" "cl_Body c2 = cl_Body c0" using st(2) sf(2) same(1) by simp_all
  have plain: "OverrideModel (cl_Body c0) replacement = Overridden (ur_Body (forward_request (sent c2)))"
    if "lg_RoutedProvider lg = None" "\<not> IsTranslationRequired (lg_Provider lg)"
    using that un o by (simp add: lf)
  have translated: "ur_Body (forward_request (sent c2)) = t"
    if "IsTranslationRequired (lg_Provider lg)" "TranslateOpenAIToAnthropic (cl_Body c0) = Some (t, p)" for t p
    using that tr body(2) by (simp add: lf)
  have original: "lg_OriginalModel lg = Some (requested_model c0)" using red(2) same(4) by simp
  show ?thesis
    by (rule exI [of _ "forward_request (sent c2)"], rule exI [of _ models], rule exI [of _ "requested_model c0"],
        rule exI [of _ replacement], rule exI [of _ "cl_Body c0"])
      (intro conjI impI allI exI [of _ info] fw m original body(1) served_answer [OF sv] info plain translated; assumption)
qed

section \<open>Regions\<close>

lemma region_affixes: "length region_prefix = 16" "length region_suffix = 14"
  by (simp_all add: region_prefix_def region_suffix_def)

lemma between_affixes:
  assumes "prefix region_prefix h" "suffix region_suffix h" "30 \<le> length h"
  shows "h = region_prefix @ drop 16 (take (length h - 14) h) @ region_suffix"
proof -
  obtain a where a: "h = a @ region_suffix" using assms(2) by (auto simp: suffix_def)
  have "16 \<le> length a" using assms(3) region_affixes by (simp add: a)
  moreover obtain b where "h = region_prefix @ b" using assms(1) by (auto simp: prefix_def)
  then have "take 16 h = region_prefix" by (simp add: region_affixes)
  ultimately have "take 16 a = region_prefix" by (simp add: a)
  then have "a = region_prefix @ drop 16 a" by (metis append_take_drop_id)
  then show ?thesis using region_affixes by (simp add: a)
qed

lemma overlapping_affixes:
  assumes "prefix region_prefix h" "suffix region_suffix h" "length h < 30"
  shows "h = ''bedrock-runtime.amazonaws.com''"
proof -
  obtain a where a: "h = a @ region_suffix" using assms(2) by (auto simp: suffix_def)
  obtain b where b: "h = region_prefix @ b" using assms(1) by (auto simp: prefix_def)
  have n: "length a = length b + 2" using arg_cong [OF trans [OF a [symmetric] b], of length] region_affixes by simp
  with assms(3) have l: "length b < 14" by (simp add: b region_affixes)
  have at: "region_suffix ! (13 - length b) = CHR ''.''" "0 < length b \<Longrightarrow> length b \<noteq> 13 \<Longrightarrow> region_suffix ! (12 - length b) = CHR ''e''"
  proof -
    have "h ! 15 = CHR ''.''" "h ! 14 = CHR ''e''" by (simp_all add: b nth_append region_prefix_def)
    then show "region_suffix ! (13 - length b) = CHR ''.''" "0 < length b \<Longrightarrow> length b \<noteq> 13 \<Longrightarrow> region_suffix ! (12 - length b) = CHR ''e''"
      using l n by (simp_all add: a nth_append)
  qed
  have "n \<in> {0, 1, 2, 3, 4, 5, 6, 7, 8, 9, 10, 11, 12, 13}" if "n < 14" for n :: nat
    unfolding insert_iff empty_iff using that by presburger
  then have "length b \<in> {0, 1, 2, 3, 4, 5, 6, 7, 8, 9, 10, 11, 12, 13}" using l by blast
  then have "length b = 13" using at by (elim insertE) (simp_all add: region_suffix_def)
  then have "b = drop 1 region_suffix"
    using n region_affixes arg_cong [OF trans [OF a [symmetric] b], of "drop 16"] by simp
  then show ?thesis by (simp add: b region_prefix_def region_suffix_def)
qed

text \<open>The region of a Bedrock host. Without the region header a host gives the region \<open>r\<close> exactly when,
  up to its port, it is \<open>bedrock-runtime.r.amazonaws.com\<close> with lower-case letters, digits and hyphens
  in \<open>r\<close>. The one host on which the code panics is \<open>bedrock-runtime.amazonaws.com\<close>, where prefix and
  suffix overlap.\<close>

theorem host_region:
  shows "(parseBedrockRegionFromHost host = InRegion r \<longleftrightarrow>
      takeWhile (\<lambda>c. c \<noteq> CHR '':'') host = region_prefix @ r @ region_suffix \<and> isValidAWSRegion r)
    \<and> (parseBedrockRegionFromHost host = RegionPanic \<longleftrightarrow>
      takeWhile (\<lambda>c. c \<noteq> CHR '':'') host = ''bedrock-runtime.amazonaws.com'')"
proof -
  let ?h = "takeWhile (\<lambda>c. c \<noteq> CHR '':'') host"
  let ?m = "drop 16 (take (length ?h - 14) ?h)"
  have parse: "parseBedrockRegionFromHost host =
      (if \<not> prefix region_prefix ?h \<or> \<not> suffix region_suffix ?h then NoRegion
       else if length ?h < 30 then RegionPanic
       else if isValidAWSRegion ?m then InRegion ?m else NoRegion)"
    by (simp add: parseBedrockRegionFromHost_def Let_def region_affixes)
  have made: "parseBedrockRegionFromHost host = InRegion r"
    if "?h = region_prefix @ r @ region_suffix" "isValidAWSRegion r"
    unfolding parse that(1) using that(2) by (simp add: region_affixes suffix_appendI)
  have "parseBedrockRegionFromHost host = RegionPanic" if "?h = ''bedrock-runtime.amazonaws.com''"
    unfolding parse that by (simp add: region_prefix_def region_suffix_def suffix_def)
  moreover have "?h = ''bedrock-runtime.amazonaws.com''" if "parseBedrockRegionFromHost host = RegionPanic"
    using that overlapping_affixes [of ?h] unfolding parse by (auto split: if_splits)
  moreover have "?h = region_prefix @ r @ region_suffix \<and> isValidAWSRegion r" if "parseBedrockRegionFromHost host = InRegion r"
    using that between_affixes [of ?h] unfolding parse by (auto split: if_splits)
  ultimately show ?thesis using made by blast
qed

section \<open>An example\<close>

text \<open>A handler with one catalog endpoint and its credential, and a request that asks for routing.\<close>

definition example_info :: api_key_info where
  "example_info = \<lparr>ki_ID = 7, ki_Hash = ''h'', ki_Alias = None, ki_DeprecatedModelBehavior = BehaviorRedirect\<rparr>"

definition example_state :: proxy_state where
  "example_state = \<lparr>px_resolver = NewResolver\<lparr>rs_cache := [(HashAPIKey ''k'',
     \<lparr>cc_info = Some example_info, cc_expiresAt = 1, cc_isValid = True\<rparr>)]\<rparr>, px_health = None\<rparr>"

definition routed_endpoint :: Endpoint where
  "routed_endpoint = \<lparr>ep_Provider = ''fireworks'', ep_BaseURL = ''https://f'', ep_ProviderModelID = ''m-1'', ep_Region = [],
     ep_ZDR = True, ep_DataCollection = ''deny'', ep_RequestDefaults = None\<rparr>"

definition example_handler :: handler where
  "example_handler = WithProviderRouting example_store
     (NewHandler \<lparr>pc_OpenAI = ''https://o'', pc_Anthropic = [], pc_Gemini = [], pc_Fireworks = [], pc_Together = [], pc_Baseten = []\<rparr>
       None True ''deny'' None [])"

definition sealed_key :: string where
  "sealed_key = projr (Encrypt example_store (Some (replicate 12 (CHR ''n''))) ''sk-1'')"

definition example_reply :: upstream_reply where
  "example_reply = \<lparr>us_StatusCode = 200, us_Headers = [], us_Body = ''{}'', us_ReadError = False, us_ResponseTime = 1000000\<rparr>"

definition example_world :: world where
  "example_world = \<lparr>wd_uuid_text = \<lambda>_. ''u'', wd_newSHA1 = \<lambda>n s. 0, wd_requestedAt = 0, wd_requestID = 1, wd_cacheRead = 0,
     wd_cacheWrite = 0, wd_evicted = [], wd_keysOk = True, wd_keys = [],
     wd_prices = example_service\<lparr>sv_catalog := [(''m'', [routed_endpoint])]\<rparr>, wd_healthAt = 0, wd_healthRows = Some [],
     wd_randFloat = 0, wd_providerKeysOk = True,
     wd_providerKeys = [\<lparr>pk_ID = 1, pk_Provider = ''fireworks'', pk_EncryptedKey = sealed_key, pk_CreatedAt = 0, pk_UpdatedAt = 0\<rparr>],
     wd_upstream = \<lambda>_. Some example_reply, wd_respondedAt = 1000000, wd_pricesAtLog = example_service, wd_gzip = \<lambda>_. None,
     wd_canFlush = True\<rparr>"

definition example_request :: http_request where
  "example_request = \<lparr>hq_Method = ''POST'', hq_Path = ''/v1/chat/completions'', hq_RawQuery = [], hq_Host = ''g'',
     hq_Header = [(''X-Majordomo-Key'', [''k'']), (''X-Majordomo-Provider'', [''majordomo''])],
     hq_Body = Some (doc ''{~model~:~m~}'')\<rparr>"

lemma example_headers:
  "extractHeaders [(''X-Majordomo-Key'', [''k'']), (''X-Majordomo-Provider'', [''majordomo''])]
     = [(''x-majordomo-key'', ''k''), (''x-majordomo-provider'', ''majordomo'')]"
  by code_simp

lemma example_detect:
  "NormalizeOpenAIPath ''/v1/chat/completions'' = ''/v1/chat/completions''"
  "pv_Provider (Detect ''/v1/chat/completions'' [(''x-majordomo-key'', ''k''), (''x-majordomo-provider'', ''majordomo'')]) = ProviderOpenAI"
  by code_simp+

lemma example_rewrite: "RewriteRoutedRequest (doc ''{~model~:~m~}'') ''m-1'' None = Inr (doc ''{~model~:~m-1~}'', [])"
  by code_simp

lemma example_model: "ExtractModel (GetParser ProviderOpenAI) (doc ''{~model~:~m~}'') = ''m''"
  by code_simp

lemma example_wish: "shouldConsiderRouting [(''x-majordomo-key'', ''k''), (''x-majordomo-provider'', ''majordomo'')] ProviderOpenAI"
  by code_simp

lemma example_satisfies: "satisfiesPolicy (resolveDataPolicy True ''deny'' hs) routed_endpoint"
  by (simp add: satisfiesPolicy_def routed_endpoint_def)

lemma example_answer: "answer_of example_world example_request example_state = Inr example_info"
  by (simp add: ResolveAPIKey_def getFromCache_def example_world_def example_request_def example_state_def hdr_get_def
      cached_answer_def)

lemma example_credential: "stored_credential example_handler example_world ''fireworks'' = Inr ''sk-1''"
proof -
  have "store_ok example_store" by (simp add: store_ok_def example_store_def)
  moreover have "Encrypt example_store (Some (replicate 12 (CHR ''n''))) ''sk-1'' = Inr sealed_key"
    by (simp add: sealed_key_def Encrypt_def)
  ultimately have "Decrypt example_store sealed_key = Inr ''sk-1''"
    by (intro Decrypt_Encrypt) (simp_all add: nonce_size_def)
  then show ?thesis
    by (simp add: stored_credential_def resolveRoutedCredential_def GetKey_def example_world_def example_handler_def
        WithProviderRouting_def)
qed

lemma served_outcome:
  assumes "served h w req s info c0 c1 c2"
  obtains t where "snd (ServeHTTP h w req s) = forward_call h w t (sent c2)"
proof -
  obtain t x where x: "snd (ServeHTTP h w req s) = conclude h w t x"
    "\<And>c2. x = Next c2 \<longleftrightarrow> (\<exists>info c0 c1. served h w req s info c0 c1 c2)"
    by (rule ServeHTTP_conclude [of h w req s]) blast
  with assms have "x = Next c2" by blast
  with x(1) that [of t] show thesis by (simp add: sent_def)
qed

lemma example_read:
  obtains c0 where "read_call example_handler example_request example_info = Next c0"
    "cl_UpstreamBody c0 = doc ''{~model~:~m~}''" "cl_Provider c0 = ProviderOpenAI"
    "cl_Headers c0 = [(''x-majordomo-key'', ''k''), (''x-majordomo-provider'', ''majordomo'')]"
proof -
  have "regional_base r i = Next (pv_BaseURL i)" if "pv_Provider i = ProviderOpenAI" for r i
    using that by (simp add: regional_base_def ProviderOpenAI_def ProviderBedrock_def ProviderBedrockMantle_def)
  moreover have "ProviderOpenAI \<noteq> ProviderUnknown" by (simp add: ProviderOpenAI_def ProviderUnknown_def)
  ultimately have "\<exists>c0. read_call example_handler example_request example_info = Next c0"
    using example_headers example_detect by (simp add: read_call_def example_request_def Let_def)
  then obtain c0 where c0: "read_call example_handler example_request example_info = Next c0" by blast
  from read_call_fields [OF c0] that [OF c0] show thesis
    by (simp add: example_request_def example_headers example_detect)
qed

definition example_decision :: RouteDecision where
  "example_decision = decision_for routed_endpoint (healthy_reason 1 1)"

lemma example_routed:
  assumes "cl_UpstreamBody c0 = doc ''{~model~:~m~}''" "cl_Provider c0 = ProviderOpenAI"
    "cl_Headers c0 = [(''x-majordomo-key'', ''k''), (''x-majordomo-provider'', ''majordomo'')]"
  shows "snd (route_call example_handler example_world None c0)
     = Next (routed example_decision ''sk-1'' (doc ''{~model~:~m-1~}'') [] c0)"
proof -
  have one: "selectByCost p r [routed_endpoint] = routed_endpoint" for p r
    using selectByCost_mem [of "[routed_endpoint]" p r] by simp
  have k: "hasCredential (has_key example_world) (ep_Provider routed_endpoint)"
    by (simp add: hasCredential_def has_key_def HasKey_def example_world_def routed_endpoint_def)
  have hl: "isHealthy \<lparr>hs_byKey = index_health [], hs_fetchedAt = 0\<rparr> routed_endpoint"
    by (simp add: isHealthy_def index_health_def)
  have cand: "Candidates (wd_prices example_world) ''m'' = Some [routed_endpoint]"
    by (simp add: Candidates_def example_world_def)
  have fl: "hd_routing example_handler" "hd_DefaultRequireZDR example_handler" "hd_DefaultDataCollection example_handler = ''deny''"
    by (simp_all add: example_handler_def WithProviderRouting_def NewHandler_def)
  have gh: "getHealth (wd_healthAt example_world) (wd_healthRows example_world) None
      = (\<lparr>hs_byKey = index_health [], hs_fetchedAt = 0\<rparr>, Some \<lparr>hs_byKey = index_health [], hs_fetchedAt = 0\<rparr>)"
    by (simp add: getHealth_def example_world_def Let_def)
  have rt: "Route (Candidates (wd_prices example_world)) (Price (wd_prices example_world)) (has_key example_world)
      (wd_randFloat example_world) (wd_healthAt example_world) (wd_healthRows example_world) ''m''
      (resolveDataPolicy True ''deny'' hs) None
      = (Some (Inr example_decision), Some \<lparr>hs_byKey = index_health [], hs_fetchedAt = 0\<rparr>)" for hs
    by (simp add: Route_def cand gh route_among_def k hl one example_satisfies example_decision_def)
  have d: "rd_Provider example_decision = ''fireworks''" "rd_ProviderModelID example_decision = ''m-1''"
    "rd_RequestDefaults example_decision = None"
    by (simp_all add: example_decision_def decision_for_def routed_endpoint_def)
  show ?thesis
    unfolding route_call_def assms Let_def example_model fl rt
    by (simp add: fl rt example_wish apply_decision_def d example_credential assms(1) example_rewrite)
qed

lemma example_served:
  obtains c0 t where
    "snd (ServeHTTP example_handler example_world example_request example_state) = forward_call example_handler example_world t
       (sent (routed example_decision ''sk-1'' (doc ''{~model~:~m-1~}'') [] c0))"
    "cl_Provider (routed example_decision ''sk-1'' (doc ''{~model~:~m-1~}'') [] c0) = ''fireworks''"
proof -
  obtain c0 where c0: "read_call example_handler example_request example_info = Next c0"
    "cl_UpstreamBody c0 = doc ''{~model~:~m~}''" "cl_Provider c0 = ProviderOpenAI"
    "cl_Headers c0 = [(''x-majordomo-key'', ''k''), (''x-majordomo-provider'', ''majordomo'')]"
    by (rule example_read)
  have "replace_deprecated example_handler c0 = Next c0"
    by (simp add: replace_deprecated_def example_handler_def WithProviderRouting_def NewHandler_def)
  with c0 example_routed [OF c0(2-4)] example_answer
  have "served example_handler example_world example_request example_state example_info c0 c0
      (routed example_decision ''sk-1'' (doc ''{~model~:~m-1~}'') [] c0)"
    by (simp add: served_def authenticate_answer) (simp add: example_state_def)
  then obtain t where "snd (ServeHTTP example_handler example_world example_request example_state)
      = forward_call example_handler example_world t (sent (routed example_decision ''sk-1'' (doc ''{~model~:~m-1~}'') [] c0))"
    by (rule served_outcome)
  then show thesis
    by (rule that) (simp add: example_decision_def decision_for_def routed_endpoint_def)
qed

lemma example_log:
  obtains lg where "oc_Log (snd (ServeHTTP example_handler example_world example_request example_state)) = Some lg"
    "lg_RoutedProvider lg = Some ''fireworks''"
proof -
  obtain c0 t where o: "snd (ServeHTTP example_handler example_world example_request example_state)
      = forward_call example_handler example_world t (sent (routed example_decision ''sk-1'' (doc ''{~model~:~m-1~}'') [] c0))"
    and p: "cl_Provider (routed example_decision ''sk-1'' (doc ''{~model~:~m-1~}'') [] c0) = ''fireworks''"
    by (rule example_served)
  let ?c = "routed example_decision ''sk-1'' (doc ''{~model~:~m-1~}'') [] c0"
  have "snd (exchange example_world (sent ?c)) = Some (done_of example_reply)"
    using p by (simp add: exchange_def example_world_def IsTranslationRequired_def ProviderAnthropicOpenAI_def is_stream_def example_reply_def hdr_get_def)
  then have "\<exists>lg. oc_Log (snd (ServeHTTP example_handler example_world example_request example_state)) = Some lg
      \<and> lg_RoutedProvider lg = map_option rd_Provider (cl_Route ?c)"
    by (simp add: o logRequest_fields)
  then obtain lg where "oc_Log (snd (ServeHTTP example_handler example_world example_request example_state)) = Some lg"
      "lg_RoutedProvider lg = map_option rd_Provider (cl_Route ?c)" by blast
  then show thesis
    by (intro that [of lg]) (use p in \<open>simp_all\<close>)
qed


theorem gateway_key_guards_witness:
  "oc_Response (snd (ServeHTTP example_handler example_world (example_request\<lparr>hq_Header := []\<rparr>) example_state))
     = Some (WriteJSONError [] 401 ''unauthorized'')"
proof -
  have e: "answer_of example_world (example_request\<lparr>hq_Header := []\<rparr>) example_state = Inl ErrInvalidAPIKey"
    by (simp add: ResolveAPIKey_def hdr_get_def)
  have ok: "gm_ok (hq_Header (example_request\<lparr>hq_Header := []\<rparr>))" by simp
  from gateway_key_guards [OF ok, of example_world example_state] e show ?thesis by simp
qed


text \<open>The same request at a handler without routing, for which its model is deprecated.\<close>

definition redirecting_handler :: handler where
  "redirecting_handler = example_handler\<lparr>hd_routing := False, hd_deprecatedModels := Some [(''m'', ''n'')]\<rparr>"

lemma example_override: "OverrideModel (doc ''{~model~:~m~}'') ''n'' = Overridden (doc ''{~model~:~n~}'')"
  by code_simp

lemma redirected_log:
  obtains lg where "oc_Log (snd (ServeHTTP redirecting_handler example_world example_request example_state)) = Some lg"
    "lg_DeprecatedModelRedirected lg" "lg_RoutedProvider lg = None" "lg_Provider lg = ProviderOpenAI"
    "lg_OriginalModel lg = Some ''m''"
proof -
  have "read_call redirecting_handler = read_call example_handler"
  proof -
    have e: "hd_providers redirecting_handler = hd_providers example_handler" by (simp add: redirecting_handler_def)
    show ?thesis unfolding fun_eq_iff read_call_def e by simp
  qed
  then obtain c0 where c0: "read_call redirecting_handler example_request example_info = Next c0"
    "cl_UpstreamBody c0 = doc ''{~model~:~m~}''" "cl_Provider c0 = ProviderOpenAI"
    "cl_Headers c0 = [(''x-majordomo-key'', ''k''), (''x-majordomo-provider'', ''majordomo'')]"
    using example_read by metis
  note f = read_call_fields [OF c0(1)]
  have "requested_model c0 = ''m''"
    using c0(2,3) f(3) example_model by (simp add: requested_model_def ProviderOpenAI_def ProviderBedrock_def)
  then have d: "replace_deprecated redirecting_handler c0 = Next (substituted ''m'' ''n'' (doc ''{~model~:~n~}'') c0)"
    using c0(2) f(1,3) example_override
    by (simp add: replace_deprecated_def redirecting_handler_def Lookup_def example_info_def)
  let ?c = "substituted ''m'' ''n'' (doc ''{~model~:~n~}'') c0"
  have "snd (route_call redirecting_handler example_world None ?c) = Next ?c"
    by (simp add: route_call_def redirecting_handler_def)
  with c0(1) d example_answer have "served redirecting_handler example_world example_request example_state example_info c0 ?c ?c"
    by (simp add: served_def authenticate_answer) (simp add: example_state_def)
  then obtain t where o: "snd (ServeHTTP redirecting_handler example_world example_request example_state)
      = forward_call redirecting_handler example_world t (sent ?c)" by (rule served_outcome)
  have c: "cl_Provider ?c = ProviderOpenAI" "cl_Redirected ?c" "cl_Route ?c = None" "cl_OriginalModel ?c = ''m''"
    using c0(3) f(7) by (simp_all add: substituted_def)
  have "snd (exchange example_world (sent ?c)) = Some (done_of example_reply)"
    using c(1) by (simp add: exchange_def example_world_def IsTranslationRequired_def is_stream_def example_reply_def hdr_get_def
        ProviderOpenAI_def ProviderAnthropicOpenAI_def)
  then have "oc_Log (forward_call redirecting_handler example_world t (sent ?c)) = Some (fst (logRequest (wd_uuid_text example_world)
      (wd_newSHA1 example_world) (wd_pricesAtLog example_world) (hd_bodyStore redirecting_handler)
      (hd_bodyKeyPrefix redirecting_handler) (finished_of example_world (sent ?c) (done_of example_reply))))"
    by simp
  from this [folded o] show thesis by (rule that) (simp_all add: c logRequest_fields)
qed

theorem deprecated_substitution_witness:
  "\<exists>u. oc_Forwarded (snd (ServeHTTP redirecting_handler example_world example_request example_state)) = Some u
     \<and> ur_Body u = doc ''{~model~:~n~}''"
proof -
  obtain lg where lg: "oc_Log (snd (ServeHTTP redirecting_handler example_world example_request example_state)) = Some lg"
    "lg_DeprecatedModelRedirected lg" "lg_RoutedProvider lg = None" "lg_Provider lg = ProviderOpenAI"
    "lg_OriginalModel lg = Some ''m''"
    by (rule redirected_log)
  have tr: "\<not> IsTranslationRequired ProviderOpenAI"
    by (simp add: IsTranslationRequired_def ProviderOpenAI_def ProviderAnthropicOpenAI_def)
  from deprecated_substitution [OF lg(1,2)] lg(3-5) tr
  obtain u replacement body where u: "oc_Forwarded (snd (ServeHTTP redirecting_handler example_world example_request example_state)) = Some u"
      "Lookup [(''m'', ''n'')] ''m'' = Some replacement" "hq_Body example_request = Some body"
      "OverrideModel body replacement = Overridden (ur_Body u)"
    by (auto simp: redirecting_handler_def)
  with example_override show ?thesis by (simp add: Lookup_def example_request_def)
qed

end
