(* ===== verification/Usage_Queries.thy ===== *)
theory Usage_Queries
  imports Go_Time Run_Tree
begin

text \<open>
  The reports of \<open>internal/repositories/usage.go\<close> and the health query of
  \<open>internal/repositories/endpoint_health.go\<close> over the rows of \<open>llm_requests\<close>. Each SQL statement is the
  function it denotes; \<open>ok\<close> says whether it runs. Where a statement leaves an order open the rows come in
  the order of the table, groups in that of their first row.
\<close>

section \<open>The database's numbers\<close>

text \<open>What PostgreSQL computes: the value of a cost in the units of its NUMERIC(12, 8) column, the
  float64 read from a sum of them, the average of integers and \<open>PERCENTILE_CONT\<close> (in hundredths) of sorted
  integers as float64, and the offset of the session's time zone.\<close>

record db_numbers =
  dn_units :: "f64 \<Rightarrow> int"
  dn_float :: "int \<Rightarrow> f64"
  dn_avg :: "int list \<Rightarrow> f64"
  dn_percentile :: "nat \<Rightarrow> int list \<Rightarrow> f64"
  dn_zone :: "instant \<Rightarrow> int"

datatype usage_error = QueryFailed string | RequestNotFound

definition queried :: "bool \<Rightarrow> string \<Rightarrow> 'a \<Rightarrow> usage_error + 'a" where
  "queried ok what x = (if ok then Inr x else Inl (QueryFailed what))"

section \<open>Filters\<close>

record metadata_filter =
  mf_Key :: string
  mf_Value :: string

record usage_filter =
  uf_Start :: instant
  uf_End :: instant
  uf_APIKeyID :: "uuid option"
  uf_Provider :: "string option"
  uf_Model :: "string option"
  uf_StatusClass :: string
  uf_MetadataFilters :: "metadata_filter list"
  uf_ExcludeRuns :: bool

definition appendStatusClass :: "string \<Rightarrow> (request_log \<Rightarrow> bool) \<Rightarrow> request_log \<Rightarrow> bool" where
  "appendStatusClass statusClass q lg =
     (if statusClass = ''error'' then q lg \<and> lg_StatusCode lg \<ge> 400
      else if statusClass = ''success'' then q lg \<and> lg_StatusCode lg < 400
      else q lg)"

definition appendExcludeRuns :: "bool \<Rightarrow> (request_log \<Rightarrow> bool) \<Rightarrow> request_log \<Rightarrow> bool" where
  "appendExcludeRuns exclude q lg = (if exclude then q lg \<and> lg_TraceID lg = None else q lg)"

definition appendMetadataFilters :: "metadata_filter list \<Rightarrow> (request_log \<Rightarrow> bool) \<Rightarrow> request_log \<Rightarrow> bool" where
  "appendMetadataFilters filters q lg \<longleftrightarrow>
     q lg \<and> list_all (\<lambda>f. gm_get (lg_IndexedMetadata lg) (mf_Key f) = Some (mf_Value f)) filters"

text \<open>A parameter that is NULL filters nothing; a column that is NULL equals nothing.\<close>

definition in_range :: "usage_filter \<Rightarrow> request_log \<Rightarrow> bool" where
  "in_range f lg \<longleftrightarrow> uf_Start f \<le> lg_RequestedAt lg \<and> lg_RequestedAt lg < uf_End f"

definition of_key :: "uuid option \<Rightarrow> request_log \<Rightarrow> bool" where
  "of_key k lg \<longleftrightarrow> k = None \<or> lg_MajordomoAPIKeyID lg = k"

definition of_endpoint :: "usage_filter \<Rightarrow> request_log \<Rightarrow> bool" where
  "of_endpoint f lg \<longleftrightarrow>
     (case uf_Provider f of None \<Rightarrow> True | Some p \<Rightarrow> lg_Provider lg = p)
     \<and> (case uf_Model f of None \<Rightarrow> True | Some m \<Rightarrow> lg_Model lg = m)"

definition where_clause :: "usage_filter \<Rightarrow> request_log \<Rightarrow> bool" where
  "where_clause f = appendMetadataFilters (uf_MetadataFilters f)
     (\<lambda>lg. in_range f lg \<and> of_key (uf_APIKeyID f) lg \<and> of_endpoint f lg)"

definition selected :: "usage_filter \<Rightarrow> request_log list \<Rightarrow> request_log list" where
  "selected f rows = filter (where_clause f) rows"

section \<open>Aggregation\<close>

text \<open>\<open>GROUP BY\<close>, and a sum of integers and of costs; a sum over no rows is 0 by the \<open>COALESCE\<close>.\<close>

definition group_by :: "('a \<Rightarrow> 'k) \<Rightarrow> 'a list \<Rightarrow> ('k \<times> 'a list) list" where
  "group_by key rows = map (\<lambda>k. (k, filter (\<lambda>r. key r = k) rows)) (remdups (map key rows))"

definition sum_tokens :: "(request_log \<Rightarrow> int64) \<Rightarrow> request_log list \<Rightarrow> int" where
  "sum_tokens col rows = sum_list (map (\<lambda>lg. sint (col lg)) rows)"

definition sum_units :: "db_numbers \<Rightarrow> (request_log \<Rightarrow> f64) \<Rightarrow> request_log list \<Rightarrow> int" where
  "sum_units db col rows = sum_list (map (\<lambda>lg. dn_units db (col lg)) rows)"

definition sum_cost :: "db_numbers \<Rightarrow> (request_log \<Rightarrow> f64) \<Rightarrow> request_log list \<Rightarrow> f64" where
  "sum_cost db col rows = dn_float db (sum_units db col rows)"

definition totals :: "db_numbers \<Rightarrow> request_log list \<Rightarrow> 'x \<Rightarrow> 'x usage_totals_scheme" where
  "totals db rows x =
     \<lparr>ut_RequestCount = int (length rows), ut_InputTokens = sum_tokens lg_InputTokens rows,
      ut_OutputTokens = sum_tokens lg_OutputTokens rows, ut_CachedTokens = sum_tokens lg_CachedTokens rows,
      ut_CacheCreationTokens = sum_tokens lg_CacheCreationTokens rows, ut_TotalCost = sum_cost db lg_TotalCost rows,
      ut_CachedCost = sum_cost db lg_CachedCost rows, ut_CacheCreationCost = sum_cost db lg_CacheCreationCost rows, \<dots> = x\<rparr>"

definition by_cost_desc :: "db_numbers \<Rightarrow> ('k \<times> request_log list) list \<Rightarrow> ('k \<times> request_log list) list" where
  "by_cost_desc db groups = sort_key (\<lambda>(_, rs). - sum_units db lg_TotalCost rs) groups"

text \<open>\<open>DATE_TRUNC('day', requested_at)\<close> in the session's time zone, by day number, and its text.\<close>

definition local_day :: "db_numbers \<Rightarrow> request_log \<Rightarrow> int" where
  "local_day db lg = day_number (lg_RequestedAt lg + dn_zone db (lg_RequestedAt lg))"

definition by_day :: "db_numbers \<Rightarrow> request_log list \<Rightarrow> (int \<times> request_log list) list" where
  "by_day db rows = sort_key fst (group_by (local_day db) rows)"

definition day_text :: "int \<Rightarrow> string" where
  "day_text d = format_date CHR ''-'' (d * day)"

section \<open>Reports\<close>

definition GetUsageSummary :: "db_numbers \<Rightarrow> bool \<Rightarrow> request_log list \<Rightarrow> usage_filter \<Rightarrow> usage_error + usage_summary" where
  "GetUsageSummary db ok rows f =
     (let t = totals db (selected f rows) () in queried ok ''get usage summary''
       \<lparr>us_TotalRequests = ut_RequestCount t, us_TotalInputTokens = ut_InputTokens t, us_TotalOutputTokens = ut_OutputTokens t,
        us_TotalCachedTokens = ut_CachedTokens t, us_TotalCacheCreationTokens = ut_CacheCreationTokens t,
        us_TotalCost = ut_TotalCost t, us_TotalCachedCost = ut_CachedCost t, us_TotalCacheCreationCost = ut_CacheCreationCost t\<rparr>)"

definition GetDailyUsage :: "db_numbers \<Rightarrow> bool \<Rightarrow> request_log list \<Rightarrow> usage_filter \<Rightarrow> usage_error + daily_usage list" where
  "GetDailyUsage db ok rows f = queried ok ''get daily usage''
     (map (\<lambda>(d, rs). totals db rs (daily_usage.fields (day_text d))) (by_day db (selected f rows)))"

definition GetModelBreakdown :: "db_numbers \<Rightarrow> bool \<Rightarrow> request_log list \<Rightarrow> usage_filter \<Rightarrow> usage_error + model_usage list" where
  "GetModelBreakdown db ok rows f = queried ok ''get model breakdown''
     (map (\<lambda>((p, m), rs). totals db rs (model_usage.fields p m))
       (by_cost_desc db (group_by (\<lambda>lg. (lg_Provider lg, lg_Model lg)) (selected f rows))))"

definition GetProviderBreakdown :: "db_numbers \<Rightarrow> bool \<Rightarrow> request_log list \<Rightarrow> usage_filter \<Rightarrow> usage_error + provider_usage list" where
  "GetProviderBreakdown db ok rows f = queried ok ''get provider breakdown''
     (map (\<lambda>(p, rs). totals db rs (provider_usage.fields p)) (by_cost_desc db (group_by lg_Provider (selected f rows))))"

text \<open>The breakdown by key joins the table of keys, and its \<open>WHERE\<close> has no condition on the key.\<close>

definition key_name :: "api_key list \<Rightarrow> uuid option \<Rightarrow> string option" where
  "key_name keys k = (case k of None \<Rightarrow> None | Some i \<Rightarrow> map_option ak_Name (find (\<lambda>a. ak_ID a = i) keys))"

definition joined :: "api_key list \<Rightarrow> usage_filter \<Rightarrow> request_log list \<Rightarrow> request_log list" where
  "joined keys f rows = filter (\<lambda>lg. key_name keys (lg_MajordomoAPIKeyID lg) \<noteq> None)
     (filter (appendMetadataFilters (uf_MetadataFilters f) (\<lambda>lg. in_range f lg \<and> of_endpoint f lg)) rows)"

definition GetAPIKeyBreakdown :: "db_numbers \<Rightarrow> bool \<Rightarrow> api_key list \<Rightarrow> request_log list \<Rightarrow> usage_filter
    \<Rightarrow> usage_error + api_key_usage list" where
  "GetAPIKeyBreakdown db ok keys rows f = queried ok ''get api key breakdown''
     (map (\<lambda>((k, n), rs). totals db rs (api_key_usage.fields k n))
       (by_cost_desc db (group_by (\<lambda>lg. (the (lg_MajordomoAPIKeyID lg), the (key_name keys (lg_MajordomoAPIKeyID lg))))
          (joined keys f rows))))"

definition errorRate :: "int \<Rightarrow> int \<Rightarrow> f64" where
  "errorRate errCount total' = (if total' = 0 then 0 else f64_of_int errCount / f64_of_int total')"

definition error_count :: "request_log list \<Rightarrow> int" where
  "error_count rows = int (length (filter (\<lambda>lg. lg_StatusCode lg \<ge> 400) rows))"

definition GetErrorSummary :: "db_numbers \<Rightarrow> bool \<Rightarrow> bool \<Rightarrow> request_log list \<Rightarrow> usage_filter \<Rightarrow> usage_error + error_summary" where
  "GetErrorSummary db ok ok' rows f =
     (let sel = selected f rows; n = int (length sel) in
      if \<not> ok then Inl (QueryFailed ''get error summary'')
      else queried ok' ''get daily error rate''
        \<lparr>es_TotalRequests = n, es_ErrorRequests = error_count sel, es_ErrorRate = errorRate (error_count sel) n,
         es_Daily = map (\<lambda>(d, rs). \<lparr>de_Date = day_text d, de_RequestCount = int (length rs), de_ErrorCount = error_count rs,
            de_ErrorRate = errorRate (error_count rs) (int (length rs))\<rparr>) (by_day db sel)\<rparr>)"

text \<open>Rows with the latest first, and \<open>LIMIT\<close> with \<open>OFFSET\<close>; the service passes neither negative.\<close>

definition latest_first :: "request_log list \<Rightarrow> request_log list" where
  "latest_first rows = sort_key (\<lambda>lg. - lg_RequestedAt lg) rows"

definition page :: "int \<Rightarrow> int \<Rightarrow> 'a list \<Rightarrow> 'a list" where
  "page limit offset xs = take (nat limit) (drop (nat offset) xs)"

definition GetRecentErrors :: "bool \<Rightarrow> api_key list \<Rightarrow> request_log list \<Rightarrow> usage_filter \<Rightarrow> int
    \<Rightarrow> usage_error + recent_error list" where
  "GetRecentErrors ok keys rows f limit = queried ok ''get recent errors''
     (map (\<lambda>lg. \<lparr>re_ID = lg_ID lg, re_APIKeyID = lg_MajordomoAPIKeyID lg, re_APIKeyName = key_name keys (lg_MajordomoAPIKeyID lg),
        re_Provider = lg_Provider lg, re_Model = lg_Model lg, re_StatusCode = lg_StatusCode lg,
        re_ErrorMessage = lg_ErrorMessage lg, re_RequestedAt = lg_RequestedAt lg\<rparr>)
       (page limit 0 (latest_first (filter (\<lambda>lg. lg_StatusCode lg \<ge> 400) (selected f rows)))))"

text \<open>\<open>LatencyStats\<close> and \<open>DailyLatency\<close>: the average and three percentiles.\<close>

record latencies =
  lt_AvgLatencyMs :: f64
  lt_P50LatencyMs :: f64
  lt_P95LatencyMs :: f64
  lt_P99LatencyMs :: f64

record daily_latency = latencies +
  dl_Date :: string

record latency_stats = latencies +
  lt_Daily :: "daily_latency list"

definition latencies_of :: "db_numbers \<Rightarrow> request_log list \<Rightarrow> 'x \<Rightarrow> 'x latencies_scheme" where
  "latencies_of db rows x =
     (let ms = sort (map lg_ResponseTimeMs rows); p = (\<lambda>n. if ms = [] then 0 else dn_percentile db n ms) in
      \<lparr>lt_AvgLatencyMs = (if ms = [] then 0 else dn_avg db ms), lt_P50LatencyMs = p 50, lt_P95LatencyMs = p 95,
       lt_P99LatencyMs = p 99, \<dots> = x\<rparr>)"

definition GetLatencyStats :: "db_numbers \<Rightarrow> bool \<Rightarrow> bool \<Rightarrow> request_log list \<Rightarrow> usage_filter \<Rightarrow> usage_error + latency_stats" where
  "GetLatencyStats db ok ok' rows f =
     (if \<not> ok then Inl (QueryFailed ''get latency stats'')
      else queried ok' ''get daily latency stats''
        (latencies_of db (selected f rows) (latency_stats.fields
          (map (\<lambda>(d, rs). latencies_of db rs (daily_latency.fields (day_text d))) (by_day db (selected f rows))))))"

definition list_item :: "db_numbers \<Rightarrow> request_log \<Rightarrow> request_list_item" where
  "list_item db lg =
     \<lparr>ri_ID = lg_ID lg, ri_MajordomoAPIKeyID = lg_MajordomoAPIKeyID lg, ri_Provider = lg_Provider lg, ri_Model = lg_Model lg,
      ri_RequestedAt = lg_RequestedAt lg, ri_ResponseTimeMs = lg_ResponseTimeMs lg, ri_InputTokens = sint (lg_InputTokens lg),
      ri_OutputTokens = sint (lg_OutputTokens lg), ri_CachedTokens = sint (lg_CachedTokens lg),
      ri_CacheCreationTokens = sint (lg_CacheCreationTokens lg), ri_TotalCost = sum_cost db lg_TotalCost [lg],
      ri_StatusCode = lg_StatusCode lg, ri_ErrorMessage = lg_ErrorMessage lg, ri_TraceID = lg_TraceID lg,
      ri_RoutedProvider = lg_RoutedProvider lg\<rparr>"

definition list_selected :: "usage_filter \<Rightarrow> request_log list \<Rightarrow> request_log list" where
  "list_selected f rows = filter (appendExcludeRuns (uf_ExcludeRuns f) (appendStatusClass (uf_StatusClass f) (where_clause f))) rows"

definition ListUsageRequests :: "db_numbers \<Rightarrow> bool \<Rightarrow> bool \<Rightarrow> request_log list \<Rightarrow> usage_filter \<Rightarrow> int \<Rightarrow> int
    \<Rightarrow> usage_error + request_list_item list \<times> int" where
  "ListUsageRequests db ok ok' rows f limit offset =
     (let sel = list_selected f rows in
      if \<not> ok then Inl (QueryFailed ''count usage requests'')
      else queried ok' ''list usage requests'' (map (list_item db) (page limit offset (latest_first sel)), int (length sel)))"

definition GetMetadataBreakdown :: "db_numbers \<Rightarrow> bool \<Rightarrow> request_log list \<Rightarrow> usage_filter \<Rightarrow> string
    \<Rightarrow> usage_error + metadata_breakdown list" where
  "GetMetadataBreakdown db ok rows f keyName = queried ok ''get metadata breakdown''
     (map (\<lambda>(v, rs). \<lparr>mb_Value = the v, mb_RequestCount = int (length rs), mb_InputTokens = sum_tokens lg_InputTokens rs,
         mb_OutputTokens = sum_tokens lg_OutputTokens rs, mb_TotalCost = sum_cost db lg_TotalCost rs\<rparr>)
       (by_cost_desc db (group_by (\<lambda>lg. gm_get (lg_IndexedMetadata lg) keyName)
         (filter (\<lambda>lg. gm_get (lg_IndexedMetadata lg) keyName \<noteq> None) (selected f rows)))))"

text \<open>The row of one request; its costs come back through their columns.\<close>

definition read_back :: "db_numbers \<Rightarrow> request_log \<Rightarrow> request_log" where
  "read_back db lg = lg
     \<lparr>lg_InputCost := sum_cost db lg_InputCost [lg], lg_CachedCost := sum_cost db lg_CachedCost [lg],
      lg_CacheCreationCost := sum_cost db lg_CacheCreationCost [lg], lg_OutputCost := sum_cost db lg_OutputCost [lg],
      lg_TotalCost := sum_cost db lg_TotalCost [lg]\<rparr>"

definition GetRequestDetail :: "db_numbers \<Rightarrow> bool \<Rightarrow> request_log list \<Rightarrow> uuid \<Rightarrow> usage_error + request_log" where
  "GetRequestDetail db ok rows requestID =
     (if \<not> ok then Inl (QueryFailed ''get request detail'')
      else case find (\<lambda>lg. lg_ID lg = requestID) rows of
          None \<Rightarrow> Inl RequestNotFound
        | Some lg \<Rightarrow> Inr (read_back db lg))"

section \<open>Runs\<close>

text \<open>Both statements of \<open>ListRuns\<close> filter by time and key only.\<close>

definition run_selected :: "usage_filter \<Rightarrow> request_log list \<Rightarrow> request_log list" where
  "run_selected f rows = filter (\<lambda>lg. in_range f lg \<and> lg_TraceID lg \<noteq> None \<and> of_key (uf_APIKeyID f) lg) rows"

definition run_label :: "request_log \<Rightarrow> string" where
  "run_label lg = (if coalesce (lg_SpanPath lg) [] \<noteq> [] then takeWhile (\<lambda>c. c \<noteq> CHR ''/'') (coalesce (lg_SpanPath lg) [])
     else coalesce (lg_SpanName lg) (lg_Model lg))"

definition run_item :: "db_numbers \<Rightarrow> string option \<times> request_log list \<Rightarrow> run_list_item" where
  "run_item db = (\<lambda>(t, rs). totals db rs (run_list_item.fields (the t) (run_label (hd (sort_key lg_RequestedAt rs)))
     (Min (lg_RequestedAt ` set rs)) (Max (lg_RespondedAt ` set rs))))"

definition ListRuns :: "db_numbers \<Rightarrow> bool \<Rightarrow> bool \<Rightarrow> request_log list \<Rightarrow> usage_filter \<Rightarrow> int \<Rightarrow> int
    \<Rightarrow> usage_error + run_list_item list \<times> int" where
  "ListRuns db ok ok' rows f limit offset =
     (let sel = run_selected f rows in
      if \<not> ok then Inl (QueryFailed ''count runs'')
      else queried ok' ''list runs''
        (page limit offset (sort_key (\<lambda>r. - rl_EndedAt r) (map (run_item db) (group_by lg_TraceID sel))),
         int (length (remdups (map lg_TraceID sel)))))"

section \<open>Endpoint health\<close>

definition GetEndpointHealth :: "db_numbers \<Rightarrow> bool \<Rightarrow> request_log list \<Rightarrow> instant \<Rightarrow> usage_error + endpoint_health list" where
  "GetEndpointHealth db ok rows since = queried ok ''get endpoint health''
     (map (\<lambda>((p, m), rs). \<lparr>eh_Provider = p, eh_Model = m, eh_SampleCount = int (length rs),
          eh_AvgLatencyMs = dn_avg db (map lg_ResponseTimeMs rs),
          eh_ErrorRate = f64_of_int (int (length (filter (\<lambda>lg. lg_StatusCode lg \<ge> 500) rs))) / f64_of_int (int (length rs))\<rparr>)
       (group_by (\<lambda>lg. (lg_Provider lg, lg_Model lg)) (filter (\<lambda>lg. lg_RequestedAt lg > since) rows)))"

end
