(* ===== verification/Usage_Service.thy ===== *)
theory Usage_Service
  imports Usage_Queries Archive
begin

text \<open>
  The reporting service, \<open>internal/services/usage_service.go\<close> with the errors of \<open>errors.go\<close>: it resolves
  a query into a filter, bounds the page and hands both to the repository. Parsing a UUID is
  github.com/google/uuid's and comes as an argument, like the clock.
\<close>

section \<open>From a query to a filter\<close>

datatype validation_error =
  TooManyFilters | InvalidAPIKeyID string | InvalidStatusClass | EmptyMetadataFilter | InvalidStart string | InvalidEnd string

datatype service_error =
  ErrValidation validation_error | ErrUsage usage_error | ErrBodyArchivalDisabled | ErrNoBodyArchived | ErrDownload store_error

definition parseDate :: "string \<Rightarrow> instant option" where
  "parseDate s = (case parse_day s of Some t \<Rightarrow> Some t | None \<Rightarrow> parse_rfc3339 s)"

definition clampLimit :: "int \<Rightarrow> int \<Rightarrow> int \<Rightarrow> int" where
  "clampLimit v dflt mx = (if v \<le> 0 then dflt else if v > mx then mx else v)"

definition clampOffset :: "int \<Rightarrow> int" where
  "clampOffset v = (if v < 0 then 0 else v)"

definition resolve_key :: "(string \<Rightarrow> uuid option) \<Rightarrow> string \<Rightarrow> validation_error + uuid option" where
  "resolve_key parse_uuid s =
     (if s = [] then Inr None
      else case parse_uuid s of None \<Rightarrow> Inl (InvalidAPIKeyID s) | Some k \<Rightarrow> Inr (Some k))"

text \<open>Midnight after now, in UTC, and the days a preset goes back; an unknown preset counts as 30d.\<close>

definition next_midnight :: "instant \<Rightarrow> instant" where
  "next_midnight now = truncate_day now + day"

definition preset_days :: "string \<Rightarrow> int" where
  "preset_days preset =
     (let p = (if preset = [] then ''30d'' else preset) in if p = ''7d'' then 7 else if p = ''90d'' then 90 else 30)"

definition resolve_range :: "instant \<Rightarrow> usage_query \<Rightarrow> validation_error + instant \<times> instant" where
  "resolve_range now q =
     (if uq_Start q \<noteq> [] then
        (case parseDate (uq_Start q) of
           None \<Rightarrow> Inl (InvalidStart (uq_Start q))
         | Some start \<Rightarrow>
             if uq_End q \<noteq> [] then
               (case parseDate (uq_End q) of None \<Rightarrow> Inl (InvalidEnd (uq_End q)) | Some end' \<Rightarrow> Inr (start, end'))
             else Inr (start, next_midnight now))
      else Inr (next_midnight now - preset_days (uq_Preset q) * day, next_midnight now))"

definition resolveFilter :: "(string \<Rightarrow> uuid option) \<Rightarrow> instant \<Rightarrow> usage_query \<Rightarrow> validation_error + usage_filter" where
  "resolveFilter parse_uuid now q =
     (if length (uq_MetadataFilters q) > 2 then Inl TooManyFilters
      else case resolve_key parse_uuid (uq_APIKeyID q) of
        Inl e \<Rightarrow> Inl e
      | Inr k \<Rightarrow>
          if uq_StatusClass q \<notin> {'''', ''error'', ''success''} then Inl InvalidStatusClass
          else if list_ex (\<lambda>f. qf_Key f = [] \<or> qf_Value f = []) (uq_MetadataFilters q) then Inl EmptyMetadataFilter
          else case resolve_range now q of
            Inl e \<Rightarrow> Inl e
          | Inr (start, end') \<Rightarrow>
              Inr \<lparr>uf_Start = start, uf_End = end', uf_APIKeyID = k,
                uf_Provider = (if uq_Provider q = [] then None else Some (uq_Provider q)),
                uf_Model = (if uq_Model q = [] then None else Some (uq_Model q)), uf_StatusClass = uq_StatusClass q,
                uf_MetadataFilters = map (\<lambda>f. \<lparr>mf_Key = qf_Key f, mf_Value = qf_Value f\<rparr>) (uq_MetadataFilters q),
                uf_ExcludeRuns = uq_ExcludeRuns q\<rparr>)"

section \<open>The service\<close>

text \<open>The surroundings of one call: the database with its two tables, whether the first and the second
  statement run, the clock, and the body store's download when archival is on.\<close>

record usage_world =
  uw_db :: db_numbers
  uw_ok :: bool
  uw_ok' :: bool
  uw_rows :: "request_log list"
  uw_keys :: "api_key list"
  uw_parse_uuid :: "string \<Rightarrow> uuid option"
  uw_newSHA1 :: "uuid \<Rightarrow> string \<Rightarrow> uuid"
  uw_now :: instant
  uw_download :: "(string \<Rightarrow> store_error + body_content) option"

definition from_storage :: "usage_error + 'a \<Rightarrow> service_error + 'a" where
  "from_storage x = (case x of Inl e \<Rightarrow> Inl (ErrUsage e) | Inr a \<Rightarrow> Inr a)"

definition with_filter :: "usage_world \<Rightarrow> usage_query \<Rightarrow> (usage_filter \<Rightarrow> usage_error + 'a) \<Rightarrow> service_error + 'a" where
  "with_filter w q k =
     (case resolveFilter (uw_parse_uuid w) (uw_now w) q of Inl e \<Rightarrow> Inl (ErrValidation e) | Inr f \<Rightarrow> from_storage (k f))"

definition Summary :: "usage_world \<Rightarrow> usage_query \<Rightarrow> service_error + usage_summary" where
  "Summary w q = with_filter w q (GetUsageSummary (uw_db w) (uw_ok w) (uw_rows w))"

definition DailyUsage :: "usage_world \<Rightarrow> usage_query \<Rightarrow> service_error + daily_usage list" where
  "DailyUsage w q = with_filter w q (GetDailyUsage (uw_db w) (uw_ok w) (uw_rows w))"

definition ModelBreakdown :: "usage_world \<Rightarrow> usage_query \<Rightarrow> service_error + model_usage list" where
  "ModelBreakdown w q = with_filter w q (GetModelBreakdown (uw_db w) (uw_ok w) (uw_rows w))"

definition ProviderBreakdown :: "usage_world \<Rightarrow> usage_query \<Rightarrow> service_error + provider_usage list" where
  "ProviderBreakdown w q = with_filter w q (GetProviderBreakdown (uw_db w) (uw_ok w) (uw_rows w))"

definition APIKeyBreakdown :: "usage_world \<Rightarrow> usage_query \<Rightarrow> service_error + api_key_usage list" where
  "APIKeyBreakdown w q = with_filter w q (GetAPIKeyBreakdown (uw_db w) (uw_ok w) (uw_keys w) (uw_rows w))"

definition ErrorSummary :: "usage_world \<Rightarrow> usage_query \<Rightarrow> service_error + error_summary" where
  "ErrorSummary w q = with_filter w q (GetErrorSummary (uw_db w) (uw_ok w) (uw_ok' w) (uw_rows w))"

definition RecentErrors :: "usage_world \<Rightarrow> usage_query \<Rightarrow> service_error + recent_error list" where
  "RecentErrors w q = with_filter w q (\<lambda>f. GetRecentErrors (uw_ok w) (uw_keys w) (uw_rows w) f (clampLimit (uq_Limit q) 20 100))"

definition LatencyStats :: "usage_world \<Rightarrow> usage_query \<Rightarrow> service_error + latency_stats" where
  "LatencyStats w q = with_filter w q (GetLatencyStats (uw_db w) (uw_ok w) (uw_ok' w) (uw_rows w))"

definition ListRequests :: "usage_world \<Rightarrow> usage_query \<Rightarrow> service_error + request_list_item list \<times> int" where
  "ListRequests w q = with_filter w q (\<lambda>f. ListUsageRequests (uw_db w) (uw_ok w) (uw_ok' w) (uw_rows w) f
     (clampLimit (uq_Limit q) 50 200) (clampOffset (uq_Offset q)))"

definition service_ListRuns :: "usage_world \<Rightarrow> usage_query \<Rightarrow> service_error + run_list_item list \<times> int" where
  "service_ListRuns w q = with_filter w q (\<lambda>f. ListRuns (uw_db w) (uw_ok w) (uw_ok' w) (uw_rows w) f
     (clampLimit (uq_Limit q) 50 200) (clampOffset (uq_Offset q)))"

definition MetadataBreakdown :: "usage_world \<Rightarrow> usage_query \<Rightarrow> string \<Rightarrow> service_error + metadata_breakdown list" where
  "MetadataBreakdown w q keyName = with_filter w q (\<lambda>f. GetMetadataBreakdown (uw_db w) (uw_ok w) (uw_rows w) f keyName)"

definition RunTree :: "usage_world \<Rightarrow> string \<Rightarrow> service_error + run_tree option" where
  "RunTree w traceID = (case GetRunTree (uw_newSHA1 w) (uw_ok w) (uw_rows w) traceID of
     Inl _ \<Rightarrow> Inl (ErrUsage (QueryFailed ''fetch run tree'')) | Inr t \<Rightarrow> Inr t)"

definition RequestDetail :: "usage_world \<Rightarrow> uuid \<Rightarrow> service_error + request_log" where
  "RequestDetail w i = from_storage (GetRequestDetail (uw_db w) (uw_ok w) (uw_rows w) i)"

definition RequestBody :: "usage_world \<Rightarrow> uuid \<Rightarrow> service_error + body_content" where
  "RequestBody w i =
     (case uw_download w of
        None \<Rightarrow> Inl ErrBodyArchivalDisabled
      | Some download \<Rightarrow>
          (case GetRequestDetail (uw_db w) (uw_ok w) (uw_rows w) i of
             Inl e \<Rightarrow> Inl (ErrUsage e)
           | Inr detail \<Rightarrow>
               (case lg_BodyS3Key detail of
                  None \<Rightarrow> Inl ErrNoBodyArchived
                | Some key \<Rightarrow> (case download key of Inl e \<Rightarrow> Inl (ErrDownload e) | Inr content \<Rightarrow> Inr content))))"

end
