(* ===== verification/Metadata.thy ===== *)
theory Metadata
  imports Read_Through Repo_Keys
begin

text \<open>
  Metadata keys: the table of discovered keys and its repository
  (\<open>internal/repositories/metadata_keys.go\<close>), the cache of active keys (\<open>active_keys_cache.go\<close>), and
  the service that backfills or cleans up the request log when a key is switched
  (\<open>internal/services/metadata_service.go\<close>). A table is the list of its rows; a \<open>LIMIT\<close> without an
  order takes the first rows of the list.
\<close>

section \<open>The tables\<close>

record metadata_row =
  mr_APIKeyID :: uuid
  mr_KeyName :: string
  mr_DisplayName :: "string option"
  mr_KeyType :: string
  mr_IsRequired :: bool
  mr_IsActive :: bool
  mr_ActivatedAt :: "instant option"
  mr_RequestCount :: int
  mr_LastSeenAt :: "instant option"
  mr_HLLState :: "string option"
  mr_ApproxCardinality :: int
  mr_CreatedAt :: instant

definition mr_key :: "metadata_row \<Rightarrow> uuid \<times> string" where
  "mr_key r = (mr_APIKeyID r, mr_KeyName r)"

text \<open>The primary key of the table.\<close>

definition meta_ok :: "metadata_row list \<Rightarrow> bool" where
  "meta_ok rows \<longleftrightarrow> distinct (map mr_key rows)"

text \<open>An \<open>UPDATE\<close> of the row with a key, and the number of rows it affects.\<close>

definition update_key :: "uuid \<Rightarrow> string \<Rightarrow> (metadata_row \<Rightarrow> metadata_row) \<Rightarrow> metadata_row list \<Rightarrow> metadata_row list \<times> nat" where
  "update_key apiKeyID keyName f rows =
     (map (\<lambda>r. if mr_key r = (apiKeyID, keyName) then f r else r) rows,
      length (filter (\<lambda>r. mr_key r = (apiKeyID, keyName)) rows))"

section \<open>The cache of active keys\<close>

text \<open>A Go \<open>map[string]bool\<close> that only ever holds \<open>true\<close>: the list of its keys.\<close>

record active_cache =
  ac_cache :: "(uuid, string list \<times> instant) gomap"
  ac_ttl :: duration

definition NewActiveKeysCache :: "duration \<Rightarrow> active_cache" where
  "NewActiveKeysCache ttl = \<lparr>ac_cache = [], ac_ttl = ttl\<rparr>"

text \<open>The query may fail at once, which gives the empty set, or while its rows are read, which is an
  error. The second result of \<open>fetchActiveKeys\<close> is None then.\<close>

datatype query_outcome = QueryFails | RowsFail | RowsRead

definition fetchActiveKeys :: "query_outcome \<Rightarrow> metadata_row list \<Rightarrow> uuid \<Rightarrow> string list option" where
  "fetchActiveKeys outcome rows apiKeyID =
     (case outcome of
        QueryFails \<Rightarrow> Some []
      | RowsFail \<Rightarrow> None
      | RowsRead \<Rightarrow> Some (map mr_KeyName (filter (\<lambda>r. mr_APIKeyID r = apiKeyID \<and> mr_IsActive r) rows)))"

definition cached_keys :: "instant \<Rightarrow> uuid \<Rightarrow> active_cache \<Rightarrow> string list option" where
  "cached_keys now apiKeyID c =
     (case gm_get (ac_cache c) apiKeyID of
        None \<Rightarrow> None
      | Some (keys, expiresAt) \<Rightarrow> if now < expiresAt then Some keys else None)"

definition store_keys :: "instant \<Rightarrow> uuid \<Rightarrow> string list \<Rightarrow> active_cache \<Rightarrow> active_cache" where
  "store_keys now apiKeyID keys c = c\<lparr>ac_cache := gm_put apiKeyID (keys, now + ac_ttl c) (ac_cache c)\<rparr>"

definition GetActiveKeys :: "instant \<Rightarrow> instant \<Rightarrow> query_outcome \<Rightarrow> metadata_row list \<Rightarrow> uuid \<Rightarrow> active_cache
    \<Rightarrow> active_cache \<times> (repo_error + string list)" where
  "GetActiveKeys now now' outcome rows apiKeyID c =
     (case cached_keys now apiKeyID c of
        Some keys \<Rightarrow> (c, Inr keys)
      | None \<Rightarrow>
          (case fetchActiveKeys outcome rows apiKeyID of
             None \<Rightarrow> (c, Inl DBError)
           | Some keys \<Rightarrow> (store_keys now' apiKeyID keys c, Inr keys)))"

definition InvalidateAPIKey :: "uuid \<Rightarrow> active_cache \<Rightarrow> active_cache" where
  "InvalidateAPIKey apiKeyID c = c\<lparr>ac_cache := gm_del apiKeyID (ac_cache c)\<rparr>"

definition InvalidateAll :: "active_cache \<Rightarrow> active_cache" where
  "InvalidateAll c = c\<lparr>ac_cache := []\<rparr>"

section \<open>The repository\<close>

text \<open>The join drops a metadata key whose API key is gone; names are ordered by their bytes.\<close>

definition ListMetadataKeys :: "bool \<Rightarrow> api_key list \<Rightarrow> metadata_row list \<Rightarrow> repo_error + metadata_key list" where
  "ListMetadataKeys ok keys rows =
     (if \<not> ok then Inl DBError
      else Inr (concat (map (\<lambda>r. map (\<lambda>k.
              \<lparr>mk_MajordomoAPIKeyID = mr_APIKeyID r, mk_APIKeyName = ak_Name k, mk_KeyName = mr_KeyName r,
               mk_DisplayName = mr_DisplayName r, mk_KeyType = mr_KeyType r, mk_IsRequired = mr_IsRequired r,
               mk_IsActive = mr_IsActive r, mk_ActivatedAt = mr_ActivatedAt r, mk_RequestCount = mr_RequestCount r,
               mk_LastSeenAt = mr_LastSeenAt r, mk_ApproxCardinality = mr_ApproxCardinality r, mk_CreatedAt = mr_CreatedAt r\<rparr>)
            (filter (\<lambda>k. ak_ID k = mr_APIKeyID r) keys))
          (sort_key (\<lambda>r. - mr_ApproxCardinality r) (sort_key mr_KeyName rows)))))"

definition ListActiveMetadataKeysByAPIKey :: "bool \<Rightarrow> uuid \<Rightarrow> metadata_row list \<Rightarrow> repo_error + string list" where
  "ListActiveMetadataKeysByAPIKey ok apiKeyID rows =
     (if \<not> ok then Inl DBError else Inr (map mr_KeyName (filter (\<lambda>r. mr_APIKeyID r = apiKeyID \<and> mr_IsActive r) rows)))"

definition ListAllActiveMetadataKeys :: "bool \<Rightarrow> metadata_row list \<Rightarrow> repo_error + (uuid \<times> string) list" where
  "ListAllActiveMetadataKeys ok rows = (if \<not> ok then Inl DBError else Inr (map mr_key (filter mr_IsActive rows)))"

definition switch_key :: "bool \<Rightarrow> (metadata_row \<Rightarrow> metadata_row) \<Rightarrow> uuid \<Rightarrow> string \<Rightarrow> metadata_row list \<Rightarrow> active_cache
    \<Rightarrow> metadata_row list \<times> active_cache \<times> (repo_error + unit)" where
  "switch_key ok f apiKeyID keyName rows c =
     (if \<not> ok then (rows, c, Inl DBError)
      else case update_key apiKeyID keyName f rows of
        (rows', n) \<Rightarrow> if n = 0 then (rows', c, Inl ErrMetadataKeyNotFound)
                      else (rows', InvalidateAPIKey apiKeyID c, Inr ()))"

definition ActivateMetadataKey :: "bool \<Rightarrow> instant \<Rightarrow> uuid \<Rightarrow> string \<Rightarrow> metadata_row list \<Rightarrow> active_cache
    \<Rightarrow> metadata_row list \<times> active_cache \<times> (repo_error + unit)" where
  "ActivateMetadataKey ok now = switch_key ok (\<lambda>r. r\<lparr>mr_IsActive := True, mr_ActivatedAt := Some now\<rparr>)"

definition DeactivateMetadataKey :: "bool \<Rightarrow> uuid \<Rightarrow> string \<Rightarrow> metadata_row list \<Rightarrow> active_cache
    \<Rightarrow> metadata_row list \<times> active_cache \<times> (repo_error + unit)" where
  "DeactivateMetadataKey ok = switch_key ok (\<lambda>r. r\<lparr>mr_IsActive := False\<rparr>)"

definition UpdateMetadataKeyDisplayName :: "bool \<Rightarrow> uuid \<Rightarrow> string \<Rightarrow> string option \<Rightarrow> metadata_row list
    \<Rightarrow> metadata_row list \<times> (repo_error + unit)" where
  "UpdateMetadataKeyDisplayName ok apiKeyID keyName displayName rows =
     (if \<not> ok then (rows, Inl DBError)
      else case update_key apiKeyID keyName (\<lambda>r. r\<lparr>mr_DisplayName := displayName\<rparr>) rows of
        (rows', n) \<Rightarrow> (rows', if n = 0 then Inl ErrMetadataKeyNotFound else Inr ()))"

subsection \<open>Batches\<close>

text \<open>One \<open>UPDATE \<dots> WHERE id IN (SELECT id \<dots> LIMIT n)\<close>: the new rows and the number changed.\<close>

fun update_first :: "nat \<Rightarrow> ('r \<Rightarrow> bool) \<Rightarrow> ('r \<Rightarrow> 'r) \<Rightarrow> 'r list \<Rightarrow> 'r list \<times> nat" where
  "update_first n P f [] = ([], 0)"
| "update_first n P f (r # rs) =
     (if 0 < n \<and> P r then (case update_first (n - 1) P f rs of (rs', k) \<Rightarrow> (f r # rs', Suc k))
      else case update_first n P f rs of (rs', k) \<Rightarrow> (r # rs', k))"

text \<open>The loop over the batches; \<open>ok i\<close> says whether the i-th statement succeeds. It goes on as long as a
  batch is full, so it need not end: the result is None then. The second component is the total.\<close>

partial_function (option) update_batches ::
    "(nat \<Rightarrow> bool) \<Rightarrow> nat \<Rightarrow> ('r \<Rightarrow> bool) \<Rightarrow> ('r \<Rightarrow> 'r) \<Rightarrow> nat \<Rightarrow> nat \<Rightarrow> 'r list \<Rightarrow> ('r list \<times> nat \<times> (repo_error + unit)) option" where
  "update_batches ok batchSize P f i tot rows =
     (if \<not> ok i then Some (rows, tot, Inl DBError)
      else case update_first batchSize P f rows of
        (rows', n) \<Rightarrow>
          if n < batchSize then Some (rows', tot + n, Inr ())
          else update_batches ok batchSize P f (Suc i) (tot + n) rows')"

definition to_backfill :: "uuid \<Rightarrow> string \<Rightarrow> request_log \<Rightarrow> bool" where
  "to_backfill apiKeyID keyName r \<longleftrightarrow> lg_MajordomoAPIKeyID r = Some apiKeyID
     \<and> gm_get (lg_RawMetadata r) keyName \<noteq> None \<and> gm_get (lg_IndexedMetadata r) keyName = None"

definition backfill_row :: "string \<Rightarrow> request_log \<Rightarrow> request_log" where
  "backfill_row keyName r =
     r\<lparr>lg_IndexedMetadata := gm_put keyName (the (gm_get (lg_RawMetadata r) keyName)) (lg_IndexedMetadata r)\<rparr>"

definition BackfillIndexedMetadata :: "(nat \<Rightarrow> bool) \<Rightarrow> uuid \<Rightarrow> string \<Rightarrow> nat \<Rightarrow> request_log list
    \<Rightarrow> (request_log list \<times> nat \<times> (repo_error + unit)) option" where
  "BackfillIndexedMetadata ok apiKeyID keyName batchSize rows =
     update_batches ok batchSize (to_backfill apiKeyID keyName) (backfill_row keyName) 0 0 rows"

definition to_cleanup :: "uuid \<Rightarrow> string \<Rightarrow> request_log \<Rightarrow> bool" where
  "to_cleanup apiKeyID keyName r \<longleftrightarrow> lg_MajordomoAPIKeyID r = Some apiKeyID \<and> gm_get (lg_IndexedMetadata r) keyName \<noteq> None"

definition cleanup_row :: "string \<Rightarrow> request_log \<Rightarrow> request_log" where
  "cleanup_row keyName r = r\<lparr>lg_IndexedMetadata := gm_del keyName (lg_IndexedMetadata r)\<rparr>"

definition CleanupIndexedMetadata :: "(nat \<Rightarrow> bool) \<Rightarrow> uuid \<Rightarrow> string \<Rightarrow> nat \<Rightarrow> request_log list
    \<Rightarrow> (request_log list \<times> nat \<times> (repo_error + unit)) option" where
  "CleanupIndexedMetadata ok apiKeyID keyName batchSize rows =
     update_batches ok batchSize (to_cleanup apiKeyID keyName) (cleanup_row keyName) 0 0 rows"

section \<open>The service\<close>

definition backfillBatchSize :: nat where "backfillBatchSize = 1000"

definition ListMetadata :: "bool \<Rightarrow> api_key list \<Rightarrow> metadata_row list \<Rightarrow> repo_error + metadata_key list" where
  "ListMetadata ok keys rows = ListMetadataKeys ok keys rows"

text \<open>The background job started by a switch that succeeds.\<close>

datatype metadata_job = BackfillJob uuid string | CleanupJob uuid string

definition with_job :: "metadata_job \<Rightarrow> 'a \<times> 'b \<times> (repo_error + unit) \<Rightarrow> 'a \<times> 'b \<times> (repo_error + unit) \<times> metadata_job option" where
  "with_job j x = (case x of (a, b, Inl e) \<Rightarrow> (a, b, Inl e, None) | (a, b, Inr u) \<Rightarrow> (a, b, Inr u, Some j))"

definition Activate :: "bool \<Rightarrow> instant \<Rightarrow> uuid \<Rightarrow> string \<Rightarrow> metadata_row list \<Rightarrow> active_cache
    \<Rightarrow> metadata_row list \<times> active_cache \<times> (repo_error + unit) \<times> metadata_job option" where
  "Activate ok now apiKeyID keyName rows c =
     with_job (BackfillJob apiKeyID keyName) (ActivateMetadataKey ok now apiKeyID keyName rows c)"

definition Deactivate :: "bool \<Rightarrow> uuid \<Rightarrow> string \<Rightarrow> metadata_row list \<Rightarrow> active_cache
    \<Rightarrow> metadata_row list \<times> active_cache \<times> (repo_error + unit) \<times> metadata_job option" where
  "Deactivate ok apiKeyID keyName rows c =
     with_job (CleanupJob apiKeyID keyName) (DeactivateMetadataKey ok apiKeyID keyName rows c)"

text \<open>A job's rows; its error is only logged.\<close>

primrec run_job :: "(nat \<Rightarrow> bool) \<Rightarrow> metadata_job \<Rightarrow> request_log list \<Rightarrow> request_log list option" where
  "run_job ok (BackfillJob k n) rows = map_option fst (BackfillIndexedMetadata ok k n backfillBatchSize rows)"
| "run_job ok (CleanupJob k n) rows = map_option fst (CleanupIndexedMetadata ok k n backfillBatchSize rows)"

section \<open>Batches end, and do all the work\<close>

text \<open>What a finished update makes of a row.\<close>

definition settle :: "('r \<Rightarrow> bool) \<Rightarrow> ('r \<Rightarrow> 'r) \<Rightarrow> 'r \<Rightarrow> 'r" where
  "settle P f r = (if P r then f r else r)"

abbreviation waiting :: "('r \<Rightarrow> bool) \<Rightarrow> 'r list \<Rightarrow> nat" where
  "waiting P rows \<equiv> length (filter P rows)"

lemma update_first_count: "snd (update_first n P f rows) = min n (waiting P rows)"
  by (induction rows arbitrary: n) (auto simp: case_prod_unfold)

lemma update_first_settle:
  assumes "\<And>r. P r \<Longrightarrow> \<not> P (f r)"
  shows "map (settle P f) (fst (update_first n P f rows)) = map (settle P f) rows"
    and "waiting P (fst (update_first n P f rows)) = waiting P rows - n"
  using assms by (induction rows arbitrary: n) (auto simp: case_prod_unfold settle_def)

abbreviation partly_settled :: "('r \<Rightarrow> bool) \<Rightarrow> ('r \<Rightarrow> 'r) \<Rightarrow> 'r list \<Rightarrow> 'r list \<Rightarrow> bool" where
  "partly_settled P f \<equiv> list_all2 (\<lambda>r r'. r' = r \<or> P r \<and> r' = f r)"

lemma partly_settled_refl: "partly_settled P f rows rows"
  by (simp add: list.rel_refl)

lemma update_first_partly: "partly_settled P f rows (fst (update_first n P f rows))"
  by (induction rows arbitrary: n) (auto simp: case_prod_unfold)

lemma partly_settled_trans:
  assumes "\<And>r. P r \<Longrightarrow> \<not> P (f r)" and "partly_settled P f a b" and "partly_settled P f b c"
  shows "partly_settled P f a c"
  using assms(2,3)
proof (induction a b arbitrary: c rule: list_all2_induct)
  case (Cons x xs y ys)
  from Cons.prems obtain z zs where c: "c = z # zs" "z = y \<or> P y \<and> z = f y" "partly_settled P f ys zs"
    by (auto simp: list_all2_Cons1)
  with Cons.IH [OF c(3)] Cons.hyps assms(1) show ?case by auto
qed auto

lemma settle_done: "waiting P rows = 0 \<Longrightarrow> map (settle P f) rows = rows"
  by (induction rows) (auto simp: settle_def split: if_splits)

text \<open>Rows that no longer match stay as they are, so every full batch shortens what is waiting and the
  loop ends, whatever statements fail.\<close>

lemma update_batches_ends:
  assumes P: "\<And>r. P r \<Longrightarrow> \<not> P (f r)" and b: "0 < b"
  shows "\<exists>rows' n e. update_batches ok b P f i tot rows = Some (rows', tot + n, e)
    \<and> n + waiting P rows' = waiting P rows \<and> map (settle P f) rows' = map (settle P f) rows \<and> partly_settled P f rows rows'
    \<and> (e = Inr () \<longrightarrow> waiting P rows' = 0) \<and> ((\<forall>j \<ge> i. ok j) \<longrightarrow> e = Inr ())"
proof (induction "waiting P rows" arbitrary: i tot rows rule: less_induct)
  case less
  let ?r = "update_first b P f rows"
  note s = update_first_settle [of P f, OF P, of b rows] and c = update_first_count [of b P f rows]
  show ?case
  proof (cases "ok i")
    case False
    then show ?thesis
      by (intro exI [of _ rows] exI [of _ 0] exI [of _ "Inl DBError"]) (auto simp: update_batches.simps list.rel_refl)
  next
    case True
    note step = update_batches.simps [of ok b P f i tot rows]
    show ?thesis
    proof (cases "snd ?r < b")
      case True
      with \<open>ok i\<close> c s update_first_partly [of P f rows b] show ?thesis
        by (intro exI [of _ "fst ?r"] exI [of _ "snd ?r"] exI [of _ "Inr ()"])
          (auto simp: step case_prod_unfold)
    next
      case False
      with c b have w: "waiting P (fst ?r) < waiting P rows" "snd ?r = b" "b \<le> waiting P rows" by (auto simp: s(2))
      from less [OF w(1), of "Suc i" "tot + b"] obtain rows' n e where
        r: "update_batches ok b P f (Suc i) (tot + b) (fst ?r) = Some (rows', tot + b + n, e)"
           "n + waiting P rows' = waiting P (fst ?r)" "map (settle P f) rows' = map (settle P f) (fst ?r)"
           "partly_settled P f (fst ?r) rows'" "e = Inr () \<longrightarrow> waiting P rows' = 0" "(\<forall>j \<ge> Suc i. ok j) \<longrightarrow> e = Inr ()"
        by blast
      have "update_batches ok b P f i tot rows = Some (rows', tot + (b + n), e)"
        using \<open>ok i\<close> w(2) r(1) by (simp add: step case_prod_unfold add.assoc)
      moreover have "b + n + waiting P rows' = waiting P rows" using r(2) w(3) by (simp add: s(2))
      moreover have "partly_settled P f rows rows'"
        by (rule partly_settled_trans [OF P update_first_partly r(4)])
      ultimately show ?thesis using r(3,5,6) s(1) by (intro exI [of _ rows'] exI [of _ "b + n"] exI [of _ e]) auto
    qed
  qed
qed

lemma update_batches_done:
  assumes "\<And>r. P r \<Longrightarrow> \<not> P (f r)" and "0 < b" and "\<And>j. ok j"
  shows "update_batches ok b P f 0 0 rows = Some (map (settle P f) rows, waiting P rows, Inr ())"
proof -
  obtain rows' n e where r: "update_batches ok b P f 0 0 rows = Some (rows', 0 + n, e)"
      "n + waiting P rows' = waiting P rows" "map (settle P f) rows' = map (settle P f) rows"
      "e = Inr () \<longrightarrow> waiting P rows' = 0" "(\<forall>j \<ge> 0. ok j) \<longrightarrow> e = Inr ()"
    using update_batches_ends [of P f b ok 0 0 rows] assms(1,2) by blast
  with assms(3) settle_done [of P rows' f] show ?thesis by simp
qed

lemma backfill_settles: "to_backfill k n r \<Longrightarrow> \<not> to_backfill k n (backfill_row n r)"
proof -
  have "gm_get (gm_put n v m) n \<noteq> None" for v and m :: "(string, string) gomap"
    by (induction m) auto
  then show "to_backfill k n r \<Longrightarrow> \<not> to_backfill k n (backfill_row n r)"
    by (simp add: to_backfill_def backfill_row_def)
qed

lemma cleanup_settles: "to_cleanup k n r \<Longrightarrow> \<not> to_cleanup k n (cleanup_row n r)"
  by (simp add: to_cleanup_def cleanup_row_def gm_get_del)

section \<open>The cache of active keys as a read-through cache\<close>

text \<open>The database of the world is the table and how a query for it ends.\<close>

definition active_ops :: "(query_outcome \<times> metadata_row list, active_cache, uuid, string list) cache_ops" where
  "active_ops = \<lparr>op_fetch = \<lambda>db k. fetchActiveKeys (fst db) (snd db) k,
     op_serve = \<lambda>now k c. (c, cached_keys now k c), op_store = store_keys, op_forget = InvalidateAPIKey\<rparr>"

definition active_entry :: "active_cache \<Rightarrow> uuid \<Rightarrow> (string list \<times> instant) option" where
  "active_entry c k = gm_get (ac_cache c) k"

definition active_set :: "nat \<Rightarrow> active_cache \<Rightarrow> bool" where
  "active_set n c \<longleftrightarrow> gm_ok (ac_cache c) \<and> ac_ttl c = int n"

interpretation active_keys: read_through active_ops "int n" active_entry "active_set n" for n
proof
  fix c now k v k' v' e x assume ok: "active_set n c"
  show "snd (op_serve active_ops now k c) = Some v \<Longrightarrow> \<exists>e. active_entry c k = Some (v, e) \<and> now \<le> e"
    by (auto simp: active_ops_def active_entry_def cached_keys_def split: option.splits if_splits)
  show "active_entry (fst (op_serve active_ops now k c)) k' = Some x \<Longrightarrow> active_entry c k' = Some x"
    by (simp add: active_ops_def)
  show "active_entry (op_store active_ops now k v c) k' = Some (v', e) \<Longrightarrow>
      k' = k \<and> v' = v \<and> e = now + int n \<or> active_entry c k' = Some (v', e)"
    using ok by (auto simp: active_ops_def active_entry_def store_keys_def active_set_def gm_get_put split: if_splits)
  show "active_entry (op_forget active_ops k c) k' = Some x \<Longrightarrow> active_entry c k' = Some x"
    by (auto simp: active_ops_def active_entry_def InvalidateAPIKey_def gm_get_del split: if_splits)
  show "active_set n (fst (op_serve active_ops now k c))" using ok by (simp add: active_ops_def)
  show "active_set n (op_store active_ops now k v c)"
    using ok by (simp add: active_ops_def store_keys_def active_set_def)
  show "active_set n (op_forget active_ops k c)"
    using ok by (simp add: active_ops_def InvalidateAPIKey_def active_set_def)
qed simp

section \<open>Switching a key\<close>

abbreviation indexed_by :: "uuid \<Rightarrow> string \<Rightarrow> request_log \<Rightarrow> request_log" where
  "indexed_by k n q \<equiv> (if lg_MajordomoAPIKeyID q = Some k \<and> gm_get (lg_IndexedMetadata q) n = None
     then (case gm_get (lg_RawMetadata q) n of
             Some v \<Rightarrow> q\<lparr>lg_IndexedMetadata := gm_put n v (lg_IndexedMetadata q)\<rparr> | None \<Rightarrow> q)
     else q)"

abbreviation unindexed_by :: "uuid \<Rightarrow> string \<Rightarrow> request_log \<Rightarrow> request_log" where
  "unindexed_by k n q \<equiv> (if lg_MajordomoAPIKeyID q = Some k
     then q\<lparr>lg_IndexedMetadata := gm_del n (lg_IndexedMetadata q)\<rparr> else q)"

lemma gm_del_absent: "gm_get m n = None \<Longrightarrow> gm_del n m = m"
  by (force simp: gm_del_def map_of_eq_None_iff intro!: filter_True)

lemma settle_jobs:
  "settle (to_backfill k n) (backfill_row n) = indexed_by k n"
  "settle (to_cleanup k n) (cleanup_row n) = unindexed_by k n"
  by (auto simp: fun_eq_iff settle_def to_backfill_def backfill_row_def to_cleanup_def cleanup_row_def gm_del_absent)

lemma run_job_done:
  assumes "\<And>i. ok i"
  shows "run_job ok (BackfillJob k n) reqs = Some (map (indexed_by k n) reqs)"
    and "run_job ok (CleanupJob k n) reqs = Some (map (unindexed_by k n) reqs)"
proof -
  have b: "0 < backfillBatchSize" by (simp add: backfillBatchSize_def)
  show "run_job ok (BackfillJob k n) reqs = Some (map (indexed_by k n) reqs)"
    using update_batches_done [of "to_backfill k n" "backfill_row n", OF backfill_settles b assms]
    by (simp only: run_job.simps BackfillIndexedMetadata_def option.map fst_conv settle_jobs)
  show "run_job ok (CleanupJob k n) reqs = Some (map (unindexed_by k n) reqs)"
    using update_batches_done [of "to_cleanup k n" "cleanup_row n", OF cleanup_settles b assms]
    by (simp only: run_job.simps CleanupIndexedMetadata_def option.map fst_conv settle_jobs)
qed

lemma switch_key_found:
  assumes "r \<in> set rows" and "mr_key r = (k, n)"
  shows "switch_key True f k n rows c = (fst (update_key k n f rows), InvalidateAPIKey k c, Inr ())"
    and "f r \<in> set (fst (update_key k n f rows))"
proof -
  have "filter (\<lambda>x. mr_key x = (k, n)) rows \<noteq> []" using assms by (auto simp: filter_empty_conv)
  then show "switch_key True f k n rows c = (fst (update_key k n f rows), InvalidateAPIKey k c, Inr ())"
    by (simp add: switch_key_def update_key_def)
  show "f r \<in> set (fst (update_key k n f rows))" using assms by (force simp: update_key_def)
qed

section \<open>Properties\<close>

text \<open>C27. A background job always ends, however many of its statements fail: the table keeps its rows in
  place, and each is as it was or as the job makes it. A backfill adds to the indexed metadata of a
  request of that API key the raw value of that name, a cleanup removes the name.\<close>

theorem metadata_job_ends:
  "\<exists>rows'. run_job ok j rows = Some rows' \<and>
     list_all2 (\<lambda>r r'. r' = r \<or>
       (case j of
          BackfillJob k n \<Rightarrow> lg_MajordomoAPIKeyID r = Some k \<and> gm_get (lg_IndexedMetadata r) n = None
            \<and> (\<exists>v. gm_get (lg_RawMetadata r) n = Some v \<and> r' = r\<lparr>lg_IndexedMetadata := gm_put n v (lg_IndexedMetadata r)\<rparr>)
        | CleanupJob k n \<Rightarrow> lg_MajordomoAPIKeyID r = Some k
            \<and> r' = r\<lparr>lg_IndexedMetadata := gm_del n (lg_IndexedMetadata r)\<rparr>)) rows rows'"
proof (cases j)
  case (BackfillJob k n)
  obtain rows' m e where r: "update_batches ok backfillBatchSize (to_backfill k n) (backfill_row n) 0 0 rows = Some (rows', m, e)"
      "partly_settled (to_backfill k n) (backfill_row n) rows rows'"
    using update_batches_ends [of "to_backfill k n" "backfill_row n" backfillBatchSize ok 0 0 rows]
    by (auto simp: backfill_settles backfillBatchSize_def)
  from r(2) have "list_all2 (\<lambda>r r'. r' = r \<or> lg_MajordomoAPIKeyID r = Some k \<and> gm_get (lg_IndexedMetadata r) n = None
      \<and> (\<exists>v. gm_get (lg_RawMetadata r) n = Some v \<and> r' = r\<lparr>lg_IndexedMetadata := gm_put n v (lg_IndexedMetadata r)\<rparr>)) rows rows'"
    by (rule list_all2_mono) (auto simp: to_backfill_def backfill_row_def)
  with r(1) BackfillJob show ?thesis by (simp add: BackfillIndexedMetadata_def)
next
  case (CleanupJob k n)
  obtain rows' m e where r: "update_batches ok backfillBatchSize (to_cleanup k n) (cleanup_row n) 0 0 rows = Some (rows', m, e)"
      "partly_settled (to_cleanup k n) (cleanup_row n) rows rows'"
    using update_batches_ends [of "to_cleanup k n" "cleanup_row n" backfillBatchSize ok 0 0 rows]
    by (auto simp: cleanup_settles backfillBatchSize_def)
  from r(2) have "list_all2 (\<lambda>r r'. r' = r \<or> lg_MajordomoAPIKeyID r = Some k
      \<and> r' = r\<lparr>lg_IndexedMetadata := gm_del n (lg_IndexedMetadata r)\<rparr>) rows rows'"
    by (rule list_all2_mono) (auto simp: to_cleanup_def cleanup_row_def)
  with r(1) CleanupJob show ?thesis by (simp add: CleanupIndexedMetadata_def)
qed

text \<open>C28. Switching a metadata key. When the key exists, activating or deactivating it flips its row, drops
  the cached set of its API key and starts a job; and when no statement of the job fails, afterwards
  every request of that API key that carries the name has it indexed with its raw value unless it was
  indexed before, respectively no request of that API key has it indexed, and no other request has
  changed.\<close>

theorem switching_rewrites_log:
  assumes "r \<in> set rows" and "mr_key r = (k, n)" and "\<And>i. ok i"
  shows "(\<exists>rows' c' j. Activate True now k n rows c = (rows', c', Inr (), Some j)
      \<and> r\<lparr>mr_IsActive := True, mr_ActivatedAt := Some now\<rparr> \<in> set rows' \<and> gm_get (ac_cache c') k = None
      \<and> run_job ok j reqs = Some (map (indexed_by k n) reqs))
    \<and> (\<exists>rows' c' j. Deactivate True k n rows c = (rows', c', Inr (), Some j)
      \<and> r\<lparr>mr_IsActive := False\<rparr> \<in> set rows' \<and> gm_get (ac_cache c') k = None
      \<and> run_job ok j reqs = Some (map (unindexed_by k n) reqs))"
proof -
  have c: "gm_get (ac_cache (InvalidateAPIKey k c)) k = None" by (simp add: InvalidateAPIKey_def gm_get_del)
  note f = switch_key_found [OF assms(1,2)] and j = run_job_done [of ok, OF assms(3), of k n reqs]
  have "Activate True now k n rows c = (fst (update_key k n (\<lambda>r. r\<lparr>mr_IsActive := True, mr_ActivatedAt := Some now\<rparr>) rows),
      InvalidateAPIKey k c, Inr (), Some (BackfillJob k n))"
    by (simp add: Activate_def with_job_def ActivateMetadataKey_def f(1))
  moreover have "Deactivate True k n rows c = (fst (update_key k n (\<lambda>r. r\<lparr>mr_IsActive := False\<rparr>) rows),
      InvalidateAPIKey k c, Inr (), Some (CleanupJob k n))"
    by (simp add: Deactivate_def with_job_def DeactivateMetadataKey_def f(1))
  ultimately show ?thesis
    using c j f(2) [of "\<lambda>r. r\<lparr>mr_IsActive := True, mr_ActivatedAt := Some now\<rparr>"] f(2) [of "\<lambda>r. r\<lparr>mr_IsActive := False\<rparr>"]
    by (intro conjI exI) (assumption | simp)+
qed

definition example_meta :: metadata_row where
  "example_meta = \<lparr>mr_APIKeyID = 7, mr_KeyName = ''team'', mr_DisplayName = None, mr_KeyType = ''string'', mr_IsRequired = False,
     mr_IsActive = False, mr_ActivatedAt = None, mr_RequestCount = 0, mr_LastSeenAt = None, mr_HLLState = None,
     mr_ApproxCardinality = 0, mr_CreatedAt = 0\<rparr>"

theorem switching_rewrites_log_witness:
  "\<exists>rows' c' j. Activate True 0 7 ''team'' [example_meta] (NewActiveKeysCache 0) = (rows', c', Inr (), Some j)
     \<and> run_job (\<lambda>_. True) j [] = Some []"
proof -
  have "example_meta \<in> set [example_meta]" "mr_key example_meta = (7, ''team'')"
    by (simp_all add: example_meta_def mr_key_def)
  from switching_rewrites_log [OF this, of "\<lambda>_. True" 0 "NewActiveKeysCache 0" "[]"] show ?thesis by auto
qed

text \<open>C29. The active keys the writer sees were the table's at most the lifetime of the cache ago. However
  lookups, switches and invalidations interleave, and when a query takes at most \<open>lat\<close>: if the cache
  answers with a set of names, then at a moment at most \<open>lat\<close> and the lifetime before, either those
  were the active names of the API key, or the query failed and the set is empty.\<close>

theorem active_keys_backed:
  assumes "cache_run active_ops lat (cache_start now db (NewActiveKeysCache (int ttl))) es = Some w"
    and "(t, k, names) \<in> set (cw_served w)"
  shows "\<exists>t0 outcome rows. (t0, outcome, rows) \<in> set (cw_past w) \<and> t0 \<le> t \<and> t \<le> t0 + lat + int ttl
    \<and> (outcome = RowsRead \<and> names = map mr_KeyName (filter (\<lambda>r. mr_APIKeyID r = k \<and> mr_IsActive r) rows)
       \<or> outcome = QueryFails \<and> names = [])"
proof -
  have "backed active_ops (cw_past w) (lat + int ttl) t k names"
    by (rule active_keys.served_backed [OF assms(1) _ _ assms(2)])
      (simp_all add: active_set_def active_entry_def NewActiveKeysCache_def)
  then obtain t0 db' where d: "(t0, db') \<in> set (cw_past w)" "t0 \<le> t" "t \<le> t0 + (lat + int ttl)"
    and f: "fetchActiveKeys (fst db') (snd db') k = Some names"
    by (auto simp: backed_def active_ops_def)
  from f have "fst db' = RowsRead \<and> names = map mr_KeyName (filter (\<lambda>r. mr_APIKeyID r = k \<and> mr_IsActive r) (snd db'))
      \<or> fst db' = QueryFails \<and> names = []"
    by (auto simp: fetchActiveKeys_def split: query_outcome.splits)
  with d show ?thesis
    by (intro exI [of _ t0] exI [of _ "fst db'"] exI [of _ "snd db'"]) (cases db', simp add: add.assoc)
qed

text \<open>A query that fails once leaves the empty set in the cache: it is served although the table has an
  active key at every moment and the database is well again.\<close>

definition failing_run :: "(query_outcome \<times> metadata_row list, uuid) cache_event list" where
  "failing_run = [Ask 7, Finish 0 [], Change (RowsRead, [example_meta\<lparr>mr_IsActive := True\<rparr>]), Wait 4, Ask 7]"

lemma failing_run_served:
  "\<exists>w. cache_run active_ops 0 (cache_start 0 (QueryFails, [example_meta\<lparr>mr_IsActive := True\<rparr>]) (NewActiveKeysCache (int 5)))
     failing_run = Some w \<and> (4, 7, []) \<in> set (cw_served w)"
  by (simp add: failing_run_def cache_start_def active_ops_def cached_keys_def NewActiveKeysCache_def fetchActiveKeys_def
      store_keys_def)

theorem active_keys_backed_witness:
  "\<exists>w t0 outcome rows. cache_run active_ops 0 (cache_start 0 (QueryFails, [example_meta\<lparr>mr_IsActive := True\<rparr>])
       (NewActiveKeysCache (int 5))) failing_run = Some w
     \<and> (t0, outcome, rows) \<in> set (cw_past w) \<and> outcome \<noteq> RowsFail"
proof -
  obtain w where w: "cache_run active_ops 0 (cache_start 0 (QueryFails, [example_meta\<lparr>mr_IsActive := True\<rparr>])
       (NewActiveKeysCache (int 5))) failing_run = Some w" "(4, 7, []) \<in> set (cw_served w)"
    using failing_run_served by blast
  from active_keys_backed [OF w] w(1) show ?thesis by auto
qed

end
