(* ===== verification/Request_Log.thy ===== *)
theory Request_Log
  imports Metadata "HOL-Library.Product_Lexorder"
begin

text \<open>
  The way of a log entry into the database: the sketches that count the values of metadata keys
  (\<open>internal/repositories/hll_manager.go\<close>) and the asynchronous writer
  (\<open>internal/requestlog/writer.go\<close>). A sketch is a value of github.com/axiomhq/hyperloglog and comes
  with its operations as an argument.
\<close>

section \<open>Sketches\<close>

record 'h sketch_ops =
  sk_New :: 'h
  sk_Insert :: "string \<Rightarrow> 'h \<Rightarrow> 'h"
  sk_Estimate :: "'h \<Rightarrow> int"
  sk_Marshal :: "'h \<Rightarrow> string option"
  sk_Unmarshal :: "string \<Rightarrow> 'h option"

record 'h hllEntry =
  he_hll :: 'h
  he_dirty :: bool
  he_count :: int

type_synonym 'h hlls = "(uuid \<times> string, 'h hllEntry) gomap"

text \<open>\<open>LoadFromDB\<close>; a state that cannot be decoded is skipped. None when the query fails.\<close>

definition load_row :: "'h sketch_ops \<Rightarrow> metadata_row \<Rightarrow> 'h hlls \<Rightarrow> 'h hlls" where
  "load_row ops r m =
     (case mr_HLLState r of
        None \<Rightarrow> m
      | Some bytes \<Rightarrow>
          (case sk_Unmarshal ops bytes of
             None \<Rightarrow> m
           | Some h \<Rightarrow> gm_put (mr_key r) \<lparr>he_hll = h, he_dirty = False, he_count = 0\<rparr> m))"

definition LoadFromDB :: "'h sketch_ops \<Rightarrow> bool \<Rightarrow> metadata_row list \<Rightarrow> 'h hlls \<Rightarrow> 'h hlls option" where
  "LoadFromDB ops ok rows m = (if ok then Some (fold (load_row ops) rows m) else None)"

definition AddValue :: "'h sketch_ops \<Rightarrow> uuid \<Rightarrow> string \<Rightarrow> string \<Rightarrow> 'h hlls \<Rightarrow> 'h hlls" where
  "AddValue ops apiKeyID keyName v m =
     (let key = (apiKeyID, keyName);
          entry = (case gm_get m key of Some e \<Rightarrow> e | None \<Rightarrow> \<lparr>he_hll = sk_New ops, he_dirty = True, he_count = 0\<rparr>)
      in gm_put key \<lparr>he_hll = sk_Insert ops v (he_hll entry), he_dirty = True, he_count = he_count entry + 1\<rparr> m)"

text \<open>\<open>Flush\<close>: the dirty entries are taken and marked clean before anything is written; \<open>ok\<close> says for
  which keys the update succeeds.\<close>

definition flush_row :: "'h sketch_ops \<Rightarrow> instant \<Rightarrow> (uuid \<times> string \<Rightarrow> bool) \<Rightarrow> (uuid \<times> string) \<times> 'h hllEntry
    \<Rightarrow> metadata_row list \<Rightarrow> metadata_row list" where
  "flush_row ops now ok = (\<lambda>(key, entry) rows.
     (case sk_Marshal ops (he_hll entry) of
        None \<Rightarrow> rows
      | Some bytes \<Rightarrow>
          if \<not> ok key then rows
          else fst (update_key (fst key) (snd key) (\<lambda>r. r\<lparr>mr_HLLState := Some bytes, mr_ApproxCardinality := sk_Estimate ops (he_hll entry),
                 mr_RequestCount := mr_RequestCount r + he_count entry, mr_LastSeenAt := Some now\<rparr>) rows)))"

definition Flush :: "'h sketch_ops \<Rightarrow> instant \<Rightarrow> (uuid \<times> string \<Rightarrow> bool) \<Rightarrow> 'h hlls \<Rightarrow> metadata_row list
    \<Rightarrow> 'h hlls \<times> metadata_row list" where
  "Flush ops now ok m rows =
     (map (\<lambda>(k, e). (k, if he_dirty e then e\<lparr>he_dirty := False, he_count := 0\<rparr> else e)) m,
      fold (flush_row ops now ok) (filter (\<lambda>(_, e). he_dirty e) m) rows)"

section \<open>What the database accepts\<close>

text \<open>PostgreSQL refuses text that is not UTF-8 or has a zero byte, a value longer than its column, an
  integer outside 32 bits and a number with more digits before the point than its type has (schema in
  \<open>migrations/\<close>).\<close>

definition utf8_cont :: "char \<Rightarrow> bool" where
  "utf8_cont c \<longleftrightarrow> 0x80 \<le> (of_char c :: nat) \<and> (of_char c :: nat) < 0xC0"

text \<open>The number of continuation bytes after a lead byte, and the range of the first of them.\<close>

definition utf8_lead :: "char \<Rightarrow> (nat \<times> nat \<times> nat) option" where
  "utf8_lead c = (let b = (of_char c :: nat) in
     if b < 0x80 then Some (0, 0, 0)
     else if 0xC2 \<le> b \<and> b < 0xE0 then Some (1, 0x80, 0xC0)
     else if b = 0xE0 then Some (2, 0xA0, 0xC0)
     else if b = 0xED then Some (2, 0x80, 0xA0)
     else if 0xE1 \<le> b \<and> b < 0xF0 then Some (2, 0x80, 0xC0)
     else if b = 0xF0 then Some (3, 0x90, 0xC0)
     else if 0xF1 \<le> b \<and> b < 0xF4 then Some (3, 0x80, 0xC0)
     else if b = 0xF4 then Some (3, 0x80, 0x90)
     else None)"

function utf8_ok :: "string \<Rightarrow> bool" where
  "utf8_ok s =
     (case s of
        [] \<Rightarrow> True
      | c # r \<Rightarrow>
          (case utf8_lead c of
             None \<Rightarrow> False
           | Some (n, lo, hi) \<Rightarrow>
               n \<le> length r \<and> list_all utf8_cont (take n r)
               \<and> (n = 0 \<or> lo \<le> (of_char (hd r) :: nat) \<and> (of_char (hd r) :: nat) < hi)
               \<and> utf8_ok (drop n r)))"
  by pat_completeness auto
termination
  by (relation "measure length") auto

declare utf8_ok.simps [simp del]

definition text_ok :: "string \<Rightarrow> bool" where
  "text_ok s \<longleftrightarrow> utf8_ok s \<and> CHR 0x00 \<notin> set s"

text \<open>The number of characters: a continuation byte does not start one.\<close>

definition varchar_ok :: "nat \<Rightarrow> string \<Rightarrow> bool" where
  "varchar_ok n s \<longleftrightarrow> text_ok s \<and> length (filter (\<lambda>c. \<not> utf8_cont c) s) \<le> n"

definition opt_ok :: "('a \<Rightarrow> bool) \<Rightarrow> 'a option \<Rightarrow> bool" where
  "opt_ok P x \<longleftrightarrow> (case x of None \<Rightarrow> True | Some y \<Rightarrow> P y)"

definition int4_ok :: "int \<Rightarrow> bool" where
  "int4_ok i \<longleftrightarrow> - (2 ^ 31) \<le> i \<and> i < 2 ^ 31"

definition money_ok :: "f64 \<Rightarrow> bool" where
  "money_ok x \<longleftrightarrow> f64_of_int (- 10000) < x \<and> x < f64_of_int 10000"

definition row_fits :: "request_log \<Rightarrow> bool" where
  "row_fits lg \<longleftrightarrow>
     opt_ok (varchar_ok 64) (lg_ProviderAPIKeyHash lg) \<and> opt_ok (varchar_ok 255) (lg_ProviderAPIKeyAlias lg)
     \<and> varchar_ok 100 (lg_Provider lg) \<and> varchar_ok 100 (lg_Model lg)
     \<and> text_ok (lg_RequestPath lg) \<and> text_ok (lg_RequestMethod lg) \<and> int4_ok (lg_ResponseTimeMs lg)
     \<and> list_all (\<lambda>n. int4_ok (sint n)) [lg_InputTokens lg, lg_OutputTokens lg, lg_CachedTokens lg, lg_CacheCreationTokens lg,
          lg_CacheCreation5mTokens lg, lg_CacheCreation1hTokens lg]
     \<and> list_all money_ok [lg_InputCost lg, lg_CachedCost lg, lg_CacheCreationCost lg, lg_OutputCost lg, lg_TotalCost lg]
     \<and> int4_ok (lg_StatusCode lg) \<and> opt_ok text_ok (lg_ErrorMessage lg) \<and> opt_ok text_ok (lg_BodyS3Key lg)
     \<and> opt_ok (varchar_ok 100) (lg_OriginalModel lg)
     \<and> opt_ok text_ok (lg_TraceID lg) \<and> opt_ok text_ok (lg_SpanPath lg) \<and> opt_ok text_ok (lg_SpanName lg)"

section \<open>Writing one entry\<close>

record 'h log_store =
  ls_requests :: "request_log list"
  ls_meta :: "metadata_row list"
  ls_cache :: active_cache
  ls_hlls :: "'h hlls"

text \<open>How the statements made for one entry end: the clock at the reading and the storing of the cache,
  the query for the active keys, the insertion, and the registration of each name.\<close>

record write_conditions =
  wc_now :: instant
  wc_now' :: instant
  wc_active :: query_outcome
  wc_insert :: bool
  wc_register :: "string \<Rightarrow> bool"

definition indexed_metadata :: "string list \<Rightarrow> (string, string) gomap \<Rightarrow> (string, string) gomap" where
  "indexed_metadata activeKeys raw = filter (\<lambda>(k, _). k \<in> set activeKeys) raw"

definition look_up_active :: "write_conditions \<Rightarrow> request_log \<Rightarrow> 'h log_store \<Rightarrow> 'h log_store \<times> string list" where
  "look_up_active wc lg s =
     (case lg_MajordomoAPIKeyID lg of
        None \<Rightarrow> (s, [])
      | Some k \<Rightarrow>
          (case GetActiveKeys (wc_now wc) (wc_now' wc) (wc_active wc) (ls_meta s) k (ls_cache s) of
             (c, answer) \<Rightarrow> (s\<lparr>ls_cache := c\<rparr>, case answer of Inl _ \<Rightarrow> [] | Inr names \<Rightarrow> names)))"

text \<open>The row inserted: the database fills in the creation time. It is refused when its id is taken.\<close>

definition inserted_row :: "instant \<Rightarrow> string list \<Rightarrow> request_log \<Rightarrow> request_log" where
  "inserted_row now activeKeys lg =
     lg\<lparr>lg_IndexedMetadata := indexed_metadata activeKeys (lg_RawMetadata lg), lg_CreatedAt := now\<rparr>"

definition insert_accepted :: "write_conditions \<Rightarrow> request_log \<Rightarrow> request_log list \<Rightarrow> bool" where
  "insert_accepted wc lg rows \<longleftrightarrow> wc_insert wc \<and> row_fits lg \<and> lg_ID lg \<notin> lg_ID ` set rows"

definition new_metadata_row :: "uuid \<Rightarrow> string \<Rightarrow> instant \<Rightarrow> metadata_row" where
  "new_metadata_row k n now = \<lparr>mr_APIKeyID = k, mr_KeyName = n, mr_DisplayName = None, mr_KeyType = ''string'',
     mr_IsRequired = False, mr_IsActive = False, mr_ActivatedAt = None, mr_RequestCount = 0, mr_LastSeenAt = None,
     mr_HLLState = None, mr_ApproxCardinality = 0, mr_CreatedAt = now\<rparr>"

definition register_key :: "write_conditions \<Rightarrow> uuid \<Rightarrow> string \<Rightarrow> metadata_row list \<Rightarrow> metadata_row list" where
  "register_key wc k n rows =
     (if \<not> wc_register wc n \<or> (k, n) \<in> mr_key ` set rows then rows else rows @ [new_metadata_row k n (wc_now' wc)])"

definition registerMetadataKeys :: "write_conditions \<Rightarrow> uuid \<Rightarrow> (string, string) gomap \<Rightarrow> metadata_row list \<Rightarrow> metadata_row list" where
  "registerMetadataKeys wc k metadata rows = fold (\<lambda>(n, _). register_key wc k n) metadata rows"

definition writeLog :: "'h sketch_ops \<Rightarrow> write_conditions \<Rightarrow> request_log \<Rightarrow> 'h log_store \<Rightarrow> 'h log_store" where
  "writeLog ops wc lg s0 =
     (case look_up_active wc lg s0 of
        (s, activeKeys) \<Rightarrow>
          if \<not> insert_accepted wc lg (ls_requests s) then s
          else let s1 = s\<lparr>ls_requests := ls_requests s @ [inserted_row (wc_now' wc) activeKeys lg]\<rparr>
               in case lg_MajordomoAPIKeyID lg of
                    None \<Rightarrow> s1
                  | Some k \<Rightarrow>
                      s1\<lparr>ls_hlls := fold (\<lambda>(n, v). AddValue ops k n v) (lg_RawMetadata lg) (ls_hlls s1),
                         ls_meta := registerMetadataKeys wc k (lg_RawMetadata lg) (ls_meta s1)\<rparr>)"

section \<open>The writer\<close>

text \<open>The writer with its channel. \<open>wr_running\<close> says whether the loop still runs, \<open>wr_signalled\<close> whether
  \<open>done\<close> is closed, \<open>wr_open\<close> whether the database is. Three fields record the history: the entries
  offered and not dropped, those dropped, and those the loop has taken.\<close>

record 'h writer =
  wr_queue :: "request_log list"
  wr_signalled :: bool
  wr_running :: bool
  wr_open :: bool
  wr_store :: "'h log_store"
  wr_accepted :: "request_log list"
  wr_dropped :: "request_log list"
  wr_taken :: "request_log list"

definition channel_size :: nat where "channel_size = 1000"

definition New :: "'h log_store \<Rightarrow> 'h writer" where
  "New s = \<lparr>wr_queue = [], wr_signalled = False, wr_running = True, wr_open = True, wr_store = s,
     wr_accepted = [], wr_dropped = [], wr_taken = []\<rparr>"

definition WriteRequestLog :: "request_log \<Rightarrow> 'h writer \<Rightarrow> 'h writer" where
  "WriteRequestLog lg w =
     (if length (wr_queue w) < channel_size
      then w\<lparr>wr_queue := wr_queue w @ [lg], wr_accepted := wr_accepted w @ [lg]\<rparr>
      else w\<lparr>wr_dropped := wr_dropped w @ [lg]\<rparr>)"

text \<open>One turn of \<open>writeLoop\<close>: it takes an entry, and after \<open>done\<close> it ends when the channel is empty.
  A statement fails when the database is closed.\<close>

definition loop_take :: "'h sketch_ops \<Rightarrow> write_conditions \<Rightarrow> 'h writer \<Rightarrow> 'h writer option" where
  "loop_take ops wc w =
     (if \<not> wr_running w then None
      else case wr_queue w of
        [] \<Rightarrow> None
      | lg # rest \<Rightarrow>
          Some (w\<lparr>wr_queue := rest, wr_taken := wr_taken w @ [lg],
            wr_store := writeLog ops (if wr_open w then wc
                else wc\<lparr>wc_active := QueryFails, wc_insert := False, wc_register := \<lambda>_. False\<rparr>) lg (wr_store w)\<rparr>))"

definition loop_exit :: "'h writer \<Rightarrow> 'h writer option" where
  "loop_exit w = (if wr_running w \<and> wr_signalled w \<and> wr_queue w = [] then Some (w\<lparr>wr_running := False\<rparr>) else None)"

definition flush_tick :: "'h sketch_ops \<Rightarrow> instant \<Rightarrow> (uuid \<times> string \<Rightarrow> bool) \<Rightarrow> 'h writer \<Rightarrow> 'h writer" where
  "flush_tick ops now ok w =
     (case Flush ops now (\<lambda>k. wr_open w \<and> ok k) (ls_hlls (wr_store w)) (ls_meta (wr_store w)) of
        (m, rows) \<Rightarrow> w\<lparr>wr_store := (wr_store w)\<lparr>ls_hlls := m, ls_meta := rows\<rparr>\<rparr>)"

text \<open>\<open>Close\<close> closes \<open>done\<close>, stops the sketches, which flush once more, and closes the database: three
  steps, between which the loop goes on.\<close>

definition close_signal :: "'h writer \<Rightarrow> 'h writer option" where
  "close_signal w = (if wr_signalled w then None else Some (w\<lparr>wr_signalled := True\<rparr>))"

definition close_database :: "'h writer \<Rightarrow> 'h writer option" where
  "close_database w = (if wr_signalled w then Some (w\<lparr>wr_open := False\<rparr>) else None)"

text \<open>An entry offered has a Go map for its metadata, so its keys are distinct and in order.\<close>

inductive writer_step :: "'h sketch_ops \<Rightarrow> 'h writer \<Rightarrow> 'h writer \<Rightarrow> bool" for ops where
  Offer: "gm_ok (lg_RawMetadata lg) \<Longrightarrow> writer_step ops w (WriteRequestLog lg w)"
| Take: "loop_take ops wc w = Some w' \<Longrightarrow> writer_step ops w w'"
| Exit: "loop_exit w = Some w' \<Longrightarrow> writer_step ops w w'"
| Tick: "writer_step ops w (flush_tick ops now ok w)"
| Signal: "close_signal w = Some w' \<Longrightarrow> writer_step ops w w'"
| CloseDB: "close_database w = Some w' \<Longrightarrow> writer_step ops w w'"

text \<open>The loop of \<open>writeLoop\<close> that empties the channel once \<open>done\<close> is closed.\<close>

primrec drain :: "'h sketch_ops \<Rightarrow> write_conditions list \<Rightarrow> 'h writer \<Rightarrow> 'h writer option" where
  "drain ops [] w = Some w"
| "drain ops (wc # wcs) w = (case loop_take ops wc w of None \<Rightarrow> None | Some w' \<Rightarrow> drain ops wcs w')"

inductive_cases writer_stepE: "writer_step ops w w'"

abbreviation writer_steps :: "'h sketch_ops \<Rightarrow> 'h writer \<Rightarrow> 'h writer \<Rightarrow> bool" where
  "writer_steps ops \<equiv> (writer_step ops)\<^sup>*\<^sup>*"

section \<open>One entry\<close>

lemma look_up_active_store:
  assumes "look_up_active wc lg s = (s', names)"
  shows "ls_requests s' = ls_requests s" "ls_meta s' = ls_meta s" "ls_hlls s' = ls_hlls s"
  using assms by (auto simp: look_up_active_def split: option.splits prod.splits)

lemma writeLog_cases:
  obtains (Refused) "ls_requests (writeLog ops wc lg s) = ls_requests s" "ls_meta (writeLog ops wc lg s) = ls_meta s"
      "ls_hlls (writeLog ops wc lg s) = ls_hlls s" "\<not> insert_accepted wc lg (ls_requests s)"
  | (Stored) names where "insert_accepted wc lg (ls_requests s)"
      "ls_requests (writeLog ops wc lg s) = ls_requests s @ [inserted_row (wc_now' wc) names lg]"
      "ls_hlls (writeLog ops wc lg s) = (case lg_MajordomoAPIKeyID lg of None \<Rightarrow> ls_hlls s
         | Some k \<Rightarrow> fold (\<lambda>(n, v). AddValue ops k n v) (lg_RawMetadata lg) (ls_hlls s))"
      "ls_meta (writeLog ops wc lg s) = (case lg_MajordomoAPIKeyID lg of None \<Rightarrow> ls_meta s
         | Some k \<Rightarrow> registerMetadataKeys wc k (lg_RawMetadata lg) (ls_meta s))"
proof -
  obtain s' names where l: "look_up_active wc lg s = (s', names)" by fastforce
  note f = look_up_active_store [OF l]
  show thesis
  proof (cases "insert_accepted wc lg (ls_requests s)")
    case True
    then show thesis using f
      by (intro Stored [of names]) (simp_all add: writeLog_def l Let_def split: option.split)
  next
    case False
    then show thesis using f by (intro Refused) (simp_all add: writeLog_def l)
  qed
qed

lemma inserted_row_fields [simp]:
  "lg_ID (inserted_row t ns lg) = lg_ID lg" "lg_RawMetadata (inserted_row t ns lg) = lg_RawMetadata lg"
  "lg_MajordomoAPIKeyID (inserted_row t ns lg) = lg_MajordomoAPIKeyID lg"
  "lg_IndexedMetadata (inserted_row t ns lg) = indexed_metadata ns (lg_RawMetadata lg)"
  by (simp_all add: inserted_row_def)

lemma gm_get_indexed: "gm_get (indexed_metadata ns raw) k = (if k \<in> set ns then gm_get raw k else None)"
  by (induction raw) (auto simp: indexed_metadata_def)

text \<open>Indexed metadata is part of the raw metadata.\<close>

definition indexed_within :: "request_log \<Rightarrow> bool" where
  "indexed_within r \<longleftrightarrow> gm_get (lg_IndexedMetadata r) \<subseteq>\<^sub>m gm_get (lg_RawMetadata r)"

lemma indexed_within_inserted: "indexed_within (inserted_row t ns lg)"
  by (auto simp: indexed_within_def map_le_def gm_get_indexed split: if_splits)

text \<open>What the client's entry and its row have in common.\<close>

definition entry_core :: "request_log \<Rightarrow> request_log" where
  "entry_core lg = lg\<lparr>lg_IndexedMetadata := [], lg_CreatedAt := 0\<rparr>"

lemma entry_core_inserted [simp]: "entry_core (inserted_row t ns lg) = entry_core lg"
  by (simp add: entry_core_def inserted_row_def)

section \<open>Counting values\<close>

definition pending_count :: "'h hlls \<Rightarrow> uuid \<times> string \<Rightarrow> int" where
  "pending_count m k = (case gm_get m k of None \<Rightarrow> 0 | Some e \<Rightarrow> he_count e)"

definition hlls_ok :: "'h hlls \<Rightarrow> bool" where
  "hlls_ok m \<longleftrightarrow> gm_ok m \<and> (\<forall>k e. gm_get m k = Some e \<longrightarrow> 0 \<le> he_count e)"

lemma AddValue_ok: "hlls_ok m \<Longrightarrow> hlls_ok (AddValue ops a n v m)"
  by (auto simp: hlls_ok_def AddValue_def Let_def gm_get_put split: option.split)

lemma AddValue_count:
  "hlls_ok m \<Longrightarrow> pending_count (AddValue ops a n v m) k = pending_count m k + (if k = (a, n) then 1 else 0)"
  by (auto simp: hlls_ok_def pending_count_def AddValue_def Let_def gm_get_put split: option.split)

lemma AddValues:
  assumes "hlls_ok m" and "distinct (map fst raw)"
  shows "hlls_ok (fold (\<lambda>(n, v). AddValue ops a n v) raw m)"
    and "pending_count (fold (\<lambda>(n, v). AddValue ops a n v) raw m) k
      = pending_count m k + (if fst k = a \<and> snd k \<in> fst ` set raw then 1 else 0)"
  using assms
proof (induction raw arbitrary: m)
  case (Cons p raw)
  obtain n v where p: "p = (n, v)" by (cases p)
  { case 1 with Cons.IH(1) [of "AddValue ops a n v m"] AddValue_ok [of m ops a n v] show ?case by (simp add: p) }
  { case 2
    with Cons.IH(2) [of "AddValue ops a n v m"] AddValue_ok [of m ops a n v] AddValue_count [of m ops a n v k]
    show ?case by (cases k) (auto simp: p) }
qed simp_all

definition carriers :: "uuid \<times> string \<Rightarrow> request_log list \<Rightarrow> int" where
  "carriers k rows = int (length (filter (\<lambda>q. lg_MajordomoAPIKeyID q = Some (fst k) \<and> gm_get (lg_RawMetadata q) (snd k) \<noteq> None) rows))"

lemma flush_rows_count:
  assumes "distinct (map fst es)" and "\<forall>(k, e) \<in> set es. 0 \<le> he_count e" and "r \<in> set (fold (flush_row ops now ok) es rows)"
  shows "\<exists>r0 \<in> set rows. mr_key r0 = mr_key r
    \<and> mr_RequestCount r \<le> mr_RequestCount r0 + (case map_of es (mr_key r) of None \<Rightarrow> 0 | Some e \<Rightarrow> he_count e)"
  using assms
proof (induction es arbitrary: rows)
  case (Cons p es)
  obtain k e where p: "p = (k, e)" by (cases p)
  from Cons.IH [of "flush_row ops now ok p rows"] Cons.prems obtain r1 where
    r1: "r1 \<in> set (flush_row ops now ok p rows)" "mr_key r1 = mr_key r"
      "mr_RequestCount r \<le> mr_RequestCount r1 + (case map_of es (mr_key r) of None \<Rightarrow> 0 | Some e \<Rightarrow> he_count e)"
    by auto
  have e: "0 \<le> he_count e" "map_of es k = None"
    using Cons.prems(1,2) by (auto simp: p map_of_eq_None_iff)
  from r1(1) e(1) have "\<exists>r0 \<in> set rows. mr_key r0 = mr_key r1
      \<and> mr_RequestCount r1 \<le> mr_RequestCount r0 + (if mr_key r1 = k then he_count e else 0)"
    by (fastforce simp: p flush_row_def update_key_def mr_key_def split: option.splits if_splits)
  with r1(2,3) e(2) show ?case by (fastforce simp: p)
qed auto

end
