(* ===== verification/Request_Log_Properties.thy ===== *)
theory Request_Log_Properties
  imports Request_Log Proxy_Log "HOL-Library.Sublist"
begin

text \<open>
  The properties of the asynchronous writer: what every reachable state of it satisfies, what
  becomes of the entries in the channel, and how the counts of metadata keys relate to the rows.
\<close>

section \<open>The invariant of the writer\<close>

lemma row_fits_inserted [simp]: "row_fits (inserted_row t ns lg) = row_fits lg"
  by (simp add: row_fits_def inserted_row_def)

definition writer_ok :: "'h log_store \<Rightarrow> 'h writer \<Rightarrow> bool" where
  "writer_ok s w \<longleftrightarrow>
     length (wr_queue w) \<le> channel_size \<and> wr_accepted w = wr_taken w @ wr_queue w
     \<and> (\<exists>rows. ls_requests (wr_store w) = ls_requests s @ rows
          \<and> subseq (map entry_core rows) (map entry_core (wr_taken w)) \<and> list_all indexed_within rows \<and> list_all row_fits rows)
     \<and> (distinct (map lg_ID (ls_requests s)) \<longrightarrow> distinct (map lg_ID (ls_requests (wr_store w))))"

lemma subseq_append_right: "subseq xs ys \<Longrightarrow> subseq xs (ys @ zs)"
  using list_emb_append2 [of "(=)" xs zs ys] list_emb_append_mono [of "(=)" xs ys "[]" zs] by simp

lemma writeLog_rows:
  "ls_requests (writeLog ops wc lg s) = ls_requests s
   \<or> (\<exists>r. ls_requests (writeLog ops wc lg s) = ls_requests s @ [r] \<and> entry_core r = entry_core lg
        \<and> indexed_within r \<and> row_fits r \<and> lg_ID r \<notin> lg_ID ` set (ls_requests s))"
  by (rule writeLog_cases [of ops wc lg s]) (auto simp: indexed_within_inserted insert_accepted_def)

lemma take_ok:
  assumes "writer_ok s w" and "loop_take ops wc w = Some w'"
  shows "writer_ok s w'"
proof -
  from assms(2) obtain lg rest wc' where q: "wr_queue w = lg # rest"
    and w': "w' = w\<lparr>wr_queue := rest, wr_taken := wr_taken w @ [lg], wr_store := writeLog ops wc' lg (wr_store w)\<rparr>"
    by (auto simp: loop_take_def split: if_splits list.splits)
  from assms(1) obtain rows where r: "ls_requests (wr_store w) = ls_requests s @ rows"
      "subseq (map entry_core rows) (map entry_core (wr_taken w))" "list_all indexed_within rows" "list_all row_fits rows"
    by (auto simp: writer_ok_def)
  from writeLog_rows [of ops wc' lg "wr_store w"] show ?thesis
  proof (elim disjE exE conjE)
    assume "ls_requests (writeLog ops wc' lg (wr_store w)) = ls_requests (wr_store w)"
    with assms(1) r q show ?thesis
      unfolding writer_ok_def w' by (auto intro: subseq_append_right)
  next
    fix row
    assume "ls_requests (writeLog ops wc' lg (wr_store w)) = ls_requests (wr_store w) @ [row]" "entry_core row = entry_core lg"
      "indexed_within row" "row_fits row" "lg_ID row \<notin> lg_ID ` set (ls_requests (wr_store w))"
    with assms(1) r q show ?thesis
      unfolding writer_ok_def w' by (auto intro!: exI [of _ "rows @ [row]"])
  qed
qed

lemma step_ok: "writer_step ops w w' \<Longrightarrow> writer_ok s w \<Longrightarrow> writer_ok s w'"
proof (induction rule: writer_step.induct)
  case (Offer lg w)
  then show ?case by (auto simp: writer_ok_def WriteRequestLog_def)
next
  case (Take wc w w')
  then show ?case by (blast intro: take_ok)
qed (auto simp: writer_ok_def loop_exit_def flush_tick_def close_signal_def close_database_def split: prod.splits if_splits)

lemma reachable_ok: "writer_steps ops (New s) w \<Longrightarrow> writer_ok s w"
proof (induction rule: rtranclp_induct)
  case base
  show ?case by (simp add: writer_ok_def New_def)
qed (blast intro: step_ok)


definition idle_store :: "nat log_store" where
  "idle_store = \<lparr>ls_requests = [], ls_meta = [], ls_cache = NewActiveKeysCache 0, ls_hlls = []\<rparr>"

definition example_ops :: "nat sketch_ops" where
  "example_ops = \<lparr>sk_New = 0, sk_Insert = (\<lambda>_ n. n + 1), sk_Estimate = int, sk_Marshal = (\<lambda>n. Some (replicate n (CHR ''x''))),
     sk_Unmarshal = (\<lambda>s. Some (length s))\<rparr>"

definition example_entry :: request_log where
  "example_entry =
     \<lparr>lg_ID = 1, lg_MajordomoAPIKeyID = Some 7, lg_ProviderAPIKeyHash = None, lg_ProviderAPIKeyAlias = None, lg_Provider = ''openai'',
      lg_Model = ''m'', lg_RequestPath = ''/v1'', lg_RequestMethod = ''POST'', lg_RequestedAt = 0, lg_RespondedAt = 1,
      lg_ResponseTimeMs = 5, lg_InputTokens = 3, lg_OutputTokens = 4, lg_CachedTokens = 0, lg_CacheCreationTokens = 0,
      lg_CacheCreation5mTokens = 0, lg_CacheCreation1hTokens = 0, lg_InputCost = 0, lg_CachedCost = 0,
      lg_CacheCreationCost = 0, lg_OutputCost = 0, lg_TotalCost = 0, lg_StatusCode = 200, lg_ErrorMessage = None,
      lg_RawMetadata = [(''team'', ''a'')], lg_IndexedMetadata = [], lg_BodyS3Key = None, lg_ModelAliasFound = True, lg_CreatedAt = 0,
      lg_DeprecatedModelRedirected = False, lg_OriginalModel = None, lg_RoutedProvider = None, lg_RoutingReason = None,
      lg_RoutingOriginalModel = None, lg_TraceID = None, lg_SpanPath = None, lg_SpanName = None, lg_SpanID = None,
      lg_ParentSpanID = None\<rparr>"

definition all_well :: write_conditions where
  "all_well = \<lparr>wc_now = 5, wc_now' = 6, wc_active = RowsRead, wc_insert = True, wc_register = \<lambda>_. True\<rparr>"

lemma example_text: "varchar_ok 100 ''openai''" "varchar_ok 100 ''m''" "text_ok ''/v1''" "text_ok ''POST''"
  by code_simp+

lemma example_money: "money_ok 0"
  by code_simp

lemma example_fits: "row_fits example_entry"
  by (simp add: row_fits_def example_entry_def opt_ok_def int4_ok_def example_text example_money)

lemma one_entry_offered: "writer_steps ops (New idle_store) (WriteRequestLog example_entry (New idle_store))"
  by (rule r_into_rtranclp, rule writer_step.Offer) (simp add: example_entry_def)


section \<open>Draining\<close>

lemma loop_take_stores:
  assumes "wr_running w" "wr_queue w = lg # rest" "wr_open w" "wc_insert wc" "lg_ID lg \<notin> lg_ID ` set (ls_requests (wr_store w))"
  obtains w' where "loop_take ops wc w = Some w'" "wr_running w'" "wr_queue w' = rest" "wr_open w'" "wr_signalled w' = wr_signalled w"
    "map entry_core (ls_requests (wr_store w')) = map entry_core (ls_requests (wr_store w)) @ map entry_core (filter row_fits [lg])"
    "set (map lg_ID (ls_requests (wr_store w'))) \<subseteq> insert (lg_ID lg) (set (map lg_ID (ls_requests (wr_store w))))"
proof -
  let ?w = "w\<lparr>wr_queue := rest, wr_taken := wr_taken w @ [lg], wr_store := writeLog ops wc lg (wr_store w)\<rparr>"
  have "map entry_core (ls_requests (wr_store ?w)) = map entry_core (ls_requests (wr_store w)) @ map entry_core (filter row_fits [lg])
      \<and> set (map lg_ID (ls_requests (wr_store ?w))) \<subseteq> insert (lg_ID lg) (set (map lg_ID (ls_requests (wr_store w))))"
  proof (rule writeLog_cases [of ops wc lg "wr_store w"])
  qed (use assms(4,5) in \<open>auto simp: insert_accepted_def\<close>)
  with assms show thesis by (intro that [of ?w]) (simp_all add: loop_take_def)
qed

lemma drain_steps: "drain ops wcs w = Some w' \<Longrightarrow> writer_steps ops w w'"
proof (induction wcs arbitrary: w)
  case (Cons wc wcs)
  then obtain w1 where "loop_take ops wc w = Some w1" "drain ops wcs w1 = Some w'" by (auto split: option.splits)
  with Cons.IH writer_step.Take show ?case by (metis converse_rtranclp_into_rtranclp)
qed simp

text \<open>C25. As long as the database is open and no statement fails, the loop empties the channel: one turn
  for each entry that waits, after which every entry that fits the table is stored in the order
  in which it was accepted, and a writer told to stop then ends.\<close>

theorem queue_drains:
  assumes "wr_running w" and "wr_open w" and "length wcs = length (wr_queue w)" and "list_all wc_insert wcs"
    and "distinct (map lg_ID (wr_queue w))" and "lg_ID ` set (wr_queue w) \<inter> lg_ID ` set (ls_requests (wr_store w)) = {}"
  shows "\<exists>w'. drain ops wcs w = Some w' \<and> writer_steps ops w w' \<and> wr_queue w' = []
    \<and> map entry_core (ls_requests (wr_store w'))
        = map entry_core (ls_requests (wr_store w)) @ map entry_core (filter row_fits (wr_queue w))
    \<and> (wr_signalled w \<longrightarrow> loop_exit w' = Some (w'\<lparr>wr_running := False\<rparr>))"
proof -
  have "\<exists>w'. drain ops wcs w = Some w' \<and> wr_queue w' = [] \<and> wr_running w' \<and> wr_signalled w' = wr_signalled w
      \<and> map entry_core (ls_requests (wr_store w'))
        = map entry_core (ls_requests (wr_store w)) @ map entry_core (filter row_fits (wr_queue w))"
    using assms
  proof (induction wcs arbitrary: w)
    case (Cons wc wcs)
    then obtain lg rest where q: "wr_queue w = lg # rest" by (cases "wr_queue w") auto
    obtain w1 where w1: "loop_take ops wc w = Some w1" "wr_running w1" "wr_queue w1 = rest" "wr_open w1"
        "wr_signalled w1 = wr_signalled w"
        "map entry_core (ls_requests (wr_store w1)) = map entry_core (ls_requests (wr_store w)) @ map entry_core (filter row_fits [lg])"
        "set (map lg_ID (ls_requests (wr_store w1))) \<subseteq> insert (lg_ID lg) (set (map lg_ID (ls_requests (wr_store w))))"
      by (rule loop_take_stores [of w lg rest wc ops]) (use Cons.prems q in auto)
    have fresh: "lg_ID lg \<notin> lg_ID ` set rest" "lg_ID ` set rest \<inter> lg_ID ` set (ls_requests (wr_store w)) = {}"
      using Cons.prems(5,6) q by auto
    have "R \<inter> X = {}" if "X \<subseteq> insert a Y" "a \<notin> R" "R \<inter> Y = {}" for a and R X Y :: "uuid set" using that by blast
    from this [OF w1(7) [unfolded set_map] fresh] w1(3)
    have "lg_ID ` set (wr_queue w1) \<inter> lg_ID ` set (ls_requests (wr_store w1)) = {}" by simp
    moreover have "length wcs = length (wr_queue w1)" "list_all wc_insert wcs" "distinct (map lg_ID (wr_queue w1))"
      using Cons.prems(3-5) q w1(3) by simp_all
    ultimately obtain w2 where "drain ops wcs w1 = Some w2" "wr_queue w2 = []" "wr_running w2" "wr_signalled w2 = wr_signalled w1"
        "map entry_core (ls_requests (wr_store w2))
          = map entry_core (ls_requests (wr_store w1)) @ map entry_core (filter row_fits (wr_queue w1))"
      using Cons.IH [of w1] w1(2,4) by metis
    with q w1(1,3,5,6) show ?case by (intro exI [of _ w2]) simp
  qed simp
  then show ?thesis by (auto simp: loop_exit_def intro: drain_steps)
qed

lemma queue_drains_witness:
  "\<exists>w'. drain example_ops [all_well] (WriteRequestLog example_entry (New idle_store)) = Some w' \<and> wr_queue w' = []
    \<and> map entry_core (ls_requests (wr_store w')) = [entry_core example_entry]"
  using queue_drains [of "WriteRequestLog example_entry (New idle_store)" "[all_well]" example_ops] example_fits
  by (auto simp: WriteRequestLog_def New_def channel_size_def all_well_def idle_store_def)

text \<open>A closed database takes nothing in.\<close>

lemma closed_writes_nothing:
  assumes "\<not> wr_open w" and "drain ops wcs w = Some w'"
  shows "ls_requests (wr_store w') = ls_requests (wr_store w)"
  using assms
proof (induction wcs arbitrary: w)
  case (Cons wc wcs)
  from Cons.prems obtain w1 where w1: "loop_take ops wc w = Some w1" "drain ops wcs w1 = Some w'" by (auto split: option.splits)
  with Cons.prems(1) have "\<not> wr_open w1" and "ls_requests (wr_store w1) = ls_requests (wr_store w)"
    by (auto simp: loop_take_def insert_accepted_def split: list.splits if_splits intro: writeLog_cases)
  with Cons.IH [OF _ w1(2)] show ?case by simp
qed simp

text \<open>\<open>Close\<close> does not wait for the loop: the writer can close the database while entries wait, and
  the loop then takes each of them and ends with none of them stored, although all were accepted.\<close>

theorem close_can_lose:
  assumes "wr_running w" and "\<not> wr_signalled w" and "length wcs = length (wr_queue w)"
  shows "\<exists>w1 w2 w3. close_signal w = Some w1 \<and> close_database w1 = Some w2 \<and> drain ops wcs w2 = Some w3
    \<and> loop_exit w3 = Some (w3\<lparr>wr_running := False\<rparr>) \<and> wr_queue w3 = []
    \<and> ls_requests (wr_store w3) = ls_requests (wr_store w) \<and> writer_steps ops w w3"
proof -
  let ?w1 = "w\<lparr>wr_signalled := True\<rparr>"
  let ?w2 = "?w1\<lparr>wr_open := False\<rparr>"
  have c: "close_signal w = Some ?w1" "close_database ?w1 = Some ?w2"
    using assms(2) by (simp_all add: close_signal_def close_database_def)
  have "\<exists>w3. drain ops wcs x = Some w3 \<and> wr_queue w3 = [] \<and> wr_running w3 \<and> wr_signalled w3 = wr_signalled x"
    if "wr_running x" "length wcs = length (wr_queue x)" for x
    using that
  proof (induction wcs arbitrary: x)
    case (Cons wc wcs)
    then obtain lg rest where "wr_queue x = lg # rest" by (cases "wr_queue x") auto
    with Cons.prems obtain x1 where "loop_take ops wc x = Some x1" "wr_running x1" "length wcs = length (wr_queue x1)"
        "wr_signalled x1 = wr_signalled x"
      by (auto simp: loop_take_def)
    with Cons.IH [of x1] show ?case by auto
  qed simp
  from this [of ?w2] assms(1,3) obtain w3 where
    w3: "drain ops wcs ?w2 = Some w3" "wr_queue w3 = []" "wr_running w3" "wr_signalled w3" by auto
  have "writer_steps ops w w3"
    using writer_step.Signal [OF c(1)] writer_step.CloseDB [OF c(2)] drain_steps [OF w3(1)]
    by (meson converse_rtranclp_into_rtranclp)
  with c w3 closed_writes_nothing [OF _ w3(1)] show ?thesis
    by (intro exI [of _ ?w1] exI [of _ ?w2] exI [of _ w3]) (simp add: loop_exit_def)
qed

lemma close_can_lose_witness:
  "\<exists>w3. wr_queue w3 = [] \<and> ls_requests (wr_store w3) = []
    \<and> writer_steps example_ops (WriteRequestLog example_entry (New idle_store)) w3"
  using close_can_lose [of "WriteRequestLog example_entry (New idle_store)" "[all_well]" example_ops]
  by (auto simp: WriteRequestLog_def New_def channel_size_def idle_store_def)

section \<open>Counts of metadata keys\<close>

definition counted :: "'h log_store \<Rightarrow> bool" where
  "counted st \<longleftrightarrow> hlls_ok (ls_hlls st)
     \<and> (\<forall>k. pending_count (ls_hlls st) k \<le> carriers k (ls_requests st))
     \<and> (\<forall>r \<in> set (ls_meta st). mr_RequestCount r + pending_count (ls_hlls st) (mr_key r) \<le> carriers (mr_key r) (ls_requests st))"

lemma carriers_append: "carriers k (rows @ [q])
    = carriers k rows + (if lg_MajordomoAPIKeyID q = Some (fst k) \<and> snd k \<in> fst ` set (lg_RawMetadata q) then 1 else 0)"
  by (simp add: carriers_def map_of_eq_None_iff del: not_None_eq)

lemma registered_rows:
  "r \<in> set (registerMetadataKeys wc k raw rows) \<Longrightarrow> r \<in> set rows \<or> mr_RequestCount r = 0"
proof (induction raw arbitrary: rows)
  case (Cons p raw)
  from Cons.IH [of "register_key wc k (fst p) rows"] Cons.prems show ?case
    by (auto simp: registerMetadataKeys_def register_key_def new_metadata_row_def split: prod.splits if_splits)
qed (simp add: registerMetadataKeys_def)

lemma writeLog_counted:
  assumes "counted st" and "gm_ok (lg_RawMetadata lg)"
  shows "counted (writeLog ops wc lg st)"
proof (rule writeLog_cases [of ops wc lg st])
  fix names
  assume r: "ls_requests (writeLog ops wc lg st) = ls_requests st @ [inserted_row (wc_now' wc) names lg]"
    and h: "ls_hlls (writeLog ops wc lg st) = (case lg_MajordomoAPIKeyID lg of None \<Rightarrow> ls_hlls st
         | Some k \<Rightarrow> fold (\<lambda>(n, v). AddValue ops k n v) (lg_RawMetadata lg) (ls_hlls st))"
    and m: "ls_meta (writeLog ops wc lg st) = (case lg_MajordomoAPIKeyID lg of None \<Rightarrow> ls_meta st
         | Some k \<Rightarrow> registerMetadataKeys wc k (lg_RawMetadata lg) (ls_meta st))"
  show ?thesis
  proof (cases "lg_MajordomoAPIKeyID lg")
    case None
    with assms(1) r h m show ?thesis by (simp add: counted_def carriers_append)
  next
    case (Some a)
    note add = AddValues [of "ls_hlls st" "lg_RawMetadata lg" ops a, OF _ gm_ok_distinct [OF assms(2)]]
    from Some r h assms(1) add have p: "pending_count (ls_hlls (writeLog ops wc lg st)) k - carriers k (ls_requests (writeLog ops wc lg st))
        = pending_count (ls_hlls st) k - carriers k (ls_requests st)" for k
      by (simp add: counted_def carriers_append eq_commute [of "Some a"])
    have k: "pending_count (ls_hlls (writeLog ops wc lg st)) k \<le> carriers k (ls_requests (writeLog ops wc lg st))" for k
    proof -
      have "pending_count (ls_hlls st) k \<le> carriers k (ls_requests st)" using assms(1) unfolding counted_def by blast
      with p [of k] show ?thesis by linarith
    qed
    moreover have "mr_RequestCount q + pending_count (ls_hlls (writeLog ops wc lg st)) (mr_key q)
        \<le> carriers (mr_key q) (ls_requests (writeLog ops wc lg st))" if "q \<in> set (ls_meta (writeLog ops wc lg st))" for q
      using registered_rows [of q wc a "lg_RawMetadata lg" "ls_meta st"] that m Some p [of "mr_key q"] k [of "mr_key q"] assms(1)
      by (force simp: counted_def)
    ultimately show ?thesis using assms(1) Some h add(1) by (simp add: counted_def)
  qed
qed (use assms in \<open>simp add: counted_def\<close>)

lemma map_of_filter_value:
  "distinct (map fst m) \<Longrightarrow> map_of (filter (\<lambda>(_, e). P e) m) k
     = (case map_of m k of None \<Rightarrow> None | Some e \<Rightarrow> if P e then Some e else None)"
  by (induction m) (auto simp: map_of_eq_None_iff image_iff split: option.splits)

lemma Flush_counted:
  assumes "counted st" and "Flush ops now ok (ls_hlls st) (ls_meta st) = (m, rows)"
  shows "counted (st\<lparr>ls_hlls := m, ls_meta := rows\<rparr>)"
proof -
  let ?h = "ls_hlls st" and ?es = "filter (\<lambda>(_, e). he_dirty e) (ls_hlls st)"
  let ?clean = "\<lambda>e. if he_dirty e then e\<lparr>he_dirty := False, he_count := 0\<rparr> else e"
  from assms have ok: "gm_ok ?h" "\<And>k e. gm_get ?h k = Some e \<Longrightarrow> 0 \<le> he_count e"
    and m: "m = map (\<lambda>(k, e). (k, ?clean e)) ?h" and rows: "rows = fold (flush_row ops now ok) ?es (ls_meta st)"
    by (auto simp: counted_def hlls_ok_def Flush_def)
  note d = gm_ok_distinct [OF ok(1)]
  have get: "gm_get m k = map_option ?clean (gm_get ?h k)" for k by (simp add: m map_of_map)
  have "map fst m = map fst ?h" by (auto simp: m)
  with ok get have h: "hlls_ok m" by (auto simp: hlls_ok_def gm_ok_def)
  have es: "distinct (map fst ?es)" using d by (simp add: distinct_map_filter)
  have nonneg: "\<forall>(k, e) \<in> set ?es. 0 \<le> he_count e" using ok(2) d by (auto dest!: map_of_is_SomeI)
  have less: "pending_count m k + (case map_of ?es k of None \<Rightarrow> 0 | Some e \<Rightarrow> he_count e) = pending_count ?h k"
    and "pending_count m k \<le> pending_count ?h k" for k
    using ok(2) [of k] by (auto simp: pending_count_def get map_of_filter_value [OF d] split: option.split)
  moreover have "mr_RequestCount r + pending_count m (mr_key r) \<le> carriers (mr_key r) (ls_requests st)" if "r \<in> set rows" for r
  proof -
    from flush_rows_count [OF es nonneg, of r ops now ok "ls_meta st"] that rows obtain r0 where r0: "r0 \<in> set (ls_meta st)"
        "mr_key r0 = mr_key r" "mr_RequestCount r \<le> mr_RequestCount r0 + (case map_of ?es (mr_key r) of None \<Rightarrow> 0 | Some e \<Rightarrow> he_count e)"
      by auto
    moreover have "mr_RequestCount r0 + pending_count ?h (mr_key r0) \<le> carriers (mr_key r0) (ls_requests st)"
      using assms(1) r0(1) unfolding counted_def by blast
    ultimately show ?thesis using less [of "mr_key r"] by simp
  qed
  moreover have "pending_count ?h k \<le> carriers k (ls_requests st)" for k using assms(1) unfolding counted_def by blast
  ultimately show ?thesis using h by (simp add: counted_def) (meson order_trans)
qed

definition counts_ok :: "'h writer \<Rightarrow> bool" where
  "counts_ok w \<longleftrightarrow> counted (wr_store w) \<and> list_all (\<lambda>lg. gm_ok (lg_RawMetadata lg)) (wr_queue w)"

lemma step_counts: "writer_step ops w w' \<Longrightarrow> counts_ok w \<Longrightarrow> counts_ok w'"
proof (induction rule: writer_step.induct)
  case (Take wc w w')
  then show ?case
    by (auto simp: counts_ok_def loop_take_def split: if_splits list.splits intro!: writeLog_counted)
next
  case (Tick w now ok)
  obtain m rows where "Flush ops now (\<lambda>k. wr_open w \<and> ok k) (ls_hlls (wr_store w)) (ls_meta (wr_store w)) = (m, rows)" by fastforce
  with Tick Flush_counted [of "wr_store w"] show ?case by (simp add: counts_ok_def flush_tick_def)
qed (auto simp: counts_ok_def WriteRequestLog_def loop_exit_def close_signal_def close_database_def split: if_splits)

text \<open>C26. A metadata key never counts more requests than rows carry it: in every state the writer reaches
  from one where this holds and no count is pending, what a key's row has counted and what still waits to be
  flushed add up to at most the number of rows of its API key whose metadata names it.\<close>

theorem request_counts_bounded:
  assumes "writer_steps ops (New s) w" and "ls_hlls s = []"
    and "\<forall>r \<in> set (ls_meta s). mr_RequestCount r \<le> carriers (mr_key r) (ls_requests s)"
    and "r \<in> set (ls_meta (wr_store w))"
  shows "mr_RequestCount r + pending_count (ls_hlls (wr_store w)) (mr_key r) \<le> carriers (mr_key r) (ls_requests (wr_store w))"
proof -
  have "counts_ok w" using assms(1)
  proof (induction rule: rtranclp_induct)
    case base
    from assms(2,3) show ?case by (auto simp: counts_ok_def New_def counted_def hlls_ok_def pending_count_def carriers_def)
  qed (blast intro: step_counts)
  with assms(4) show ?thesis by (simp add: counts_ok_def counted_def)
qed

lemma request_counts_bounded_witness:
  "mr_RequestCount example_meta + pending_count (ls_hlls (idle_store\<lparr>ls_meta := [example_meta]\<rparr>)) (7, ''team'') \<le> 0"
  using request_counts_bounded [of example_ops "idle_store\<lparr>ls_meta := [example_meta]\<rparr>" "New (idle_store\<lparr>ls_meta := [example_meta]\<rparr>)" example_meta]
  by (simp add: idle_store_def New_def example_meta_def mr_key_def carriers_def)

text \<open>A flush whose update fails loses the counts it took.\<close>

lemma failed_flush_forgets:
  assumes "Flush ops now (\<lambda>_. False) m rows = (m', rows')" and "gm_get m k = Some e" and "he_dirty e"
  shows "rows' = rows \<and> pending_count m' k = 0"
proof -
  have "fold (flush_row ops now (\<lambda>_. False)) es rows = rows" for es
    by (induction es) (auto simp: flush_row_def split: option.split)
  with assms show ?thesis by (auto simp: Flush_def pending_count_def map_of_map)
qed

section \<open>Error bodies\<close>

lemma logged_error:
  assumes "ud_StatusCode (fi_Response f) \<ge> 400"
  shows "lg_ErrorMessage (fst (logRequest uuid_text newSHA1 prices bodyStore bodyKeyPrefix f)) = Some (take 500 (ud_Body (fi_Response f)))"
proof -
  have "lg_ErrorMessage (base_log prices f) = Some (take 500 (ud_Body (fi_Response f)))"
    using assms by (simp add: base_log_def error_message_def Let_def)
  moreover have "lg_ErrorMessage (applyRunTracing newSHA1 lg i h) = lg_ErrorMessage lg" for lg i h
    by (simp add: applyRunTracing_def Let_def)
  moreover have "lg_ErrorMessage (attach_route f (attach_redirect f lg)) = lg_ErrorMessage lg" for lg
    by (simp add: attach_route_def attach_redirect_def split: option.split)
  moreover have "lg_ErrorMessage (fst (archiveBodies uuid_text bodyStore bodyKeyPrefix f lg)) = lg_ErrorMessage lg" for lg
    by (simp add: archiveBodies_def Let_def split: option.split)
  ultimately show ?thesis by (simp only: logRequest_def)
qed

lemma refused_row: "\<not> row_fits lg \<Longrightarrow> ls_requests (writeLog ops wc lg s) = ls_requests s"
  by (rule writeLog_cases [of ops wc lg s]) (simp_all add: insert_accepted_def)

text \<open>The first 500 bytes of an error body become the error message. When they end inside a UTF-8
  character the database refuses the row, and the request is never logged.\<close>

theorem error_cut_in_character:
  assumes "ud_StatusCode (fi_Response f) \<ge> 400" and "\<not> utf8_ok (take 500 (ud_Body (fi_Response f)))"
  shows "ls_requests (writeLog ops wc (fst (logRequest uuid_text newSHA1 prices bodyStore bodyKeyPrefix f)) s) = ls_requests s"
  by (rule refused_row) (use assms(2) logged_error [OF assms(1)] in \<open>simp add: row_fits_def opt_ok_def text_ok_def\<close>)

lemma utf8_ok_ascii: "utf8_ok (replicate n (CHR ''a'') @ s) = utf8_ok s"
proof (induction n)
  case (Suc n)
  then show ?case by (subst utf8_ok.simps) (simp add: utf8_lead_def)
qed simp

definition example_error :: finished where
  "example_error = \<lparr>fi_RequestID = 1, fi_Key = \<lparr>ki_ID = 7, ki_Hash = ''h'', ki_Alias = None, ki_DeprecatedModelBehavior = BehaviorRedirect\<rparr>,
     fi_Relayed = \<lparr>rk_Hash = None, rk_Alias = None\<rparr>, fi_Provider = ProviderOpenAI, fi_Method = ''POST'', fi_Path = ''/v1'',
     fi_Body = ''{}'',
     fi_Response = \<lparr>ud_StatusCode = 500, ud_Headers = [], ud_Body = replicate 499 (CHR ''a'') @ [CHR 0xC3, CHR 0xA9], ud_ResponseTime = 1\<rparr>,
     fi_RequestedAt = 0, fi_RespondedAt = 1, fi_Headers = [], fi_Redirected = False, fi_OriginalModel = [], fi_Route = None\<rparr>"

lemma error_cut_in_character_witness:
  "utf8_ok (ud_Body (fi_Response example_error))
   \<and> ls_requests (writeLog example_ops all_well (fst (logRequest (\<lambda>_. ''u'') (\<lambda>n s. 0) example_service None [] example_error)) idle_store) = []"
proof -
  have t: "take 500 (ud_Body (fi_Response example_error)) = replicate 499 (CHR ''a'') @ [CHR 0xC3]"
    by (simp add: example_error_def take_Cons')
  have "\<not> utf8_ok [CHR 0xC3]" "utf8_ok [CHR 0xC3, CHR 0xA9]" by code_simp+
  then have "\<not> utf8_ok (take 500 (ud_Body (fi_Response example_error)))" "utf8_ok (ud_Body (fi_Response example_error))"
    unfolding t by (simp_all add: utf8_ok_ascii) (simp add: example_error_def utf8_ok_ascii)
  with error_cut_in_character [of example_error example_ops all_well "\<lambda>_. ''u''" "\<lambda>n s. 0" example_service None "[]" idle_store]
  show ?thesis by (simp add: example_error_def idle_store_def)
qed

end
