(* ===== verification/Usage_Properties.thy ===== *)
theory Usage_Properties
  imports Usage_Service Request_Log_Properties Router
begin

text \<open>
  Properties of the reports: breakdowns agree with the summary, pages with the whole list, the list of
  runs with the tree of one, the health gate of the router with the log, and an archived body with what
  the proxy saw.
\<close>

section \<open>Resolving a query\<close>

lemma with_filter_Inr:
  "with_filter w q k = Inr x \<longleftrightarrow> (\<exists>f. resolveFilter (uw_parse_uuid w) (uw_now w) q = Inr f \<and> k f = Inr x)"
  by (auto simp: with_filter_def from_storage_def split: sum.splits)

lemma queried_Inr [simp]: "queried ok what x = Inr y \<longleftrightarrow> ok \<and> y = x"
  by (auto simp: queried_def)

lemma next_midnight_bounds: "now < next_midnight now \<and> next_midnight now \<le> now + day \<and> next_midnight now mod day = 0"
proof -
  have "next_midnight now = now - now mod day + day" "next_midnight now = (now div day + 1) * day"
    by (simp_all add: next_midnight_def truncate_day_def day_number_def minus_mod_eq_div_mult algebra_simps)
  moreover have "0 \<le> now mod day" "now mod day < day" by simp_all
  ultimately have "now < next_midnight now" "next_midnight now \<le> now + day" by linarith+
  moreover have "next_midnight now mod day = 0"
    unfolding \<open>next_midnight now = (now div day + 1) * day\<close> by (rule mod_mult_self2_is_0)
  ultimately show ?thesis by blast
qed

definition date_ok :: "string \<Rightarrow> bool" where
  "date_ok s \<longleftrightarrow> s = [] \<or> parseDate s \<noteq> None"

lemma resolve_range_Inr:
  "(\<exists>r. resolve_range now q = Inr r) \<longleftrightarrow> date_ok (uq_Start q) \<and> (uq_Start q = [] \<or> date_ok (uq_End q))"
  by (auto simp: resolve_range_def date_ok_def split: option.split)

lemma resolveFilter_range:
  assumes "resolveFilter parse_uuid now q = Inr f"
  shows "resolve_range now q = Inr (uf_Start f, uf_End f)"
  using assms by (auto simp: resolveFilter_def split: if_splits sum.splits)

text \<open>C34. A query is accepted exactly when it names at most two metadata filters, each with a key and a
  value, its key id is empty or a UUID, its status class is one of the three, and its dates parse, where
  an end without a start is not looked at. Without a start the range then ends at the first UTC midnight
  after now and covers 7, 90 or 30 days before it.\<close>

theorem query_accepted:
  "((\<exists>f. resolveFilter parse_uuid now q = Inr f) \<longleftrightarrow>
      length (uq_MetadataFilters q) \<le> 2 \<and> list_all (\<lambda>f. qf_Key f \<noteq> [] \<and> qf_Value f \<noteq> []) (uq_MetadataFilters q)
      \<and> (uq_APIKeyID q = [] \<or> parse_uuid (uq_APIKeyID q) \<noteq> None) \<and> uq_StatusClass q \<in> {'''', ''error'', ''success''}
      \<and> date_ok (uq_Start q) \<and> (uq_Start q = [] \<or> date_ok (uq_End q)))
   \<and> (\<forall>f. resolveFilter parse_uuid now q = Inr f \<longrightarrow> uq_Start q = [] \<longrightarrow>
        now < uf_End f \<and> uf_End f \<le> now + day \<and> uf_End f mod day = 0
        \<and> uf_Start f = uf_End f - (if uq_Preset q = ''7d'' then 7 else if uq_Preset q = ''90d'' then 90 else 30) * day)"
proof (intro conjI allI impI)
  have "(\<exists>f. resolveFilter parse_uuid now q = Inr f) \<longleftrightarrow>
      length (uq_MetadataFilters q) \<le> 2 \<and> list_all (\<lambda>f. qf_Key f \<noteq> [] \<and> qf_Value f \<noteq> []) (uq_MetadataFilters q)
      \<and> (uq_APIKeyID q = [] \<or> parse_uuid (uq_APIKeyID q) \<noteq> None) \<and> uq_StatusClass q \<in> {'''', ''error'', ''success''}
      \<and> (\<exists>r. resolve_range now q = Inr r)"
    by (auto simp: resolveFilter_def resolve_key_def list_all_iff list_ex_iff not_less split: if_splits sum.splits option.splits prod.splits)
  then show "(\<exists>f. resolveFilter parse_uuid now q = Inr f) \<longleftrightarrow>
      length (uq_MetadataFilters q) \<le> 2 \<and> list_all (\<lambda>f. qf_Key f \<noteq> [] \<and> qf_Value f \<noteq> []) (uq_MetadataFilters q)
      \<and> (uq_APIKeyID q = [] \<or> parse_uuid (uq_APIKeyID q) \<noteq> None) \<and> uq_StatusClass q \<in> {'''', ''error'', ''success''}
      \<and> date_ok (uq_Start q) \<and> (uq_Start q = [] \<or> date_ok (uq_End q))"
    unfolding resolve_range_Inr .
next
  fix f
  assume "resolveFilter parse_uuid now q = Inr f" and s: "uq_Start q = []"
  from resolveFilter_range [OF this(1)] s have "uf_End f = next_midnight now"
      "uf_Start f = next_midnight now - preset_days (uq_Preset q) * day"
    by (auto simp: resolve_range_def)
  then show "now < uf_End f" "uf_End f \<le> now + day" "uf_End f mod day = 0"
      "uf_Start f = uf_End f - (if uq_Preset q = ''7d'' then 7 else if uq_Preset q = ''90d'' then 90 else 30) * day"
    using next_midnight_bounds [of now] by (auto simp: preset_days_def Let_def)
qed

section \<open>Groups\<close>

lemma sum_over_groups:
  "distinct ks \<Longrightarrow> key ` set xs \<subseteq> set ks \<Longrightarrow> (\<Sum>k\<leftarrow>ks. \<Sum>x\<leftarrow>filter (\<lambda>x. key x = k) xs. g x) = (\<Sum>x\<leftarrow>xs. g x :: int)"
proof (induction xs)
  case (Cons x xs)
  have one: "(\<Sum>k\<leftarrow>ks. if key x = k then g x else 0) = (if key x \<in> set ks then g x else 0)" if "distinct ks" for ks
    using that by (induction ks) auto
  have "(\<Sum>k\<leftarrow>ks. \<Sum>y\<leftarrow>filter (\<lambda>y. key y = k) (x # xs). g y)
      = (\<Sum>k\<leftarrow>ks. (if key x = k then g x else 0) + (\<Sum>y\<leftarrow>filter (\<lambda>y. key y = k) xs. g y))"
    by (rule arg_cong [where f = sum_list]) simp
  with Cons one [of ks] show ?case by (simp add: sum_list_addf)
qed (simp add: sum_list_0)

lemma group_by_sum: "(\<Sum>(k, rs)\<leftarrow>group_by key xs. \<Sum>x\<leftarrow>rs. g x) = (\<Sum>x\<leftarrow>xs. g x :: int)"
  using sum_over_groups [of "remdups (map key xs)" key xs g] by (simp add: group_by_def comp_def)

lemma group_of: "x \<in> set xs \<Longrightarrow> (key x, filter (\<lambda>r. key r = key x) xs) \<in> set (group_by key xs)"
  by (auto simp: group_by_def)

lemma sum_list_perm: "mset xs = mset ys \<Longrightarrow> (\<Sum>x\<leftarrow>xs. h x) = (\<Sum>x\<leftarrow>ys. h x :: int)"
  by (metis mset_map sum_mset_sum_list)

lemma int_length_sum: "int (length xs) = (\<Sum>x\<leftarrow>xs. 1)"
  by (induction xs) auto

text \<open>The counts of a list of totals: requests and the four kinds of tokens.\<close>

definition grand :: "'x usage_totals_scheme list \<Rightarrow> int list" where
  "grand ts = map (\<lambda>col. \<Sum>t\<leftarrow>ts. col t)
     [ut_RequestCount, ut_InputTokens, ut_OutputTokens, ut_CachedTokens, ut_CacheCreationTokens]"

definition summary_counts :: "usage_summary \<Rightarrow> int list" where
  "summary_counts s = [us_TotalRequests s, us_TotalInputTokens s, us_TotalOutputTokens s, us_TotalCachedTokens s,
     us_TotalCacheCreationTokens s]"

definition row_counts :: "request_log list \<Rightarrow> int list" where
  "row_counts rows = int (length rows) # map (\<lambda>col. sum_tokens col rows) [lg_InputTokens, lg_OutputTokens, lg_CachedTokens, lg_CacheCreationTokens]"

lemma grand_groups:
  assumes "mset groups = mset (group_by key rows)"
  shows "grand (map (\<lambda>(k, rs). totals db rs (h k)) groups) = row_counts rows"
proof -
  have *: "(\<Sum>(k, rs)\<leftarrow>groups. \<Sum>x\<leftarrow>rs. g x) = (\<Sum>x\<leftarrow>rows. g x)" for g :: "request_log \<Rightarrow> int"
    using sum_list_perm [OF assms, of "\<lambda>(k, rs). \<Sum>x\<leftarrow>rs. g x"] group_by_sum [of g key rows] by simp
  show ?thesis
    using * [of "\<lambda>_. 1"] * [of "\<lambda>lg. sint (lg_InputTokens lg)"] * [of "\<lambda>lg. sint (lg_OutputTokens lg)"]
      * [of "\<lambda>lg. sint (lg_CachedTokens lg)"] * [of "\<lambda>lg. sint (lg_CacheCreationTokens lg)"]
    by (simp add: grand_def row_counts_def totals_def sum_tokens_def comp_def case_prod_unfold int_length_sum [symmetric])
qed

lemma mset_by_day: "mset (by_day db rows) = mset (group_by (local_day db) rows)"
  by (simp add: by_day_def)

lemma mset_by_cost: "mset (by_cost_desc db groups) = mset groups"
  by (simp add: by_cost_desc_def)

lemma case_prod_nested: "(\<lambda>((p, m), rs). F p m rs) = (\<lambda>(k, rs). F (fst k) (snd k) rs)"
  by auto

text \<open>C33. The breakdowns by day, by model and by provider of a query agree with its summary: their requests
  and their tokens of each kind add up to the summary's, and the error summary counts the same
  requests, both in total and over its days.\<close>

theorem breakdowns_agree:
  assumes "Summary w q = Inr s" and "uw_ok' w"
  shows "\<exists>ds ms ps e. DailyUsage w q = Inr ds \<and> ModelBreakdown w q = Inr ms \<and> ProviderBreakdown w q = Inr ps
    \<and> ErrorSummary w q = Inr e \<and> grand ds = summary_counts s \<and> grand ms = summary_counts s \<and> grand ps = summary_counts s
    \<and> es_TotalRequests e = us_TotalRequests s \<and> (\<Sum>d\<leftarrow>es_Daily e. de_RequestCount d) = us_TotalRequests s
    \<and> (\<Sum>d\<leftarrow>es_Daily e. de_ErrorCount d) = es_ErrorRequests e"
proof -
  from assms(1) obtain f where f: "resolveFilter (uw_parse_uuid w) (uw_now w) q = Inr f" and ok: "uw_ok w"
    and s: "summary_counts s = row_counts (selected f (uw_rows w))"
    by (auto simp: Summary_def with_filter_Inr GetUsageSummary_def Let_def summary_counts_def row_counts_def totals_def)
  have n: "us_TotalRequests s = int (length (selected f (uw_rows w)))"
    using s by (simp add: summary_counts_def row_counts_def)
  have sums: "(\<Sum>(d, rs)\<leftarrow>by_day (uw_db w) (selected f (uw_rows w)). \<Sum>r\<leftarrow>rs. g r) = (\<Sum>r\<leftarrow>selected f (uw_rows w). g r)"
    for g :: "request_log \<Rightarrow> int"
    using sum_list_perm [OF mset_by_day, of "\<lambda>(d, rs). \<Sum>r\<leftarrow>rs. g r"] group_by_sum [of g] by simp
  have errs: "error_count rs = (\<Sum>r\<leftarrow>rs. if lg_StatusCode r \<ge> 400 then 1 else 0)" for rs
    by (induction rs) (auto simp: error_count_def)
  show ?thesis
    using f ok assms(2) sums [of "\<lambda>_. 1"] sums [of "\<lambda>r. if lg_StatusCode r \<ge> 400 then 1 else 0"]
      grand_groups [OF mset_by_day, where h = "\<lambda>d. daily_usage.fields (day_text d)"]
      grand_groups [OF mset_by_cost, where h = "\<lambda>k. model_usage.fields (fst k) (snd k)"]
      grand_groups [OF mset_by_cost, where h = provider_usage.fields]
    by (simp add: DailyUsage_def ModelBreakdown_def ProviderBreakdown_def ErrorSummary_def with_filter_Inr GetDailyUsage_def
        GetModelBreakdown_def GetProviderBreakdown_def GetErrorSummary_def case_prod_nested s n errs [symmetric] int_length_sum [symmetric]
        comp_def case_prod_unfold Let_def)
qed

subsection \<open>An example\<close>

definition plain_numbers :: db_numbers where
  "plain_numbers = \<lparr>dn_units = \<lambda>_. 0, dn_float = f64_of_int, dn_avg = \<lambda>_. 0, dn_percentile = \<lambda>_ _. 0, dn_zone = \<lambda>_. 0\<rparr>"

definition some_query :: usage_query where
  "some_query = \<lparr>uq_Preset = ''7d'', uq_Start = [], uq_End = [], uq_APIKeyID = [], uq_Provider = [], uq_Model = [],
     uq_StatusClass = [], uq_MetadataFilters = [], uq_ExcludeRuns = False, uq_Limit = 2, uq_Offset = 0\<rparr>"

definition some_world :: usage_world where
  "some_world = \<lparr>uw_db = plain_numbers, uw_ok = True, uw_ok' = True, uw_rows = [example_entry, example_entry\<lparr>lg_ID := 2\<rparr>, example_entry\<lparr>lg_ID := 3\<rparr>],
     uw_keys = [], uw_parse_uuid = \<lambda>_. None, uw_newSHA1 = \<lambda>n s. 0, uw_now = 0, uw_download = None\<rparr>"

definition some_filter :: usage_filter where
  "some_filter = \<lparr>uf_Start = - 518400000000000, uf_End = 86400000000000, uf_APIKeyID = None, uf_Provider = None, uf_Model = None,
     uf_StatusClass = [], uf_MetadataFilters = [], uf_ExcludeRuns = False\<rparr>"

lemma some_resolved: "resolveFilter (uw_parse_uuid some_world) (uw_now some_world) some_query = Inr some_filter"
  by (simp add: resolveFilter_def some_query_def some_world_def resolve_key_def resolve_range_def next_midnight_def
      truncate_day_def day_number_def preset_days_def some_filter_def)

lemma some_selected: "selected some_filter (uw_rows some_world) = uw_rows some_world"
  by (simp add: selected_def where_clause_def appendMetadataFilters_def in_range_def of_key_def of_endpoint_def some_filter_def
      some_world_def example_entry_def)

lemma query_accepted_witness:
  "uf_Start some_filter = uf_End some_filter - 7 * day \<and> uf_End some_filter mod day = 0"
  using query_accepted [of "uw_parse_uuid some_world" "uw_now some_world" some_query] some_resolved
  by (simp add: some_query_def)

lemma breakdowns_agree_witness:
  "\<exists>ds. DailyUsage some_world some_query = Inr ds \<and> map ut_RequestCount ds \<noteq> [] \<and> hd (grand ds) = 3"
proof -
  obtain s where s: "Summary some_world some_query = Inr s" "us_TotalRequests s = 3"
    using some_resolved some_selected
    by (simp add: Summary_def with_filter_Inr GetUsageSummary_def Let_def totals_def) (simp add: some_world_def)
  have "uw_ok' some_world" by (simp add: some_world_def)
  from breakdowns_agree [OF s(1) this] s(2) show ?thesis
    by (auto simp: grand_def summary_counts_def)
qed

section \<open>Pages\<close>

lemma resolveFilter_offset: "resolveFilter parse_uuid now (q\<lparr>uq_Offset := x\<rparr>) = resolveFilter parse_uuid now q"
  unfolding resolveFilter_def resolve_range_def by (cases q) (simp only: usage_query.simps usage_query.update_convs)

lemma concat_pages:
  "length xs \<le> n * L \<Longrightarrow> concat (map (\<lambda>i. take L (drop (i * L) xs)) [0..<n]) = xs"
proof (induction n arbitrary: xs)
  case (Suc n)
  have "concat (map (\<lambda>i. take L (drop (i * L) xs)) [0..<Suc n])
      = take L xs @ concat (map (\<lambda>i. take L (drop (i * L) (drop L xs))) [0..<n])"
    by (simp add: map_upt_Suc add.commute del: upt_Suc)
  with Suc.IH [of "drop L xs"] Suc.prems show ?case by simp
qed simp

text \<open>Paging through the requests gives every matching request once, the latest first: with the offsets
  0, L, 2L and so on, where L is the page size the service grants, the pages joined are the whole list,
  which is a permutation of the rows the filter selects in descending order of time; no page has more
  than 200 entries, and each reports the number of all.\<close>

theorem request_pages:
  assumes "resolveFilter (uw_parse_uuid w) (uw_now w) q = Inr f" and "uw_ok w" and "uw_ok' w"
    and "L = clampLimit (uq_Limit q) 50 200" and "int (length (list_selected f (uw_rows w))) \<le> int n * L"
  shows "\<exists>pages whole. (\<forall>i < n. ListRequests w (q\<lparr>uq_Offset := int i * L\<rparr>) = Inr (pages i, int (length whole)) \<and> length (pages i) \<le> 200)
    \<and> concat (map pages [0..<n]) = map (list_item (uw_db w)) whole
    \<and> mset whole = mset (list_selected f (uw_rows w)) \<and> sorted_wrt (\<lambda>a b. lg_RequestedAt b \<le> lg_RequestedAt a) whole"
proof -
  let ?sel = "list_selected f (uw_rows w)"
  let ?pages = "\<lambda>i. map (list_item (uw_db w)) (take (nat L) (drop (i * nat L) (latest_first ?sel)))"
  have L: "0 < L" "L \<le> 200" using assms(4) by (auto simp: clampLimit_def)
  have len: "length (latest_first ?sel) = length ?sel" by (simp add: latest_first_def)
  have "int (length ?sel) \<le> int (n * nat L)" using assms(5) L(1) by simp
  then have "length (latest_first ?sel) \<le> n * nat L" unfolding len by linarith
  then have whole: "concat (map ?pages [0..<n]) = map (list_item (uw_db w)) (latest_first ?sel)"
    using arg_cong [OF concat_pages [of "latest_first ?sel" n "nat L"], of "map (list_item (uw_db w))"]
    by (simp add: map_concat comp_def)
  have off: "nat (clampOffset (int i * L)) = i * nat L" for i
    using L(1) by (simp add: clampOffset_def nat_mult_distrib mult_less_0_iff)
  have page: "ListRequests w (q\<lparr>uq_Offset := int i * L\<rparr>) = Inr (?pages i, int (length (latest_first ?sel)))" for i
    using assms(1-4) L(1) off [of i]
    by (simp add: ListRequests_def with_filter_Inr resolveFilter_offset ListUsageRequests_def page_def len Let_def)
  have "sorted (map (\<lambda>lg. - lg_RequestedAt lg) (latest_first ?sel))" by (simp add: latest_first_def)
  then have "sorted_wrt (\<lambda>a b. lg_RequestedAt b \<le> lg_RequestedAt a) (latest_first ?sel)"
    by (simp add: sorted_map)
  moreover have "mset (latest_first ?sel) = mset ?sel" by (simp add: latest_first_def)
  moreover have "length (?pages i) \<le> 200" for i using L(2) by simp
  ultimately show ?thesis using page whole by (intro exI [of _ ?pages] exI [of _ "latest_first ?sel"]) simp
qed

lemma request_pages_witness:
  "\<exists>pages whole. (\<forall>i < 2. ListRequests some_world (some_query\<lparr>uq_Offset := int i * 2\<rparr>) = Inr (pages i, int (length whole)))
     \<and> length whole = 3 \<and> concat (map pages [0..<2]) = map (list_item plain_numbers) whole"
proof -
  have sel: "list_selected some_filter (uw_rows some_world) = uw_rows some_world"
  proof -
    have "appendExcludeRuns False (appendStatusClass [] p) = p" for p
      by (simp add: fun_eq_iff appendExcludeRuns_def appendStatusClass_def)
    with some_selected show ?thesis by (simp add: list_selected_def selected_def some_filter_def)
  qed
  have w: "uw_ok some_world" "uw_ok' some_world" "uw_db some_world = plain_numbers" "length (uw_rows some_world) = 3"
    by (simp_all add: some_world_def)
  have L: "2 = clampLimit (uq_Limit some_query) 50 200" by (simp add: some_query_def clampLimit_def)
  from sel w(4) have n: "int (length (list_selected some_filter (uw_rows some_world))) \<le> int 2 * 2" by simp
  obtain pages whole where "\<forall>i < 2. ListRequests some_world (some_query\<lparr>uq_Offset := int i * 2\<rparr>) = Inr (pages i, int (length whole))"
      "concat (map pages [0..<2]) = map (list_item plain_numbers) whole" "mset whole = mset (uw_rows some_world)"
    using request_pages [OF some_resolved w(1,2) L n] unfolding sel w(3) by blast
  with w(4) mset_eq_length [of whole "uw_rows some_world"] show ?thesis
    by (intro exI [of _ pages] exI [of _ whole]) simp
qed

section \<open>Runs\<close>

lemma takeWhile_join: "segments_ok segs \<Longrightarrow> segs \<noteq> [] \<Longrightarrow> takeWhile (\<lambda>c. c \<noteq> pathSeparator) (join_with pathSeparator segs) = hd segs"
proof (cases segs)
  case (Cons s rest)
  assume ok: "segments_ok segs"
  then have "pathSeparator \<notin> set s" using Cons by (simp add: segments_ok_def)
  then have "takeWhile (\<lambda>c. c \<noteq> pathSeparator) s = s" "\<forall>c \<in> set s. c \<noteq> pathSeparator" by (auto intro: takeWhile_eq_all_conv [THEN iffD2])
  then show ?thesis using Cons by (cases rest) (auto simp: takeWhile_append2)
qed simp

lemma run_label_leaf:
  assumes "CanonicalPath (coalesce (lg_SpanPath lg) []) = coalesce (lg_SpanPath lg) []"
  shows "run_label lg = runLabel (leaf_row lg)"
proof (cases "coalesce (lg_SpanPath lg) [] = []")
  case False
  let ?p = "coalesce (lg_SpanPath lg) []"
  have ne: "SplitPath ?p \<noteq> []" using assms False by (auto simp: CanonicalPath_def)
  have "takeWhile (\<lambda>c. c \<noteq> pathSeparator) ?p = hd (SplitPath ?p)"
    using takeWhile_join [OF SplitPath_ok ne] assms by (simp add: CanonicalPath_def)
  with False ne show ?thesis
    by (cases "SplitPath ?p") (auto simp: run_label_def runLabel_def leaf_row_def pathSeparator_def)
qed (simp add: run_label_def runLabel_def leaf_row_def SplitPath_def)

lemma foldl_latest:
  "foldl (\<lambda>e row. if e < lf_RespondedAt row then lf_RespondedAt row else e) e rows = Max (insert e (lf_RespondedAt ` set rows))"
proof (induction rows arbitrary: e)
  case (Cons row rows)
  let ?S = "lf_RespondedAt ` set rows"
  have "Max (insert (max e (lf_RespondedAt row)) ?S) = Max (insert e (insert (lf_RespondedAt row) ?S))"
    by (cases "?S = {}") (simp_all add: max.assoc)
  moreover have "(if e < lf_RespondedAt row then lf_RespondedAt row else e) = max e (lf_RespondedAt row)" by simp
  ultimately show ?case using Cons.IH by (simp only: foldl_Cons list.set image_insert)
qed simp

lemma ensure_prefix_data: "node_data (as_root (fst (ensure_prefix h t x p))) = node_data (as_root (fst x))"
  by (simp add: ensure_prefix_def split: prod.split)

lemma ensurePath_data: "node_data (as_root (fst (ensurePath h t p a))) = node_data (as_root a)"
proof -
  have "node_data (as_root (fst (foldl (ensure_prefix h t) x ps))) = node_data (as_root (fst x))" for x ps
    by (induction ps arbitrary: x) (simp_all add: ensure_prefix_data)
  then show ?thesis by (simp add: ensurePath_def)
qed

lemma add_rows_data: "node_data (as_root (foldl (add_row h t) a rows)) = node_data (as_root a)"
proof (induction rows arbitrary: a)
  case (Cons row rows)
  have "node_data (as_root (add_row h t a row)) = node_data (as_root a)"
    using ensurePath_data [of h t "CanonicalPath (lf_SpanPath row)" a] by (auto simp: add_row_def split: prod.split)
  with Cons show ?case by simp
qed simp

lemma rollUp_name: "rn_Name (node_data (rollUpRunNode n)) = rn_Name (node_data n)"
proof (cases n)
  case (RunNode i cs)
  have "rn_Name (foldl add_child_totals i cs') = rn_Name i" for cs'
    by (induction cs' arbitrary: i) (simp_all add: add_child_totals_def)
  then show ?thesis by (simp add: RunNode Let_def)
qed

lemma assembled_run:
  assumes "rows \<noteq> []"
  obtains tree where "assembleRunTree h t rows trunc = Some tree" "rt_RequestCount tree = int (length rows)"
    "rt_StartedAt tree = lf_RequestedAt (hd rows)" "rt_EndedAt tree = Max (lf_RespondedAt ` set rows)"
    "rn_Name (node_data (rt_Root tree)) = runLabel (hd rows)"
proof -
  obtain first rest where r: "rows = first # rest" using assms by (cases rows) auto
  obtain tree where t: "assembleRunTree h t rows trunc = Some tree" by (simp add: assembleRunTree_def r Let_def)
  have "rn_Name (node_data (rt_Root tree)) = runLabel (hd rows)"
    using t by (auto simp: assembleRunTree_def r Let_def rollUp_name add_rows_data root_info_def simp del: foldl_Cons)
  moreover have "rt_EndedAt tree = Max (lf_RespondedAt ` set rows)" "rt_StartedAt tree = lf_RequestedAt (hd rows)"
    using assembleRunTree_Cons [OF t [unfolded r]] by (simp_all add: foldl_latest r del: foldl_Cons)
  ultimately show thesis using that t run_tree_complete_facts(5) [OF t] by blast
qed


definition traced_entry :: request_log where
  "traced_entry = example_entry\<lparr>lg_TraceID := Some ''t'', lg_SpanPath := Some ''plan/search''\<rparr>"

lemma length_one_ok: "length [x] \<le> 5000"
  by simp


section \<open>An archived body is served\<close>

lemma find_last_row:
  "x \<notin> f ` set rows \<Longrightarrow> f r = x \<Longrightarrow> find (\<lambda>r. f r = x) (rows @ [r]) = Some r"
  by (induction rows) auto

lemma metadata_ok: "gm_ok (extractCustomMetadata headers)"
proof -
  have "gm_ok m \<Longrightarrow> gm_ok (foldl (\<lambda>metadata (key, value). if key \<in> set reservedMajordomoHeaders then metadata
      else gm_put (trim_prefix ''x-majordomo-'' key) value metadata) m headers)" for m
    by (induction headers arbitrary: m) (auto split: prod.split)
  then show ?thesis by (simp add: extractCustomMetadata_def)
qed

lemma response_headers_ok: "gm_ok (ExtractResponseHeaders h)"
proof -
  have "gm_ok m \<Longrightarrow> gm_ok (foldl (\<lambda>result (key, values). case values of v # _ \<Rightarrow> gm_put key v result | [] \<Rightarrow> result) m h)" for m
    by (induction h arbitrary: m) (auto split: prod.split list.split)
  then show ?thesis by (simp add: ExtractResponseHeaders_def)
qed

lemma logged_upload:
  assumes "logRequest uuid_text newSHA1 prices (Some upload) pre f = (lg, up)"
  obtains key where "up = Some (key, body_payload_of f)" "lg_ID lg = fi_RequestID f"
    "upload key (body_payload_of f) \<Longrightarrow> lg_BodyS3Key lg = Some key"
proof -
  let ?key = "GenerateKey uuid_text pre (ki_ID (fi_Key f)) (fi_RequestID f) (fi_RequestedAt f)"
  define x where "x = attach_route f (attach_redirect f (applyRunTracing newSHA1 (base_log prices f) (fi_RequestID f) (fi_Headers f)))"
  have "lg_ID x = fi_RequestID f"
    by (simp add: x_def attach_route_def attach_redirect_def applyRunTracing_def base_log_def Let_def split: option.split)
  moreover have "(lg, up) = (if upload ?key (body_payload_of f) then x\<lparr>lg_BodyS3Key := Some ?key\<rparr> else x, Some (?key, body_payload_of f))"
    using assms unfolding logRequest_def x_def [symmetric] archiveBodies_def by (simp add: Let_def)
  ultimately show thesis using that [of ?key] by (auto split: if_splits)
qed


definition archived_exchange :: finished where
  "archived_exchange = example_error\<lparr>fi_Response := \<lparr>ud_StatusCode = 200, ud_Headers = [], ud_Body = ''{}'', ud_ResponseTime = 1\<rparr>\<rparr>"

lemma archived_exchange_fits:
  "row_fits (fst (logRequest (\<lambda>_. ''u'') (\<lambda>n s. 0) example_service (Some (\<lambda>_ _. True)) [] archived_exchange))"
  by code_simp


section \<open>Health from the log\<close>

text \<open>A quotient of small counts exceeds one fifth as a float64 exactly when it does as a number: between
  them lies the next float64 after one fifth with 50 fractional bits.\<close>

lemma above_fifth: "rnd53 (225179981368525 / 1125899906842624) = 225179981368525 / 1125899906842624
    \<and> rnd53 (1 / 5) < 225179981368525 / 1125899906842624"
  by code_simp

lemma fifth_exact:
  assumes "0 \<le> e" and "e \<le> c" and "0 < c" and "c < 2 ^ 40"
  shows "f64_of_int e / f64_of_int c \<le> healthMaxErrorRate \<longleftrightarrow> 5 * e \<le> c"
proof -
  have "rat_of_f64 (f64_of_int e) = of_int e" "rat_of_f64 (f64_of_int c) = of_int c"
    using assms by (auto intro!: f64_of_int_exact)
  then have le: "f64_of_int e / f64_of_int c \<le> healthMaxErrorRate \<longleftrightarrow> rnd53 (of_int e / of_int c) \<le> rnd53 (1 / 5)"
    by (simp add: less_eq_f64.rep_eq divide_f64.rep_eq healthMaxErrorRate_def f64_of_rat.rep_eq)
  show ?thesis
  proof
    assume "5 * e \<le> c"
    then have "of_int (5 * e) \<le> (of_int c :: rat)" by (simp only: of_int_le_iff)
    then have "of_int e / of_int c \<le> (1 / 5 :: rat)" using assms(3) by (simp add: field_simps)
    then show "f64_of_int e / f64_of_int c \<le> healthMaxErrorRate" unfolding le by (rule rnd53_mono)
  next
    assume r: "f64_of_int e / f64_of_int c \<le> healthMaxErrorRate"
    show "5 * e \<le> c"
    proof (rule ccontr)
      assume "\<not> 5 * e \<le> c"
      with assms(4) have "225179981368525 * c \<le> 1125899906842624 * e" by simp
      then have "of_int (225179981368525 * c) \<le> (of_int (1125899906842624 * e) :: rat)" by (simp only: of_int_le_iff)
      then have "225179981368525 / 1125899906842624 \<le> (of_int e / of_int c :: rat)" using assms(3) by (simp add: field_simps)
      from rnd53_mono [OF this] above_fifth r show False unfolding le by simp
    qed
  qed
qed

lemma index_health_None: "\<forall>r \<in> set rows. healthKey (eh_Provider r) (eh_Model r) \<noteq> k \<Longrightarrow> gm_get (index_health rows) k = None"
proof (induction rows rule: rev_induct)
  case (snoc r rows)
  have "index_health (rows @ [r]) = gm_put (healthKey (eh_Provider r) (eh_Model r)) r (index_health rows)" by (simp add: index_health_def)
  with snoc index_health_ok [of rows] show ?case by (auto simp: gomap)
qed (simp add: index_health_def)

lemma index_health_Some:
  "r0 \<in> set rows \<Longrightarrow> \<forall>r \<in> set rows. healthKey (eh_Provider r) (eh_Model r) = k \<longleftrightarrow> r = r0 \<Longrightarrow> gm_get (index_health rows) k = Some r0"
proof (induction rows rule: rev_induct)
  case (snoc r rows)
  have "index_health (rows @ [r]) = gm_put (healthKey (eh_Provider r) (eh_Model r)) r (index_health rows)" by (simp add: index_health_def)
  with snoc index_health_ok [of rows] show ?case by (cases "r = r0") (auto simp: gomap)
qed simp

text \<open>C31. The router's health gate is decided by the log: with the rows the health query computes, an endpoint is
  unhealthy exactly when the log has at least twenty requests of its provider and model since the start of
  the window and more than a fifth of them ended with a status of 500 or more. The comparison is exact
  although the rate is a float64.\<close>

theorem health_gate_from_log:
  assumes "GetEndpointHealth db True table since = Inr stats"
    and "recent = filter (\<lambda>l. since < lg_RequestedAt l \<and> lg_Provider l = ep_Provider ep \<and> lg_Model l = ep_ProviderModelID ep) table"
    and "\<forall>l \<in> set table. CHR 0x00 \<notin> set (lg_Provider l)" and "CHR 0x00 \<notin> set (ep_Provider ep)" and "length table < 2 ^ 40"
  shows "isHealthy \<lparr>hs_byKey = index_health stats, hs_fetchedAt = t\<rparr> ep
    \<longleftrightarrow> length recent < 20 \<or> 5 * length (filter (\<lambda>l. lg_StatusCode l \<ge> 500) recent) \<le> length recent"
proof -
  let ?in = "filter (\<lambda>l. since < lg_RequestedAt l) table" and ?key = "\<lambda>l. (lg_Provider l, lg_Model l)"
  let ?k = "healthKey (ep_Provider ep) (ep_ProviderModelID ep)" and ?p = "(ep_Provider ep, ep_ProviderModelID ep)"
  define stat where "stat = (\<lambda>((p, m), rs :: request_log list). \<lparr>eh_Provider = p, eh_Model = m, eh_SampleCount = int (length rs),
      eh_AvgLatencyMs = dn_avg db (map lg_ResponseTimeMs rs),
      eh_ErrorRate = f64_of_int (int (length (filter (\<lambda>lg. lg_StatusCode lg \<ge> 500) rs))) / f64_of_int (int (length rs))\<rparr>)"
  have stats: "stats = map stat (group_by ?key ?in)" using assms(1) by (auto simp: GetEndpointHealth_def stat_def)
  have recent: "filter (\<lambda>l. ?key l = ?p) ?in = recent" unfolding assms(2) filter_filter by (rule filter_cong) auto
  have group: "g \<in> set (group_by ?key ?in) \<Longrightarrow> \<exists>l \<in> set table. g = (?key l, filter (\<lambda>r. ?key r = ?key l) ?in)" for g
    by (auto simp: group_by_def)
  have key: "healthKey (eh_Provider (stat g)) (eh_Model (stat g)) = ?k \<longleftrightarrow> g = (?p, recent)" if "g \<in> set (group_by ?key ?in)" for g
    using group [OF that] assms(3,4) recent by (auto simp: stat_def healthKey_inj)
  show ?thesis
  proof (cases "(?p, recent) \<in> set (group_by ?key ?in)")
    case True
    have found: "gm_get (index_health stats) ?k = Some (stat (?p, recent))"
    proof (rule index_health_Some)
      show "stat (?p, recent) \<in> set stats" using True by (simp add: stats)
      show "\<forall>r \<in> set stats. healthKey (eh_Provider r) (eh_Model r) = ?k \<longleftrightarrow> r = stat (?p, recent)"
        using key by (auto simp: stats) (auto simp: stat_def)
    qed
    have "length recent < 2 ^ 40" using assms(2,5) le_less_trans [OF length_filter_le] by blast
    moreover define e where "e = length (filter (\<lambda>l. lg_StatusCode l \<ge> 500) recent)"
    moreover have "e \<le> length recent" unfolding e_def by (rule length_filter_le)
    ultimately have rate: "f64_of_int (int e) / f64_of_int (int (length recent)) \<le> healthMaxErrorRate \<longleftrightarrow> 5 * e \<le> length recent"
      if "20 \<le> length recent"
    proof -
      have "0 < int (length recent)" using that by linarith
      moreover have "int (length recent) < 2 ^ 40" using \<open>length recent < 2 ^ 40\<close> by simp
      moreover have "5 * int e \<le> int (length recent) \<longleftrightarrow> 5 * e \<le> length recent" by linarith
      ultimately show ?thesis using fifth_exact [of "int e" "int (length recent)"] \<open>e \<le> length recent\<close> by simp
    qed
    have "int (length recent) < 20 \<longleftrightarrow> length recent < 20" by simp
    with rate found show ?thesis
      by (cases "length recent < 20") (simp_all add: isHealthy_def stat_def healthMinSamples_def e_def)
  next
    case False
    have "recent = []"
    proof (rule ccontr)
      assume "recent \<noteq> []"
      then obtain l where "l \<in> set ?in" "?key l = ?p" by (auto simp: recent [symmetric] filter_empty_conv)
      from group_of [OF this(1), of ?key] this(2) recent False show False by simp
    qed
    moreover have "gm_get (index_health stats) ?k = None"
      using False key by (intro index_health_None) (auto simp: stats)
    ultimately show ?thesis by (simp add: isHealthy_def)
  qed
qed

lemma health_gate_from_log_witness:
  "\<exists>stats. GetEndpointHealth plain_numbers True (replicate 20 (example_entry\<lparr>lg_StatusCode := 503\<rparr>)) (-1) = Inr stats
     \<and> \<not> isHealthy \<lparr>hs_byKey = index_health stats, hs_fetchedAt = 0\<rparr> (example_endpoint\<lparr>ep_Provider := ''openai'', ep_ProviderModelID := ''m''\<rparr>)"
proof -
  let ?t = "replicate 20 (example_entry\<lparr>lg_StatusCode := 503\<rparr>)"
  let ?ep = "example_endpoint\<lparr>ep_Provider := ''openai'', ep_ProviderModelID := ''m''\<rparr>"
  obtain stats where s: "GetEndpointHealth plain_numbers True ?t (-1) = Inr stats" by (simp add: GetEndpointHealth_def queried_def)
  have "?t = filter (\<lambda>l. -1 < lg_RequestedAt l \<and> lg_Provider l = ep_Provider ?ep \<and> lg_Model l = ep_ProviderModelID ?ep) ?t"
    by (rule filter_True [symmetric]) (simp add: example_entry_def)
  from health_gate_from_log [OF s this, of 0] have "\<not> isHealthy \<lparr>hs_byKey = index_health stats, hs_fetchedAt = 0\<rparr> ?ep"
    by (simp add: example_entry_def)
  with s show ?thesis by blast
qed

end
