(* ===== verification/Admin_Api.thy ===== *)
theory Admin_Api
  imports Key_Services Metadata Usage_Service
begin

text \<open>
  The admin and query API: the controllers of \<open>internal/controllers\<close> over the services, with the JSON
  bodies they read. A reply is its status and the value handed to \<open>WriteJSON\<close> or the message handed to
  \<open>WriteJSONError\<close>; the text \<open>encoding/json\<close> makes of it is in theory \<open>Wire\<close>.
\<close>

section \<open>State and replies\<close>

record admin_state =
  ad_keys :: "api_key list"
  ad_providers :: "provider_api_key list"
  ad_meta :: "metadata_row list"
  ad_cache :: active_cache
  ad_rows :: "request_log list"
  ad_jobs :: "metadata_job list"

text \<open>The surroundings of one call: whether its statements run, the clock, the next id the database gives,
  random bytes, third-party functions and the body store.\<close>

record admin_env =
  ae_ok :: bool
  ae_ok' :: bool
  ae_now :: instant
  ae_id :: uuid
  ae_random :: "string option"
  ae_parse_uuid :: "string \<Rightarrow> uuid option"
  ae_newSHA1 :: "uuid \<Rightarrow> string \<Rightarrow> uuid"
  ae_db :: db_numbers
  ae_download :: "(string \<Rightarrow> store_error + body_content) option"

text \<open>\<open>am_RawPath\<close> is empty unless the path was sent with an encoding of its own.\<close>

record admin_request = http_request +
  am_RawPath :: string
  am_ContentLength :: int

datatype answer =
  ErrorA string | InvalidA validation_error | EmptyA
| CreatedKeyA api_key string | KeysA "api_key list"
| MetadataKeysA "metadata_key list" | ActivatedA | DeactivatedA
| ProviderA string | ProviderKeysA "provider_key_info list"
| SummaryA usage_summary | DailyA "daily_usage list" | ModelsA "model_usage list" | ProvidersA "provider_usage list"
| APIKeysA "api_key_usage list" | ErrorsA error_summary | RecentErrorsA "recent_error list" | LatencyA latency_stats
| RequestsA "request_list_item list" int | RunsA "run_list_item list" int | MetadataA "metadata_breakdown list"
| RunTreeA run_tree | DetailA request_log | BodyA body_content

type_synonym reply = "int \<times> answer"

definition internal_error :: reply where "internal_error = (500, ErrorA ''internal error'')"

text \<open>\<open>json.NewDecoder(r.Body).Decode(&req)\<close> into a fresh struct.\<close>

definition decode_request :: "'a json_field list \<Rightarrow> 'a \<Rightarrow> admin_request \<Rightarrow> 'a option" where
  "decode_request fs z r = Option.bind (hq_Body r) (decode_first (decode_struct fs) z)"

section \<open>Keys\<close>

definition createKeyRequest_fields :: "create_api_key_input json_field list" where
  "createKeyRequest_fields =
     [field ''name'' decode_string ck_Name (\<lambda>x s. s\<lparr>ck_Name := x\<rparr>),
      field ''description'' (decode_ptr [] decode_string) ck_Description (\<lambda>x s. s\<lparr>ck_Description := x\<rparr>)]"

definition keys_Create :: "admin_env \<Rightarrow> admin_request \<Rightarrow> admin_state \<Rightarrow> admin_state \<times> reply" where
  "keys_Create e r s =
     (case decode_request createKeyRequest_fields \<lparr>ck_Name = [], ck_Description = None\<rparr> r of
        None \<Rightarrow> (s, 400, ErrorA ''invalid JSON body'')
      | Some req \<Rightarrow>
          let req = req\<lparr>ck_Name := trim_space (ck_Name req)\<rparr> in
          if ck_Name req = [] then (s, 400, ErrorA ''name is required'')
          else case CreateKey (ae_random e) (ae_ok e) (ae_id e) (ae_now e) req (ad_keys s) of
              (rows, Inl _) \<Rightarrow> (s\<lparr>ad_keys := rows\<rparr>, internal_error)
            | (rows, Inr (key, plaintext)) \<Rightarrow> (s\<lparr>ad_keys := rows\<rparr>, 201, CreatedKeyA key plaintext))"

definition keys_List :: "admin_env \<Rightarrow> admin_state \<Rightarrow> reply" where
  "keys_List e s = (case ListKeys (ae_ok e) (ad_keys s) of Inl _ \<Rightarrow> internal_error | Inr keys \<Rightarrow> (200, KeysA keys))"

definition keys_Revoke :: "admin_env \<Rightarrow> string \<Rightarrow> admin_state \<Rightarrow> admin_state \<times> reply" where
  "keys_Revoke e param s =
     (case ae_parse_uuid e param of
        None \<Rightarrow> (s, 400, ErrorA ''invalid key ID'')
      | Some i \<Rightarrow>
          (case RevokeKey (ae_ok e) (ae_now e) i (ad_keys s) of
             (rows, Inl err) \<Rightarrow>
               (s\<lparr>ad_keys := rows\<rparr>, if err = ErrAPIKeyNotFound then (404, ErrorA ''key not found'') else internal_error)
           | (rows, Inr _) \<Rightarrow> (s\<lparr>ad_keys := rows\<rparr>, 204, EmptyA)))"

section \<open>Metadata keys\<close>

definition metadata_List :: "admin_env \<Rightarrow> admin_state \<Rightarrow> reply" where
  "metadata_List e s =
     (case ListMetadata (ae_ok e) (ad_keys s) (ad_meta s) of Inl _ \<Rightarrow> internal_error | Inr keys \<Rightarrow> (200, MetadataKeysA keys))"

record metadataKeyRequest =
  mq_APIKeyID :: string
  mq_KeyName :: string

definition metadataKeyRequest_fields :: "metadataKeyRequest json_field list" where
  "metadataKeyRequest_fields =
     [field ''api_key_id'' decode_string mq_APIKeyID (\<lambda>x s. s\<lparr>mq_APIKeyID := x\<rparr>),
      field ''key_name'' decode_string mq_KeyName (\<lambda>x s. s\<lparr>mq_KeyName := x\<rparr>)]"

definition metadata_decode :: "admin_env \<Rightarrow> admin_request \<Rightarrow> reply + uuid \<times> string" where
  "metadata_decode e r =
     (case decode_request metadataKeyRequest_fields \<lparr>mq_APIKeyID = [], mq_KeyName = []\<rparr> r of
        None \<Rightarrow> Inl (400, ErrorA ''invalid JSON body'')
      | Some req \<Rightarrow>
          (case ae_parse_uuid e (mq_APIKeyID req) of
             None \<Rightarrow> Inl (400, ErrorA ''invalid api_key_id'')
           | Some k \<Rightarrow> if mq_KeyName req = [] then Inl (400, ErrorA ''key_name is required'') else Inr (k, mq_KeyName req)))"

definition mapErr :: "repo_error \<Rightarrow> reply" where
  "mapErr err = (if err = ErrMetadataKeyNotFound then (404, ErrorA ''metadata key not found for that API key'') else internal_error)"

text \<open>The state after a switch, with the background job it may have started, and the reply.\<close>

definition switched :: "answer \<Rightarrow> metadata_row list \<times> active_cache \<times> (repo_error + unit) \<times> metadata_job option
    \<Rightarrow> admin_state \<Rightarrow> admin_state \<times> reply" where
  "switched done_answer = (\<lambda>(rows, cache, result, job) s.
     (s\<lparr>ad_meta := rows, ad_cache := cache, ad_jobs := ad_jobs s @ (case job of None \<Rightarrow> [] | Some j \<Rightarrow> [j])\<rparr>,
      case result of Inl err \<Rightarrow> mapErr err | Inr _ \<Rightarrow> (200, done_answer)))"

definition metadata_Activate :: "admin_env \<Rightarrow> admin_request \<Rightarrow> admin_state \<Rightarrow> admin_state \<times> reply" where
  "metadata_Activate e r s =
     (case metadata_decode e r of
        Inl err \<Rightarrow> (s, err)
      | Inr (k, n) \<Rightarrow> switched ActivatedA (Activate (ae_ok e) (ae_now e) k n (ad_meta s) (ad_cache s)) s)"

definition metadata_Deactivate :: "admin_env \<Rightarrow> admin_request \<Rightarrow> admin_state \<Rightarrow> admin_state \<times> reply" where
  "metadata_Deactivate e r s =
     (case metadata_decode e r of
        Inl err \<Rightarrow> (s, err)
      | Inr (k, n) \<Rightarrow> switched DeactivatedA (Deactivate (ae_ok e) k n (ad_meta s) (ad_cache s)) s)"

section \<open>Provider keys\<close>

record upsertProviderKeyRequest =
  up_Provider :: string
  up_Key :: string

definition upsertProviderKeyRequest_fields :: "upsertProviderKeyRequest json_field list" where
  "upsertProviderKeyRequest_fields =
     [field ''provider'' decode_string up_Provider (\<lambda>x s. s\<lparr>up_Provider := x\<rparr>),
      field ''key'' decode_string up_Key (\<lambda>x s. s\<lparr>up_Key := x\<rparr>)]"

definition normalized_provider :: "string \<Rightarrow> string" where
  "normalized_provider p = to_lower (trim_space p)"

definition providers_Upsert :: "aes_store \<Rightarrow> admin_env \<Rightarrow> admin_request \<Rightarrow> admin_state \<Rightarrow> admin_state \<times> reply" where
  "providers_Upsert store e r s =
     (case decode_request upsertProviderKeyRequest_fields \<lparr>up_Provider = [], up_Key = []\<rparr> r of
        None \<Rightarrow> (s, 400, ErrorA ''invalid JSON body'')
      | Some req \<Rightarrow>
          let p = normalized_provider (up_Provider req); k = trim_space (up_Key req) in
          if p = [] \<or> k = [] then (s, 400, ErrorA ''provider and key are required'')
          else case UpsertKey store (ae_random e) (ae_ok e) (ae_id e) (ae_now e) p k (ad_providers s) of
              (rows, Inl err) \<Rightarrow>
                (s\<lparr>ad_providers := rows\<rparr>, if err = ErrUnknownProvider then (400, ErrorA (''unknown provider: '' @ p)) else internal_error)
            | (rows, Inr _) \<Rightarrow> (s\<lparr>ad_providers := rows\<rparr>, 201, ProviderA p))"

definition providers_List :: "admin_env \<Rightarrow> admin_state \<Rightarrow> reply" where
  "providers_List e s =
     (case ListProviderKeys (ae_ok e) (ad_providers s) of Inl _ \<Rightarrow> internal_error | Inr keys \<Rightarrow> (200, ProviderKeysA keys))"

definition providers_Delete :: "admin_env \<Rightarrow> string \<Rightarrow> admin_state \<Rightarrow> admin_state \<times> reply" where
  "providers_Delete e param s =
     (let p = normalized_provider param in
      if p = [] then (s, 400, ErrorA ''provider is required'')
      else case DeleteKey (ae_ok e) p (ad_providers s) of
          (rows, Inl err) \<Rightarrow>
            (s\<lparr>ad_providers := rows\<rparr>, if err = ErrProviderKeyNotFound then (404, ErrorA ''provider key not found'') else internal_error)
        | (rows, Inr _) \<Rightarrow> (s\<lparr>ad_providers := rows\<rparr>, 204, EmptyA))"

section \<open>Usage queries\<close>

definition zero_filter :: usage_query_filter where "zero_filter = \<lparr>qf_Key = [], qf_Value = []\<rparr>"

definition metadataFilter_fields :: "usage_query_filter json_field list" where
  "metadataFilter_fields =
     [field ''key'' decode_string qf_Key (\<lambda>x s. s\<lparr>qf_Key := x\<rparr>), field ''value'' decode_string qf_Value (\<lambda>x s. s\<lparr>qf_Value := x\<rparr>)]"

definition zero_query :: usage_query where
  "zero_query = \<lparr>uq_Preset = [], uq_Start = [], uq_End = [], uq_APIKeyID = [], uq_Provider = [], uq_Model = [], uq_StatusClass = [],
     uq_MetadataFilters = [], uq_ExcludeRuns = False, uq_Limit = 0, uq_Offset = 0\<rparr>"

definition usageRequest_fields :: "usage_query json_field list" where
  "usageRequest_fields =
     [field ''preset'' decode_string uq_Preset (\<lambda>x s. s\<lparr>uq_Preset := x\<rparr>),
      field ''start'' decode_string uq_Start (\<lambda>x s. s\<lparr>uq_Start := x\<rparr>),
      field ''end'' decode_string uq_End (\<lambda>x s. s\<lparr>uq_End := x\<rparr>),
      field ''api_key_id'' decode_string uq_APIKeyID (\<lambda>x s. s\<lparr>uq_APIKeyID := x\<rparr>),
      field ''provider'' decode_string uq_Provider (\<lambda>x s. s\<lparr>uq_Provider := x\<rparr>),
      field ''model'' decode_string uq_Model (\<lambda>x s. s\<lparr>uq_Model := x\<rparr>),
      field ''status_class'' decode_string uq_StatusClass (\<lambda>x s. s\<lparr>uq_StatusClass := x\<rparr>),
      field ''metadata_filters'' (decode_slice zero_filter (decode_struct metadataFilter_fields)) uq_MetadataFilters
        (\<lambda>x s. s\<lparr>uq_MetadataFilters := x\<rparr>),
      field ''exclude_runs'' decode_bool uq_ExcludeRuns (\<lambda>x s. s\<lparr>uq_ExcludeRuns := x\<rparr>),
      field ''limit'' decode_int (\<lambda>s. word_of_int (uq_Limit s)) (\<lambda>x s. s\<lparr>uq_Limit := sint x\<rparr>),
      field ''offset'' decode_int (\<lambda>s. word_of_int (uq_Offset s)) (\<lambda>x s. s\<lparr>uq_Offset := sint x\<rparr>)]"

text \<open>A body is looked at unless its length is known to be 0. The request struct and the query have the
  same fields.\<close>

definition decodeUsageQuery :: "admin_request \<Rightarrow> usage_query option" where
  "decodeUsageQuery r = (if am_ContentLength r = 0 then Some zero_query else decode_request usageRequest_fields zero_query r)"

definition world_of :: "admin_env \<Rightarrow> admin_state \<Rightarrow> usage_world" where
  "world_of e s = \<lparr>uw_db = ae_db e, uw_ok = ae_ok e, uw_ok' = ae_ok' e, uw_rows = ad_rows s, uw_keys = ad_keys s,
     uw_parse_uuid = ae_parse_uuid e, uw_newSHA1 = ae_newSHA1 e, uw_now = ae_now e, uw_download = ae_download e\<rparr>"

definition usage_writeErr :: "service_error \<Rightarrow> reply" where
  "usage_writeErr err = (case err of ErrValidation v \<Rightarrow> (400, InvalidA v) | _ \<Rightarrow> internal_error)"

text \<open>The shape all report handlers share: decode the query, call the service, map the error.\<close>

definition report :: "admin_request \<Rightarrow> (usage_query \<Rightarrow> service_error + 'a) \<Rightarrow> ('a \<Rightarrow> answer) \<Rightarrow> reply" where
  "report r service answer =
     (case decodeUsageQuery r of
        None \<Rightarrow> (400, ErrorA ''invalid JSON body'')
      | Some q \<Rightarrow> (case service q of Inl err \<Rightarrow> usage_writeErr err | Inr x \<Rightarrow> (200, answer x)))"

definition usage_GetSummary :: "admin_env \<Rightarrow> admin_request \<Rightarrow> admin_state \<Rightarrow> reply" where
  "usage_GetSummary e r s = report r (Summary (world_of e s)) SummaryA"

definition usage_GetDailyUsage :: "admin_env \<Rightarrow> admin_request \<Rightarrow> admin_state \<Rightarrow> reply" where
  "usage_GetDailyUsage e r s = report r (DailyUsage (world_of e s)) DailyA"

definition usage_GetModelBreakdown :: "admin_env \<Rightarrow> admin_request \<Rightarrow> admin_state \<Rightarrow> reply" where
  "usage_GetModelBreakdown e r s = report r (ModelBreakdown (world_of e s)) ModelsA"

definition usage_GetProviderBreakdown :: "admin_env \<Rightarrow> admin_request \<Rightarrow> admin_state \<Rightarrow> reply" where
  "usage_GetProviderBreakdown e r s = report r (ProviderBreakdown (world_of e s)) ProvidersA"

definition usage_GetAPIKeyBreakdown :: "admin_env \<Rightarrow> admin_request \<Rightarrow> admin_state \<Rightarrow> reply" where
  "usage_GetAPIKeyBreakdown e r s = report r (APIKeyBreakdown (world_of e s)) APIKeysA"

definition usage_GetErrorSummary :: "admin_env \<Rightarrow> admin_request \<Rightarrow> admin_state \<Rightarrow> reply" where
  "usage_GetErrorSummary e r s = report r (ErrorSummary (world_of e s)) ErrorsA"

definition usage_GetRecentErrors :: "admin_env \<Rightarrow> admin_request \<Rightarrow> admin_state \<Rightarrow> reply" where
  "usage_GetRecentErrors e r s = report r (RecentErrors (world_of e s)) RecentErrorsA"

definition usage_GetLatencyStats :: "admin_env \<Rightarrow> admin_request \<Rightarrow> admin_state \<Rightarrow> reply" where
  "usage_GetLatencyStats e r s = report r (LatencyStats (world_of e s)) LatencyA"

definition usage_ListRequests :: "admin_env \<Rightarrow> admin_request \<Rightarrow> admin_state \<Rightarrow> reply" where
  "usage_ListRequests e r s = report r (ListRequests (world_of e s)) (\<lambda>(requests, n). RequestsA requests n)"

definition usage_ListRuns :: "admin_env \<Rightarrow> admin_request \<Rightarrow> admin_state \<Rightarrow> reply" where
  "usage_ListRuns e r s = report r (service_ListRuns (world_of e s)) (\<lambda>(runs, n). RunsA runs n)"

definition usage_GetMetadataBreakdown :: "admin_env \<Rightarrow> string \<Rightarrow> admin_request \<Rightarrow> admin_state \<Rightarrow> reply" where
  "usage_GetMetadataBreakdown e keyName r s =
     (if keyName = [] then (400, ErrorA ''missing metadata key name'')
      else report r (\<lambda>q. MetadataBreakdown (world_of e s) q keyName) MetadataA)"

definition usage_GetRunTree :: "admin_env \<Rightarrow> string \<Rightarrow> admin_state \<Rightarrow> reply" where
  "usage_GetRunTree e traceID s =
     (if traceID = [] then (400, ErrorA ''missing trace id'')
      else case RunTree (world_of e s) traceID of
          Inl _ \<Rightarrow> internal_error
        | Inr None \<Rightarrow> (404, ErrorA ''run not found'')
        | Inr (Some tree) \<Rightarrow> (200, RunTreeA tree))"

definition usage_GetRequestDetail :: "admin_env \<Rightarrow> string \<Rightarrow> admin_state \<Rightarrow> reply" where
  "usage_GetRequestDetail e param s =
     (case ae_parse_uuid e param of
        None \<Rightarrow> (400, ErrorA ''invalid request ID'')
      | Some i \<Rightarrow>
          (case RequestDetail (world_of e s) i of
             Inl err \<Rightarrow> if err = ErrUsage RequestNotFound then (404, ErrorA ''request not found'') else internal_error
           | Inr detail \<Rightarrow> (200, DetailA detail)))"

definition usage_GetRequestBody :: "admin_env \<Rightarrow> string \<Rightarrow> admin_state \<Rightarrow> reply" where
  "usage_GetRequestBody e param s =
     (case ae_parse_uuid e param of
        None \<Rightarrow> (400, ErrorA ''invalid request ID'')
      | Some i \<Rightarrow>
          (case RequestBody (world_of e s) i of
             Inl err \<Rightarrow>
               if err = ErrBodyArchivalDisabled then (404, ErrorA ''body archival is not enabled'')
               else if err = ErrUsage RequestNotFound then (404, ErrorA ''request not found'')
               else if err = ErrNoBodyArchived then (404, ErrorA ''no body archived for this request'')
               else (500, ErrorA ''failed to fetch body'')
           | Inr content \<Rightarrow> (200, BodyA content)))"

end
