(* ===== verification/Server.thy ===== *)
theory Server
  imports Admin_Api Proxy
begin

text \<open>
  The HTTP server (\<open>internal/server\<close>): the table of routes with the guard in front of the admin API, the
  middlewares around it, and the proxy behind every other path. Finding the route of a request is the
  work of the router github.com/go-chi/chi, a parameter: a function of the registered routes, of what a
  mount has left of the path, and of the request.
\<close>

section \<open>Routes\<close>

text \<open>A route is its method and its pattern; the method of \<open>Handle\<close> and of a mount is an asterisk.\<close>

type_synonym route = "string \<times> string"

datatype matched = RouteFound route "(string \<times> string) list" | NoRoute | WrongMethod

type_synonym chi = "route list \<Rightarrow> string option \<Rightarrow> admin_request \<Rightarrow> matched"

type_synonym api_handler = "admin_env \<Rightarrow> (string \<times> string) list \<Rightarrow> admin_request \<Rightarrow> admin_state \<Rightarrow> admin_state \<times> reply"

definition URLParam :: "(string \<times> string) list \<Rightarrow> string \<Rightarrow> string" where
  "URLParam params n = (case map_of params n of None \<Rightarrow> [] | Some v \<Rightarrow> v)"

text \<open>A handler that only reads.\<close>

definition reads :: "(admin_env \<Rightarrow> (string \<times> string) list \<Rightarrow> admin_request \<Rightarrow> admin_state \<Rightarrow> reply) \<Rightarrow> api_handler" where
  "reads h e params r s = (s, h e params r s)"

definition keys_RegisterRoutes :: "(route \<times> api_handler) list" where
  "keys_RegisterRoutes =
     [((''POST'', ''/keys''), \<lambda>e _. keys_Create e),
      ((''GET'', ''/keys''), reads (\<lambda>e _ _. keys_List e)),
      ((''DELETE'', ''/keys/{id}''), \<lambda>e ps _. keys_Revoke e (URLParam ps ''id''))]"

definition usage_RegisterRoutes :: "(route \<times> api_handler) list" where
  "usage_RegisterRoutes =
     [((''POST'', ''/usage/summary''), reads (\<lambda>e _. usage_GetSummary e)),
      ((''POST'', ''/usage/daily''), reads (\<lambda>e _. usage_GetDailyUsage e)),
      ((''POST'', ''/usage/models''), reads (\<lambda>e _. usage_GetModelBreakdown e)),
      ((''POST'', ''/usage/providers''), reads (\<lambda>e _. usage_GetProviderBreakdown e)),
      ((''POST'', ''/usage/api-keys''), reads (\<lambda>e _. usage_GetAPIKeyBreakdown e)),
      ((''POST'', ''/usage/errors''), reads (\<lambda>e _. usage_GetErrorSummary e)),
      ((''POST'', ''/usage/errors/recent''), reads (\<lambda>e _. usage_GetRecentErrors e)),
      ((''POST'', ''/usage/latency''), reads (\<lambda>e _. usage_GetLatencyStats e)),
      ((''POST'', ''/usage/requests''), reads (\<lambda>e _. usage_ListRequests e)),
      ((''POST'', ''/usage/runs''), reads (\<lambda>e _. usage_ListRuns e)),
      ((''POST'', ''/usage/metadata/{keyName}''), reads (\<lambda>e ps. usage_GetMetadataBreakdown e (URLParam ps ''keyName''))),
      ((''GET'', ''/usage/runs/{traceId}''), reads (\<lambda>e ps _. usage_GetRunTree e (URLParam ps ''traceId''))),
      ((''GET'', ''/usage/requests/{id}''), reads (\<lambda>e ps _. usage_GetRequestDetail e (URLParam ps ''id''))),
      ((''GET'', ''/usage/requests/{id}/body''), reads (\<lambda>e ps _. usage_GetRequestBody e (URLParam ps ''id'')))]"

definition metadata_RegisterRoutes :: "(route \<times> api_handler) list" where
  "metadata_RegisterRoutes =
     [((''GET'', ''/metadata''), reads (\<lambda>e _ _. metadata_List e)),
      ((''POST'', ''/metadata/activate''), \<lambda>e _. metadata_Activate e),
      ((''POST'', ''/metadata/deactivate''), \<lambda>e _. metadata_Deactivate e)]"

definition providers_RegisterRoutes :: "aes_store \<Rightarrow> (route \<times> api_handler) list" where
  "providers_RegisterRoutes store =
     [((''POST'', ''/provider-keys''), \<lambda>e _. providers_Upsert store e),
      ((''GET'', ''/provider-keys''), reads (\<lambda>e _ _. providers_List e)),
      ((''DELETE'', ''/provider-keys/{provider}''), \<lambda>e ps _. providers_Delete e (URLParam ps ''provider''))]"

text \<open>The routes under \<open>/api/v1\<close>; those of the provider keys only when there is a secret store.\<close>

definition api_routes :: "aes_store option \<Rightarrow> (route \<times> api_handler) list" where
  "api_routes providerKeys = keys_RegisterRoutes @ usage_RegisterRoutes @ metadata_RegisterRoutes
     @ (case providerKeys of None \<Rightarrow> [] | Some store \<Rightarrow> providers_RegisterRoutes store)"

section \<open>The server\<close>

text \<open>The admin API is mounted only with a token. Its three controllers are never nil in this program,
  which builds them unconditionally; \<open>controllers\<close> says whether they are there.\<close>

record server =
  se_adminToken :: string
  se_mounted :: bool
  se_providerKeys :: "aes_store option"
  se_proxy :: handler

definition server_New :: "handler \<Rightarrow> string \<Rightarrow> bool \<Rightarrow> aes_store option \<Rightarrow> server" where
  "server_New proxyHandler adminToken controllers providerKeys =
     \<lparr>se_adminToken = adminToken, se_mounted = (adminToken \<noteq> [] \<and> controllers), se_providerKeys = providerKeys,
      se_proxy = proxyHandler\<rparr>"

datatype target = HealthT | ReadyT | ApiT | ProxyT

definition server_routes :: "server \<Rightarrow> (route \<times> target) list" where
  "server_routes sv =
     [((''GET'', ''/health''), HealthT), ((''GET'', ''/readyz''), ReadyT)]
     @ (if se_mounted sv then [((''*'', ''/api/v1/*''), ApiT)] else [])
     @ [((''*'', ''/*''), ProxyT)]"

datatype server_answer =
  Api reply | Plain http_response | Proxied outcome | RouterNotFound | RouterNotAllowed

text \<open>What is around one request: the id it gets, the answer of the database to a ping, the world of the
  proxy and the surroundings of the admin API.\<close>

record server_env =
  ve_RequestID :: string
  ve_ping :: "string option"
  ve_api :: admin_env
  ve_world :: world

definition healthHandler :: http_response where
  "healthHandler = \<lparr>rp_Status = 200, rp_Header = [], rp_Body = ''ok'', rp_Flushed = False\<rparr>"

definition readyzHandler :: "string option \<Rightarrow> http_response" where
  "readyzHandler ping =
     (case ping of
        Some err \<Rightarrow> WriteJSON [] 503 (JObj [(''error'', json_str err), (''status'', json_str ''error'')])
      | None \<Rightarrow> WriteJSON [] 200 (JObj [(''status'', json_str ''ok'')]))"

definition bearer :: string where "bearer = ''Bearer ''"

definition adminAuthMiddleware :: "string \<Rightarrow> (admin_request \<Rightarrow> admin_state \<Rightarrow> admin_state \<times> server_answer)
    \<Rightarrow> admin_request \<Rightarrow> admin_state \<Rightarrow> admin_state \<times> server_answer" where
  "adminAuthMiddleware token next r s =
     (let authHeader = hdr_get (hq_Header r) ''Authorization'' in
      if authHeader = [] then (s, Api (401, ErrorA ''admin token required''))
      else if \<not> prefix bearer authHeader \<or> trim_space (drop (length bearer) authHeader) \<noteq> token
      then (s, Api (403, ErrorA ''invalid admin token''))
      else next r s)"

definition api_dispatch :: "chi \<Rightarrow> server \<Rightarrow> admin_env \<Rightarrow> string \<Rightarrow> admin_request \<Rightarrow> admin_state \<Rightarrow> admin_state \<times> server_answer" where
  "api_dispatch chi sv e rest r s =
     (let routes = api_routes (se_providerKeys sv) in
      case chi (map fst routes) (Some rest) r of
        NoRoute \<Rightarrow> (s, RouterNotFound)
      | WrongMethod \<Rightarrow> (s, RouterNotAllowed)
      | RouteFound rt params \<Rightarrow>
          (case map_of routes rt of
             None \<Rightarrow> (s, RouterNotFound)
           | Some h \<Rightarrow> (case h e params r s of (s', reply) \<Rightarrow> (s', Api reply))))"

section \<open>Middlewares\<close>

text \<open>The response writer that \<open>Logger\<close> puts in front of the handlers has no \<open>Flush\<close>.\<close>

definition Logger :: "world \<Rightarrow> world" where
  "Logger w = w\<lparr>wd_canFlush := False\<rparr>"

text \<open>\<open>Recovery\<close> answers after a panic.\<close>

definition Recovery :: "outcome \<Rightarrow> outcome" where
  "Recovery out = (case oc_Response out of
     None \<Rightarrow> out\<lparr>oc_Response := Some (WriteJSONError [] 500 ''internal server error'')\<rparr> | Some _ \<Rightarrow> out)"

text \<open>\<open>RequestID\<close> sets its header before the handler runs; a handler that copies the headers of the
  upstream adds to it.\<close>

definition RequestID :: "string \<Rightarrow> http_response \<Rightarrow> http_response" where
  "RequestID i p = p\<lparr>rp_Header := gm_put ''X-Request-Id'' (i # hdr_values (rp_Header p) ''X-Request-Id'') (rp_Header p)\<rparr>"

text \<open>\<open>CORSMiddleware\<close>, which \<open>New\<close> does not install: the headers of the response so far, and whether the
  request is answered with 204 at once.\<close>

definition CORSMiddleware :: "string list \<Rightarrow> http_request \<Rightarrow> header \<Rightarrow> header \<times> bool" where
  "CORSMiddleware allowedOrigins r h =
     (let origin = hdr_get (hq_Header r) ''Origin'';
          originSet = map (\<lambda>o'. rev (dropWhile (\<lambda>c. c = CHR ''/'') (rev o'))) allowedOrigins
      in (if origin \<noteq> [] \<and> origin \<in> set originSet
          then hdr_set ''Access-Control-Max-Age'' ''86400'' (hdr_set ''Access-Control-Allow-Credentials'' ''true''
            (hdr_set ''Access-Control-Expose-Headers'' ''X-Request-ID''
            (hdr_set ''Access-Control-Allow-Headers'' ''Authorization, Content-Type, X-Majordomo-Key, X-Majordomo-Provider''
            (hdr_set ''Access-Control-Allow-Methods'' ''GET, POST, PUT, DELETE, OPTIONS''
            (hdr_set ''Access-Control-Allow-Origin'' origin h)))))
          else h,
          hq_Method r = ''OPTIONS''))"

section \<open>Serving a request\<close>

text \<open>The tables the proxy reads are those the admin API writes.\<close>

definition proxy_world :: "admin_state \<Rightarrow> world \<Rightarrow> world" where
  "proxy_world s w = Logger (w\<lparr>wd_keys := ad_keys s, wd_providerKeys := ad_providers s\<rparr>)"

definition dispatch :: "chi \<Rightarrow> server \<Rightarrow> server_env \<Rightarrow> admin_request \<Rightarrow> admin_state \<Rightarrow> proxy_state
    \<Rightarrow> admin_state \<times> proxy_state \<times> server_answer" where
  "dispatch chi sv e r s p =
     (case chi (map fst (server_routes sv)) None r of
        NoRoute \<Rightarrow> (s, p, RouterNotFound)
      | WrongMethod \<Rightarrow> (s, p, RouterNotAllowed)
      | RouteFound rt params \<Rightarrow>
          (case map_of (server_routes sv) rt of
             None \<Rightarrow> (s, p, RouterNotFound)
           | Some HealthT \<Rightarrow> (s, p, Plain healthHandler)
           | Some ReadyT \<Rightarrow> (s, p, Plain (readyzHandler (ve_ping e)))
           | Some ApiT \<Rightarrow>
               (case adminAuthMiddleware (se_adminToken sv) (api_dispatch chi sv (ve_api e) (URLParam params ''*'')) r s of
                  (s', a) \<Rightarrow> (s', p, a))
           | Some ProxyT \<Rightarrow>
               (case ServeHTTP (se_proxy sv) (proxy_world s (ve_world e)) (http_request.truncate r) p of
                  (p', out) \<Rightarrow> (s, p', Proxied out))))"

definition finish_answer :: "string \<Rightarrow> server_answer \<Rightarrow> server_answer" where
  "finish_answer i a = (case a of
       Plain p \<Rightarrow> Plain (RequestID i p)
     | Proxied out \<Rightarrow> Proxied ((Recovery out)\<lparr>oc_Response := map_option (RequestID i) (oc_Response (Recovery out))\<rparr>)
     | _ \<Rightarrow> a)"

definition serve :: "chi \<Rightarrow> server \<Rightarrow> server_env \<Rightarrow> admin_request \<Rightarrow> admin_state \<Rightarrow> proxy_state
    \<Rightarrow> admin_state \<times> proxy_state \<times> server_answer" where
  "serve chi sv e r s p =
     (case dispatch chi sv e r s p of (s', p', a) \<Rightarrow> (s', p', finish_answer (ve_RequestID e) a))"

end
