(* ===== verification/Gateway.thy ===== *)
theory Gateway
  imports Server Request_Log
begin

text \<open>
  The gateway as a whole: the server of \<open>internal/server\<close> over the tables, the log writer and the
  resolver's cache that \<open>app.Build\<close> (\<open>internal/app/app.go\<close>) gives to all of them, with what goes on in
  the background. One request is one step here, from the lookup of its key to its answer, and may take
  time; lookups that overlap are the subject of theory Auth.
\<close>

section \<open>State\<close>

text \<open>Next to the shared state there are the goroutines still to run: the last use of a key to record, an
  entry to hand to the log writer, a job over the indexed metadata. Two fields record the history: the
  key table at each moment so far, and the requests sent upstream, each with its time and the hash of the
  gateway key it came with.\<close>

record 'h gateway =
  gw_now :: instant
  gw_keys :: "api_key list"
  gw_providers :: "provider_api_key list"
  gw_proxy :: proxy_state
  gw_writer :: "'h writer"
  gw_touches :: "uuid list"
  gw_offers :: "request_log list"
  gw_jobs :: "metadata_job list"
  gw_past :: "(instant \<times> api_key list) list"
  gw_forwarded :: "(instant \<times> string \<times> upstream_request) list"

text \<open>The admin API works on the tables and on the cache of active keys that the writer uses.\<close>

definition admin_of :: "'h gateway \<Rightarrow> admin_state" where
  "admin_of g =
     (let st = wr_store (gw_writer g) in
      \<lparr>ad_keys = gw_keys g, ad_providers = gw_providers g, ad_meta = ls_meta st, ad_cache = ls_cache st,
       ad_rows = ls_requests st, ad_jobs = gw_jobs g\<rparr>)"

definition with_admin :: "admin_state \<Rightarrow> 'h gateway \<Rightarrow> 'h gateway" where
  "with_admin s g =
     g\<lparr>gw_keys := ad_keys s, gw_providers := ad_providers s, gw_jobs := ad_jobs s,
       gw_writer := (gw_writer g)\<lparr>wr_store := (wr_store (gw_writer g))
         \<lparr>ls_meta := ad_meta s, ls_cache := ad_cache s, ls_requests := ad_rows s\<rparr>\<rparr>\<rparr>"

text \<open>A start on an existing database, with nothing cached and nothing running; \<open>m\<close> holds the sketches.\<close>

definition gateway_start :: "instant \<Rightarrow> api_key list \<Rightarrow> provider_api_key list \<Rightarrow> 'h log_store \<Rightarrow> 'h gateway" where
  "gateway_start now keys providers st =
     \<lparr>gw_now = now, gw_keys = keys, gw_providers = providers, gw_proxy = \<lparr>px_resolver = NewResolver, px_health = None\<rparr>,
      gw_writer = New st, gw_touches = [], gw_offers = [], gw_jobs = [], gw_past = [(now, keys)], gw_forwarded = []\<rparr>"

section \<open>Steps\<close>

text \<open>What an answer leaves behind in the background, and in the history.\<close>

definition left_behind :: "instant \<Rightarrow> admin_request \<Rightarrow> server_answer \<Rightarrow> 'h gateway \<Rightarrow> 'h gateway" where
  "left_behind t r a g = (case a of
     Proxied out \<Rightarrow>
       g\<lparr>gw_touches := gw_touches g @ (case oc_Touched out of None \<Rightarrow> [] | Some i \<Rightarrow> [i]),
         gw_offers := gw_offers g @ (case oc_Log out of None \<Rightarrow> [] | Some lg \<Rightarrow> [lg]),
         gw_forwarded := (case oc_Forwarded out of None \<Rightarrow> []
           | Some u \<Rightarrow> [(t, HashAPIKey (hdr_get (hq_Header r) ''X-Majordomo-Key''), u)]) @ gw_forwarded g\<rparr>
   | _ \<Rightarrow> g)"

text \<open>A request comes at \<open>wd_cacheRead\<close>, looks up its key within \<open>lat\<close>, and is answered.\<close>

definition request_clocks :: "duration \<Rightarrow> server_env \<Rightarrow> 'h gateway \<Rightarrow> bool" where
  "request_clocks lat e g \<longleftrightarrow> gw_now g \<le> wd_cacheRead (ve_world e)
     \<and> wd_cacheRead (ve_world e) \<le> wd_cacheWrite (ve_world e)
     \<and> wd_cacheWrite (ve_world e) \<le> wd_cacheRead (ve_world e) + lat"

definition moved_on :: "instant \<Rightarrow> 'h gateway \<Rightarrow> 'h gateway" where
  "moved_on t g = g\<lparr>gw_now := t, gw_past := (t, gw_keys g) # gw_past g\<rparr>"

definition request_step :: "chi \<Rightarrow> server \<Rightarrow> server_env \<Rightarrow> admin_request \<Rightarrow> 'h gateway \<Rightarrow> 'h gateway \<times> server_answer" where
  "request_step chi sv e r g0 =
     (let w = ve_world e; g = moved_on (wd_cacheRead w) g0 in
      case serve chi sv e r (admin_of g) (gw_proxy g) of
        (s, p, a) \<Rightarrow>
          (moved_on (wd_cacheWrite w) (left_behind (wd_cacheRead w) r a ((with_admin s g)\<lparr>gw_proxy := p\<rparr>)), a))"

text \<open>One batch of a job; its loop goes on or gives up.\<close>

primrec job_batch :: "metadata_job \<Rightarrow> request_log list \<Rightarrow> request_log list" where
  "job_batch (BackfillJob k n) rows = fst (update_first backfillBatchSize (to_backfill k n) (backfill_row n) rows)"
| "job_batch (CleanupJob k n) rows = fst (update_first backfillBatchSize (to_cleanup k n) (cleanup_row n) rows)"

definition on_rows :: "(request_log list \<Rightarrow> request_log list) \<Rightarrow> 'h writer \<Rightarrow> 'h writer" where
  "on_rows f w = w\<lparr>wr_store := (wr_store w)\<lparr>ls_requests := f (ls_requests (wr_store w))\<rparr>\<rparr>"

inductive gateway_step :: "chi \<Rightarrow> server \<Rightarrow> 'h sketch_ops \<Rightarrow> duration \<Rightarrow> 'h gateway \<Rightarrow> 'h gateway \<Rightarrow> bool"
  for chi sv ops lat where
  Request: "request_clocks lat e g \<Longrightarrow> request_step chi sv e r g = (g', a) \<Longrightarrow> gateway_step chi sv ops lat g g'"
| Touch: "gw_touches g = xs @ i # ys \<Longrightarrow> gw_now g \<le> t \<Longrightarrow>
    gateway_step chi sv ops lat g
      (moved_on t (g\<lparr>gw_touches := xs @ ys, gw_keys := fst (UpdateAPIKeyLastUsed ok t i (gw_keys g))\<rparr>))"
| Hand_over: "gw_offers g = xs @ lg # ys \<Longrightarrow>
    gateway_step chi sv ops lat g (g\<lparr>gw_offers := xs @ ys, gw_writer := WriteRequestLog lg (gw_writer g)\<rparr>)"
| Write: "loop_take ops wc (gw_writer g) = Some w \<Longrightarrow> gateway_step chi sv ops lat g (g\<lparr>gw_writer := w\<rparr>)"
| Flush_counts: "gateway_step chi sv ops lat g (g\<lparr>gw_writer := flush_tick ops now okf (gw_writer g)\<rparr>)"
| Signal_close: "close_signal (gw_writer g) = Some w \<Longrightarrow> gateway_step chi sv ops lat g (g\<lparr>gw_writer := w\<rparr>)"
| Loop_ends: "loop_exit (gw_writer g) = Some w \<Longrightarrow> gateway_step chi sv ops lat g (g\<lparr>gw_writer := w\<rparr>)"
| Database_closes: "close_database (gw_writer g) = Some w \<Longrightarrow> gateway_step chi sv ops lat g (g\<lparr>gw_writer := w\<rparr>)"
| Job_batch: "j \<in> set (gw_jobs g) \<Longrightarrow>
    gateway_step chi sv ops lat g (g\<lparr>gw_writer := on_rows (job_batch j) (gw_writer g)\<rparr>)"
| Job_ends: "gw_jobs g = xs @ j # ys \<Longrightarrow> gateway_step chi sv ops lat g (g\<lparr>gw_jobs := xs @ ys\<rparr>)"

inductive_cases gateway_stepE: "gateway_step chi sv ops lat g g'"

abbreviation gateway_steps :: "chi \<Rightarrow> server \<Rightarrow> 'h sketch_ops \<Rightarrow> duration \<Rightarrow> 'h gateway \<Rightarrow> 'h gateway \<Rightarrow> bool" where
  "gateway_steps chi sv ops lat \<equiv> (gateway_step chi sv ops lat)\<^sup>*\<^sup>*"

end
