(* ===== verification/Gateway_Properties.thy ===== *)
theory Gateway_Properties
  imports Gateway Proxy_Properties Request_Log_Properties
begin

text \<open>
  What holds of the gateway as a whole: the admin API behind its token, the invariant of all that its
  requests and background work can reach, and what follows for keys from creation to revocation.
\<close>

section \<open>What the admin API keeps\<close>

definition key_ids :: "api_key list \<Rightarrow> uuid set" where
  "key_ids rows = ak_ID ` set rows"

text \<open>A later state of the key table: no key is gone, and none is active again.\<close>

definition descends :: "api_key list \<Rightarrow> api_key list \<Rightarrow> bool" where
  "descends rows rows' \<longleftrightarrow>
     (\<forall>k \<in> set rows. \<exists>k' \<in> set rows'. ak_ID k' = ak_ID k \<and> ak_KeyHash k' = ak_KeyHash k \<and> (ak_IsActive k' \<longrightarrow> ak_IsActive k))"

lemma descends_refl [simp]: "descends rows rows"
  by (auto simp: descends_def)

lemma descends_trans: "descends a b \<Longrightarrow> descends b c \<Longrightarrow> descends a c"
  unfolding descends_def by metis

lemma descends_map:
  "(\<And>k. ak_ID (f k) = ak_ID k \<and> ak_KeyHash (f k) = ak_KeyHash k \<and> (ak_IsActive (f k) \<longrightarrow> ak_IsActive k)) \<Longrightarrow> descends rows (map f rows)"
  by (auto simp: descends_def)

lemma descends_ids: "descends rows rows' \<Longrightarrow> key_ids rows \<subseteq> key_ids rows'"
proof
  fix i assume d: "descends rows rows'" and "i \<in> key_ids rows"
  then obtain k where "k \<in> set rows" "ak_ID k = i" by (auto simp: key_ids_def)
  with d obtain k' where "k' \<in> set rows'" "ak_ID k' = i" by (auto simp: descends_def)
  then show "i \<in> key_ids rows'" by (auto simp: key_ids_def)
qed

definition providers_ok :: "provider_api_key list \<Rightarrow> bool" where
  "providers_ok rows \<longleftrightarrow> prov_keys_ok rows \<and> (\<forall>k \<in> set rows. IsCredentialProvider (pk_Provider k))"

text \<open>What every operation of the admin API makes of the state.\<close>

definition admin_step :: "admin_state \<Rightarrow> admin_state \<Rightarrow> bool" where
  "admin_step s s' \<longleftrightarrow>
     (keys_ok (ad_keys s) \<longrightarrow> keys_ok (ad_keys s')) \<and> descends (ad_keys s) (ad_keys s')
     \<and> (providers_ok (ad_providers s) \<longrightarrow> providers_ok (ad_providers s'))
     \<and> map mr_key (ad_meta s') = map mr_key (ad_meta s) \<and> ad_rows s' = ad_rows s"

lemma admin_step_refl [simp]: "admin_step s s"
  by (simp add: admin_step_def)

lemma update_keys: "(\<And>r. mr_key (f r) = mr_key r) \<Longrightarrow> map mr_key (fst (update_key k n f rows)) = map mr_key rows"
  by (simp add: update_key_def)

lemma switch_keys:
  "switch_key ok f k n rows c = (rows', c', res) \<Longrightarrow> (\<And>r. mr_key (f r) = mr_key r) \<Longrightarrow> map mr_key rows' = map mr_key rows"
  using update_keys [of f k n rows] by (auto simp: switch_key_def split: if_splits prod.splits)

lemma CreateKey_rows:
  "fst (CreateKey rnd ok i now inp rows) = rows \<or> (\<exists>h. fst (CreateKey rnd ok i now inp rows) = fst (CreateAPIKey ok i now h inp rows))"
proof (cases "GenerateAPIKey rnd")
  case (Some p)
  then have "fst (CreateKey rnd ok i now inp rows) = fst (CreateAPIKey ok i now (snd p) inp rows)"
    by (auto simp: CreateKey_def split: prod.split sum.split)
  then show ?thesis by blast
qed (simp add: CreateKey_def)

lemma CreateAPIKey_descends: "descends rows (fst (CreateAPIKey ok i now h inp rows))"
  by (auto simp: CreateAPIKey_def Let_def descends_def)

lemma keys_Create_step: "admin_step s (fst (keys_Create e r s))"
proof -
  have "admin_step s (s\<lparr>ad_keys := rows\<rparr>)" if "CreateKey rnd ok i now inp (ad_keys s) = (rows, res)" for rnd ok i now inp rows res
    using CreateKey_rows [of rnd ok i now inp "ad_keys s"] CreateAPIKey_ok CreateAPIKey_descends
    by (auto simp: that admin_step_def)
  then show ?thesis
    by (auto simp: keys_Create_def Let_def split: option.splits prod.splits sum.splits)
qed

lemma keys_Revoke_step: "admin_step s (fst (keys_Revoke e i s))"
proof -
  have "admin_step s (s\<lparr>ad_keys := rows\<rparr>)" if "RevokeKey ok now i (ad_keys s) = (rows, res)" for ok now i rows res
    using that RevokeAPIKey_ok [of "ad_keys s" ok now i]
    by (auto simp: RevokeKey_def RevokeAPIKey_def admin_step_def Let_def split: if_splits intro!: descends_map)
  then show ?thesis
    by (auto simp: keys_Revoke_def split: option.splits prod.splits sum.splits)
qed

lemma Upsert_rows:
  "providers_ok rows \<Longrightarrow> IsCredentialProvider p \<Longrightarrow> providers_ok (fst (Upsert ok i now p enc rows))"
  using Upsert_ok [of rows ok i now p enc] by (auto simp: providers_ok_def Upsert_def split: if_splits)

lemma Delete_rows: "providers_ok rows \<Longrightarrow> providers_ok (fst (Delete ok p rows))"
  using Delete_ok [of rows ok p] by (auto simp: providers_ok_def Delete_def split: if_splits)

lemma providers_Upsert_step: "admin_step s (fst (providers_Upsert store e r s))"
proof -
  have "admin_step s (s\<lparr>ad_providers := rows\<rparr>)"
    if u: "UpsertKey st rnd ok i now p k (ad_providers s) = (rows, res)" for st rnd ok i now p k rows res
  proof -
    have "rows = ad_providers s \<or> IsCredentialProvider p \<and> (\<exists>enc. rows = fst (Upsert ok i now p enc (ad_providers s)))"
      using u by (auto simp: UpsertKey_def prod_eq_iff split: if_splits sum.splits prod.splits)
    then show ?thesis using Upsert_rows by (auto simp: admin_step_def)
  qed
  then show ?thesis
    by (auto simp: providers_Upsert_def Let_def split: option.splits prod.splits sum.splits)
qed

lemma providers_Delete_step: "admin_step s (fst (providers_Delete e p s))"
proof -
  have "admin_step s (s\<lparr>ad_providers := rows\<rparr>)" if "DeleteKey ok p (ad_providers s) = (rows, res)" for ok p rows res
    using that Delete_rows [of "ad_providers s" ok p] by (auto simp: DeleteKey_def admin_step_def)
  then show ?thesis
    by (auto simp: providers_Delete_def Let_def split: prod.splits sum.splits)
qed

lemma switched_step:
  "map mr_key (fst x) = map mr_key (ad_meta s) \<Longrightarrow> admin_step s (fst (switched a x s))"
  by (cases x) (simp add: switched_def admin_step_def split: prod.splits)

lemma Activate_keys: "map mr_key (fst (Activate ok now k n rows c)) = map mr_key rows"
  using switch_keys [of ok "\<lambda>r. r\<lparr>mr_IsActive := True, mr_ActivatedAt := Some now\<rparr>" k n rows c]
  by (auto simp: Activate_def ActivateMetadataKey_def with_job_def mr_key_def split: prod.splits sum.splits)

lemma Deactivate_keys: "map mr_key (fst (Deactivate ok k n rows c)) = map mr_key rows"
  using switch_keys [of ok "\<lambda>r. r\<lparr>mr_IsActive := False\<rparr>" k n rows c]
  by (auto simp: Deactivate_def DeactivateMetadataKey_def with_job_def mr_key_def split: prod.splits sum.splits)

lemma metadata_steps: "admin_step s (fst (metadata_Activate e r s))" "admin_step s (fst (metadata_Deactivate e r s))"
  by (auto simp: metadata_Activate_def metadata_Deactivate_def split: sum.splits
      intro!: switched_step Activate_keys Deactivate_keys)

lemma api_handler_step: "(rt, h) \<in> set (api_routes ps) \<Longrightarrow> admin_step s (fst (h e params r s))"
  by (auto simp: api_routes_def keys_RegisterRoutes_def usage_RegisterRoutes_def metadata_RegisterRoutes_def
      providers_RegisterRoutes_def reads_def keys_Create_step keys_Revoke_step providers_Upsert_step providers_Delete_step
      metadata_steps split: option.splits)

lemma api_dispatch_step: "admin_step s (fst (api_dispatch chi sv e rest r s))"
  by (auto simp: api_dispatch_def Let_def split: matched.splits option.splits prod.splits dest!: map_of_SomeD)
    (metis api_handler_step fst_conv)

lemma middleware_step:
  "(\<And>r s. admin_step s (fst (next_handler r s))) \<Longrightarrow> admin_step s (fst (adminAuthMiddleware token next_handler r s))"
  by (simp add: adminAuthMiddleware_def Let_def)

text \<open>One request: either the proxy serves it and the tables stay, or the proxy keeps its state.\<close>

lemma serve_cases:
  assumes "serve chi sv e r s p = (s', p', a)"
  obtains (Proxy) out where "ServeHTTP (se_proxy sv) (proxy_world s (ve_world e)) (http_request.truncate r) p = (p', out)"
      "s' = s" "a = finish_answer (ve_RequestID e) (Proxied out)"
  | (Own) "p' = p" "admin_step s s'" "\<And>out. a \<noteq> Proxied out"
proof -
  obtain b where d: "dispatch chi sv e r s p = (s', p', b)" "a = finish_answer (ve_RequestID e) b"
    using assms by (auto simp: serve_def split: prod.splits)
  have "(\<exists>out. ServeHTTP (se_proxy sv) (proxy_world s (ve_world e)) (http_request.truncate r) p = (p', out) \<and> s' = s \<and> b = Proxied out)
      \<or> p' = p \<and> admin_step s s' \<and> (\<forall>out. b \<noteq> Proxied out)"
  proof (cases "chi (map fst (server_routes sv)) None r")
    case (RouteFound rt params)
    show ?thesis
    proof (cases "map_of (server_routes sv) rt")
      case (Some t)
      show ?thesis
      proof (cases t)
        case ApiT
        then obtain x where x: "adminAuthMiddleware (se_adminToken sv) (api_dispatch chi sv (ve_api e) (URLParam params ''*'')) r s = x"
            "x = (s', b)" "p' = p"
          using d(1) RouteFound Some by (auto simp: dispatch_def split: prod.splits)
        have "admin_step s (fst x)" unfolding x(1) [symmetric] by (rule middleware_step) (rule api_dispatch_step)
        moreover have "b \<noteq> Proxied out" for out
          using x by (auto simp: adminAuthMiddleware_def api_dispatch_def Let_def split: if_splits matched.splits option.splits prod.splits)
        ultimately show ?thesis using x by simp
      qed (use d(1) RouteFound Some in \<open>auto simp: dispatch_def split: prod.splits\<close>)
    qed (use d(1) RouteFound in \<open>auto simp: dispatch_def\<close>)
  qed (use d(1) in \<open>auto simp: dispatch_def\<close>)
  then show thesis
  proof (elim disjE exE conjE)
    fix out assume "ServeHTTP (se_proxy sv) (proxy_world s (ve_world e)) (http_request.truncate r) p = (p', out)" "s' = s" "b = Proxied out"
    then show thesis using Proxy d(2) by simp
  next
    assume o: "p' = p" "admin_step s s'" "\<forall>out. b \<noteq> Proxied out"
    then have "a \<noteq> Proxied out" for out using d(2) by (cases b) (auto simp: finish_answer_def)
    then show thesis using Own o by simp
  qed
qed

lemma finish_proxied:
  "finish_answer i (Proxied out) = Proxied out' \<Longrightarrow>
     oc_Forwarded out' = oc_Forwarded out \<and> oc_Log out' = oc_Log out \<and> oc_Touched out' = oc_Touched out
     \<and> oc_Archived out' = oc_Archived out"
  by (auto simp: finish_answer_def Recovery_def split: option.splits)

section \<open>The proxy over the resolver's cache\<close>

lemma ServeHTTP_resolver:
  "px_resolver (fst (ServeHTTP h w req s)) = fst (ResolveAPIKey (wd_cacheRead w) (wd_cacheWrite w) (wd_evicted w)
     (\<lambda>hash. GetAPIKeyByHash (wd_keysOk w) hash (wd_keys w)) (hdr_get (hq_Header req) ''X-Majordomo-Key'') (px_resolver s))"
  by (simp add: ServeHTTP_def authenticate_def split: prod.split)

lemma forwarded_accepted:
  "oc_Forwarded (snd (ServeHTTP h w req s)) = Some u \<Longrightarrow> \<exists>info. answer_of w req s = Inr info"
  by (elim forwarded_served) (blast dest: served_answer)

lemma extractCustomMetadata_ok: "gm_ok (extractCustomMetadata hs)"
proof -
  have "gm_ok m \<Longrightarrow> gm_ok (foldl (\<lambda>metadata (key, value). if key \<in> set reservedMajordomoHeaders then metadata
      else gm_put (trim_prefix ''x-majordomo-'' key) value metadata) m hs)" for m
    by (induction hs arbitrary: m) auto
  then show ?thesis by (simp add: extractCustomMetadata_def)
qed

lemma logged_entry:
  assumes "oc_Log (snd (ServeHTTP h w req s)) = Some lg"
  shows "\<exists>info. answer_of w req s = Inr info \<and> lg_MajordomoAPIKeyID lg = Some (ki_ID info)"
    and "gm_ok (lg_RawMetadata lg)"
proof -
  obtain info c0 c1 c2 u where sv: "served h w req s info c0 c1 c2"
    and lg: "lg = fst (logRequest (wd_uuid_text w) (wd_newSHA1 w) (wd_pricesAtLog w) (hd_bodyStore h) (hd_bodyKeyPrefix h)
      (finished_of w (sent c2) u))"
    using assms by (rule logged_served)
  show "\<exists>info. answer_of w req s = Inr info \<and> lg_MajordomoAPIKeyID lg = Some (ki_ID info)"
    using served_answer [OF sv] served_fields(1) [OF sv] by (simp add: lg logRequest_fields)
  show "gm_ok (lg_RawMetadata lg)"
    by (simp add: lg logRequest_fields extractCustomMetadata_ok)
qed

text \<open>A key info is vouched for by a moment of the past at which its key was active.\<close>

definition vouched :: "(instant \<times> api_key list) list \<Rightarrow> instant \<Rightarrow> string \<Rightarrow> api_key_info \<Rightarrow> bool" where
  "vouched past oldest hash info \<longleftrightarrow>
     (\<exists>t0 rows k. (t0, rows) \<in> set past \<and> oldest \<le> t0 \<and> k \<in> set rows \<and> ak_KeyHash k = hash
        \<and> ak_IsActive k \<and> info = key_info hash k)"

definition cache_vouched :: "duration \<Rightarrow> (instant \<times> api_key list) list \<Rightarrow> resolver \<Rightarrow> bool" where
  "cache_vouched lat past r \<longleftrightarrow> resolver_set r
     \<and> (\<forall>hash c info. gm_get (rs_cache r) hash = Some c \<longrightarrow> cc_info c = Some info \<longrightarrow>
          vouched past (cc_expiresAt c - lat - 5 * minute) hash info)"

lemma vouched_mono:
  assumes "vouched past o1 h i" and "set past \<subseteq> set past'" and "o2 \<le> o1"
  shows "vouched past' o2 h i"
proof -
  from assms(1) obtain t0 rows k where "(t0, rows) \<in> set past" "o1 \<le> t0" "k \<in> set rows" "ak_KeyHash k = h" "ak_IsActive k"
      "i = key_info h k"
    by (auto simp: vouched_def)
  with assms(2,3) show ?thesis
    unfolding vouched_def by (intro exI [of _ t0] exI [of _ rows] exI [of _ k]) auto
qed

lemma cache_vouched_mono: "cache_vouched lat past r \<Longrightarrow> set past \<subseteq> set past' \<Longrightarrow> cache_vouched lat past' r"
  unfolding cache_vouched_def by (meson order_refl vouched_mono)

lemma resolve_row_Inr:
  "resolve_row h (find (\<lambda>k. ak_KeyHash k = h) rows) = Inr info \<Longrightarrow>
     \<exists>k \<in> set rows. ak_KeyHash k = h \<and> ak_IsActive k \<and> info = key_info h k"
  by (auto simp: resolve_row_def find_Some_iff split: option.splits if_splits)

lemma resolve_vouched:
  assumes r: "cache_vouched lat past r" and t: "(t, rows) \<in> set past" "t \<le> t'" "t' \<le> t + lat"
    and res: "ResolveAPIKey t t' ev (\<lambda>hash. GetAPIKeyByHash ok hash rows) key r = (r', ans, touched)"
  shows "cache_vouched lat past r'"
    and "ans = Inr info \<Longrightarrow> vouched past (t - lat - 5 * minute) (HashAPIKey key) info"
proof -
  let ?h = "HashAPIKey key"
  obtain r1 c where g: "getFromCache t ?h r = (r1, c)" by fastforce
  note gc = getFromCache_cases [OF g]
  have r1: "cache_vouched lat past r1"
    using r gc(1-3) unfolding cache_vouched_def resolver_set_def by metis
  have five: "0 \<le> (5 * minute :: int)" and lat: "0 \<le> lat" using t by simp_all
  show "cache_vouched lat past r'"
  proof (cases "key = [] \<or> c \<noteq> None \<or> \<not> ok")
    case True
    then have "r' = r \<or> r' = r1" using res g by (cases c) (auto simp: ResolveAPIKey_def GetAPIKeyByHash_def Let_def split: if_splits)
    then show ?thesis using r r1 by auto
  next
    case False
    then have r': "r' = cache_row t' ev ?h (find (\<lambda>k. ak_KeyHash k = ?h) rows) r1"
      using res g by (simp add: ResolveAPIKey_def GetAPIKeyByHash_def Let_def)
    have set1: "resolver_set r1" using r1 by (simp add: cache_vouched_def)
    then have "resolver_set r'"
      using cache_row_ok [of r1 t' ev ?h] by (simp add: r' resolver_set_def cache_row_cache)
    moreover have "vouched past (cc_expiresAt c - lat - 5 * minute) h info"
      if c: "gm_get (rs_cache r') h = Some c" "cc_info c = Some info" for h c info
    proof (cases "h = ?h")
      case True
      then have "resolve_row ?h (find (\<lambda>k. ak_KeyHash k = ?h) rows) = Inr info" "cc_expiresAt c = t' + 5 * minute"
        using c set1 by (auto simp: r' cache_row_cache lru_add_get resolver_set_def resolver_ok_def split: if_splits sum.splits)
      with resolve_row_Inr t True show ?thesis unfolding vouched_def by fastforce
    next
      case False
      then have "gm_get (rs_cache r1) h = Some c"
        using c set1 by (auto simp: r' cache_row_cache lru_add_get resolver_set_def resolver_ok_def split: if_splits)
      then show ?thesis using r1 c(2) by (auto simp: cache_vouched_def)
    qed
    ultimately show ?thesis by (auto simp: cache_vouched_def)
  qed
  assume ans: "ans = Inr info"
  then have ne: "key \<noteq> []" using res by (auto simp: ResolveAPIKey_def)
  show "vouched past (t - lat - 5 * minute) ?h info"
  proof (cases c)
    case (Some x)
    then have x: "gm_get (rs_cache r) ?h = Some x" "t \<le> cc_expiresAt x" using gc(4) by auto
    have "cached_answer x = Inr info" using res ne g Some ans by (simp add: ResolveAPIKey_def Let_def)
    moreover have "cached_key_ok x" using r x(1) by (auto simp: cache_vouched_def resolver_set_def resolver_ok_def)
    ultimately have "cc_info x = Some info" by (auto simp: cached_answer_def cached_key_ok_def split: if_splits)
    with r x(1) have "vouched past (cc_expiresAt x - lat - 5 * minute) ?h info" by (auto simp: cache_vouched_def)
    then show ?thesis by (rule vouched_mono) (use x in auto)
  next
    case None
    then have "resolve_row ?h (find (\<lambda>k. ak_KeyHash k = ?h) rows) = Inr info"
      using res ne g ans by (auto simp: ResolveAPIKey_def GetAPIKeyByHash_def Let_def split: if_splits)
    with resolve_row_Inr t(1) five lat show ?thesis unfolding vouched_def by fastforce
  qed
qed

section \<open>The invariant of the gateway\<close>

text \<open>The history: every earlier key table is well formed and descends to the later ones, and what was sent
  upstream was vouched for by then.\<close>

definition until :: "instant \<Rightarrow> (instant \<times> api_key list) list \<Rightarrow> (instant \<times> api_key list) list" where
  "until t past = filter (\<lambda>(t0, _). t0 \<le> t) past"

definition history_ok :: "duration \<Rightarrow> 'h gateway \<Rightarrow> bool" where
  "history_ok lat g \<longleftrightarrow>
     keys_ok (gw_keys g)
     \<and> (\<forall>(t, rows) \<in> set (gw_past g). t \<le> gw_now g \<and> keys_ok rows \<and> descends rows (gw_keys g))
     \<and> sorted_wrt (\<lambda>(t', rows') (t, rows). t \<le> t' \<and> descends rows rows') (gw_past g)
     \<and> cache_vouched lat (gw_past g) (px_resolver (gw_proxy g))
     \<and> (\<forall>(t, hash, u) \<in> set (gw_forwarded g). \<exists>info. vouched (until t (gw_past g)) (t - lat - 5 * minute) hash info)"

lemma moved_on_fields [simp]:
  "gw_now (moved_on t g) = t" "gw_keys (moved_on t g) = gw_keys g" "gw_providers (moved_on t g) = gw_providers g"
  "gw_proxy (moved_on t g) = gw_proxy g" "gw_writer (moved_on t g) = gw_writer g" "gw_touches (moved_on t g) = gw_touches g"
  "gw_offers (moved_on t g) = gw_offers g" "gw_jobs (moved_on t g) = gw_jobs g"
  "gw_past (moved_on t g) = (t, gw_keys g) # gw_past g" "gw_forwarded (moved_on t g) = gw_forwarded g"
  by (simp_all add: moved_on_def)

lemma admin_of_fields [simp]:
  "ad_keys (admin_of g) = gw_keys g" "ad_providers (admin_of g) = gw_providers g"
  "ad_meta (admin_of g) = ls_meta (wr_store (gw_writer g))" "ad_cache (admin_of g) = ls_cache (wr_store (gw_writer g))"
  "ad_rows (admin_of g) = ls_requests (wr_store (gw_writer g))" "ad_jobs (admin_of g) = gw_jobs g"
  by (simp_all add: admin_of_def Let_def)

lemma with_admin_same [simp]: "with_admin (admin_of g) g = g"
  by (simp add: with_admin_def)

lemma with_admin_fields [simp]:
  "gw_now (with_admin s g) = gw_now g" "gw_keys (with_admin s g) = ad_keys s" "gw_providers (with_admin s g) = ad_providers s"
  "gw_proxy (with_admin s g) = gw_proxy g" "gw_touches (with_admin s g) = gw_touches g"
  "gw_offers (with_admin s g) = gw_offers g" "gw_jobs (with_admin s g) = ad_jobs s" "gw_past (with_admin s g) = gw_past g"
  "gw_forwarded (with_admin s g) = gw_forwarded g" "wr_queue (gw_writer (with_admin s g)) = wr_queue (gw_writer g)"
  "ls_requests (wr_store (gw_writer (with_admin s g))) = ad_rows s" "ls_meta (wr_store (gw_writer (with_admin s g))) = ad_meta s"
  by (simp_all add: with_admin_def)

lemma left_behind_own: "\<forall>out. a \<noteq> Proxied out \<Longrightarrow> left_behind t r a g = g"
  by (cases a) (auto simp: left_behind_def)

lemma left_behind_fields [simp]:
  "gw_now (left_behind t r a g) = gw_now g" "gw_keys (left_behind t r a g) = gw_keys g"
  "gw_providers (left_behind t r a g) = gw_providers g" "gw_proxy (left_behind t r a g) = gw_proxy g"
  "gw_writer (left_behind t r a g) = gw_writer g" "gw_jobs (left_behind t r a g) = gw_jobs g"
  "gw_past (left_behind t r a g) = gw_past g"
  by (simp_all add: left_behind_def split: server_answer.split)

lemma vouched_until: "vouched (until t past) o1 h i \<Longrightarrow> vouched (until t (x # past)) o1 h i"
  by (rule vouched_mono) (auto simp: until_def)

lemma history_grow:
  assumes h: "history_ok lat g" and t: "gw_now g \<le> t" and k: "keys_ok rows" "descends (gw_keys g) rows"
  shows "history_ok lat (moved_on t (g\<lparr>gw_keys := rows\<rparr>))"
proof -
  have "keys_ok rows'" "t0 \<le> gw_now g" "descends rows' (gw_keys g)" if "(t0, rows') \<in> set (gw_past g)" for t0 rows'
    using h that by (auto simp: history_ok_def)
  then have p: "keys_ok rows'" "t0 \<le> t" "descends rows' rows" if "(t0, rows') \<in> set (gw_past g)" for t0 rows'
    using that t descends_trans [OF _ k(2)] by force+
  have "cache_vouched lat ((t, rows) # gw_past g) (px_resolver (gw_proxy g))"
    using h by (auto simp: history_ok_def intro: cache_vouched_mono)
  moreover have "\<exists>info. vouched (until t0 ((t, rows) # gw_past g)) (t0 - lat - 5 * minute) hash info"
    if "(t0, hash, u) \<in> set (gw_forwarded g)" for t0 hash u
    using h that unfolding history_ok_def by (blast intro: vouched_until)
  moreover have "sorted_wrt (\<lambda>(t', rows') (t, rows). t \<le> t' \<and> descends rows rows') ((t, rows) # gw_past g)"
    using h p by (auto simp: history_ok_def)
  ultimately show ?thesis
    using k(1) p unfolding history_ok_def by auto
qed

lemma history_moved: "history_ok lat g \<Longrightarrow> gw_now g \<le> t \<Longrightarrow> history_ok lat (moved_on t g)"
  using history_grow [of lat g t "gw_keys g"] by (simp add: history_ok_def)

lemma history_cong:
  "history_ok lat g \<Longrightarrow> gw_now g' = gw_now g \<Longrightarrow> gw_keys g' = gw_keys g \<Longrightarrow> gw_past g' = gw_past g \<Longrightarrow>
     gw_proxy g' = gw_proxy g \<Longrightarrow> gw_forwarded g' = gw_forwarded g \<Longrightarrow> history_ok lat g'"
  by (simp add: history_ok_def)

lemma request_step_parts:
  assumes "request_step chi sv e r g0 = (g', a)"
  obtains s p where "serve chi sv e r (admin_of (moved_on (wd_cacheRead (ve_world e)) g0)) (gw_proxy g0) = (s, p, a)"
    "g' = moved_on (wd_cacheWrite (ve_world e)) (left_behind (wd_cacheRead (ve_world e)) r a
       ((with_admin s (moved_on (wd_cacheRead (ve_world e)) g0))\<lparr>gw_proxy := p\<rparr>))"
  using assms that by (auto simp: request_step_def Let_def split: prod.splits)

lemma proxy_world_fields [simp]:
  "wd_cacheRead (proxy_world s w) = wd_cacheRead w" "wd_cacheWrite (proxy_world s w) = wd_cacheWrite w"
  "wd_evicted (proxy_world s w) = wd_evicted w" "wd_keysOk (proxy_world s w) = wd_keysOk w"
  "wd_keys (proxy_world s w) = ad_keys s" "wd_providerKeys (proxy_world s w) = ad_providers s"
  "wd_providerKeysOk (proxy_world s w) = wd_providerKeysOk w" "wd_canFlush (proxy_world s w) = False"
  by (simp_all add: proxy_world_def Logger_def)

lemma truncate_header [simp]: "hq_Header (http_request.truncate r) = hq_Header r"
  by (simp add: http_request.truncate_def)

lemma history_request:
  assumes h: "history_ok lat g0" and c: "request_clocks lat e g0" and q: "request_step chi sv e r g0 = (g', a)"
  shows "history_ok lat g'"
proof -
  let ?w = "ve_world e"
  define g where "g = moved_on (wd_cacheRead ?w) g0"
  have g: "history_ok lat g" using h c by (simp add: g_def request_clocks_def history_moved)
  obtain s p where sv: "serve chi sv e r (admin_of g) (gw_proxy g) = (s, p, a)"
    and g': "g' = moved_on (wd_cacheWrite ?w) (left_behind (wd_cacheRead ?w) r a ((with_admin s g)\<lparr>gw_proxy := p\<rparr>))"
    using q by (rule request_step_parts) (simp add: g_def)
  have now: "gw_now g = wd_cacheRead ?w" "wd_cacheRead ?w \<le> wd_cacheWrite ?w" "wd_cacheWrite ?w \<le> wd_cacheRead ?w + lat"
    and past: "(wd_cacheRead ?w, gw_keys g) \<in> set (gw_past g)"
    using c by (simp_all add: g_def request_clocks_def)
  from sv show ?thesis
  proof (cases rule: serve_cases)
    case Own
    then have "left_behind (wd_cacheRead ?w) r a ((with_admin s g)\<lparr>gw_proxy := p\<rparr>) = with_admin s g"
      by (simp add: left_behind_own with_admin_def)
    moreover have "history_ok lat (moved_on (wd_cacheWrite ?w) (g\<lparr>gw_keys := ad_keys s\<rparr>))"
      using Own(2) g now by (intro history_grow) (auto simp: admin_step_def history_ok_def)
    ultimately show ?thesis unfolding g' by (elim history_cong) simp_all
  next
    case (Proxy out)
    let ?p = "gw_proxy g" and ?r = "http_request.truncate r" and ?h = "HashAPIKey (hdr_get (hq_Header r) ''X-Majordomo-Key'')"
    have s: "s = admin_of g" by (rule Proxy(2))
    have p: "px_resolver p = fst (ResolveAPIKey (wd_cacheRead ?w) (wd_cacheWrite ?w) (wd_evicted ?w)
        (\<lambda>hash. GetAPIKeyByHash (wd_keysOk ?w) hash (gw_keys g)) (hdr_get (hq_Header r) ''X-Majordomo-Key'') (px_resolver ?p))"
      using ServeHTTP_resolver [of "se_proxy sv" "proxy_world (admin_of g) ?w" ?r ?p] Proxy(1) by simp
    have v: "cache_vouched lat (gw_past g) (px_resolver ?p)" using g by (simp add: history_ok_def)
    obtain r' ans touched where res: "ResolveAPIKey (wd_cacheRead ?w) (wd_cacheWrite ?w) (wd_evicted ?w)
        (\<lambda>hash. GetAPIKeyByHash (wd_keysOk ?w) hash (gw_keys g)) (hdr_get (hq_Header r) ''X-Majordomo-Key'') (px_resolver ?p)
        = (r', ans, touched)"
      by (metis prod_cases3)
    note rv = resolve_vouched [OF v past now(2,3) res]
    have new: "\<exists>info. vouched (until (wd_cacheRead ?w) (gw_past g)) (wd_cacheRead ?w - lat - 5 * minute) ?h info"
      if "oc_Forwarded out = Some u" for u
    proof -
      have "\<exists>info. ans = Inr info"
        using forwarded_accepted [of "se_proxy sv" "proxy_world (admin_of g) ?w" ?r ?p u] Proxy(1) that res by simp
      moreover have "until (wd_cacheRead ?w) (gw_past g) = gw_past g"
        using g now(1) by (auto simp: until_def history_ok_def filter_id_conv)
      ultimately show ?thesis using rv(2) by auto
    qed
    obtain out' where out': "a = Proxied out'" "oc_Forwarded out' = oc_Forwarded out"
      using Proxy(3) finish_proxied by (auto simp: finish_answer_def)
    have "history_ok lat (left_behind (wd_cacheRead ?w) r a (g\<lparr>gw_proxy := p\<rparr>))"
      using g rv(1) p res new
      by (cases "oc_Forwarded out") (auto simp: history_ok_def left_behind_def out')
    then show ?thesis
      unfolding g' s with_admin_same using now by (intro history_moved) simp_all
  qed
qed

subsection \<open>Entries and the tables they refer to\<close>

definition known :: "api_key list \<Rightarrow> request_log \<Rightarrow> bool" where
  "known rows lg \<longleftrightarrow> (\<forall>i. lg_MajordomoAPIKeyID lg = Some i \<longrightarrow> i \<in> key_ids rows)"

definition row_sound :: "request_log \<Rightarrow> bool" where
  "row_sound lg \<longleftrightarrow> gm_ok (lg_RawMetadata lg) \<and> gm_ok (lg_IndexedMetadata lg) \<and> indexed_within lg"

definition store_ok :: "api_key list \<Rightarrow> 'h log_store \<Rightarrow> bool" where
  "store_ok keys st \<longleftrightarrow>
     (\<forall>lg \<in> set (ls_requests st). known keys lg \<and> row_sound lg) \<and> distinct (map lg_ID (ls_requests st))
     \<and> (\<forall>m \<in> set (ls_meta st). mr_APIKeyID m \<in> key_ids keys) \<and> meta_ok (ls_meta st)"

definition entry_ok :: "api_key list \<Rightarrow> request_log \<Rightarrow> bool" where
  "entry_ok keys lg \<longleftrightarrow> known keys lg \<and> gm_ok (lg_RawMetadata lg)"

definition logs_ok :: "'h gateway \<Rightarrow> bool" where
  "logs_ok g \<longleftrightarrow>
     providers_ok (gw_providers g) \<and> store_ok (gw_keys g) (wr_store (gw_writer g))
     \<and> (\<forall>lg \<in> set (gw_offers g) \<union> set (wr_queue (gw_writer g)). entry_ok (gw_keys g) lg)
     \<and> length (wr_queue (gw_writer g)) \<le> channel_size"

lemma known_mono: "known rows lg \<Longrightarrow> key_ids rows \<subseteq> key_ids rows' \<Longrightarrow> known rows' lg"
  by (auto simp: known_def)

lemma entry_ok_mono: "entry_ok rows lg \<Longrightarrow> key_ids rows \<subseteq> key_ids rows' \<Longrightarrow> entry_ok rows' lg"
  by (auto simp: entry_ok_def intro: known_mono)

lemma store_ok_mono: "store_ok rows st \<Longrightarrow> key_ids rows \<subseteq> key_ids rows' \<Longrightarrow> store_ok rows' st"
  by (auto simp: store_ok_def intro: known_mono)

lemma store_ok_cong:
  "store_ok keys st \<Longrightarrow> ls_requests st' = ls_requests st \<Longrightarrow> map mr_key (ls_meta st') = map mr_key (ls_meta st) \<Longrightarrow> store_ok keys st'"
proof -
  assume s: "store_ok keys st" "ls_requests st' = ls_requests st" and m: "map mr_key (ls_meta st') = map mr_key (ls_meta st)"
  from m have k: "mr_key ` set (ls_meta st') = mr_key ` set (ls_meta st)" by (metis set_map)
  have "mr_APIKeyID m \<in> key_ids keys" if "m \<in> set (ls_meta st')" for m
  proof -
    obtain m' where "m' \<in> set (ls_meta st)" "mr_key m = mr_key m'" using k \<open>m \<in> _\<close> by blast
    with s(1) show ?thesis by (auto simp: store_ok_def mr_key_def)
  qed
  with s m show "store_ok keys st'" by (simp add: store_ok_def meta_ok_def)
qed

lemma gm_ok_filter: "gm_ok m \<Longrightarrow> gm_ok (filter P m)"
  by (induction m) (auto simp: gm_ok_Cons)

lemma row_sound_inserted: "gm_ok (lg_RawMetadata lg) \<Longrightarrow> row_sound (inserted_row t ns lg)"
  by (simp add: row_sound_def indexed_within_inserted) (simp add: indexed_metadata_def gm_ok_filter)

lemma registered_keys:
  assumes "meta_ok rows"
  shows "meta_ok (registerMetadataKeys wc k raw rows)"
    and "m \<in> set (registerMetadataKeys wc k raw rows) \<Longrightarrow> m \<in> set rows \<or> mr_APIKeyID m = k"
  using assms unfolding registerMetadataKeys_def
proof (induction raw arbitrary: rows)
  case (Cons p raw)
  have r: "meta_ok (register_key wc k (fst p) rows)" if "meta_ok rows" for rows
    using that by (auto simp: register_key_def meta_ok_def mr_key_def new_metadata_row_def)
  have sub: "set (register_key wc k (fst p) rows) \<subseteq> insert (new_metadata_row k (fst p) (wc_now' wc)) (set rows)" for rows
    by (auto simp: register_key_def)
  { case 1 show ?case using Cons.IH(1) [OF r [OF 1]] by (simp add: case_prod_unfold) }
  { case 2
    then have "m \<in> set (register_key wc k (fst p) rows) \<or> mr_APIKeyID m = k"
      using Cons.IH(2) [OF _ r [OF 2(2)]] by (simp add: case_prod_unfold)
    with sub [of rows] show ?case by (auto simp: new_metadata_row_def) }
qed simp_all

lemma writeLog_store_ok:
  assumes s: "store_ok keys st" and lg: "entry_ok keys lg"
  shows "store_ok keys (writeLog ops wc lg st)"
proof (rule writeLog_cases [of ops wc lg st], goal_cases Refused Stored)
  case Refused
  then show ?thesis using s store_ok_cong [of keys st "writeLog ops wc lg st"] by simp
next
  case (Stored names)
  have "known keys (inserted_row (wc_now' wc) names lg)" "row_sound (inserted_row (wc_now' wc) names lg)"
    using lg row_sound_inserted [of lg] by (simp_all add: entry_ok_def known_def)
  moreover have "lg_ID lg \<notin> lg_ID ` set (ls_requests st)" using Stored(1) by (simp add: insert_accepted_def)
  ultimately have rows: "\<forall>r \<in> set (ls_requests st @ [inserted_row (wc_now' wc) names lg]). known keys r \<and> row_sound r"
      "distinct (map lg_ID (ls_requests st @ [inserted_row (wc_now' wc) names lg]))"
    using s by (auto simp: store_ok_def)
  show ?thesis
  proof (cases "lg_MajordomoAPIKeyID lg")
    case None
    then show ?thesis using s Stored rows by (simp add: store_ok_def)
  next
    case (Some k)
    then have "k \<in> key_ids keys" using lg by (simp add: entry_ok_def known_def)
    then show ?thesis
      using s Stored rows Some registered_keys [where rows = "ls_meta st" and wc = wc and k = k and raw = "lg_RawMetadata lg"]
      by (auto simp: store_ok_def)
  qed
qed

lemma flush_rows_keys: "map mr_key (fold (flush_row ops now ok) es rows) = map mr_key rows"
proof (induction es arbitrary: rows)
  case (Cons p es)
  have "map mr_key (flush_row ops now ok p rows) = map mr_key rows"
    by (cases p) (auto simp: flush_row_def update_key_def mr_key_def split: option.split)
  with Cons show ?case by simp
qed simp

lemma flush_tick_store: "store_ok keys (wr_store w) \<Longrightarrow> store_ok keys (wr_store (flush_tick ops now ok w))"
  by (rule store_ok_cong) (auto simp: flush_tick_def Flush_def flush_rows_keys)

lemma indexed_puts:
  assumes "row_sound r" and "gm_get (lg_RawMetadata r) n \<noteq> None"
  shows "row_sound (backfill_row n r)"
  using assms by (auto simp: row_sound_def backfill_row_def indexed_within_def map_le_def gm_get_put)

lemma indexed_dels: "row_sound r \<Longrightarrow> row_sound (cleanup_row n r)"
  by (auto simp: row_sound_def cleanup_row_def indexed_within_def map_le_def gm_get_del)

lemma job_batch_rows:
  "list_all2 (\<lambda>r r'. lg_ID r' = lg_ID r \<and> lg_MajordomoAPIKeyID r' = lg_MajordomoAPIKeyID r \<and> (row_sound r \<longrightarrow> row_sound r'))
     rows (job_batch j rows)"
proof (cases j)
  case (BackfillJob k n)
  have "partly_settled (to_backfill k n) (backfill_row n) rows (job_batch j rows)"
    by (simp add: BackfillJob update_first_partly)
  then show ?thesis
    by (rule list.rel_mono_strong) (auto simp: backfill_row_def to_backfill_def intro: indexed_puts [unfolded backfill_row_def])
next
  case (CleanupJob k n)
  have "partly_settled (to_cleanup k n) (cleanup_row n) rows (job_batch j rows)"
    by (simp add: CleanupJob update_first_partly)
  then show ?thesis
    by (rule list.rel_mono_strong) (auto simp: cleanup_row_def intro: indexed_dels [unfolded cleanup_row_def])
qed

lemma job_batch_store: "store_ok keys (wr_store w) \<Longrightarrow> store_ok keys (wr_store (on_rows (job_batch j) w))"
proof -
  let ?a = "ls_requests (wr_store w)" and ?b = "job_batch j (ls_requests (wr_store w))"
  assume s: "store_ok keys (wr_store w)"
  note b = job_batch_rows [of ?a j]
  have ids: "map lg_ID ?b = map lg_ID ?a"
    using b by (intro nth_equalityI) (auto simp: list_all2_conv_all_nth)
  have "known keys r' \<and> row_sound r'" if r': "r' \<in> set ?b" for r'
  proof -
    obtain i where i: "i < length ?b" "r' = ?b ! i" using r' by (auto simp: in_set_conv_nth)
    with b have "?a ! i \<in> set ?a" "lg_MajordomoAPIKeyID r' = lg_MajordomoAPIKeyID (?a ! i)" "row_sound (?a ! i) \<longrightarrow> row_sound r'"
      by (simp_all add: list_all2_conv_all_nth)
    with s show ?thesis by (auto simp: store_ok_def known_def)
  qed
  with s ids show ?thesis by (simp add: store_ok_def on_rows_def)
qed

subsection \<open>Every step keeps it\<close>

definition gateway_ok :: "duration \<Rightarrow> 'h gateway \<Rightarrow> bool" where
  "gateway_ok lat g \<longleftrightarrow> history_ok lat g \<and> logs_ok g"

lemma logs_cong:
  "logs_ok g \<Longrightarrow> gw_providers g' = gw_providers g \<Longrightarrow> gw_writer g' = gw_writer g \<Longrightarrow> gw_offers g' = gw_offers g \<Longrightarrow>
     key_ids (gw_keys g) \<subseteq> key_ids (gw_keys g') \<Longrightarrow> logs_ok g'"
  by (auto simp: logs_ok_def intro: store_ok_mono entry_ok_mono)

lemma logs_writer:
  "logs_ok g \<Longrightarrow> store_ok (gw_keys g) (wr_store w) \<Longrightarrow> set (wr_queue w) \<subseteq> set (wr_queue (gw_writer g)) \<Longrightarrow>
     length (wr_queue w) \<le> length (wr_queue (gw_writer g)) \<Longrightarrow> logs_ok (g\<lparr>gw_writer := w\<rparr>)"
  by (auto simp: logs_ok_def)

lemma logs_moved: "logs_ok g \<Longrightarrow> logs_ok (moved_on t g)"
  by (erule logs_cong) simp_all

lemma vouched_id:
  assumes "history_ok lat g" and "vouched (gw_past g) t h info"
  shows "ki_ID info \<in> key_ids (gw_keys g)"
proof -
  obtain t0 rows k where k: "(t0, rows) \<in> set (gw_past g)" "k \<in> set rows" "info = key_info h k"
    using assms(2) by (auto simp: vouched_def)
  with assms(1) have "descends rows (gw_keys g)" by (auto simp: history_ok_def)
  from descends_ids [OF this] k(2,3) show ?thesis by (auto simp: key_info_def key_ids_def)
qed

lemma logs_request:
  assumes h: "gateway_ok lat g0" and c: "request_clocks lat e g0" and q: "request_step chi sv e r g0 = (g', a)"
  shows "logs_ok g'"
proof -
  let ?w = "ve_world e"
  define g where "g = moved_on (wd_cacheRead ?w) g0"
  have g: "history_ok lat g" "logs_ok g"
    using h c by (simp_all add: g_def gateway_ok_def request_clocks_def history_moved logs_moved)
  obtain s p where sv: "serve chi sv e r (admin_of g) (gw_proxy g) = (s, p, a)"
    and g': "g' = moved_on (wd_cacheWrite ?w) (left_behind (wd_cacheRead ?w) r a ((with_admin s g)\<lparr>gw_proxy := p\<rparr>))"
    using q by (rule request_step_parts) (simp add: g_def)
  from sv show ?thesis
  proof (cases rule: serve_cases)
    case Own
    then have l: "left_behind (wd_cacheRead ?w) r a ((with_admin s g)\<lparr>gw_proxy := p\<rparr>) = (with_admin s g)\<lparr>gw_proxy := p\<rparr>"
      by (simp add: left_behind_own)
    have st: "descends (gw_keys g) (ad_keys s)" "providers_ok (gw_providers g) \<longrightarrow> providers_ok (ad_providers s)"
      "map mr_key (ad_meta s) = map mr_key (ls_meta (wr_store (gw_writer g)))" "ad_rows s = ls_requests (wr_store (gw_writer g))"
      using Own(2) by (simp_all add: admin_step_def)
    have "store_ok (gw_keys g) (wr_store (gw_writer (with_admin s g)))"
    proof (rule store_ok_cong)
      show "store_ok (gw_keys g) (wr_store (gw_writer g))" using g(2) by (simp add: logs_ok_def)
    qed (simp_all only: with_admin_fields st)
    then have "store_ok (ad_keys s) (wr_store (gw_writer (with_admin s g)))" by (rule store_ok_mono [OF _ descends_ids [OF st(1)]])
    then have "logs_ok (with_admin s g)"
      using g(2) st(2) entry_ok_mono [OF _ descends_ids [OF st(1)]] unfolding logs_ok_def with_admin_fields by blast
    then show ?thesis unfolding g' l by (elim logs_cong) simp_all
  next
    case (Proxy out)
    let ?p = "gw_proxy g" and ?r = "http_request.truncate r"
    have s: "s = admin_of g" by (rule Proxy(2))
    obtain r' ans touched where res: "ResolveAPIKey (wd_cacheRead ?w) (wd_cacheWrite ?w) (wd_evicted ?w)
        (\<lambda>hash. GetAPIKeyByHash (wd_keysOk ?w) hash (gw_keys g)) (hdr_get (hq_Header r) ''X-Majordomo-Key'') (px_resolver ?p)
        = (r', ans, touched)"
      by (metis prod_cases3)
    have v: "cache_vouched lat (gw_past g) (px_resolver ?p)" using g(1) by (simp add: history_ok_def)
    have now: "(wd_cacheRead ?w, gw_keys g) \<in> set (gw_past g)" "wd_cacheRead ?w \<le> wd_cacheWrite ?w"
        "wd_cacheWrite ?w \<le> wd_cacheRead ?w + lat"
      using c by (simp_all add: g_def request_clocks_def)
    have new: "entry_ok (gw_keys g) lg" if "oc_Log out = Some lg" for lg
    proof -
      have o: "oc_Log (snd (ServeHTTP (se_proxy sv) (proxy_world (admin_of g) ?w) ?r ?p)) = Some lg"
        using Proxy(1) that by simp
      from logged_entry(1) [OF o] res obtain info where i: "ans = Inr info" "lg_MajordomoAPIKeyID lg = Some (ki_ID info)"
        by auto
      from vouched_id [OF g(1) resolve_vouched(2) [OF v now res i(1)]] i(2) logged_entry(2) [OF o] show ?thesis
        by (simp add: entry_ok_def known_def)
    qed
    obtain out' where out': "a = Proxied out'" "oc_Log out' = oc_Log out"
      using Proxy(3) finish_proxied by (auto simp: finish_answer_def)
    have "logs_ok (left_behind (wd_cacheRead ?w) r a (g\<lparr>gw_proxy := p\<rparr>))"
      using g(2) new by (cases "oc_Log out") (auto simp: logs_ok_def left_behind_def out')
    then show ?thesis
      unfolding g' s with_admin_same by (rule logs_moved)
  qed
qed

lemma UpdateAPIKeyLastUsed_descends: "descends rows (fst (UpdateAPIKeyLastUsed ok t i rows))"
  by (auto simp: UpdateAPIKeyLastUsed_def split: if_splits intro!: descends_map)

lemma step_gateway_ok:
  assumes "gateway_step chi sv ops lat g g'" and "gateway_ok lat g"
  shows "gateway_ok lat g'"
  using assms
proof (induction rule: gateway_step.induct)
  case (Request e g r g' a)
  then show ?case by (auto simp: gateway_ok_def intro: history_request logs_request [unfolded gateway_ok_def])
next
  case (Touch g xs i ys t ok)
  let ?rows = "fst (UpdateAPIKeyLastUsed ok t i (gw_keys g))"
  have d: "descends (gw_keys g) ?rows" by (rule UpdateAPIKeyLastUsed_descends)
  have "history_ok lat (moved_on t (g\<lparr>gw_keys := ?rows\<rparr>))"
    using Touch d by (intro history_grow UpdateAPIKeyLastUsed_ok) (auto simp: gateway_ok_def history_ok_def)
  then have "history_ok lat (moved_on t (g\<lparr>gw_touches := xs @ ys, gw_keys := ?rows\<rparr>))"
    by (rule history_cong) simp_all
  moreover have "logs_ok (g\<lparr>gw_touches := xs @ ys, gw_keys := ?rows\<rparr>)"
    by (rule logs_cong [of g]) (use Touch descends_ids [OF d] in \<open>simp_all add: gateway_ok_def\<close>)
  ultimately show ?case
    unfolding gateway_ok_def by (intro conjI logs_moved)
next
  case (Hand_over g xs lg ys)
  then have "logs_ok (g\<lparr>gw_offers := xs @ ys, gw_writer := WriteRequestLog lg (gw_writer g)\<rparr>)"
    by (auto simp: gateway_ok_def logs_ok_def WriteRequestLog_def)
  with Hand_over show ?case by (auto simp: gateway_ok_def elim: history_cong)
next
  case (Write wc g w)
  then obtain lg rest wc' where q: "wr_queue (gw_writer g) = lg # rest" "wr_queue w = rest"
      "wr_store w = writeLog ops wc' lg (wr_store (gw_writer g))"
    by (auto simp: loop_take_def split: if_splits list.splits)
  with Write have "store_ok (gw_keys g) (wr_store w)" by (simp add: gateway_ok_def logs_ok_def writeLog_store_ok)
  with Write q show ?case by (auto simp: gateway_ok_def elim: history_cong intro: logs_writer)
next
  case (Flush_counts g now okf)
  then show ?case
    by (auto simp: gateway_ok_def logs_ok_def elim: history_cong intro!: flush_tick_store)
      (simp_all add: flush_tick_def split: prod.splits)
next
  case (Job_batch j g)
  then have "logs_ok (g\<lparr>gw_writer := on_rows (job_batch j) (gw_writer g)\<rparr>)"
    by (intro logs_writer job_batch_store) (auto simp: gateway_ok_def logs_ok_def, simp_all add: on_rows_def)
  with Job_batch show ?case by (auto simp: gateway_ok_def elim: history_cong)
next
  case (Job_ends g xs j ys)
  then show ?case by (auto simp: gateway_ok_def elim: history_cong logs_cong)
qed (auto simp: gateway_ok_def logs_ok_def close_signal_def loop_exit_def close_database_def elim: history_cong split: if_splits)

lemma steps_gateway_ok: "gateway_steps chi sv ops lat g g' \<Longrightarrow> gateway_ok lat g \<Longrightarrow> gateway_ok lat g'"
  by (induction rule: rtranclp_induct) (auto intro: step_gateway_ok)

lemma start_gateway_ok:
  "keys_ok keys \<Longrightarrow> providers_ok providers \<Longrightarrow> store_ok keys st \<Longrightarrow> gateway_ok lat (gateway_start now keys providers st)"
  by (simp add: gateway_ok_def history_ok_def logs_ok_def gateway_start_def New_def cache_vouched_def resolver_set_def)
    (simp add: NewResolver_def resolver_ok_def)

section \<open>Routing by segments\<close>

text \<open>A router for the examples: patterns and paths are compared segment by segment, the first route that
  fits wins.\<close>

fun fit_segments :: "string list \<Rightarrow> string list \<Rightarrow> (string \<times> string) list option" where
  "fit_segments [] [] = Some []"
| "fit_segments (p # ps) (x # xs) =
     (if p = ''*'' then Some [(p, join_with CHR ''/'' (x # xs))]
      else if p = x then fit_segments ps xs
      else case p of
          CHR 0x7B # n \<Rightarrow> if x = [] then None else map_option (\<lambda>qs. (butlast n, x) # qs) (fit_segments ps xs)
        | _ \<Rightarrow> None)"
| "fit_segments _ _ = None"

definition segment_router :: chi where
  "segment_router routes rest r =
     (let path = (case rest of None \<Rightarrow> hq_Path r | Some p \<Rightarrow> CHR ''/'' # p);
          fits = filter (\<lambda>rt. fit_segments (split_on CHR ''/'' (snd rt)) (split_on CHR ''/'' path) \<noteq> None) routes
      in case filter (\<lambda>rt. fst rt = ''*'' \<or> fst rt = hq_Method r) fits of
           [] \<Rightarrow> if fits = [] then NoRoute else WrongMethod
         | rt # _ \<Rightarrow> (case fit_segments (split_on CHR ''/'' (snd rt)) (split_on CHR ''/'' path) of
             None \<Rightarrow> NoRoute | Some ps \<Rightarrow> RouteFound rt ps))"

section \<open>Properties\<close>

text \<open>C1. What holds in every state the gateway can reach from a well-formed database, however requests, the log
  writer, flushes and background jobs interleave. Ids and hashes of keys stay unique; there is one credential
  per known provider; every entry on its way to the log, in the channel or in the table names an existing
  key, so the foreign key never refuses it, and the rows have distinct ids; what is indexed of a row's metadata
  is part of its raw metadata, backfills and cleanups included; every discovered metadata key belongs to an existing
  key; and the channel holds at most 1000 entries.\<close>

theorem gateway_invariant:
  assumes "keys_ok keys" and "providers_ok providers" and "store_ok keys st"
    and "gateway_steps chi sv ops lat (gateway_start now keys providers st) g"
  shows "keys_ok (gw_keys g) \<and> providers_ok (gw_providers g)
    \<and> (\<forall>lg \<in> set (gw_offers g) \<union> set (wr_queue (gw_writer g)) \<union> set (ls_requests (wr_store (gw_writer g))).
         \<forall>i. lg_MajordomoAPIKeyID lg = Some i \<longrightarrow> i \<in> ak_ID ` set (gw_keys g))
    \<and> distinct (map lg_ID (ls_requests (wr_store (gw_writer g))))
    \<and> (\<forall>lg \<in> set (ls_requests (wr_store (gw_writer g))). gm_get (lg_IndexedMetadata lg) \<subseteq>\<^sub>m gm_get (lg_RawMetadata lg))
    \<and> (\<forall>m \<in> set (ls_meta (wr_store (gw_writer g))). mr_APIKeyID m \<in> ak_ID ` set (gw_keys g))
    \<and> length (wr_queue (gw_writer g)) \<le> 1000"
proof -
  have "gateway_ok lat g" using steps_gateway_ok [OF assms(4) start_gateway_ok] assms(1-3) by blast
  then have h: "keys_ok (gw_keys g)" and l: "providers_ok (gw_providers g)" "store_ok (gw_keys g) (wr_store (gw_writer g))"
      "\<forall>lg \<in> set (gw_offers g) \<union> set (wr_queue (gw_writer g)). entry_ok (gw_keys g) lg" "length (wr_queue (gw_writer g)) \<le> channel_size"
    by (simp_all add: gateway_ok_def history_ok_def logs_ok_def)
  from l(3) have e: "\<forall>lg \<in> set (gw_offers g) \<union> set (wr_queue (gw_writer g)). known (gw_keys g) lg" by (simp add: entry_ok_def)
  from h l(1,4) e l(2) show ?thesis
    unfolding store_ok_def known_def key_ids_def row_sound_def indexed_within_def channel_size_def by blast
qed

text \<open>C6. The guard of the admin API. A request changes a table, or gets an answer of the admin API other than 401 and
  403, only when a token is configured and the request carries exactly this token as its bearer token,
  blanks around it aside; a request that the router finds under \<open>/api/v1\<close> and that does not carry it
  is refused with 401 or 403 and changes nothing.\<close>

theorem admin_guard:
  assumes "serve chi (server_New h token controllers providerKeys) e r s p = (s', p', a)"
  shows "(s' \<noteq> s \<or> (\<exists>code x. a = Api (code, x) \<and> code \<noteq> 401 \<and> code \<noteq> 403) \<longrightarrow>
        token \<noteq> [] \<and> (\<exists>presented. hdr_get (hq_Header r) ''Authorization'' = bearer @ presented \<and> trim_space presented = token))
    \<and> ((\<exists>ps. chi (map fst (server_routes (server_New h token controllers providerKeys))) None r = RouteFound (''*'', ''/api/v1/*'') ps) \<longrightarrow>
        (\<nexists>presented. hdr_get (hq_Header r) ''Authorization'' = bearer @ presented \<and> trim_space presented = token) \<longrightarrow>
        token \<noteq> [] \<longrightarrow> controllers \<longrightarrow> s' = s \<and> p' = p \<and> (\<exists>code m. a = Api (code, ErrorA m) \<and> (code = 401 \<or> code = 403)))"
proof -
  let ?sv = "server_New h token controllers providerKeys" and ?auth = "hdr_get (hq_Header r) ''Authorization''"
  let ?ok = "\<exists>presented. ?auth = bearer @ presented \<and> trim_space presented = token"
  have ok: "?ok \<longleftrightarrow> prefix bearer ?auth \<and> trim_space (drop (length bearer) ?auth) = token"
    by (auto simp: prefix_def)
  have guard: "adminAuthMiddleware token f r s = x \<Longrightarrow> \<not> ?ok \<Longrightarrow>
      fst x = s \<and> (\<exists>code m. snd x = Api (code, ErrorA m) \<and> (code = 401 \<or> code = 403))" for f x
    unfolding ok by (auto simp: adminAuthMiddleware_def Let_def)
  obtain b where d: "dispatch chi ?sv e r s p = (s', p', b)" "a = finish_answer (ve_RequestID e) b"
    using assms by (auto simp: serve_def split: prod.splits)
  have api: "token \<noteq> [] \<and> controllers \<and> (\<exists>f. adminAuthMiddleware token f r s = (s', b)) \<and> p' = p
      \<or> s' = s \<and> (\<forall>code x. b \<noteq> Api (code, x))"
  proof (cases "chi (map fst (server_routes ?sv)) None r")
    case (RouteFound rt params)
    show ?thesis
    proof (cases "map_of (server_routes ?sv) rt")
      case (Some t)
      show ?thesis
      proof (cases t)
        case ApiT
        then have "token \<noteq> [] \<and> controllers"
          using Some by (auto simp: server_routes_def server_New_def split: if_splits)
        with d(1) RouteFound Some ApiT show ?thesis
          by (auto simp: dispatch_def server_New_def split: prod.splits)
      qed (use d(1) RouteFound Some in \<open>auto simp: dispatch_def split: prod.splits\<close>)
    qed (use d(1) RouteFound in \<open>auto simp: dispatch_def\<close>)
  qed (use d(1) in \<open>auto simp: dispatch_def\<close>)
  have mount: "\<exists>f. adminAuthMiddleware token f r s = (s', b) \<and> p' = p"
    if "chi (map fst (server_routes ?sv)) None r = RouteFound (''*'', ''/api/v1/*'') ps" "token \<noteq> []" "controllers" for ps
  proof -
    have "map_of (server_routes ?sv) (''*'', ''/api/v1/*'') = Some ApiT"
      using that(2,3) by (simp add: server_routes_def server_New_def)
    with d(1) that(1) show ?thesis by (auto simp: dispatch_def server_New_def split: prod.splits)
  qed
  have fin: "a = Api x \<longleftrightarrow> b = Api x" for x using d(2) by (cases b) (auto simp: finish_answer_def)
  show ?thesis unfolding fin
  proof (intro conjI impI)
    assume c: "s' \<noteq> s \<or> (\<exists>code x. b = Api (code, x) \<and> code \<noteq> 401 \<and> code \<noteq> 403)"
    then obtain f where f: "adminAuthMiddleware token f r s = (s', b)" "token \<noteq> []" using api by blast
    then show "token \<noteq> []" by simp
    show ?ok
    proof (rule ccontr)
      assume "\<not> ?ok"
      from guard [OF f(1) this] c show False by auto
    qed
  next
    assume "\<exists>ps. chi (map fst (server_routes ?sv)) None r = RouteFound (''*'', ''/api/v1/*'') ps" "token \<noteq> []" "controllers"
    then obtain f where f: "adminAuthMiddleware token f r s = (s', b)" "p' = p" using mount by blast
    assume "\<not> ?ok"
    from guard [OF f(1) this] f(2) show "s' = s" "p' = p" "\<exists>code m. b = Api (code, ErrorA m) \<and> (code = 401 \<or> code = 403)"
      by simp_all
  qed
qed

subsection \<open>Revocation\<close>

lemma step_past: "gateway_step chi sv ops lat g g' \<Longrightarrow> set (gw_past g) \<subseteq> set (gw_past g')"
  by (induction rule: gateway_step.induct) (auto elim!: request_step_parts)

lemma steps_past: "gateway_steps chi sv ops lat g g' \<Longrightarrow> set (gw_past g) \<subseteq> set (gw_past g')"
  by (induction rule: rtranclp_induct) (use step_past in blast)+

lemma sorted_wrt_two: "sorted_wrt R xs \<Longrightarrow> x \<in> set xs \<Longrightarrow> y \<in> set xs \<Longrightarrow> x = y \<or> R x y \<or> R y x"
  by (induction xs) auto

lemma same_hash: "keys_ok rows \<Longrightarrow> k \<in> set rows \<Longrightarrow> k' \<in> set rows \<Longrightarrow> ak_KeyHash k = ak_KeyHash k' \<Longrightarrow> k = k'"
  by (auto simp: keys_ok_def distinct_map inj_on_def)

lemma inactive_shut_out:
  assumes h: "history_ok lat g" and r: "(tr, rows) \<in> set (gw_past g)" "k \<in> set rows" "\<not> ak_IsActive k"
    and f: "(t, ak_KeyHash k, u) \<in> set (gw_forwarded g)"
  shows "t \<le> tr + lat + 5 * minute"
proof -
  from h f obtain info where "vouched (until t (gw_past g)) (t - lat - 5 * minute) (ak_KeyHash k) info"
    unfolding history_ok_def by blast
  then obtain t0 rows0 k0 where o: "(t0, rows0) \<in> set (gw_past g)" "t - lat - 5 * minute \<le> t0" "k0 \<in> set rows0"
      "ak_KeyHash k0 = ak_KeyHash k" "ak_IsActive k0"
    by (auto simp: vouched_def until_def)
  have ok: "keys_ok rows" "keys_ok rows0" using h r(1) o(1) by (auto simp: history_ok_def)
  from h have "sorted_wrt (\<lambda>(t', rows') (t, rows). t \<le> t' \<and> descends rows rows') (gw_past g)" by (simp add: history_ok_def)
  from sorted_wrt_two [OF this r(1) o(1)] have "rows0 = rows \<or> t0 \<le> tr \<or> descends rows rows0" by auto
  then show ?thesis
  proof (elim disjE)
    assume "rows0 = rows"
    then show ?thesis using same_hash [OF ok(2), of k0 k] o(3-5) r(2,3) by auto
  next
    assume "t0 \<le> tr"
    then show ?thesis using o(2) by simp
  next
    assume "descends rows rows0"
    with r(2,3) obtain k' where k': "k' \<in> set rows0" "ak_KeyHash k' = ak_KeyHash k" "\<not> ak_IsActive k'"
      by (auto simp: descends_def)
    with same_hash [OF ok(2), of k0 k'] o(3-5) show ?thesis by auto
  qed
qed

lemma keys_Revoke_done:
  assumes "keys_Revoke e param s = (s', 204, x)" and "ae_parse_uuid e param = Some i"
  shows "\<exists>k \<in> set (ad_keys s'). ak_ID k = i \<and> \<not> ak_IsActive k"
proof -
  from assms obtain rows where r: "RevokeAPIKey (ae_ok e) (ae_now e) i (ad_keys s) = (rows, Inr ())" "ad_keys s' = rows"
    by (auto simp: keys_Revoke_def RevokeKey_def internal_error_def split: prod.splits sum.splits if_splits)
  let ?f = "\<lambda>k. if ak_ID k = i \<and> ak_IsActive k then k\<lparr>ak_IsActive := False, ak_RevokedAt := Some (ae_now e)\<rparr> else k"
  from r have rows: "ad_keys s' = map ?f (ad_keys s)" and "\<exists>k \<in> set (ad_keys s). ak_ID k = i \<and> ak_IsActive k"
    by (auto simp: RevokeAPIKey_def Let_def split: if_splits)
  then obtain k where "k \<in> set (ad_keys s)" "ak_ID k = i" "ak_IsActive k" by blast
  then have "?f k \<in> set (ad_keys s')" "ak_ID (?f k) = i" "\<not> ak_IsActive (?f k)" unfolding rows by simp_all
  then show ?thesis by blast
qed


subsection \<open>Provider credentials\<close>

abbreviation credential :: "aes_store \<Rightarrow> admin_state \<Rightarrow> string \<Rightarrow> credential_error + string" where
  "credential store s \<equiv> resolveRoutedCredential (Some (\<lambda>q. GetKey True q (ad_providers s))) (Some store)"

lemma providers_Upsert_done:
  assumes "providers_Upsert store e r s = (s', 201, x)"
    and "decode_request upsertProviderKeyRequest_fields \<lparr>up_Provider = [], up_Key = []\<rparr> r = Some req"
  shows "x = ProviderA (normalized_provider (up_Provider req))"
    and "UpsertKey store (ae_random e) (ae_ok e) (ae_id e) (ae_now e) (normalized_provider (up_Provider req))
      (trim_space (up_Key req)) (ad_providers s) = (ad_providers s', Inr ())"
  using assms by (auto simp: providers_Upsert_def internal_error_def Let_def split: if_splits prod.splits sum.splits)

text \<open>C20. Storing a provider credential through the API. The name may be given in any case and with blanks around it;
  an unknown provider or an empty key is refused with 400 and changes nothing. After a reply of 201 the credential
  the proxy injects for that provider is the key that was sent, without the blanks around it, and those of the
  other providers are as before; a later deletion, under any spelling of the name, is answered with 204
  and leaves no credential. The reply names the provider and never the key.\<close>

theorem provider_key_api:
  assumes "NewAESStore enc_key = Inr store" and "ae_random e = Some nonce" and "length nonce = nonce_size"
    and "decode_request upsertProviderKeyRequest_fields \<lparr>up_Provider = [], up_Key = []\<rparr> r = Some req"
    and "p = normalized_provider (up_Provider req)" and "k = trim_space (up_Key req)"
  shows "(\<not> IsCredentialProvider p \<or> k = [] \<longrightarrow> (\<exists>m. providers_Upsert store e r s = (s, 400, ErrorA m)))
    \<and> (\<forall>s' x. providers_Upsert store e r s = (s', 201, x) \<longrightarrow>
        x = ProviderA p \<and> credential store s' p = Inr k \<and> (\<forall>q. q \<noteq> p \<longrightarrow> credential store s' q = credential store s q)
        \<and> (\<forall>e' param. ae_ok e' \<longrightarrow> normalized_provider param = p \<longrightarrow>
             (\<exists>s''. providers_Delete e' param s' = (s'', 204, EmptyA) \<and> credential store s'' p = Inl (GetKeyError ErrProviderKeyNotFound))))"
proof (intro conjI impI allI)
  assume "\<not> IsCredentialProvider p \<or> k = []"
  then show "\<exists>m. providers_Upsert store e r s = (s, 400, ErrorA m)"
    using assms(4-6) by (auto simp: providers_Upsert_def UpsertKey_def Let_def)
next
  fix s' x assume u: "providers_Upsert store e r s = (s', 201, x)"
  note d = providers_Upsert_done [OF u assms(4), folded assms(5,6)]
  note c = credential_roundtrip_facts [OF assms(1,3) d(2) [unfolded assms(2)]]
  show "x = ProviderA p" "credential store s' p = Inr k" by (rule d(1), rule c(1))
  show "credential store s' q = credential store s q" if "q \<noteq> p" for q by (rule c(2) [OF that])
  fix e' :: admin_env and param assume ok: "ae_ok e'" and n: "normalized_provider param = p"
  have "IsCredentialProvider p" using d(2) by (auto simp: UpsertKey_def split: if_splits)
  then have p: "p \<noteq> []" by (auto simp: IsCredentialProvider_def credentialProviders_def provider_names)
  from c(1) have "\<exists>row \<in> set (ad_providers s'). pk_Provider row = p"
    by (auto simp: resolveRoutedCredential_def GetKey_def find_Some_iff split: option.splits)
  then have "providers_Delete e' param s' = (s'\<lparr>ad_providers := fst (DeleteKey True p (ad_providers s'))\<rparr>, 204, EmptyA)"
    using ok n p by (auto simp: providers_Delete_def DeleteKey_def Delete_def)
  with c(3) show "\<exists>s''. providers_Delete e' param s' = (s'', 204, EmptyA) \<and> credential store s'' p = Inl (GetKeyError ErrProviderKeyNotFound)"
    by simp
qed

subsection \<open>What every answer of the proxy has\<close>

definition unflushed :: "'a stage \<Rightarrow> bool" where
  "unflushed x \<longleftrightarrow> (\<forall>p. x = Reply p \<longrightarrow> \<not> rp_Flushed p)"

lemma unflushed_simps [simp]:
  "unflushed (Next x)" "unflushed Crash" "unflushed (Reply p) \<longleftrightarrow> \<not> rp_Flushed p" "\<not> rp_Flushed (WriteJSONError h c m)"
  by (simp_all add: unflushed_def WriteJSONError_def)

lemma unflushed_next: "unflushed x \<Longrightarrow> (\<And>y. unflushed (f y)) \<Longrightarrow> unflushed (next_stage x f)"
  by (cases x) simp_all

lemma unflushed_stages:
  "unflushed (snd (snd (authenticate w req rs)))" "unflushed (read_call h req info)" "unflushed (replace_deprecated h c)"
  "unflushed (snd (route_call h w sn c))"
  by (auto simp: authenticate_def read_call_def replace_deprecated_def route_call_def apply_decision_def regional_base_def Let_def
      intro!: unflushed_next split: prod.split sum.split option.split override_result.split region.split)

lemma respond_unflushed: "rp_Flushed (fst (exchange w c)) \<Longrightarrow> wd_canFlush w"
  by (auto simp: exchange_def respond_stream_def respond_buffered_def upstream_failed_def Let_def split: option.splits if_splits)

lemma served_unflushed:
  assumes "oc_Response (snd (ServeHTTP h w req s)) = Some p" and "rp_Flushed p"
  shows "wd_canFlush w"
proof -
  obtain r' t key where a: "authenticate w req (px_resolver s) = (r', t, key)" by (cases "authenticate w req (px_resolver s)")
  obtain h' x where x: "route_stage h w (px_health s) (next_stage (next_stage key (read_call h req)) (replace_deprecated h)) = (h', x)"
    by fastforce
  have "unflushed (next_stage (next_stage key (read_call h req)) (replace_deprecated h))"
    using unflushed_stages(1) [of w req "px_resolver s"] a by (intro unflushed_next unflushed_stages) simp_all
  then have "unflushed (snd (route_stage h w (px_health s) (next_stage (next_stage key (read_call h req)) (replace_deprecated h))))"
    using unflushed_stages(4) [of h w "px_health s"]
    by (cases "next_stage (next_stage key (read_call h req)) (replace_deprecated h)") simp_all
  then have "unflushed x" by (simp add: x)
  then show ?thesis
    using assms a x by (cases x) (auto simp: ServeHTTP_def intro: respond_unflushed)
qed

text \<open>C9. What the server adds to the proxy's answers. Every request gets one: a panic of the handler becomes a 500. Its first
  X-Request-Id is the gateway's own. And no response is ever flushed while it is produced, not even an event stream:
  the response writer of the logging middleware does not offer it.\<close>

theorem proxy_answers:
  assumes "serve chi sv e r s p = (s', p', Proxied out)"
  shows "\<exists>resp. oc_Response out = Some resp \<and> \<not> rp_Flushed resp \<and> hdr_get (rp_Header resp) ''X-Request-Id'' = ve_RequestID e
    \<and> (oc_Response (snd (ServeHTTP (se_proxy sv) (proxy_world s (ve_world e)) (http_request.truncate r) p)) = None \<longrightarrow> rp_Status resp = 500)"
proof -
  from assms obtain o' where o': "ServeHTTP (se_proxy sv) (proxy_world s (ve_world e)) (http_request.truncate r) p = (p', o')"
      "Proxied out = finish_answer (ve_RequestID e) (Proxied o')"
    by (rule serve_cases) auto
  have id: "hdr_get (rp_Header (RequestID i x)) ''X-Request-Id'' = i" for i x
  proof -
    have "gm_get (gm_put k v m) k = Some v" for k :: string and v :: "string list" and m
      by (induction m) auto
    then show ?thesis by (simp add: RequestID_def hdr_get_def)
  qed
  have fl: "rp_Flushed (RequestID i x) = rp_Flushed x" "rp_Status (RequestID i x) = rp_Status x" for i x
    by (simp_all add: RequestID_def)
  show ?thesis
  proof (cases "oc_Response o'")
    case None
    then show ?thesis
      using o' by (auto simp: finish_answer_def Recovery_def id fl) (simp add: WriteJSONError_def)
  next
    case (Some resp)
    then have "\<not> rp_Flushed resp"
      using served_unflushed [of "se_proxy sv" "proxy_world s (ve_world e)" "http_request.truncate r" p resp] o'(1) by auto
    with Some show ?thesis using o' by (auto simp: finish_answer_def Recovery_def id fl)
  qed
qed

section \<open>Examples\<close>

definition example_server :: server where
  "example_server = server_New example_handler ''t'' True (Some example_store)"

definition example_api :: admin_env where
  "example_api = \<lparr>ae_ok = True, ae_ok' = True, ae_now = 5, ae_id = 9, ae_random = Some (replicate 12 (CHR ''n'')),
     ae_parse_uuid = \<lambda>s. if s = ''7'' then Some 7 else None, ae_newSHA1 = \<lambda>n s. 0,
     ae_db = \<lparr>dn_units = \<lambda>_. 0, dn_float = \<lambda>_. 0, dn_avg = \<lambda>_. 0, dn_percentile = \<lambda>_ _. 0, dn_zone = \<lambda>_. 0\<rparr>,
     ae_download = None\<rparr>"

definition example_env :: server_env where
  "example_env = \<lparr>ve_RequestID = ''r'', ve_ping = None, ve_api = example_api, ve_world = example_world\<rparr>"

definition admin_call :: "string \<Rightarrow> string \<Rightarrow> string option \<Rightarrow> admin_request" where
  "admin_call method path body = \<lparr>hq_Method = method, hq_Path = path, hq_RawQuery = [], hq_Host = ''g'',
     hq_Header = [(''Authorization'', [''Bearer t''])], hq_Body = body, am_RawPath = [], am_ContentLength = 0\<rparr>"

lemma example_root: "map fst (server_routes example_server)
    = [(''GET'', ''/health''), (''GET'', ''/readyz''), (''*'', ''/api/v1/*''), (''*'', ''/*'')]"
  by (simp add: server_routes_def example_server_def server_New_def)

lemma example_routes: "map fst (api_routes (se_providerKeys example_server)) =
    [(''POST'', ''/keys''), (''GET'', ''/keys''), (''DELETE'', ''/keys/{id}''), (''POST'', ''/usage/summary''),
     (''POST'', ''/usage/daily''), (''POST'', ''/usage/models''), (''POST'', ''/usage/providers''), (''POST'', ''/usage/api-keys''),
     (''POST'', ''/usage/errors''), (''POST'', ''/usage/errors/recent''), (''POST'', ''/usage/latency''), (''POST'', ''/usage/requests''),
     (''POST'', ''/usage/runs''), (''POST'', ''/usage/metadata/{keyName}''), (''GET'', ''/usage/runs/{traceId}''),
     (''GET'', ''/usage/requests/{id}''), (''GET'', ''/usage/requests/{id}/body''), (''GET'', ''/metadata''),
     (''POST'', ''/metadata/activate''), (''POST'', ''/metadata/deactivate''), (''POST'', ''/provider-keys''),
     (''GET'', ''/provider-keys''), (''DELETE'', ''/provider-keys/{provider}'')]"
  by (simp add: api_routes_def keys_RegisterRoutes_def usage_RegisterRoutes_def metadata_RegisterRoutes_def
      providers_RegisterRoutes_def example_server_def server_New_def)

lemma delete_routed:
  "segment_router (map fst (server_routes example_server)) None (admin_call ''DELETE'' ''/api/v1/keys/7'' None)
     = RouteFound (''*'', ''/api/v1/*'') [(''*'', ''keys/7'')]"
  "segment_router (map fst (api_routes (se_providerKeys example_server))) (Some (URLParam [(''*'', ''keys/7'')] ''*''))
     (admin_call ''DELETE'' ''/api/v1/keys/7'' None) = RouteFound (''DELETE'', ''/keys/{id}'') [(''id'', ''7'')]"
  unfolding example_root example_routes by code_simp+

lemma delete_served:
  "serve segment_router example_server example_env (admin_call ''DELETE'' ''/api/v1/keys/7'' None) s p =
     (case keys_Revoke example_api ''7'' s of (s', reply) \<Rightarrow> (s', p, Api reply))"
proof -
  have mw: "adminAuthMiddleware (se_adminToken example_server) f (admin_call m path b) s = f (admin_call m path b) s" for f m path b
  proof -
    have "trim_space ''t'' = ''t''" by code_simp
    then show ?thesis
      by (simp add: adminAuthMiddleware_def admin_call_def hdr_get_def example_server_def server_New_def bearer_def)
  qed
  have t: "map_of (server_routes example_server) (''*'', ''/api/v1/*'') = Some ApiT"
    by (simp add: server_routes_def example_server_def server_New_def)
  have h: "map_of (api_routes (se_providerKeys example_server)) (''DELETE'', ''/keys/{id}'')
      = Some (\<lambda>e ps _. keys_Revoke e (URLParam ps ''id''))"
    by (simp add: api_routes_def keys_RegisterRoutes_def)
  show ?thesis
    by (simp add: serve_def dispatch_def delete_routed(1) t mw api_dispatch_def delete_routed(2) h example_env_def finish_answer_def
        split: prod.split) (simp add: URLParam_def)
qed

definition example_gateway :: "nat gateway" where
  "example_gateway = gateway_start 0 [example_key] [] idle_store"

lemma example_revocation:
  "\<exists>g1. request_step segment_router example_server example_env (admin_call ''DELETE'' ''/api/v1/keys/7'' None) example_gateway
     = (g1, Api (204, EmptyA))"
  by (auto simp: request_step_def Let_def delete_served keys_Revoke_def RevokeKey_def RevokeAPIKey_def example_api_def example_gateway_def
      gateway_start_def example_key_def split: prod.split)

lemma example_clocks: "request_clocks 0 example_env example_gateway"
  by (simp add: request_clocks_def example_env_def example_world_def example_gateway_def gateway_start_def)

lemma example_tables: "keys_ok [example_key]" "providers_ok []" "store_ok [example_key] idle_store"
  by (simp_all add: keys_ok_def providers_ok_def prov_keys_ok_def store_ok_def idle_store_def meta_ok_def example_key_def)

theorem gateway_invariant_witness:
  "keys_ok (gw_keys example_gateway) \<and> length (wr_queue (gw_writer example_gateway)) \<le> 1000"
  using gateway_invariant [OF example_tables, of segment_router example_server example_ops 0 0 example_gateway]
  by (simp add: example_gateway_def)


theorem admin_guard_witness:
  "\<exists>s' p' a. serve segment_router example_server example_env (admin_call ''DELETE'' ''/api/v1/keys/7'' None)
       (admin_of example_gateway) (gw_proxy example_gateway) = (s', p', a)
     \<and> s' \<noteq> admin_of example_gateway
     \<and> (\<exists>presented. hdr_get (hq_Header (admin_call ''DELETE'' ''/api/v1/keys/7'' None)) ''Authorization'' = bearer @ presented
          \<and> trim_space presented = ''t'')"
proof -
  obtain s' p' a where s: "serve segment_router example_server example_env (admin_call ''DELETE'' ''/api/v1/keys/7'' None)
      (admin_of example_gateway) (gw_proxy example_gateway) = (s', p', a)"
    by (metis prod_cases3)
  then have "ad_keys s' \<noteq> ad_keys (admin_of example_gateway)"
    by (auto simp: delete_served keys_Revoke_def RevokeKey_def RevokeAPIKey_def example_api_def example_gateway_def gateway_start_def
        example_key_def Let_def split: prod.splits)
  then have ne: "s' \<noteq> admin_of example_gateway" by blast
  from admin_guard [OF s [unfolded example_server_def]] ne s show ?thesis by blast
qed

definition stored_body :: string where
  "stored_body = doc ''{~provider~:~ OpenAI ~,~key~:~sk-9~}''"

lemma stored_body_decoded:
  "decode_request upsertProviderKeyRequest_fields \<lparr>up_Provider = [], up_Key = []\<rparr> (admin_call ''POST'' ''/api/v1/provider-keys'' (Some stored_body))
     = Some \<lparr>up_Provider = '' OpenAI '', up_Key = ''sk-9''\<rparr>"
  unfolding decode_request_def admin_call_def stored_body_def by code_simp

theorem provider_key_api_witness:
  "\<exists>s'. providers_Upsert example_store example_api (admin_call ''POST'' ''/api/v1/provider-keys'' (Some stored_body)) (admin_of example_gateway)
       = (s', 201, ProviderA ''openai'')
     \<and> credential example_store s' ''openai'' = Inr ''sk-9''"
proof -
  have n: "normalized_provider '' OpenAI '' = ''openai''" "trim_space ''sk-9'' = ''sk-9''" by code_simp+
  have "IsCredentialProvider ''openai''" by code_simp
  then obtain s' x where u: "providers_Upsert example_store example_api (admin_call ''POST'' ''/api/v1/provider-keys'' (Some stored_body))
      (admin_of example_gateway) = (s', 201, x)"
    by (simp add: providers_Upsert_def stored_body_decoded n UpsertKey_def Encrypt_def Upsert_def example_api_def example_gateway_def
        gateway_start_def Let_def)
  have r: "ae_random example_api = Some (replicate 12 (CHR ''n''))" "length (replicate 12 (CHR ''n'')) = nonce_size"
    by (simp_all add: example_api_def nonce_size_def)
  from provider_key_api [OF example_store_new r stored_body_decoded refl refl, THEN conjunct2, rule_format, OF u] u
  show ?thesis by (simp add: n)
qed

theorem proxy_answers_witness:
  "\<exists>s' p' out resp. serve (\<lambda>_ _ _. RouteFound (''*'', ''/*'') []) example_server example_env
       (admin_call ''POST'' ''/v1/chat/completions'' None) (admin_of example_gateway) (gw_proxy example_gateway) = (s', p', Proxied out)
     \<and> oc_Response out = Some resp \<and> \<not> rp_Flushed resp \<and> hdr_get (rp_Header resp) ''X-Request-Id'' = ''r''"
proof -
  have "map_of (server_routes example_server) (''*'', ''/*'') = Some ProxyT"
    by (simp add: server_routes_def example_server_def server_New_def)
  then obtain s' p' out where s: "serve (\<lambda>_ _ _. RouteFound (''*'', ''/*'') []) example_server example_env
      (admin_call ''POST'' ''/v1/chat/completions'' None) (admin_of example_gateway) (gw_proxy example_gateway) = (s', p', Proxied out)"
    by (cases "ServeHTTP (se_proxy example_server) (proxy_world (admin_of example_gateway) (ve_world example_env))
        (http_request.truncate (admin_call ''POST'' ''/v1/chat/completions'' None)) (gw_proxy example_gateway)")
      (simp add: serve_def dispatch_def finish_answer_def)
  from proxy_answers [OF s] s show ?thesis by (auto simp: example_env_def)
qed

end
