(* ===== verification/Config.thy ===== *)
theory Config
  imports Proxy
begin

text \<open>
  The configuration (\<open>internal/config/config.go\<close>): its records, the defaults and environment variables, and
  \<open>Load\<close>. The lookup is that of github.com/spf13/viper: a bound environment variable that is not
  empty, else the default; how it turns the text of a variable into a number, a duration or a truth value
  is an argument.
\<close>

section \<open>Records\<close>

record SecretsConfig =
  fs_EncryptionKey :: string

record RoutingConfig =
  fr_Enabled :: bool
  fr_DefaultDataCollection :: string
  fr_DefaultRequireZDR :: bool

record BodyStoreConfig =
  fb_Backend :: string
  fb_KeyPrefix :: string
  fb_S3Bucket :: string
  fb_S3Region :: string
  fb_S3Endpoint :: string
  fb_GCSBucket :: string

record MetadataConfig =
  fm_HLLFlushInterval :: duration
  fm_ActiveKeysCacheTTL :: duration

record AdminConfig =
  fa_Token :: string

record ServerConfig =
  fv_Host :: string
  fv_Port :: int
  fv_ReadTimeout :: duration
  fv_WriteTimeout :: duration
  fv_UpstreamTimeout :: duration
  fv_StreamHeaderTimeout :: duration

record PostgresConfig =
  fp_Host :: string
  fp_Port :: int
  fp_User :: string
  fp_Password :: string
  fp_Database :: string
  fp_SSLMode :: string
  fp_MaxConns :: int

record StorageConfig =
  ft_Driver :: string
  ft_Postgres :: PostgresConfig

record LoggingConfig =
  fl_Level :: string

record PricingConfig =
  fc_RemoteURL :: string
  fc_RefreshInterval :: duration
  fc_ModelCatalogFile :: string
  fc_AliasesFile :: string
  fc_DeprecatedModelsFile :: string

text \<open>The section of the providers is the record of their base URLs that the proxy handler uses.\<close>

record Config =
  cg_Server :: ServerConfig
  cg_Storage :: StorageConfig
  cg_Logging :: LoggingConfig
  cg_Pricing :: PricingConfig
  cg_Providers :: providers_config
  cg_Metadata :: MetadataConfig
  cg_BodyStore :: BodyStoreConfig
  cg_Admin :: AdminConfig
  cg_Secrets :: SecretsConfig
  cg_Routing :: RoutingConfig

text \<open>The parts are put into the URL as they are.\<close>

definition DSN :: "PostgresConfig \<Rightarrow> string" where
  "DSN p = ''postgres://'' @ fp_User p @ '':'' @ fp_Password p @ ''@'' @ fp_Host p @ '':'' @ dec_of_int (fp_Port p)
     @ ''/'' @ fp_Database p @ ''?sslmode='' @ fp_SSLMode p"

section \<open>Settings\<close>

datatype setting = TextV string | IntV int | DurationV duration | BoolV bool

definition bindEnv :: "(string \<times> string) list" where
  "bindEnv =
     [(''server.host'', ''HOST''), (''server.port'', ''PORT''),
      (''server.read_timeout'', ''READ_TIMEOUT''), (''server.write_timeout'', ''WRITE_TIMEOUT''),
      (''server.upstream_timeout'', ''UPSTREAM_TIMEOUT''), (''server.stream_header_timeout'', ''STREAM_HEADER_TIMEOUT''),
      (''storage.postgres.host'', ''POSTGRES_HOST''), (''storage.postgres.port'', ''POSTGRES_PORT''),
      (''storage.postgres.user'', ''POSTGRES_USER''), (''storage.postgres.password'', ''POSTGRES_PASSWORD''),
      (''storage.postgres.database'', ''POSTGRES_DB''), (''storage.postgres.sslmode'', ''POSTGRES_SSLMODE''),
      (''storage.postgres.max_conns'', ''POSTGRES_MAX_CONNS''), (''logging.level'', ''LOG_LEVEL''),
      (''body_store.backend'', ''BODY_STORAGE''), (''body_store.key_prefix'', ''BODY_STORAGE_PREFIX''),
      (''body_store.s3_bucket'', ''BODY_S3_BUCKET''), (''body_store.s3_region'', ''BODY_S3_REGION''),
      (''body_store.s3_endpoint'', ''BODY_S3_ENDPOINT''), (''body_store.gcs_bucket'', ''BODY_GCS_BUCKET''),
      (''pricing.remote_url'', ''PRICING_REMOTE_URL''), (''pricing.refresh_interval'', ''PRICING_REFRESH_INTERVAL''),
      (''pricing.model_catalog_file'', ''MODEL_CATALOG_FILE''), (''pricing.aliases_file'', ''PRICING_ALIASES_FILE''),
      (''pricing.deprecated_models_file'', ''DEPRECATED_MODELS_FILE''), (''providers.openai.base_url'', ''OPENAI_BASE_URL''),
      (''providers.anthropic.base_url'', ''ANTHROPIC_BASE_URL''), (''providers.gemini.base_url'', ''GEMINI_BASE_URL''),
      (''providers.fireworks.base_url'', ''FIREWORKS_BASE_URL''), (''providers.together.base_url'', ''TOGETHER_BASE_URL''),
      (''providers.baseten.base_url'', ''BASETEN_BASE_URL''), (''metadata.hll_flush_interval'', ''METADATA_HLL_FLUSH_INTERVAL''),
      (''metadata.active_keys_cache_ttl'', ''METADATA_ACTIVE_KEYS_CACHE_TTL''), (''admin.token'', ''ADMIN_TOKEN''),
      (''secrets.encryption_key'', ''ENCRYPTION_KEY''), (''routing.enabled'', ''ROUTING_ENABLED''),
      (''routing.default_data_collection'', ''ROUTING_DEFAULT_DATA_COLLECTION''), (''routing.default_require_zdr'', ''ROUTING_DEFAULT_REQUIRE_ZDR'')]"

definition setDefaults :: "(string \<times> setting) list" where
  "setDefaults =
     [(''server.host'', TextV ''0.0.0.0''), (''server.port'', IntV 6560),
      (''server.read_timeout'', DurationV (30 * second)), (''server.write_timeout'', DurationV (600 * second)),
      (''server.upstream_timeout'', DurationV (600 * second)), (''server.stream_header_timeout'', IntV 0),
      (''storage.driver'', TextV ''postgres''), (''storage.postgres.host'', TextV ''localhost''),
      (''storage.postgres.port'', IntV 5432), (''storage.postgres.user'', TextV []),
      (''storage.postgres.password'', TextV []), (''storage.postgres.database'', TextV ''majordomo_gateway''),
      (''storage.postgres.sslmode'', TextV ''disable''), (''storage.postgres.max_conns'', IntV 20),
      (''logging.level'', TextV ''info''), (''body_store.backend'', TextV ''none''),
      (''body_store.key_prefix'', TextV []), (''pricing.remote_url'', TextV ''https://www.llm-prices.com/current-v1.json''),
      (''pricing.refresh_interval'', DurationV (60 * minute)), (''pricing.model_catalog_file'', TextV ''./model_catalog.json''),
      (''pricing.aliases_file'', TextV ''./model_aliases.json''), (''pricing.deprecated_models_file'', TextV ''./deprecated_models.json''),
      (''providers.openai.base_url'', TextV ''https://api.openai.com''), (''providers.anthropic.base_url'', TextV ''https://api.anthropic.com''),
      (''providers.gemini.base_url'', TextV ''https://generativelanguage.googleapis.com''), (''providers.fireworks.base_url'', TextV ''https://api.fireworks.ai/inference''),
      (''providers.together.base_url'', TextV ''https://api.together.xyz''), (''providers.baseten.base_url'', TextV ''https://inference.baseten.co''),
      (''metadata.hll_flush_interval'', DurationV (60 * second)), (''metadata.active_keys_cache_ttl'', DurationV (5 * minute)),
      (''admin.token'', TextV []), (''secrets.encryption_key'', TextV []),
      (''routing.enabled'', BoolV False), (''routing.default_data_collection'', TextV []),
      (''routing.default_require_zdr'', BoolV False)]"

text \<open>How the text of a variable is decoded; None is an error.\<close>

record decoders =
  dc_int :: "string \<Rightarrow> int option"
  dc_duration :: "string \<Rightarrow> duration option"
  dc_bool :: "string \<Rightarrow> bool option"

text \<open>The variable that decides a setting, if one is set to something.\<close>

definition env_value :: "(string \<Rightarrow> string option) \<Rightarrow> string \<Rightarrow> string option" where
  "env_value env key =
     (case map_of bindEnv key of
        None \<Rightarrow> None
      | Some var \<Rightarrow> (case env var of Some v \<Rightarrow> if v = [] then None else Some v | None \<Rightarrow> None))"

definition text_setting :: "(string \<Rightarrow> string option) \<Rightarrow> string \<Rightarrow> string" where
  "text_setting env key =
     (case env_value env key of
        Some v \<Rightarrow> v
      | None \<Rightarrow> (case map_of setDefaults key of Some (TextV v) \<Rightarrow> v | _ \<Rightarrow> []))"

definition int_setting :: "decoders \<Rightarrow> (string \<Rightarrow> string option) \<Rightarrow> string \<Rightarrow> int option" where
  "int_setting dec env key =
     (case env_value env key of
        Some v \<Rightarrow> dc_int dec v
      | None \<Rightarrow> Some (case map_of setDefaults key of Some (IntV v) \<Rightarrow> v | _ \<Rightarrow> 0))"

definition duration_setting :: "decoders \<Rightarrow> (string \<Rightarrow> string option) \<Rightarrow> string \<Rightarrow> duration option" where
  "duration_setting dec env key =
     (case env_value env key of
        Some v \<Rightarrow> dc_duration dec v
      | None \<Rightarrow> Some (case map_of setDefaults key of Some (DurationV v) \<Rightarrow> v | Some (IntV v) \<Rightarrow> v | _ \<Rightarrow> 0))"

definition bool_setting :: "decoders \<Rightarrow> (string \<Rightarrow> string option) \<Rightarrow> string \<Rightarrow> bool option" where
  "bool_setting dec env key =
     (case env_value env key of
        Some v \<Rightarrow> dc_bool dec v
      | None \<Rightarrow> Some (case map_of setDefaults key of Some (BoolV v) \<Rightarrow> v | _ \<Rightarrow> False))"

section \<open>Load\<close>

definition load_server :: "decoders \<Rightarrow> (string \<Rightarrow> string option) \<Rightarrow> ServerConfig option" where
  "load_server dec env =
     (case (int_setting dec env ''server.port'', duration_setting dec env ''server.read_timeout'',
            duration_setting dec env ''server.write_timeout'', duration_setting dec env ''server.upstream_timeout'',
            duration_setting dec env ''server.stream_header_timeout'') of
        (Some port, Some rd, Some wr, Some up, Some sh) \<Rightarrow>
          Some \<lparr>fv_Host = text_setting env ''server.host'', fv_Port = port, fv_ReadTimeout = rd, fv_WriteTimeout = wr,
            fv_UpstreamTimeout = up, fv_StreamHeaderTimeout = sh\<rparr>
      | _ \<Rightarrow> None)"

definition load_storage :: "decoders \<Rightarrow> (string \<Rightarrow> string option) \<Rightarrow> StorageConfig option" where
  "load_storage dec env =
     (case (int_setting dec env ''storage.postgres.port'', int_setting dec env ''storage.postgres.max_conns'') of
        (Some port, Some conns) \<Rightarrow>
          Some \<lparr>ft_Driver = text_setting env ''storage.driver'',
            ft_Postgres = \<lparr>fp_Host = text_setting env ''storage.postgres.host'', fp_Port = port,
              fp_User = text_setting env ''storage.postgres.user'', fp_Password = text_setting env ''storage.postgres.password'',
              fp_Database = text_setting env ''storage.postgres.database'',
              fp_SSLMode = text_setting env ''storage.postgres.sslmode'', fp_MaxConns = conns\<rparr>\<rparr>
      | _ \<Rightarrow> None)"

definition load_providers :: "(string \<Rightarrow> string option) \<Rightarrow> providers_config" where
  "load_providers env =
     \<lparr>pc_OpenAI = text_setting env ''providers.openai.base_url'', pc_Anthropic = text_setting env ''providers.anthropic.base_url'',
      pc_Gemini = text_setting env ''providers.gemini.base_url'', pc_Fireworks = text_setting env ''providers.fireworks.base_url'',
      pc_Together = text_setting env ''providers.together.base_url'', pc_Baseten = text_setting env ''providers.baseten.base_url''\<rparr>"

definition load_body_store :: "(string \<Rightarrow> string option) \<Rightarrow> BodyStoreConfig" where
  "load_body_store env =
     \<lparr>fb_Backend = text_setting env ''body_store.backend'', fb_KeyPrefix = text_setting env ''body_store.key_prefix'',
      fb_S3Bucket = text_setting env ''body_store.s3_bucket'', fb_S3Region = text_setting env ''body_store.s3_region'',
      fb_S3Endpoint = text_setting env ''body_store.s3_endpoint'', fb_GCSBucket = text_setting env ''body_store.gcs_bucket''\<rparr>"

text \<open>Every setting is decoded; one that cannot be makes the whole an error.\<close>

definition Load :: "decoders \<Rightarrow> (string \<Rightarrow> string option) \<Rightarrow> Config option" where
  "Load dec env =
     (case (load_server dec env, load_storage dec env, duration_setting dec env ''pricing.refresh_interval'',
            duration_setting dec env ''metadata.hll_flush_interval'', duration_setting dec env ''metadata.active_keys_cache_ttl'',
            bool_setting dec env ''routing.enabled'', bool_setting dec env ''routing.default_require_zdr'') of
        (Some sv, Some st, Some refresh, Some flush, Some ttl, Some enabled, Some zdr) \<Rightarrow>
          Some \<lparr>cg_Server = sv, cg_Storage = st, cg_Logging = \<lparr>fl_Level = text_setting env ''logging.level''\<rparr>,
            cg_Pricing = \<lparr>fc_RemoteURL = text_setting env ''pricing.remote_url'', fc_RefreshInterval = refresh,
              fc_ModelCatalogFile = text_setting env ''pricing.model_catalog_file'',
              fc_AliasesFile = text_setting env ''pricing.aliases_file'',
              fc_DeprecatedModelsFile = text_setting env ''pricing.deprecated_models_file''\<rparr>,
            cg_Providers = load_providers env,
            cg_Metadata = \<lparr>fm_HLLFlushInterval = flush, fm_ActiveKeysCacheTTL = ttl\<rparr>,
            cg_BodyStore = load_body_store env, cg_Admin = \<lparr>fa_Token = text_setting env ''admin.token''\<rparr>,
            cg_Secrets = \<lparr>fs_EncryptionKey = text_setting env ''secrets.encryption_key''\<rparr>,
            cg_Routing = \<lparr>fr_Enabled = enabled, fr_DefaultDataCollection = text_setting env ''routing.default_data_collection'',
              fr_DefaultRequireZDR = zdr\<rparr>\<rparr>
      | _ \<Rightarrow> None)"

lemma Load_Some:
  assumes "Load dec env = Some cfg"
  shows "fa_Token (cg_Admin cfg) = text_setting env ''admin.token''"
    and "fs_EncryptionKey (cg_Secrets cfg) = text_setting env ''secrets.encryption_key''"
    and "bool_setting dec env ''routing.enabled'' = Some (fr_Enabled (cg_Routing cfg))"
    and "cg_BodyStore cfg = load_body_store env"
    and "duration_setting dec env ''pricing.refresh_interval'' = Some (fc_RefreshInterval (cg_Pricing cfg))"
    and "duration_setting dec env ''metadata.hll_flush_interval'' = Some (fm_HLLFlushInterval (cg_Metadata cfg))"
  using assms unfolding Load_def by (simp_all split: option.split_asm) (drule sym, simp)+

end
