(* ===== verification/App.thy ===== *)
theory App
  imports Config Server Request_Log
begin

text \<open>
  How the gateway is put together and taken apart: \<open>app.Build\<close> and \<open>ShutdownWithTimeout\<close> (\<open>internal/app/app.go\<close>),
  the connection to the database (\<open>internal/repositories/db.go\<close>), the migrations (\<open>internal/migrate\<close>), the
  upstream clients' timeouts, and the main program (\<open>cmd/gateway/main.go\<close>). What the surroundings answer is
  an argument; what is opened and released is recorded in order.
\<close>

section \<open>Parts\<close>

record repo_config =
  rg_HLLFlushInterval :: duration
  rg_ActiveKeysCacheTTL :: duration

definition DefaultConfig :: repo_config where
  "DefaultConfig = \<lparr>rg_HLLFlushInterval = 60 * second, rg_ActiveKeysCacheTTL = 5 * minute\<rparr>"

definition defaultUpstreamTimeout :: duration where "defaultUpstreamTimeout = 600 * second"

text \<open>The overall timeout of the buffering client, and the wait for the headers of the streaming one.\<close>

record upstream_client =
  uc_Timeout :: duration
  uc_ResponseHeaderTimeout :: duration

definition NewUpstreamClient :: "duration \<Rightarrow> duration \<Rightarrow> upstream_client" where
  "NewUpstreamClient timeout streamHeaderTimeout =
     (let t = (if timeout \<le> 0 then defaultUpstreamTimeout else timeout);
          h = (if streamHeaderTimeout \<le> 0 then t else streamHeaderTimeout)
      in \<lparr>uc_Timeout = t, uc_ResponseHeaderTimeout = h\<rparr>)"

datatype resource = Database | Refresher duration | Flusher duration | WriteLoop

datatype build_event = Opened resource | Released resource

text \<open>Opening the pool verifies the connection; a second ping does so once more.\<close>

definition Connect :: "bool \<Rightarrow> bool \<Rightarrow> build_event list \<times> bool" where
  "Connect opened pinged =
     (if \<not> opened then ([], False)
      else if \<not> pinged then ([Opened Database, Released Database], False)
      else ([Opened Database], True))"

datatype up_result = Up_done | Up_no_change | Up_fails

text \<open>\<open>migrate.Run\<close>: the driver, the migrator, and its outcome.\<close>

definition migrate_Run :: "bool \<Rightarrow> bool \<Rightarrow> up_result \<Rightarrow> bool" where
  "migrate_Run driver migrator up = (if \<not> driver then False else if \<not> migrator then False else up \<noteq> Up_fails)"

section \<open>The body store\<close>

record body_store =
  bo_Upload :: "string \<Rightarrow> body_payload \<Rightarrow> bool"
  bo_Download :: "string \<Rightarrow> store_error + body_content"

datatype body_store_error = S3BucketMissing | AwsConfig | GcsBucketMissing | GcsClient | UnknownBackend string

text \<open>The bucket, region and endpoint given to the SDK; None when it cannot be configured.\<close>

definition NewS3Store :: "(string \<times> string \<times> string \<Rightarrow> body_store option) \<Rightarrow> string \<Rightarrow> string \<Rightarrow> string \<Rightarrow> body_store_error + body_store" where
  "NewS3Store sdk bucket region endpoint =
     (if bucket = [] then Inl S3BucketMissing
      else case sdk (bucket, region, endpoint) of None \<Rightarrow> Inl AwsConfig | Some st \<Rightarrow> Inr st)"

definition NewGCSStore :: "(string \<Rightarrow> body_store option) \<Rightarrow> string \<Rightarrow> body_store_error + body_store" where
  "NewGCSStore sdk bucket =
     (if bucket = [] then Inl GcsBucketMissing
      else case sdk bucket of None \<Rightarrow> Inl GcsClient | Some st \<Rightarrow> Inr st)"

definition buildBodyStore :: "(string \<times> string \<times> string \<Rightarrow> body_store option) \<Rightarrow> (string \<Rightarrow> body_store option) \<Rightarrow> BodyStoreConfig
    \<Rightarrow> body_store_error + body_store option" where
  "buildBodyStore s3 gcs cfg =
     (if fb_Backend cfg = [] \<or> fb_Backend cfg = ''none'' then Inr None
      else if fb_Backend cfg = ''s3'' then
        (case NewS3Store s3 (fb_S3Bucket cfg) (fb_S3Region cfg) (fb_S3Endpoint cfg) of Inl e \<Rightarrow> Inl e | Inr st \<Rightarrow> Inr (Some st))
      else if fb_Backend cfg = ''gcs'' then
        (case NewGCSStore gcs (fb_GCSBucket cfg) of Inl e \<Rightarrow> Inl e | Inr st \<Rightarrow> Inr (Some st))
      else Inl (UnknownBackend (fb_Backend cfg)))"

section \<open>Building\<close>

text \<open>What the surroundings answer during the build: the database, the migrations, the stored metadata rows if
  they can be read, the contents of the files, the price feed, and the SDKs of the clouds.\<close>

record surroundings =
  su_connected :: bool
  su_pinged :: bool
  su_driver :: bool
  su_migrator :: bool
  su_up :: up_result
  su_meta :: "metadata_row list"
  su_metaOk :: bool
  su_requests :: "request_log list"
  su_aliases :: "string option"
  su_catalog :: "string option"
  su_feed :: "http_reply option"
  su_deprecated :: "string option"
  su_s3 :: "string \<times> string \<times> string \<Rightarrow> body_store option"
  su_gcs :: "string \<Rightarrow> body_store option"

datatype build_error =
  ConnectError | MigrateError | BodyStoreError body_store_error | RoutingNeedsEncryptionKey | SecretStoreError secret_error

record http_server =
  ht_Addr :: string
  ht_ReadTimeout :: duration
  ht_WriteTimeout :: duration

record 'h built =
  bt_http :: http_server
  bt_server :: server
  bt_writer :: "'h writer"
  bt_prices :: pricing_service
  bt_upstream :: upstream_client
  bt_bodies :: "body_store option"
  bt_resolver :: resolver

definition repo_config_of :: "MetadataConfig \<Rightarrow> repo_config" where
  "repo_config_of cfg =
     (let r0 = DefaultConfig;
          r1 = (if fm_HLLFlushInterval cfg \<noteq> 0 then r0\<lparr>rg_HLLFlushInterval := fm_HLLFlushInterval cfg\<rparr> else r0)
      in if fm_ActiveKeysCacheTTL cfg \<noteq> 0 then r1\<lparr>rg_ActiveKeysCacheTTL := fm_ActiveKeysCacheTTL cfg\<rparr> else r1)"

text \<open>The store of the log writer at the start; sketches that cannot be loaded are missing.\<close>

definition initial_store :: "'h sketch_ops \<Rightarrow> surroundings \<Rightarrow> repo_config \<Rightarrow> 'h log_store" where
  "initial_store ops su rc =
     \<lparr>ls_requests = su_requests su, ls_meta = su_meta su, ls_cache = NewActiveKeysCache (rg_ActiveKeysCacheTTL rc),
      ls_hlls = (case LoadFromDB ops (su_metaOk su) (su_meta su) [] of None \<Rightarrow> [] | Some m \<Rightarrow> m)\<rparr>"

text \<open>\<open>Writer.Close\<close>, and then \<open>Service.Close\<close> of the prices.\<close>

definition close_writer :: "repo_config \<Rightarrow> build_event list" where
  "close_writer rc = [Released WriteLoop, Released (Flusher (rg_HLLFlushInterval rc)), Released Database]"

definition close_pricing :: "Config \<Rightarrow> build_event list" where
  "close_pricing cfg = [Released (Refresher (fc_RefreshInterval (cg_Pricing cfg)))]"

text \<open>The secret store, when an encryption key is set.\<close>

definition secret_store_of :: "Config \<Rightarrow> secret_error + aes_store option" where
  "secret_store_of cfg =
     (if fs_EncryptionKey (cg_Secrets cfg) = [] then Inr None
      else case NewAESStore (fs_EncryptionKey (cg_Secrets cfg)) of Inl e \<Rightarrow> Inl e | Inr st \<Rightarrow> Inr (Some st))"

definition proxy_handler :: "Config \<Rightarrow> (string, string) gomap \<Rightarrow> body_store option \<Rightarrow> aes_store option \<Rightarrow> handler" where
  "proxy_handler cfg deprecated bodies secret =
     (let h = NewHandler (cg_Providers cfg) (Some deprecated) (fr_DefaultRequireZDR (cg_Routing cfg))
          (fr_DefaultDataCollection (cg_Routing cfg)) (map_option bo_Upload bodies) (fb_KeyPrefix (cg_BodyStore cfg))
      in case secret of
           None \<Rightarrow> h
         | Some st \<Rightarrow> if fr_Enabled (cg_Routing cfg) then WithProviderRouting st h else h)"

definition Build :: "'h sketch_ops \<Rightarrow> surroundings \<Rightarrow> Config \<Rightarrow> build_event list \<times> (build_error + 'h built)" where
  "Build ops su cfg =
     (case Connect (su_connected su) (su_pinged su) of
        (ev, False) \<Rightarrow> (ev, Inl ConnectError)
      | (ev, True) \<Rightarrow>
          if \<not> migrate_Run (su_driver su) (su_migrator su) (su_up su) then (ev @ [Released Database], Inl MigrateError)
          else let rc = repo_config_of (cg_Metadata cfg);
                   started = ev @ [Opened (Flusher (rg_HLLFlushInterval rc)), Opened WriteLoop,
                                   Opened (Refresher (fc_RefreshInterval (cg_Pricing cfg)))];
                   undone = started @ close_writer rc @ close_pricing cfg
               in case buildBodyStore (su_s3 su) (su_gcs su) (cg_BodyStore cfg) of
                    Inl e \<Rightarrow> (undone, Inl (BodyStoreError e))
                  | Inr bodies \<Rightarrow>
                      if fr_Enabled (cg_Routing cfg) \<and> fs_EncryptionKey (cg_Secrets cfg) = []
                      then (undone, Inl RoutingNeedsEncryptionKey)
                      else case secret_store_of cfg of
                          Inl e \<Rightarrow> (undone, Inl (SecretStoreError e))
                        | Inr secret \<Rightarrow>
                            (started, Inr \<lparr>
                               bt_http = \<lparr>ht_Addr = fv_Host (cg_Server cfg) @ '':'' @ dec_of_int (fv_Port (cg_Server cfg)),
                                 ht_ReadTimeout = fv_ReadTimeout (cg_Server cfg), ht_WriteTimeout = fv_WriteTimeout (cg_Server cfg)\<rparr>,
                               bt_server = server_New
                                 (proxy_handler cfg (deprecated_NewService (fc_DeprecatedModelsFile (cg_Pricing cfg)) (su_deprecated su))
                                   bodies secret)
                                 (fa_Token (cg_Admin cfg)) True secret,
                               bt_writer = New (initial_store ops su rc),
                               bt_prices = NewService (fc_RemoteURL (cg_Pricing cfg)) (fc_AliasesFile (cg_Pricing cfg))
                                 (su_aliases su) (su_catalog su) (su_feed su),
                               bt_upstream = NewUpstreamClient (fv_UpstreamTimeout (cg_Server cfg)) (fv_StreamHeaderTimeout (cg_Server cfg)),
                               bt_bodies = bodies, bt_resolver = NewResolver\<rparr>))"

text \<open>\<open>ShutdownWithTimeout\<close>, after the HTTP server has stopped or run out of time.\<close>

definition shut_down :: "Config \<Rightarrow> build_event list" where
  "shut_down cfg = close_pricing cfg @ close_writer (repo_config_of (cg_Metadata cfg))"

text \<open>\<open>time.NewTicker\<close> panics when its interval is not positive; the two background loops start with one.\<close>

definition ticker_panics :: "build_event list \<Rightarrow> bool" where
  "ticker_panics ev \<longleftrightarrow>
     list_ex (\<lambda>x. case x of Opened (Refresher d) \<Rightarrow> d \<le> 0 | Opened (Flusher d) \<Rightarrow> d \<le> 0 | _ \<Rightarrow> False) ev"

section \<open>The main program\<close>

datatype log_level = LevelDebug | LevelInfo | LevelWarn | LevelError

definition parseLogLevel :: "string \<Rightarrow> log_level" where
  "parseLogLevel level =
     (let l = to_lower level in
      if l = ''debug'' then LevelDebug
      else if l = ''warn'' \<or> l = ''warning'' then LevelWarn
      else if l = ''error'' then LevelError
      else LevelInfo)"

text \<open>How serving ends: the listener fails, or a signal comes and the HTTP server shuts down in time or not.\<close>

datatype serving_end = ListenFails | Signalled bool

text \<open>The events of the whole run and the exit code.\<close>

definition runServe :: "'h sketch_ops \<Rightarrow> decoders \<Rightarrow> (string \<Rightarrow> string option) \<Rightarrow> surroundings \<Rightarrow> serving_end \<Rightarrow> build_event list \<times> nat" where
  "runServe ops dec env su how =
     (case Load dec env of
        None \<Rightarrow> ([], 1)
      | Some cfg \<Rightarrow>
          (case Build ops su cfg of
             (ev, Inl _) \<Rightarrow> (ev, 1)
           | (ev, Inr _) \<Rightarrow>
               (case how of
                  ListenFails \<Rightarrow> (ev, 1)
                | Signalled in_time \<Rightarrow> (ev @ shut_down cfg, if in_time then 0 else 1))))"

text \<open>The subcommand \<open>migrate\<close>: opening the driver, a ping, and the migrations.\<close>

definition runMigrate :: "decoders \<Rightarrow> (string \<Rightarrow> string option) \<Rightarrow> bool \<Rightarrow> bool \<Rightarrow> surroundings \<Rightarrow> nat" where
  "runMigrate dec env opened pinged su =
     (case Load dec env of
        None \<Rightarrow> 1
      | Some cfg \<Rightarrow> if \<not> opened then 1 else if \<not> pinged then 1
          else if \<not> migrate_Run (su_driver su) (su_migrator su) (su_up su) then 1 else 0)"

section \<open>What a build opens it releases\<close>

lemma Build_cases:
  obtains (Unconnected) ev where "Build ops su cfg = (ev, Inl ConnectError)" "ev \<in> {[], [Opened Database, Released Database]}"
  | (Unmigrated) "Build ops su cfg = ([Opened Database, Released Database], Inl MigrateError)"
  | (Undone) e rc where "rc = repo_config_of (cg_Metadata cfg)"
      "Build ops su cfg = ([Opened Database, Opened (Flusher (rg_HLLFlushInterval rc)), Opened WriteLoop,
         Opened (Refresher (fc_RefreshInterval (cg_Pricing cfg)))] @ close_writer rc @ close_pricing cfg, Inl e)"
  | (Built) bodies secret b rc where "rc = repo_config_of (cg_Metadata cfg)"
      "buildBodyStore (su_s3 su) (su_gcs su) (cg_BodyStore cfg) = Inr bodies"
      "\<not> (fr_Enabled (cg_Routing cfg) \<and> fs_EncryptionKey (cg_Secrets cfg) = [])" "secret_store_of cfg = Inr secret"
      "Build ops su cfg = ([Opened Database, Opened (Flusher (rg_HLLFlushInterval rc)), Opened WriteLoop,
         Opened (Refresher (fc_RefreshInterval (cg_Pricing cfg)))], Inr b)"
      "bt_server b = server_New (proxy_handler cfg (deprecated_NewService (fc_DeprecatedModelsFile (cg_Pricing cfg)) (su_deprecated su))
         bodies secret) (fa_Token (cg_Admin cfg)) True secret"
proof (cases "su_connected su \<and> su_pinged su")
  case False
  have "Build ops su cfg = (if su_connected su then [Opened Database, Released Database] else [], Inl ConnectError)"
    using False by (cases "su_connected su") (simp_all add: Build_def Connect_def)
  then show thesis using Unconnected by (cases "su_connected su") auto
next
  case c: True
  let ?rc = "repo_config_of (cg_Metadata cfg)"
  let ?ev = "[Opened Database, Opened (Flusher (rg_HLLFlushInterval ?rc)), Opened WriteLoop, Opened (Refresher (fc_RefreshInterval (cg_Pricing cfg)))]"
  show thesis
  proof (cases "migrate_Run (su_driver su) (su_migrator su) (su_up su)")
    case False
    then have "Build ops su cfg = ([Opened Database, Released Database], Inl MigrateError)"
      using c by (simp add: Build_def Connect_def)
    then show thesis by (rule Unmigrated)
  next
    case m: True
    note start = c m Build_def Connect_def Let_def
    show thesis
    proof (cases "buildBodyStore (su_s3 su) (su_gcs su) (cg_BodyStore cfg)")
      case (Inl e)
      then have "Build ops su cfg = (?ev @ close_writer ?rc @ close_pricing cfg, Inl (BodyStoreError e))" by (simp add: start)
      then show thesis by (rule Undone [OF refl])
    next
      case b: (Inr bodies)
      show thesis
      proof (cases "fr_Enabled (cg_Routing cfg) \<and> fs_EncryptionKey (cg_Secrets cfg) = []")
        case True
        with b have "Build ops su cfg = (?ev @ close_writer ?rc @ close_pricing cfg, Inl RoutingNeedsEncryptionKey)"
          by (simp add: start)
        then show thesis by (rule Undone [OF refl])
      next
        case r: False
        show thesis
        proof (cases "secret_store_of cfg")
          case (Inl e)
          have "Build ops su cfg = (?ev @ close_writer ?rc @ close_pricing cfg, Inl (SecretStoreError e))"
            using b r Inl c m by (auto simp: Build_def Connect_def Let_def)
          then show thesis by (rule Undone [OF refl])
        next
          case (Inr secret)
          have "\<exists>b. Build ops su cfg = (?ev, Inr b) \<and> bt_server b = server_New (proxy_handler cfg
              (deprecated_NewService (fc_DeprecatedModelsFile (cg_Pricing cfg)) (su_deprecated su)) bodies secret)
              (fa_Token (cg_Admin cfg)) True secret"
            using b r Inr c m by (auto simp: Build_def Connect_def Let_def)
          with Built [OF refl b r Inr] show thesis by blast
        qed
      qed
    qed
  qed
qed

lemma Build_Inr:
  assumes "Build ops su cfg = (ev, Inr b)"
  obtains bodies secret where "buildBodyStore (su_s3 su) (su_gcs su) (cg_BodyStore cfg) = Inr bodies"
      "\<not> (fr_Enabled (cg_Routing cfg) \<and> fs_EncryptionKey (cg_Secrets cfg) = [])" "secret_store_of cfg = Inr secret"
      "bt_server b = server_New (proxy_handler cfg (deprecated_NewService (fc_DeprecatedModelsFile (cg_Pricing cfg)) (su_deprecated su))
         bodies secret) (fa_Token (cg_Admin cfg)) True secret"
      "ev = [Opened Database, Opened (Flusher (rg_HLLFlushInterval (repo_config_of (cg_Metadata cfg)))), Opened WriteLoop,
         Opened (Refresher (fc_RefreshInterval (cg_Pricing cfg)))]"
  by (rule Build_cases [of ops su cfg]) (use assms that in \<open>simp_all\<close>)

lemma closing_counts:
  "count_list (close_writer rc) (Opened x) = 0" "count_list (close_pricing cfg) (Opened x) = 0"
  "count_list (close_writer rc) (Released x) = of_bool (x \<in> {WriteLoop, Flusher (rg_HLLFlushInterval rc), Database})"
  "count_list (close_pricing cfg) (Released x) = of_bool (x = Refresher (fc_RefreshInterval (cg_Pricing cfg)))"
  by (auto simp: close_writer_def close_pricing_def)


section \<open>What a build exposes\<close>

lemma server_New_fields:
  "se_mounted (server_New h token c pk) = (token \<noteq> [] \<and> c)" "se_providerKeys (server_New h token c pk) = pk"
  "se_proxy (server_New h token c pk) = h" "se_adminToken (server_New h token c pk) = token"
  by (simp_all add: server_New_def)

lemma proxy_handler_fields:
  "hd_routing (proxy_handler cfg dep bodies secret) = (secret \<noteq> None \<and> fr_Enabled (cg_Routing cfg))"
  "hd_secretStore (proxy_handler cfg dep bodies secret) = (if fr_Enabled (cg_Routing cfg) then secret else None)"
  "hd_bodyStore (proxy_handler cfg dep bodies secret) = map_option bo_Upload bodies"
  "hd_DefaultRequireZDR (proxy_handler cfg dep bodies secret) = fr_DefaultRequireZDR (cg_Routing cfg)"
  "hd_DefaultDataCollection (proxy_handler cfg dep bodies secret) = fr_DefaultDataCollection (cg_Routing cfg)"
  by (simp_all add: proxy_handler_def WithProviderRouting_def NewHandler_def Let_def split: option.split)

lemma buildBodyStore_None: "buildBodyStore s3 gcs cfg = Inr bodies \<Longrightarrow> bodies = None \<longleftrightarrow> fb_Backend cfg \<in> {[], ''none''}"
  by (auto simp: buildBodyStore_def split: if_splits sum.splits)

lemma unset: "map_of bindEnv key = Some var \<Longrightarrow> env var \<in> {None, Some []} \<Longrightarrow> env_value env key = None"
  by (auto simp: env_value_def)

lemma closed_env:
  assumes "\<forall>var \<in> {''ADMIN_TOKEN'', ''ENCRYPTION_KEY'', ''ROUTING_ENABLED'', ''BODY_STORAGE''}. env var \<in> {None, Some []}"
  shows "env_value env ''admin.token'' = None" "env_value env ''secrets.encryption_key'' = None"
    "env_value env ''routing.enabled'' = None" "env_value env ''body_store.backend'' = None"
proof -
  have "map_of bindEnv ''admin.token'' = Some ''ADMIN_TOKEN''" "map_of bindEnv ''secrets.encryption_key'' = Some ''ENCRYPTION_KEY''"
      "map_of bindEnv ''routing.enabled'' = Some ''ROUTING_ENABLED''" "map_of bindEnv ''body_store.backend'' = Some ''BODY_STORAGE''"
    by code_simp+
  note keys = this [THEN unset]
  note vars = assms [unfolded ball_simps]
  show "env_value env ''admin.token'' = None" by (rule keys(1)) (rule vars [THEN conjunct1])
  show "env_value env ''secrets.encryption_key'' = None" by (rule keys(2)) (rule vars [THEN conjunct2, THEN conjunct1])
  show "env_value env ''routing.enabled'' = None" by (rule keys(3)) (rule vars [THEN conjunct2, THEN conjunct2, THEN conjunct1])
  show "env_value env ''body_store.backend'' = None"
    by (rule keys(4)) (rule vars [THEN conjunct2, THEN conjunct2, THEN conjunct2, THEN conjunct1])
qed

lemma closed_settings:
  assumes "Load dec env = Some cfg"
    and "\<forall>var \<in> {''ADMIN_TOKEN'', ''ENCRYPTION_KEY'', ''ROUTING_ENABLED'', ''BODY_STORAGE''}. env var \<in> {None, Some []}"
  shows "fa_Token (cg_Admin cfg) = [] \<and> fs_EncryptionKey (cg_Secrets cfg) = [] \<and> \<not> fr_Enabled (cg_Routing cfg)
      \<and> fb_Backend (cg_BodyStore cfg) = ''none''"
proof -
  note l = Load_Some [OF assms(1)] and e = closed_env [OF assms(2)]
  have d: "map_of setDefaults ''admin.token'' = Some (TextV [])" "map_of setDefaults ''secrets.encryption_key'' = Some (TextV [])"
      "map_of setDefaults ''routing.enabled'' = Some (BoolV False)" "map_of setDefaults ''body_store.backend'' = Some (TextV ''none'')"
    by code_simp+
  show ?thesis using l(3) by (simp add: l(1,2,4) load_body_store_def text_setting_def bool_setting_def e d)
qed


section \<open>Intervals\<close>

text \<open>An interval can bring the gateway down. After a successful build a background loop panics exactly when the price
  refresh interval is not positive or the flush interval is negative, for a flush interval of zero is replaced
  by the default: without variables this cannot be, and \<open>PRICING_REFRESH_INTERVAL=0\<close> does it. The
  timeouts are the other way round: whatever they are set to, both upstream clients have a positive one,
  so that none can be switched off.\<close>

theorem interval_panics:
  assumes "Load dec env = Some cfg" and "Build ops su cfg = (ev, Inr b)"
  shows "(ticker_panics ev \<longleftrightarrow> fc_RefreshInterval (cg_Pricing cfg) \<le> 0 \<or> fm_HLLFlushInterval (cg_Metadata cfg) < 0)
    \<and> (env_value env ''pricing.refresh_interval'' = None \<longrightarrow> env_value env ''metadata.hll_flush_interval'' = None \<longrightarrow> \<not> ticker_panics ev)
    \<and> (\<forall>v. env_value env ''pricing.refresh_interval'' = Some v \<longrightarrow> dc_duration dec v = Some 0 \<longrightarrow> ticker_panics ev)
    \<and> (\<forall>t h. 0 < uc_Timeout (NewUpstreamClient t h) \<and> 0 < uc_ResponseHeaderTimeout (NewUpstreamClient t h))"
proof -
  obtain ev0: "ev = [Opened Database, Opened (Flusher (rg_HLLFlushInterval (repo_config_of (cg_Metadata cfg)))), Opened WriteLoop,
      Opened (Refresher (fc_RefreshInterval (cg_Pricing cfg)))]"
    using assms(2) by (rule Build_Inr)
  have "rg_HLLFlushInterval (repo_config_of (cg_Metadata cfg)) \<le> 0 \<longleftrightarrow> fm_HLLFlushInterval (cg_Metadata cfg) < 0"
    by (auto simp: repo_config_of_def DefaultConfig_def Let_def)
  then have p: "ticker_panics ev \<longleftrightarrow> fc_RefreshInterval (cg_Pricing cfg) \<le> 0 \<or> fm_HLLFlushInterval (cg_Metadata cfg) < 0"
    by (auto simp: ticker_panics_def ev0)
  note l = Load_Some(5,6) [OF assms(1)]
  have d: "map_of setDefaults ''pricing.refresh_interval'' = Some (DurationV (60 * minute))"
      "map_of setDefaults ''metadata.hll_flush_interval'' = Some (DurationV (60 * second))"
    by code_simp+
  have "0 < uc_Timeout (NewUpstreamClient t h) \<and> 0 < uc_ResponseHeaderTimeout (NewUpstreamClient t h)" for t h
    by (simp add: NewUpstreamClient_def defaultUpstreamTimeout_def Let_def)
  with p l show ?thesis by (auto simp: duration_setting_def d)
qed

section \<open>Examples\<close>

definition quiet :: surroundings where
  "quiet = \<lparr>su_connected = True, su_pinged = True, su_driver = True, su_migrator = True, su_up = Up_no_change, su_meta = [],
     su_metaOk = True, su_requests = [], su_aliases = None, su_catalog = None, su_feed = None, su_deprecated = None,
     su_s3 = \<lambda>_. None, su_gcs = \<lambda>_. None\<rparr>"

definition zero_decoders :: decoders where
  "zero_decoders = \<lparr>dc_int = \<lambda>_. Some 0, dc_duration = \<lambda>_. Some 0, dc_bool = \<lambda>_. Some False\<rparr>"

definition refresh_off :: "string \<Rightarrow> string option" where
  "refresh_off var = (if var = ''PRICING_REFRESH_INTERVAL'' then Some ''0'' else None)"

definition counting :: "nat sketch_ops" where
  "counting = \<lparr>sk_New = 0, sk_Insert = (\<lambda>_ n. n + 1), sk_Estimate = int, sk_Marshal = (\<lambda>n. Some []), sk_Unmarshal = (\<lambda>s. Some 0)\<rparr>"

lemma zero_total:
  "int_setting zero_decoders env k = Some (if env_value env k = None then (case map_of setDefaults k of Some (IntV v) \<Rightarrow> v | _ \<Rightarrow> 0) else 0)"
  "duration_setting zero_decoders env k = Some (if env_value env k = None
     then (case map_of setDefaults k of Some (DurationV v) \<Rightarrow> v | Some (IntV v) \<Rightarrow> v | _ \<Rightarrow> 0) else 0)"
  "bool_setting zero_decoders env k = Some (if env_value env k = None then (case map_of setDefaults k of Some (BoolV v) \<Rightarrow> v | _ \<Rightarrow> False) else False)"
  by (simp_all add: int_setting_def duration_setting_def bool_setting_def zero_decoders_def split: option.split)

lemma refresh_off_loads: "Load zero_decoders refresh_off \<noteq> None"
  unfolding Load_def load_server_def load_storage_def zero_total by simp

lemma refresh_off_none:
  assumes "Load zero_decoders refresh_off = Some cfg"
  shows "fa_Token (cg_Admin cfg) = [] \<and> fs_EncryptionKey (cg_Secrets cfg) = [] \<and> \<not> fr_Enabled (cg_Routing cfg)
      \<and> fb_Backend (cg_BodyStore cfg) = ''none''"
  by (rule closed_settings [OF assms]) code_simp

lemma refresh_off_builds:
  assumes "Load zero_decoders refresh_off = Some cfg"
  obtains ev b where "Build counting quiet cfg = (ev, Inr b)"
  by (rule Build_cases [of counting quiet cfg])
    (use refresh_off_none [OF assms] in \<open>auto simp: Build_def quiet_def Connect_def migrate_Run_def Let_def buildBodyStore_def
      secret_store_of_def\<close>)


lemma interval_panics_witness:
  "\<exists>cfg ev b. Load zero_decoders refresh_off = Some cfg \<and> Build counting quiet cfg = (ev, Inr b) \<and> ticker_panics ev"
proof -
  obtain cfg where l: "Load zero_decoders refresh_off = Some cfg" using refresh_off_loads by blast
  then obtain ev b where b: "Build counting quiet cfg = (ev, Inr b)" by (rule refresh_off_builds)
  have "env_value refresh_off ''pricing.refresh_interval'' = Some ''0''" "dc_duration zero_decoders ''0'' = Some 0" by code_simp+
  with interval_panics [OF l b] l b show ?thesis by blast
qed


end
