(* ===== verification/Clients.thy ===== *)
theory Clients
  imports Server
begin

text \<open>
  What the two clients of the admin API share, the command line tool (\<open>cmd/gateway-cli\<close>) and the MCP
  server (\<open>cmd/gateway-mcp\<close>): the HTTP requests they make, the JSON body of a usage filter, and what they
  make of the status of an answer. The lemmas show that a filter decodes to the query it stands for.
\<close>

section \<open>The HTTP client\<close>

record client =
  cn_baseURL :: string
  cn_token :: string

definition newClient :: "string \<Rightarrow> string \<Rightarrow> client" where
  "newClient baseURL token = \<lparr>cn_baseURL = rev (dropWhile (\<lambda>c. c = CHR ''/'') (rev baseURL)), cn_token = token\<rparr>"

definition envOr :: "(string \<Rightarrow> string option) \<Rightarrow> string \<Rightarrow> string \<Rightarrow> string" where
  "envOr env key fallback = (case env key of Some v \<Rightarrow> if v = [] then fallback else v | None \<Rightarrow> fallback)"

record client_request =
  cr_Method :: string
  cr_URL :: string
  cr_Header :: header
  cr_Body :: "string option"

text \<open>\<open>do\<close>, before the request is sent.\<close>

definition client_do :: "client \<Rightarrow> client_request \<Rightarrow> client_request" where
  "client_do c req = req\<lparr>cr_Header := hdr_set ''Accept'' ''application/json''
     (if cn_token c \<noteq> [] then hdr_set ''Authorization'' (bearer @ cn_token c) (cr_Header req) else cr_Header req)\<rparr>"

definition client_get :: "client \<Rightarrow> string \<Rightarrow> client_request" where
  "client_get c path = client_do c \<lparr>cr_Method = ''GET'', cr_URL = cn_baseURL c @ path, cr_Header = [], cr_Body = None\<rparr>"

definition client_post :: "client \<Rightarrow> string \<Rightarrow> raw_map \<Rightarrow> client_request" where
  "client_post c path body = client_do c \<lparr>cr_Method = ''POST'', cr_URL = cn_baseURL c @ path,
     cr_Header = hdr_set ''Content-Type'' ''application/json'' [], cr_Body = Some (marshal_raw_map body)\<rparr>"

definition client_delete :: "client \<Rightarrow> string \<Rightarrow> client_request" where
  "client_delete c path = client_do c \<lparr>cr_Method = ''DELETE'', cr_URL = cn_baseURL c @ path, cr_Header = [], cr_Body = None\<rparr>"

datatype client_result = Unauthorized | ApiError string | ServerReturned int | Answered string

text \<open>\<open>do\<close>, after the response: the message of an error body if it has one.\<close>

definition error_text :: "string \<Rightarrow> string option" where
  "error_text body = unmarshal (decode_struct [field ''error'' decode_string (\<lambda>s. s) (\<lambda>x _. x)]) [] body"

definition client_result :: "int \<Rightarrow> string \<Rightarrow> client_result" where
  "client_result status body =
     (if status = 401 \<or> status = 403 then Unauthorized
      else if status \<ge> 400 then
        (case error_text body of
           Some m \<Rightarrow> if m \<noteq> [] then ApiError m else ServerReturned status
         | None \<Rightarrow> ServerReturned status)
      else Answered body)"

section \<open>The usage filter\<close>

definition set_text :: "string \<Rightarrow> string \<Rightarrow> raw_map \<Rightarrow> raw_map" where
  "set_text k v b = (if v \<noteq> [] then gm_put k (json_str v) b else b)"

definition set_count :: "string \<Rightarrow> int64 \<Rightarrow> raw_map \<Rightarrow> raw_map" where
  "set_count k n b = (if 0 < sint n then gm_put k (json_num n) b else b)"

definition metadata_json :: "(string \<times> string) list \<Rightarrow> json" where
  "metadata_json ms = JArr (map (\<lambda>(k, v). JObj [(quote_str ''key'', json_str k), (quote_str ''value'', json_str v)]) ms)"

definition set_metadata :: "(string \<times> string) list \<Rightarrow> raw_map \<Rightarrow> raw_map" where
  "set_metadata ms b = (if ms \<noteq> [] then gm_put ''metadata_filters'' (metadata_json ms) b else b)"

text \<open>The flags of the command line, as \<open>parseUsageFlags\<close> has parsed them; \<open>fl_metadata\<close> are the pairs
  \<open>metadataFlag.Set\<close> has accepted.\<close>

record usage_flags =
  fl_preset :: string
  fl_start :: string
  fl_end :: string
  fl_provider :: string
  fl_model :: string
  fl_apiKey :: string
  fl_status :: string
  fl_limit :: int64
  fl_offset :: int64
  fl_metadata :: "(string \<times> string) list"

definition metadataFlag_Set :: "string \<Rightarrow> (string \<times> string) option" where
  "metadataFlag_Set v =
     (let k = takeWhile (\<lambda>c. c \<noteq> CHR ''='') v; rest = dropWhile (\<lambda>c. c \<noteq> CHR ''='') v in
      case rest of
        [] \<Rightarrow> None
      | _ # val \<Rightarrow> if k = [] \<or> val = [] then None else Some (k, val))"

definition parseUsageFlags :: "usage_flags \<Rightarrow> raw_map" where
  "parseUsageFlags f =
     set_metadata (fl_metadata f) (set_count ''offset'' (fl_offset f) (set_count ''limit'' (fl_limit f)
       (set_text ''status_class'' (fl_status f) (set_text ''api_key_id'' (fl_apiKey f) (set_text ''model'' (fl_model f)
       (set_text ''provider'' (fl_provider f) (set_text ''end'' (fl_end f) (set_text ''start'' (fl_start f)
       (set_text ''preset'' (fl_preset f) [])))))))))"

text \<open>The filter of the MCP tools has one metadata pair, used when both halves are there.\<close>

record usageFilter =
  mf_Preset :: string
  mf_Start :: string
  mf_End :: string
  mf_Provider :: string
  mf_Model :: string
  mf_APIKeyID :: string
  mf_StatusClass :: string
  mf_MetadataKey :: string
  mf_MetadataValue :: string
  mf_Limit :: int64
  mf_Offset :: int64

definition mcp_body :: "usageFilter \<Rightarrow> raw_map" where
  "mcp_body f =
     set_metadata (if mf_MetadataKey f \<noteq> [] \<and> mf_MetadataValue f \<noteq> [] then [(mf_MetadataKey f, mf_MetadataValue f)] else [])
       (set_count ''offset'' (mf_Offset f) (set_count ''limit'' (mf_Limit f)
       (set_text ''status_class'' (mf_StatusClass f) (set_text ''api_key_id'' (mf_APIKeyID f) (set_text ''model'' (mf_Model f)
       (set_text ''provider'' (mf_Provider f) (set_text ''end'' (mf_End f) (set_text ''start'' (mf_Start f)
       (set_text ''preset'' (mf_Preset f) [])))))))))"

section \<open>A filter arrives as it was meant\<close>

text \<open>The body in the order it is written in.\<close>

definition opt_text :: "string \<Rightarrow> string \<Rightarrow> raw_map" where
  "opt_text k v = (if v \<noteq> [] then [(k, json_str v)] else [])"

definition opt_count :: "string \<Rightarrow> int64 \<Rightarrow> raw_map" where
  "opt_count k n = (if 0 < sint n then [(k, json_num n)] else [])"

definition opt_metadata :: "(string \<times> string) list \<Rightarrow> raw_map" where
  "opt_metadata ms = (if ms \<noteq> [] then [(''metadata_filters'', metadata_json ms)] else [])"

definition sorted_body :: "usage_flags \<Rightarrow> raw_map" where
  "sorted_body f = opt_text ''api_key_id'' (fl_apiKey f) @ opt_text ''end'' (fl_end f) @ opt_count ''limit'' (fl_limit f)
     @ opt_metadata (fl_metadata f) @ opt_text ''model'' (fl_model f) @ opt_count ''offset'' (fl_offset f)
     @ opt_text ''preset'' (fl_preset f) @ opt_text ''provider'' (fl_provider f) @ opt_text ''start'' (fl_start f)
     @ opt_text ''status_class'' (fl_status f)"

lemmas opt_defs = opt_text_def opt_count_def opt_metadata_def

text \<open>The members as they are put in, the last one first.\<close>

definition put_body :: "usage_flags \<Rightarrow> raw_map" where
  "put_body f = opt_metadata (fl_metadata f) @ opt_count ''offset'' (fl_offset f) @ opt_count ''limit'' (fl_limit f)
     @ opt_text ''status_class'' (fl_status f) @ opt_text ''api_key_id'' (fl_apiKey f) @ opt_text ''model'' (fl_model f)
     @ opt_text ''provider'' (fl_provider f) @ opt_text ''end'' (fl_end f) @ opt_text ''start'' (fl_start f)
     @ opt_text ''preset'' (fl_preset f)"

lemma set_ok [simp]:
  "gm_ok b \<Longrightarrow> gm_ok (set_text k v b)" "gm_ok b \<Longrightarrow> gm_ok (set_count k n b)" "gm_ok b \<Longrightarrow> gm_ok (set_metadata ms b)"
  by (simp_all add: set_text_def set_count_def set_metadata_def)

lemma set_get:
  "gm_ok b \<Longrightarrow> gm_get (set_text k v b) = gm_get b ++ gm_get (opt_text k v)"
  "gm_ok b \<Longrightarrow> gm_get (set_count k n b) = gm_get b ++ gm_get (opt_count k n)"
  "gm_ok b \<Longrightarrow> gm_get (set_metadata ms b) = gm_get b ++ gm_get (opt_metadata ms)"
  by (simp_all add: set_text_def set_count_def set_metadata_def opt_defs gm_get_put)

lemma parse_get: "gm_get (parseUsageFlags f) = gm_get (put_body f)"
  by (simp only: parseUsageFlags_def put_body_def set_get set_ok gm_ok_Nil map_of_append map_add_assoc [symmetric])
     simp

lemma opt_subseq:
  "subseq (map fst (opt_text k v)) [k]" "subseq (map fst (opt_count k n)) [k]"
  "subseq (map fst (opt_metadata ms)) [''metadata_filters'']"
  by (simp_all add: opt_defs)

lemma subseq_Cons_append: "subseq xs [k] \<Longrightarrow> subseq ys ks \<Longrightarrow> subseq (xs @ ys) (k # ks)"
  using list_emb_append_mono [of "(=)" xs "[k]" ys ks] by simp

lemma sorted_keys: "subseq (map fst (sorted_body f))
    [''api_key_id'', ''end'', ''limit'', ''metadata_filters'', ''model'', ''offset'', ''preset'', ''provider'', ''start'', ''status_class'']"
  unfolding sorted_body_def map_append by (intro subseq_Cons_append opt_subseq)

lemma put_keys: "subseq (map fst (put_body f))
    [''metadata_filters'', ''offset'', ''limit'', ''status_class'', ''api_key_id'', ''model'', ''provider'', ''end'', ''start'', ''preset'']"
  unfolding put_body_def map_append by (intro subseq_Cons_append opt_subseq)

lemma sorted_wrt_sub: "subseq xs ys \<Longrightarrow> sorted_wrt P ys \<Longrightarrow> sorted_wrt P xs"
  by (induction rule: list_emb.induct) (auto dest: list_emb_set)

lemma distinct_sub: "subseq xs ys \<Longrightarrow> distinct ys \<Longrightarrow> distinct xs"
  by (induction rule: list_emb.induct) (auto dest: list_emb_set)

lemma sorted_body_ok: "gm_ok (sorted_body f)"
  unfolding gm_ok_def by (rule sorted_wrt_sub [OF sorted_keys]) code_simp

lemma parse_sorted: "parseUsageFlags f = sorted_body f"
proof (rule gm_ext)
  show "gm_ok (parseUsageFlags f)" by (simp add: parseUsageFlags_def)
  show "gm_ok (sorted_body f)" by (rule sorted_body_ok)
  have "distinct (map fst (put_body f))"
    by (rule distinct_sub [OF put_keys]) code_simp
  moreover have "set (put_body f) = set (sorted_body f)"
    by (simp only: put_body_def sorted_body_def set_append Un_ac)
  ultimately show "gm_get (parseUsageFlags f) = gm_get (sorted_body f)"
    unfolding parse_get by (simp add: map_of_inject_set gm_ok_distinct sorted_body_ok)
qed


text \<open>What the members decode to, one at a time.\<close>

definition doc_members :: "raw_map \<Rightarrow> (string \<times> json) list" where
  "doc_members m = map (\<lambda>(k, j). (quote_str k, html_escape_json j)) m"

lemma doc_members_Nil [simp]: "doc_members [] = []"
  by (simp add: doc_members_def)

lemma doc_members_append: "doc_members (a @ b) = doc_members a @ doc_members b"
  by (simp add: doc_members_def)

lemma decode_bind:
  "decode_members fs (doc_members (a @ b)) s = Option.bind (decode_members fs (doc_members a) s) (decode_members fs (doc_members b))"
  by (simp add: doc_members_append decode_members_append split: Option.bind_split option.split)

lemma decode_one:
  "map_of fs k = Some d \<Longrightarrow> decode_members fs (doc_members [(k, j)]) s = d (html_escape_json j) s"
  by (simp add: doc_members_def decode_member_def find_field_def split: option.split)

lemma decode_opt_text:
  assumes "map_of fs k = Some (snd (field k decode_string get upd))"
  shows "decode_members fs (doc_members (opt_text k v)) s = Some (if v \<noteq> [] then upd v s else s)"
  using decode_one [OF assms, of "json_str v" s] by (simp add: opt_text_def field_def)

lemma html_escape_json_num [simp]: "html_escape_json (json_num n) = json_num n"
  by (simp add: json_num_def)

lemma decode_opt_count:
  assumes "map_of fs k = Some (snd (field k decode_int get upd))"
  shows "decode_members fs (doc_members (opt_count k n)) s = Some (if 0 < sint n then upd n s else s)"
  using decode_one [OF assms, of "json_num n" s] by (simp add: opt_count_def field_def)

definition filters_of :: "(string \<times> string) list \<Rightarrow> usage_query_filter list" where
  "filters_of ms = map (\<lambda>(k, v). \<lparr>qf_Key = k, qf_Value = v\<rparr>) ms"

lemma html_escape_metadata [simp]: "html_escape_json (metadata_json ms) = metadata_json ms"
  by (simp add: metadata_json_def case_prod_unfold)

lemma decode_filter:
  "decode_struct metadataFilter_fields (JObj [(quote_str ''key'', json_str k), (quote_str ''value'', json_str v)]) zero_filter
     = Some \<lparr>qf_Key = k, qf_Value = v\<rparr>"
  by (simp add: metadataFilter_fields_def zero_filter_def decode_member_def find_field_def field_def)

lemma decode_filters:
  "decode_slice zero_filter (decode_struct metadataFilter_fields) (metadata_json ms) x = Some (filters_of ms)"
  by (induction ms) (auto simp: metadata_json_def filters_of_def decode_filter simp del: decode_struct.simps)


lemma decode_opt_metadata:
  "decode_members usageRequest_fields (doc_members (opt_metadata ms)) s
     = Some (if ms \<noteq> [] then s\<lparr>uq_MetadataFilters := filters_of ms\<rparr> else s)"
proof -
  have "map_of usageRequest_fields ''metadata_filters'' = Some (snd (field ''metadata_filters''
      (decode_slice zero_filter (decode_struct metadataFilter_fields)) uq_MetadataFilters (\<lambda>x s. s\<lparr>uq_MetadataFilters := x\<rparr>)))"
    by (simp add: usageRequest_fields_def field_def)
  from decode_one [OF this, of "metadata_json ms" s] show ?thesis
    by (simp add: opt_metadata_def field_def decode_filters)
qed

text \<open>The query a filter stands for: a limit or offset that is not positive counts as not given.\<close>

definition meant :: "usage_flags \<Rightarrow> usage_query" where
  "meant f = \<lparr>uq_Preset = fl_preset f, uq_Start = fl_start f, uq_End = fl_end f, uq_APIKeyID = fl_apiKey f,
     uq_Provider = fl_provider f, uq_Model = fl_model f, uq_StatusClass = fl_status f,
     uq_MetadataFilters = filters_of (fl_metadata f), uq_ExcludeRuns = False,
     uq_Limit = max 0 (sint (fl_limit f)), uq_Offset = max 0 (sint (fl_offset f))\<rparr>"

lemma text_field:
  "map_of usageRequest_fields ''api_key_id'' = Some (snd (field ''api_key_id'' decode_string uq_APIKeyID (\<lambda>x s. s\<lparr>uq_APIKeyID := x\<rparr>)))"
  "map_of usageRequest_fields ''end'' = Some (snd (field ''end'' decode_string uq_End (\<lambda>x s. s\<lparr>uq_End := x\<rparr>)))"
  "map_of usageRequest_fields ''model'' = Some (snd (field ''model'' decode_string uq_Model (\<lambda>x s. s\<lparr>uq_Model := x\<rparr>)))"
  "map_of usageRequest_fields ''preset'' = Some (snd (field ''preset'' decode_string uq_Preset (\<lambda>x s. s\<lparr>uq_Preset := x\<rparr>)))"
  "map_of usageRequest_fields ''provider'' = Some (snd (field ''provider'' decode_string uq_Provider (\<lambda>x s. s\<lparr>uq_Provider := x\<rparr>)))"
  "map_of usageRequest_fields ''start'' = Some (snd (field ''start'' decode_string uq_Start (\<lambda>x s. s\<lparr>uq_Start := x\<rparr>)))"
  "map_of usageRequest_fields ''status_class'' = Some (snd (field ''status_class'' decode_string uq_StatusClass (\<lambda>x s. s\<lparr>uq_StatusClass := x\<rparr>)))"
  by (simp_all add: usageRequest_fields_def field_def)

lemma count_field:
  "map_of usageRequest_fields ''limit'' = Some (snd (field ''limit'' decode_int (\<lambda>s. word_of_int (uq_Limit s)) (\<lambda>x s. s\<lparr>uq_Limit := sint x\<rparr>)))"
  "map_of usageRequest_fields ''offset'' = Some (snd (field ''offset'' decode_int (\<lambda>s. word_of_int (uq_Offset s)) (\<lambda>x s. s\<lparr>uq_Offset := sint x\<rparr>)))"
  by (simp_all add: usageRequest_fields_def field_def)

lemma decode_text:
  assumes "map_of fs k = Some (snd (field k decode_string get upd))" and "upd [] s = s"
  shows "decode_members fs (doc_members (opt_text k v)) s = Some (upd v s)"
  using assms by (simp add: decode_opt_text)

lemma decode_count:
  assumes "map_of fs k = Some (snd (field k decode_int get upd))" and "upd 0 s = s"
  shows "decode_members fs (doc_members (opt_count k n)) s = Some (upd (if 0 < sint n then n else 0) s)"
  using assms by (simp add: decode_opt_count)

lemma decode_filters_none:
  "uq_MetadataFilters s = [] \<Longrightarrow>
     decode_members usageRequest_fields (doc_members (opt_metadata ms)) s = Some (s\<lparr>uq_MetadataFilters := filters_of ms\<rparr>)"
  by (simp add: decode_opt_metadata filters_of_def)

lemmas decode_opts = text_field [THEN decode_text] count_field [THEN decode_count] decode_filters_none

lemma sint_count: "sint (if 0 < sint n then n else (0::int64)) = max 0 (sint n)"
  by simp

lemma decode_body: "decode_members usageRequest_fields (doc_members (parseUsageFlags f)) zero_query = Some (meant f)"
  unfolding parse_sorted sorted_body_def decode_bind zero_query_def
  by (simp add: decode_opts sint_count meant_def del: decode_members.simps)

lemma metadata_json_ok: "json_ok (metadata_json ms)"
  by (auto simp: metadata_json_def list_all_iff)

lemma set_raw_ok:
  "raw_map_ok b \<Longrightarrow> raw_map_ok (set_text k v b)" "raw_map_ok b \<Longrightarrow> raw_map_ok (set_count k n b)"
  "raw_map_ok b \<Longrightarrow> raw_map_ok (set_metadata ms b)" "raw_map_ok []"
  by (simp_all add: set_text_def set_count_def set_metadata_def raw_map_ok_put metadata_json_ok) (simp add: raw_map_ok_def)

lemma body_ok: "raw_map_ok (parseUsageFlags f)"
  unfolding parseUsageFlags_def by (intro set_raw_ok)

lemma decode_first_marshal:
  "raw_map_ok m \<Longrightarrow> decode_first (decode_struct fs) z (marshal_raw_map m) = decode_members fs (doc_members m) z"
  using parse_print_val [of "map_doc m" "[]" "length (marshal_raw_map m)"]
  by (simp add: decode_first_def marshal_raw_map_def map_doc_ok) (simp add: map_doc_def doc_members_def)


definition flags_of :: "usageFilter \<Rightarrow> usage_flags" where
  "flags_of g = \<lparr>fl_preset = mf_Preset g, fl_start = mf_Start g, fl_end = mf_End g, fl_provider = mf_Provider g,
     fl_model = mf_Model g, fl_apiKey = mf_APIKeyID g, fl_status = mf_StatusClass g, fl_limit = mf_Limit g, fl_offset = mf_Offset g,
     fl_metadata = (if mf_MetadataKey g \<noteq> [] \<and> mf_MetadataValue g \<noteq> [] then [(mf_MetadataKey g, mf_MetadataValue g)] else [])\<rparr>"

lemma mcp_body_flags: "mcp_body g = parseUsageFlags (flags_of g)"
  by (simp add: mcp_body_def parseUsageFlags_def flags_of_def)

lemma posted_query:
  assumes "am_ContentLength r \<noteq> 0" and "hq_Body r = cr_Body (client_post c path (parseUsageFlags f))"
  shows "decodeUsageQuery r = Some (meant f)"
  using assms by (simp add: decodeUsageQuery_def decode_request_def client_post_def client_do_def decode_first_marshal body_ok decode_body)

text \<open>C39. A usage filter arrives as it was meant: when the gateway reads the body the command line tool
  posts, or the body an MCP tool posts, it decodes to the query with exactly the given fields, every other
  field zero; any text in them survives the encoding. A limit or offset that is not positive is not sent
  and reads as 0, and of the metadata pair of an MCP tool both halves are needed.\<close>

theorem filters_arrive:
  assumes "am_ContentLength r \<noteq> 0" and "hq_Body r = cr_Body (client_post c path (parseUsageFlags f))"
    and "am_ContentLength r' \<noteq> 0" and "hq_Body r' = cr_Body (client_post c' path' (mcp_body g))"
  shows "decodeUsageQuery r = Some (meant f) \<and> decodeUsageQuery r' = Some (meant (flags_of g))"
  using posted_query [OF assms(1,2)] posted_query [OF assms(3) assms(4) [unfolded mcp_body_flags]] by blast


definition example_flags :: usage_flags where
  "example_flags = \<lparr>fl_preset = ''7d'', fl_start = [], fl_end = [], fl_provider = ''openai'', fl_model = [], fl_apiKey = [],
     fl_status = [], fl_limit = 20, fl_offset = - 1, fl_metadata = [(''team'', ''a=b'')]\<rparr>"

definition example_filter :: usageFilter where
  "example_filter = \<lparr>mf_Preset = [], mf_Start = [], mf_End = [], mf_Provider = [], mf_Model = ''gpt-4o'', mf_APIKeyID = [],
     mf_StatusClass = [], mf_MetadataKey = ''team'', mf_MetadataValue = [], mf_Limit = 0, mf_Offset = 0\<rparr>"

definition posted :: "client_request \<Rightarrow> admin_request" where
  "posted cr = \<lparr>hq_Method = cr_Method cr, hq_Path = cr_URL cr, hq_RawQuery = [], hq_Host = [], hq_Header = cr_Header cr, hq_Body = cr_Body cr,
     am_RawPath = [], am_ContentLength = 1\<rparr>"

lemma filters_arrive_witness:
  "decodeUsageQuery (posted (client_post (newClient [] []) [] (parseUsageFlags example_flags)))
     = Some (zero_query\<lparr>uq_Preset := ''7d'', uq_Provider := ''openai'', uq_MetadataFilters := [\<lparr>qf_Key = ''team'', qf_Value = ''a=b''\<rparr>], uq_Limit := 20\<rparr>)
   \<and> decodeUsageQuery (posted (client_post (newClient [] []) [] (mcp_body example_filter))) = Some (zero_query\<lparr>uq_Model := ''gpt-4o''\<rparr>)"
proof -
  let ?r = "posted (client_post (newClient [] []) [] (parseUsageFlags example_flags))"
  let ?r' = "posted (client_post (newClient [] []) [] (mcp_body example_filter))"
  have "decodeUsageQuery ?r = Some (meant example_flags) \<and> decodeUsageQuery ?r' = Some (meant (flags_of example_filter))"
    by (rule filters_arrive [of ?r "newClient [] []" "[]" example_flags ?r' "newClient [] []" "[]" example_filter])
       (simp_all add: posted_def)
  moreover have "meant example_flags = zero_query\<lparr>uq_Preset := ''7d'', uq_Provider := ''openai'',
      uq_MetadataFilters := [\<lparr>qf_Key = ''team'', qf_Value = ''a=b''\<rparr>], uq_Limit := 20\<rparr>"
    by (simp add: meant_def example_flags_def zero_query_def filters_of_def)
  moreover have "meant (flags_of example_filter) = zero_query\<lparr>uq_Model := ''gpt-4o''\<rparr>"
    by (simp add: meant_def flags_of_def example_filter_def zero_query_def filters_of_def)
  ultimately show ?thesis by simp
qed

end
