(* ===== verification/Commands.thy ===== *)
theory Commands
  imports Clients
begin

text \<open>
  The commands of \<open>gateway-cli\<close>, from the words of the command line to the request that is sent, and the
  tools of \<open>gateway-mcp\<close>. The package \<open>flag\<close> of the standard library is modelled as far as the commands use
  it. What is printed is in theory \<open>Output\<close>.
\<close>

section \<open>Package flag\<close>

text \<open>\<open>strconv.ParseInt\<close> with base 0: a prefix picks the base, and digits may be grouped by underscores.
  \<open>underscoreOK\<close> remembers what it saw last: a digit or prefix, an underscore, or something else.\<close>

definition lower_byte :: "char \<Rightarrow> char" where
  "lower_byte c = char_of (of_char c OR (32 :: nat))"

fun underscores :: "bool \<Rightarrow> char \<Rightarrow> string \<Rightarrow> bool" where
  "underscores hex saw [] \<longleftrightarrow> saw \<noteq> CHR ''_''"
| "underscores hex saw (c # s) \<longleftrightarrow>
     (if is_digit c \<or> hex \<and> CHR ''a'' \<le> lower_byte c \<and> lower_byte c \<le> CHR ''f'' then underscores hex (CHR ''0'') s
      else if c = CHR ''_'' then saw = CHR ''0'' \<and> underscores hex (CHR ''_'') s
      else saw \<noteq> CHR ''_'' \<and> underscores hex (CHR ''!'') s)"

definition unsigned :: "string \<Rightarrow> bool \<times> string" where
  "unsigned s = (case s of c # r \<Rightarrow> if c = CHR ''-'' then (True, r) else if c = CHR ''+'' then (False, r) else (False, s) | [] \<Rightarrow> (False, s))"

definition prefixed :: "string \<Rightarrow> char option" where
  "prefixed s = (case s of z # b # _ \<Rightarrow> if z = CHR ''0'' \<and> lower_byte b \<in> set ''box'' then Some (lower_byte b) else None | _ \<Rightarrow> None)"

definition underscoreOK :: "string \<Rightarrow> bool" where
  "underscoreOK s =
     (let r = snd (unsigned s) in
      case prefixed r of
        Some b \<Rightarrow> underscores (b = CHR ''x'') (CHR ''0'') (drop 2 r)
      | None \<Rightarrow> underscores False (CHR ''^'') r)"

definition base_of :: "string \<Rightarrow> nat \<times> string" where
  "base_of s =
     (if prefix ''0'' s then
        (case (if 3 \<le> length s then prefixed s else None) of
           Some b \<Rightarrow> (if b = CHR ''b'' then 2 else if b = CHR ''o'' then 8 else 16, drop 2 s)
         | None \<Rightarrow> (8, tl s))
      else (10, s))"

definition digit_of :: "char \<Rightarrow> nat option" where
  "digit_of c =
     (if is_digit c then Some (of_char c - 48)
      else if CHR ''a'' \<le> lower_byte c \<and> lower_byte c \<le> CHR ''z'' then Some (of_char (lower_byte c) - 87)
      else None)"

fun digits :: "nat \<Rightarrow> nat \<Rightarrow> string \<Rightarrow> nat option" where
  "digits b n [] = Some n"
| "digits b n (c # s) =
     (if c = CHR ''_'' then digits b n s
      else case digit_of c of Some d \<Rightarrow> if d < b then digits b (n * b + d) s else None | None \<Rightarrow> None)"

definition ParseInt :: "string \<Rightarrow> int64 option" where
  "ParseInt s =
     (if s = [] then None
      else case unsigned s of (neg, u) \<Rightarrow>
        (if u = [] then None
         else case base_of u of (b, ds) \<Rightarrow>
           (case digits b 0 ds of
              Some n \<Rightarrow>
                if CHR ''_'' \<in> set u \<and> \<not> underscoreOK u then None
                else if (if neg then n \<le> 2 ^ 63 else n < 2 ^ 63) then Some (word_of_int (if neg then - int n else int n))
                else None
            | None \<Rightarrow> None)))"

text \<open>The values \<open>strconv.ParseBool\<close> accepts.\<close>

definition ParseBool :: "string \<Rightarrow> bool option" where
  "ParseBool s =
     (if s \<in> set [''1'', ''t'', ''T'', ''true'', ''TRUE'', ''True''] then Some True
      else if s \<in> set [''0'', ''f'', ''F'', ''false'', ''FALSE'', ''False''] then Some False else None)"

text \<open>A flag set has the kinds of its flags; a parsed command line the values they were set to, the last
  one first, and the words left over. None is an error, the request for help among them.\<close>

datatype flag_kind = TextFlag | IntFlag | BoolFlag | PairFlag

definition flag_accepts :: "flag_kind \<Rightarrow> string \<Rightarrow> bool" where
  "flag_accepts k v = (case k of
       TextFlag \<Rightarrow> True
     | IntFlag \<Rightarrow> ParseInt v \<noteq> None
     | BoolFlag \<Rightarrow> ParseBool v \<noteq> None
     | PairFlag \<Rightarrow> metadataFlag_Set v \<noteq> None)"

type_synonym flag_values = "(string \<times> string) list"

fun parse_flags :: "(string \<times> flag_kind) list \<Rightarrow> string list \<Rightarrow> flag_values \<Rightarrow> (flag_values \<times> string list) option" where
  "parse_flags fs [] vs = Some (vs, [])"
| "parse_flags fs (s # args) vs =
     (if length s < 2 \<or> hd s \<noteq> CHR ''-'' then Some (vs, s # args)
      else if s = ''--'' then Some (vs, args)
      else
        (let body = drop (if s ! 1 = CHR ''-'' then 2 else 1) s;
             n = hd body # takeWhile (\<lambda>c. c \<noteq> CHR ''='') (tl body);
             rest = dropWhile (\<lambda>c. c \<noteq> CHR ''='') (tl body)
         in if hd body = CHR ''-'' \<or> hd body = CHR ''='' then None
            else case map_of fs n of
                None \<Rightarrow> None
              | Some k \<Rightarrow>
                  if rest \<noteq> [] then (if flag_accepts k (tl rest) then parse_flags fs args ((n, tl rest) # vs) else None)
                  else if k = BoolFlag then parse_flags fs args ((n, ''true'') # vs)
                  else (case args of
                          [] \<Rightarrow> None
                        | v # args' \<Rightarrow> if flag_accepts k v then parse_flags fs args' ((n, v) # vs) else None)))"

definition text_flag :: "flag_values \<Rightarrow> string \<Rightarrow> string" where
  "text_flag vs n = (case map_of vs n of Some v \<Rightarrow> v | None \<Rightarrow> [])"

definition int_flag :: "flag_values \<Rightarrow> string \<Rightarrow> int64" where
  "int_flag vs n = (case Option.bind (map_of vs n) ParseInt of Some i \<Rightarrow> i | None \<Rightarrow> 0)"

definition pair_flags :: "flag_values \<Rightarrow> string \<Rightarrow> (string \<times> string) list" where
  "pair_flags vs n = List.map_filter (\<lambda>(n', v). if n' = n then metadataFlag_Set v else None) (rev vs)"

section \<open>The command line tool\<close>

text \<open>What a command comes to: a request, or an error before there is one.\<close>

datatype command = Sends client_request | BadFlags | Refused string | Help | Unknown string

definition runKeysCreate :: "client \<Rightarrow> string list \<Rightarrow> command" where
  "runKeysCreate c args =
     (case parse_flags [(''name'', TextFlag), (''description'', TextFlag)] args [] of
        None \<Rightarrow> BadFlags
      | Some (vs, _) \<Rightarrow>
          if text_flag vs ''name'' = [] then Refused ''--name is required''
          else Sends (client_post c ''/api/v1/keys''
                 (set_text ''description'' (text_flag vs ''description'') [(''name'', json_str (text_flag vs ''name''))])))"

definition runKeys :: "client \<Rightarrow> string list \<Rightarrow> command" where
  "runKeys c args = (case args of
       [] \<Rightarrow> Refused ''usage: gateway-cli keys <create|list|revoke>''
     | sub # rest \<Rightarrow>
         if sub = ''create'' then runKeysCreate c rest
         else if sub = ''list'' then Sends (client_get c ''/api/v1/keys'')
         else if sub = ''revoke'' then
           (case rest of [] \<Rightarrow> Refused ''usage: gateway-cli keys revoke <id>'' | i # _ \<Rightarrow> Sends (client_delete c (''/api/v1/keys/'' @ i)))
         else Refused (''unknown keys subcommand: '' @ sub))"

definition runProviderKeysAdd :: "client \<Rightarrow> string list \<Rightarrow> command" where
  "runProviderKeysAdd c args =
     (case parse_flags [(''provider'', TextFlag), (''key'', TextFlag)] args [] of
        None \<Rightarrow> BadFlags
      | Some (vs, _) \<Rightarrow>
          if text_flag vs ''provider'' = [] \<or> text_flag vs ''key'' = [] then Refused ''--provider and --key are required''
          else Sends (client_post c ''/api/v1/provider-keys''
                 [(''key'', json_str (text_flag vs ''key'')), (''provider'', json_str (text_flag vs ''provider''))]))"

definition runProviderKeys :: "client \<Rightarrow> string list \<Rightarrow> command" where
  "runProviderKeys c args = (case args of
       [] \<Rightarrow> Refused ''usage: gateway-cli provider-keys <add|list|remove>''
     | sub # rest \<Rightarrow>
         if sub = ''add'' then runProviderKeysAdd c rest
         else if sub = ''list'' then Sends (client_get c ''/api/v1/provider-keys'')
         else if sub = ''remove'' then
           (case rest of
              [] \<Rightarrow> Refused ''usage: gateway-cli provider-keys remove <provider>''
            | p # _ \<Rightarrow> Sends (client_delete c (''/api/v1/provider-keys/'' @ p)))
         else Refused (''unknown provider-keys subcommand: '' @ sub))"

definition runMetadataToggle :: "client \<Rightarrow> string \<Rightarrow> string list \<Rightarrow> command" where
  "runMetadataToggle c action args =
     (case parse_flags [(''api-key'', TextFlag)] args [] of
        None \<Rightarrow> BadFlags
      | Some (vs, rest) \<Rightarrow>
          let apiKey = text_flag vs ''api-key''; keyName = (case rest of [] \<Rightarrow> [] | k # _ \<Rightarrow> k) in
          if apiKey = [] \<or> keyName = [] then Refused (''usage: gateway-cli metadata '' @ action @ '' --api-key <id> <metadata-key>'')
          else Sends (client_post c (''/api/v1/metadata/'' @ action) [(''api_key_id'', json_str apiKey), (''key_name'', json_str keyName)]))"

definition runMetadata :: "client \<Rightarrow> string list \<Rightarrow> command" where
  "runMetadata c args = (case args of
       [] \<Rightarrow> Refused ''usage: gateway-cli metadata <list|activate|deactivate>''
     | sub # rest \<Rightarrow>
         if sub = ''list'' then Sends (client_get c ''/api/v1/metadata'')
         else if sub = ''activate'' then runMetadataToggle c ''activate'' rest
         else if sub = ''deactivate'' then runMetadataToggle c ''deactivate'' rest
         else Refused (''unknown metadata subcommand: '' @ sub))"

text \<open>The filter flags and whether the answer is printed as it is.\<close>

definition usage_flag_kinds :: "(string \<times> flag_kind) list" where
  "usage_flag_kinds =
     [(''preset'', TextFlag), (''start'', TextFlag), (''end'', TextFlag), (''provider'', TextFlag), (''model'', TextFlag),
      (''api-key'', TextFlag), (''status'', TextFlag), (''limit'', IntFlag), (''offset'', IntFlag), (''json'', BoolFlag),
      (''metadata'', PairFlag)]"

definition usage_flags_of :: "flag_values \<Rightarrow> usage_flags" where
  "usage_flags_of vs = \<lparr>fl_preset = text_flag vs ''preset'', fl_start = text_flag vs ''start'', fl_end = text_flag vs ''end'',
     fl_provider = text_flag vs ''provider'', fl_model = text_flag vs ''model'', fl_apiKey = text_flag vs ''api-key'',
     fl_status = text_flag vs ''status'', fl_limit = int_flag vs ''limit'', fl_offset = int_flag vs ''offset'',
     fl_metadata = pair_flags vs ''metadata''\<rparr>"

definition usage_paths :: "(string \<times> string) list" where
  "usage_paths =
     [(''summary'', ''/api/v1/usage/summary''), (''models'', ''/api/v1/usage/models''), (''providers'', ''/api/v1/usage/providers''),
      (''keys'', ''/api/v1/usage/api-keys''), (''requests'', ''/api/v1/usage/requests''), (''runs'', ''/api/v1/usage/runs''),
      (''errors'', ''/api/v1/usage/errors''), (''latency'', ''/api/v1/usage/latency''), (''daily'', ''/api/v1/usage/daily'')]"

definition runUsage :: "client \<Rightarrow> string list \<Rightarrow> command" where
  "runUsage c args = (case args of
       [] \<Rightarrow> Refused ''usage: gateway-cli usage <summary|models|providers|keys|errors|latency|requests|runs|run>''
     | sub # rest \<Rightarrow>
         if sub = ''run'' then
           (case rest of [] \<Rightarrow> Refused ''usage: gateway-cli usage run <traceId>'' | t # _ \<Rightarrow> Sends (client_get c (''/api/v1/usage/runs/'' @ t)))
         else if sub = ''request'' then
           (case rest of
              [] \<Rightarrow> Refused ''usage: gateway-cli usage request <id> [--body]''
            | i # _ \<Rightarrow> Sends (client_get c (''/api/v1/usage/requests/'' @ i @ (if ''--body'' \<in> set rest then ''/body'' else []))))
         else case parse_flags usage_flag_kinds rest [] of
             None \<Rightarrow> BadFlags
           | Some (vs, _) \<Rightarrow>
               (case map_of usage_paths sub of
                  None \<Rightarrow> Refused (''unknown usage subcommand: '' @ sub)
                | Some path \<Rightarrow> Sends (client_post c path (parseUsageFlags (usage_flags_of vs)))))"

text \<open>The flags before the command, and the command.\<close>

fun global_flags :: "string \<Rightarrow> string \<Rightarrow> string list \<Rightarrow> string \<times> string \<times> string list" where
  "global_flags apiURL token (a # v # args) =
     (if a = ''--api-url'' then global_flags v token args
      else if a = ''--token'' then global_flags apiURL v args
      else (apiURL, token, a # v # args))"
| "global_flags apiURL token args = (apiURL, token, args)"

definition run_command :: "client \<Rightarrow> string list \<Rightarrow> command" where
  "run_command c args = (case args of
       [] \<Rightarrow> Help
     | cmd # rest \<Rightarrow>
         if cmd = ''keys'' then runKeys c rest
         else if cmd = ''provider-keys'' then runProviderKeys c rest
         else if cmd = ''metadata'' then runMetadata c rest
         else if cmd = ''usage'' then runUsage c rest
         else if cmd \<in> set [''help'', ''-h'', ''--help''] then Help
         else Unknown cmd)"

definition defaultAPIURL :: string where "defaultAPIURL = ''http://localhost:6560''"

definition cli_main :: "(string \<Rightarrow> string option) \<Rightarrow> string list \<Rightarrow> command" where
  "cli_main env args =
     (case global_flags (envOr env ''GATEWAY_URL'' defaultAPIURL) (envOr env ''GATEWAY_TOKEN'' []) args of
        (apiURL, token, rest) \<Rightarrow> run_command (newClient apiURL token) rest)"

section \<open>The MCP tools\<close>

text \<open>The tools that send the filter, with their paths, and the paths of the others.\<close>

definition mcp_post_tools :: "(string \<times> string) list" where
  "mcp_post_tools =
     [(''usage_summary'', ''/api/v1/usage/summary''), (''usage_by_model'', ''/api/v1/usage/models''),
      (''usage_by_provider'', ''/api/v1/usage/providers''), (''usage_by_api_key'', ''/api/v1/usage/api-keys''),
      (''error_summary'', ''/api/v1/usage/errors''), (''recent_errors'', ''/api/v1/usage/errors/recent''),
      (''latency_stats'', ''/api/v1/usage/latency''), (''list_requests'', ''/api/v1/usage/requests''),
      (''list_runs'', ''/api/v1/usage/runs'')]"

datatype mcp_call =
  PostTool string usageFilter | UsageByMetadata string usageFilter | GetRunTreeTool string | GetRequestBodyTool string
| ListMetadataKeysTool | GetRequestTool string

text \<open>None is a tool that does not exist.\<close>

fun mcp_request :: "client \<Rightarrow> mcp_call \<Rightarrow> client_request option" where
  "mcp_request c (PostTool name f) = map_option (\<lambda>path. client_post c path (mcp_body f)) (map_of mcp_post_tools name)"
| "mcp_request c (UsageByMetadata key f) = Some (client_post c (''/api/v1/usage/metadata/'' @ key) (mcp_body f))"
| "mcp_request c (GetRunTreeTool trace) = Some (client_get c (''/api/v1/usage/runs/'' @ trace))"
| "mcp_request c (GetRequestBodyTool i) = Some (client_get c (''/api/v1/usage/requests/'' @ i @ ''/body''))"
| "mcp_request c ListMetadataKeysTool = Some (client_get c ''/api/v1/metadata'')"
| "mcp_request c (GetRequestTool i) = Some (client_get c (''/api/v1/usage/requests/'' @ i))"

section \<open>Every request has a handler\<close>

text \<open>A pattern with its parameter filled in, and the requests that carry the token of the client and call a
  registered route, with a word of the command as parameter.\<close>

definition filled :: "string \<Rightarrow> string \<Rightarrow> string" where
  "filled pat p = takeWhile (\<lambda>c. c \<noteq> CHR ''{'') pat @ p @ tl (dropWhile (\<lambda>c. c \<noteq> CHR ''}'') pat)"

definition fills :: "string list \<Rightarrow> string \<Rightarrow> string \<Rightarrow> bool" where
  "fills ws pat path \<longleftrightarrow> path = pat \<and> CHR ''{'' \<notin> set pat \<or> CHR ''{'' \<in> set pat \<and> list_ex (\<lambda>p. path = filled pat p) ws"

definition calls_route :: "route list \<Rightarrow> client \<Rightarrow> string list \<Rightarrow> client_request \<Rightarrow> bool" where
  "calls_route routes c ws cr \<longleftrightarrow>
     hdr_get (cr_Header cr) ''Authorization'' = (if cn_token c \<noteq> [] then bearer @ cn_token c else [])
     \<and> list_ex (\<lambda>(m, pat). m = cr_Method cr \<and> prefix (cn_baseURL c @ ''/api/v1'') (cr_URL cr)
       \<and> fills ws pat (drop (length (cn_baseURL c @ ''/api/v1'')) (cr_URL cr))) routes"

definition api_patterns :: "aes_store \<Rightarrow> route list" where
  "api_patterns store = map fst (api_routes (Some store))"

lemma api_patterns_list:
  "api_patterns store =
     [(''POST'', ''/keys''), (''GET'', ''/keys''), (''DELETE'', ''/keys/{id}''),
      (''POST'', ''/usage/summary''), (''POST'', ''/usage/daily''), (''POST'', ''/usage/models''), (''POST'', ''/usage/providers''),
      (''POST'', ''/usage/api-keys''), (''POST'', ''/usage/errors''), (''POST'', ''/usage/errors/recent''), (''POST'', ''/usage/latency''),
      (''POST'', ''/usage/requests''), (''POST'', ''/usage/runs''), (''POST'', ''/usage/metadata/{keyName}''),
      (''GET'', ''/usage/runs/{traceId}''), (''GET'', ''/usage/requests/{id}''), (''GET'', ''/usage/requests/{id}/body''),
      (''GET'', ''/metadata''), (''POST'', ''/metadata/activate''), (''POST'', ''/metadata/deactivate''),
      (''POST'', ''/provider-keys''), (''GET'', ''/provider-keys''), (''DELETE'', ''/provider-keys/{provider}'')]"
  by (simp add: api_patterns_def api_routes_def keys_RegisterRoutes_def usage_RegisterRoutes_def metadata_RegisterRoutes_def
      providers_RegisterRoutes_def)

lemma client_fields [simp]:
  "cr_Method (client_get c p) = ''GET''" "cr_URL (client_get c p) = cn_baseURL c @ p"
  "cr_Method (client_post c p b) = ''POST''" "cr_URL (client_post c p b) = cn_baseURL c @ p"
  "cr_Method (client_delete c p) = ''DELETE''" "cr_URL (client_delete c p) = cn_baseURL c @ p"
  by (simp_all add: client_get_def client_post_def client_delete_def client_do_def)

lemma sent_token [simp]:
  "hdr_get (cr_Header (client_get c p)) ''Authorization'' = (if cn_token c \<noteq> [] then bearer @ cn_token c else [])"
  "hdr_get (cr_Header (client_post c p b)) ''Authorization'' = (if cn_token c \<noteq> [] then bearer @ cn_token c else [])"
  "hdr_get (cr_Header (client_delete c p)) ''Authorization'' = (if cn_token c \<noteq> [] then bearer @ cn_token c else [])"
  by (simp_all add: client_get_def client_post_def client_delete_def client_do_def hdr_get_set) (simp_all add: hdr_get_def hdr_set_def)

lemma calls_routeI:
  "hdr_get (cr_Header cr) ''Authorization'' = (if cn_token c \<noteq> [] then bearer @ cn_token c else []) \<Longrightarrow>
     cr_URL cr = cn_baseURL c @ ''/api/v1'' @ path \<Longrightarrow> (cr_Method cr, pat) \<in> set routes \<Longrightarrow> fills ws pat path \<Longrightarrow>
     calls_route routes c ws cr"
  by (auto simp: calls_route_def list_ex_iff prefix_def intro!: bexI [of _ "(cr_Method cr, pat)"])

lemma fills_fixed: "CHR ''{'' \<notin> set pat \<Longrightarrow> fills ws pat pat"
  by (simp add: fills_def)

lemma fills_word: "p \<in> set ws \<Longrightarrow> CHR ''{'' \<in> set pat \<Longrightarrow> fills ws pat (filled pat p)"
  by (auto simp: fills_def list_ex_iff)

text \<open>The routes by their keys, as \<open>known\<close> requests: a fixed path, or a word at the end or before \<open>/body\<close>.\<close>

lemma post_known:
  assumes "prefix ''/api/v1'' path" and "CHR ''{'' \<notin> set path" and "(''POST'', drop 7 path) \<in> set (api_patterns store)"
  shows "calls_route (api_patterns store) c ws (client_post c path b)"
proof -
  obtain pat where "path = ''/api/v1'' @ pat" using assms(1) by (auto simp: prefix_def)
  with assms(2,3) show ?thesis by (intro calls_routeI [of _ _ pat pat] fills_fixed) auto
qed

lemma get_known:
  assumes "prefix ''/api/v1'' path" and "CHR ''{'' \<notin> set path" and "(''GET'', drop 7 path) \<in> set (api_patterns store)"
  shows "calls_route (api_patterns store) c ws (client_get c path)"
proof -
  obtain pat where "path = ''/api/v1'' @ pat" using assms(1) by (auto simp: prefix_def)
  with assms(2,3) show ?thesis by (intro calls_routeI [of _ _ pat pat] fills_fixed) auto
qed

lemma fixed_posts:
  "\<forall>path \<in> set ([''/api/v1/keys'', ''/api/v1/provider-keys'', ''/api/v1/metadata/activate'', ''/api/v1/metadata/deactivate'']
       @ map snd usage_paths @ map snd mcp_post_tools).
     prefix ''/api/v1'' path \<and> CHR ''{'' \<notin> set path \<and> (''POST'', drop 7 path) \<in> set (api_patterns store)"
proof -
  have "list_all (\<lambda>path. prefix ''/api/v1'' path \<and> CHR ''{'' \<notin> set path \<and> (''POST'', drop 7 path) \<in> set (api_patterns store))
      ([''/api/v1/keys'', ''/api/v1/provider-keys'', ''/api/v1/metadata/activate'', ''/api/v1/metadata/deactivate'']
       @ map snd usage_paths @ map snd mcp_post_tools)"
    unfolding api_patterns_list by code_simp
  then show ?thesis unfolding list_all_iff .
qed

lemma fixed_gets:
  "\<forall>path \<in> set [''/api/v1/keys'', ''/api/v1/provider-keys'', ''/api/v1/metadata''].
     prefix ''/api/v1'' path \<and> CHR ''{'' \<notin> set path \<and> (''GET'', drop 7 path) \<in> set (api_patterns store)"
proof -
  have "list_all (\<lambda>path. prefix ''/api/v1'' path \<and> CHR ''{'' \<notin> set path \<and> (''GET'', drop 7 path) \<in> set (api_patterns store))
      [''/api/v1/keys'', ''/api/v1/provider-keys'', ''/api/v1/metadata'']"
    unfolding api_patterns_list by code_simp
  then show ?thesis unfolding list_all_iff .
qed

lemma word_routes:
  "list_all (\<lambda>rt. rt \<in> set (api_patterns store) \<and> CHR ''{'' \<in> set (snd rt))
     [(''DELETE'', ''/keys/{id}''), (''DELETE'', ''/provider-keys/{provider}''), (''POST'', ''/usage/metadata/{keyName}''),
      (''GET'', ''/usage/runs/{traceId}''), (''GET'', ''/usage/requests/{id}''), (''GET'', ''/usage/requests/{id}/body'')]"
  unfolding api_patterns_list by code_simp

lemma word_call:
  assumes "hdr_get (cr_Header cr) ''Authorization'' = (if cn_token c \<noteq> [] then bearer @ cn_token c else [])"
    and "cr_URL cr = cn_baseURL c @ ''/api/v1'' @ filled pat p" and "p \<in> set ws"
    and "(cr_Method cr, pat) \<in> set [(''DELETE'', ''/keys/{id}''), (''DELETE'', ''/provider-keys/{provider}''), (''POST'', ''/usage/metadata/{keyName}''),
      (''GET'', ''/usage/runs/{traceId}''), (''GET'', ''/usage/requests/{id}''), (''GET'', ''/usage/requests/{id}/body'')]"
  shows "calls_route (api_patterns store) c ws cr"
proof -
  have "(cr_Method cr, pat) \<in> set (api_patterns store)" and b: "CHR ''{'' \<in> set pat"
    using assms(4) word_routes [of store, unfolded list_all_iff] by (simp_all only: snd_conv) fastforce+
  with assms(1-3) show ?thesis by (intro calls_routeI [of _ _ "filled pat p" pat] fills_word)
qed

lemma known_post:
  "path \<in> set ([''/api/v1/keys'', ''/api/v1/provider-keys'', ''/api/v1/metadata/activate'', ''/api/v1/metadata/deactivate'']
       @ map snd usage_paths @ map snd mcp_post_tools) \<Longrightarrow> calls_route (api_patterns store) c ws (client_post c path b)"
  by (drule bspec [OF fixed_posts [of store]]) (blast intro: post_known)

lemma known_get:
  "path \<in> set [''/api/v1/keys'', ''/api/v1/provider-keys'', ''/api/v1/metadata''] \<Longrightarrow>
     calls_route (api_patterns store) c ws (client_get c path)"
  by (drule bspec [OF fixed_gets [of store]]) (blast intro: get_known)

lemma known_calls [intro]:
  "calls_route (api_patterns store) c ws (client_post c ''/api/v1/keys'' b)"
  "calls_route (api_patterns store) c ws (client_post c ''/api/v1/provider-keys'' b)"
  "calls_route (api_patterns store) c ws (client_post c (''/api/v1/metadata/'' @ ''activate'') b)"
  "calls_route (api_patterns store) c ws (client_post c (''/api/v1/metadata/'' @ ''deactivate'') b)"
  "calls_route (api_patterns store) c ws (client_get c ''/api/v1/keys'')"
  "calls_route (api_patterns store) c ws (client_get c ''/api/v1/provider-keys'')"
  "calls_route (api_patterns store) c ws (client_get c ''/api/v1/metadata'')"
  by (rule known_post known_get, simp)+

lemma known_words [intro]:
  "p \<in> set ws \<Longrightarrow> calls_route (api_patterns store) c ws (client_delete c (''/api/v1/keys/'' @ p))"
  "p \<in> set ws \<Longrightarrow> calls_route (api_patterns store) c ws (client_delete c (''/api/v1/provider-keys/'' @ p))"
  "p \<in> set ws \<Longrightarrow> calls_route (api_patterns store) c ws (client_post c (''/api/v1/usage/metadata/'' @ p) b)"
  "p \<in> set ws \<Longrightarrow> calls_route (api_patterns store) c ws (client_get c (''/api/v1/usage/runs/'' @ p))"
  "p \<in> set ws \<Longrightarrow> calls_route (api_patterns store) c ws (client_get c (''/api/v1/usage/requests/'' @ p))"
  "p \<in> set ws \<Longrightarrow> calls_route (api_patterns store) c ws (client_get c (''/api/v1/usage/requests/'' @ p @ ''/body''))"
  subgoal by (rule word_call [of _ _ "''/keys/{id}''" p]) (simp_all add: filled_def)
  subgoal by (rule word_call [of _ _ "''/provider-keys/{provider}''" p]) (simp_all add: filled_def)
  subgoal by (rule word_call [of _ _ "''/usage/metadata/{keyName}''" p]) (simp_all add: filled_def)
  subgoal by (rule word_call [of _ _ "''/usage/runs/{traceId}''" p]) (simp_all add: filled_def)
  subgoal by (rule word_call [of _ _ "''/usage/requests/{id}''" p]) (simp_all add: filled_def)
  subgoal by (rule word_call [of _ _ "''/usage/requests/{id}/body''" p]) (simp_all add: filled_def)
  done

lemma posted_path:
  "map_of usage_paths sub = Some path \<Longrightarrow> calls_route (api_patterns store) c ws (client_post c path b)"
  "map_of mcp_post_tools sub = Some path \<Longrightarrow> calls_route (api_patterns store) c ws (client_post c path b)"
  by (rule known_post; drule map_of_SomeD; force)+

lemma keys_call: "runKeys c args = Sends cr \<Longrightarrow> calls_route (api_patterns store) c args cr"
  by (auto simp: runKeys_def runKeysCreate_def simp del: append.simps split: list.splits if_splits option.splits)

lemma provider_call: "runProviderKeys c args = Sends cr \<Longrightarrow> calls_route (api_patterns store) c args cr"
  by (auto simp: runProviderKeys_def runProviderKeysAdd_def simp del: append.simps split: list.splits if_splits option.splits)

lemma metadata_call: "runMetadata c args = Sends cr \<Longrightarrow> calls_route (api_patterns store) c args cr"
  by (auto simp: runMetadata_def runMetadataToggle_def Let_def simp del: append.simps split: list.splits if_splits option.splits)

lemma usage_call: "runUsage c args = Sends cr \<Longrightarrow> calls_route (api_patterns store) c args cr"
  by (auto simp: runUsage_def simp del: append.simps intro: posted_path split: list.splits if_splits option.splits)

lemma calls_route_mono: "calls_route routes c ws cr \<Longrightarrow> set ws \<subseteq> set ws' \<Longrightarrow> calls_route routes c ws' cr"
  by (fastforce simp: calls_route_def fills_def list_ex_iff)

lemma command_call: "run_command c args = Sends cr \<Longrightarrow> calls_route (api_patterns store) c args cr"
  by (cases args) (auto simp: run_command_def dest: keys_call provider_call metadata_call usage_call
      intro: calls_route_mono split: if_splits)

fun call_words :: "mcp_call \<Rightarrow> string list" where
  "call_words (UsageByMetadata key _) = [key]"
| "call_words (GetRunTreeTool trace) = [trace]"
| "call_words (GetRequestBodyTool i) = [i]"
| "call_words (GetRequestTool i) = [i]"
| "call_words _ = []"

lemma mcp_call: "mcp_request c call = Some cr \<Longrightarrow> calls_route (api_patterns store) c (call_words call) cr"
  by (cases call) (auto simp del: append.simps intro: posted_path)

text \<open>The token passes the guard of a server that has the same one.\<close>

lemma token_passes:
  assumes "calls_route routes c ws cr" and "cn_token c \<noteq> []" and "trim_space (cn_token c) = cn_token c"
    and "hq_Header r = cr_Header cr"
  shows "adminAuthMiddleware (cn_token c) next r s = next r s"
  using assms by (simp add: calls_route_def adminAuthMiddleware_def bearer_def)



end
