(* ===== verification/Float_Roundtrip.thy ===== *)
theory Float_Roundtrip
  imports Go_Float_Text
begin

text \<open>
  The shortest decimal of a float reads back: the search for it in \<open>Go_Float_Text\<close> always ends, with 17
  digits at the latest, the layout keeps its value, and so the JSON text of a finite number decodes to it.
\<close>

section \<open>What rounds to a given float\<close>

lemma rhe_near: "\<bar>y - of_int n\<bar> < 1 / 2 \<Longrightarrow> rhe y = n"
proof -
  assume y: "\<bar>y - of_int n\<bar> < 1 / 2"
  show ?thesis
  proof (cases "of_int n \<le> y")
    case True
    with y have "\<lfloor>y\<rfloor> = n" by (intro floor_unique) auto
    with y True show ?thesis by (simp add: rhe_def Let_def)
  next
    case False
    with y have "\<lfloor>y\<rfloor> = n - 1" by (intro floor_unique) auto
    with y False show ?thesis by (simp add: rhe_def Let_def)
  qed
qed

lemma rnd_pos_near:
  assumes "0 < y" and "x * scale53 y = of_int n" and "\<bar>y - x\<bar> * scale53 y < 1 / 2"
  shows "rnd_pos y = x"
proof -
  have "\<bar>y * scale53 y - of_int n\<bar> < 1 / 2"
  proof -
    have "y * scale53 y - of_int n = (y - x) * scale53 y"
      using assms(2) by (simp add: algebra_simps)
    then show ?thesis
      using assms(3) scale53_pos [of y] by (simp add: abs_mult del: scale53_pos)
  qed
  then have "rhe (y * scale53 y) = n" by (rule rhe_near)
  then show ?thesis using assms(2) scale53_nz [of y] by (simp add: rnd_pos_def divide_eq_eq del: scale53_nz)
qed

lemma float_mantissa:
  assumes "0 < x" and "rnd53 x = x"
  obtains n where "x * scale53 x = of_int n" "2 ^ 52 \<le> n" "n < 2 ^ 53"
proof
  have "rnd_pos x = x" using assms by (simp add: rnd53_def)
  then show e: "x * scale53 x = of_int (rhe (x * scale53 x))"
    using scale53_nz [of x] by (simp add: rnd_pos_def divide_eq_eq del: scale53_nz)
  show "2 ^ 52 \<le> rhe (x * scale53 x)" using mantissa_bounds(1) [OF assms(1)] .
  have "x * scale53 x < 2 powi (ilog2 x + 1) * scale53 x"
    using ilog2_bounds(2) [OF assms(1)] by simp
  also have "\<dots> = of_int (2 ^ 53)" by (simp add: scale53_def power_int_diff power_int_add)
  finally show "rhe (x * scale53 x) < 2 ^ 53" using e by (metis of_int_less_iff)
qed

text \<open>A number within half a unit in the last place rounds to it, and one below a power of two within a
  quarter of one.\<close>

lemma rounds_to:
  assumes x: "0 < x" "rnd53 x = x" and near: "\<bar>y - x\<bar> < 2 powi (ilog2 x - 53)"
    and low: "2 powi ilog2 x \<le> y \<or> \<bar>y - x\<bar> < 2 powi (ilog2 x - 54)"
  shows "rnd53 y = x"
proof -
  let ?l = "ilog2 x"
  obtain n where n: "x * scale53 x = of_int n" "2 ^ 52 \<le> n" "n < 2 ^ 53" using x by (rule float_mantissa)
  have half: "2 powi (?l - 53) * scale53 x = 1 / 2" and quarter: "2 powi (?l - 54) * scale53 x = 1 / 4"
    by (simp_all add: scale53_def power_int_diff)
  have one: "2 powi ?l * scale53 x = of_int (2 ^ 52)" by (simp add: scale53_def power_int_diff)
  show ?thesis
  proof (cases "2 powi ?l \<le> y")
    case True
    have "y * scale53 x \<le> x * scale53 x + \<bar>y - x\<bar> * scale53 x"
      by (simp add: distrib_right [symmetric])
    also have "\<dots> < of_int n + 1 / 2"
      using near half n(1) by (metis add_strict_left_mono mult_strict_right_mono scale53_pos)
    also have "\<dots> \<le> of_int (2 ^ 53)" using n(3) by linarith
    also have "\<dots> = 2 powi (?l + 1) * scale53 x" by (simp add: scale53_def power_int_diff power_int_add)
    finally have "y < 2 powi (?l + 1)" by simp
    with True have l: "ilog2 y = ?l" by (intro ilog2_unique)
    then have s: "scale53 y = scale53 x" by (simp add: scale53_def)
    have y: "0 < y" using True by (meson less_le_trans zero_less_numeral zero_less_power_int)
    have h: "\<bar>y - x\<bar> * scale53 x < 1 / 2" using mult_strict_right_mono [OF near scale53_pos [of x]] half by simp
    have "rnd_pos y = x" by (rule rnd_pos_near [OF y]) (use n(1) h in \<open>simp_all add: s\<close>)
    with y show ?thesis by (simp add: rnd53_def)
  next
    case False
    with low have q: "\<bar>y - x\<bar> < 2 powi (?l - 54)" by blast
    have "x * scale53 x < of_int (2 ^ 52) + 1 / 4"
    proof -
      have "x * scale53 x \<le> y * scale53 x + \<bar>y - x\<bar> * scale53 x" by (simp add: distrib_right [symmetric])
      also have "\<dots> < 2 powi ?l * scale53 x + 2 powi (?l - 54) * scale53 x"
        using False q by (intro add_strict_mono) simp_all
      finally show ?thesis by (simp only: one quarter)
    qed
    then have "n = 2 ^ 52" using n(1,2) by simp
    then have xl: "x = 2 powi ?l" using n(1) one scale53_nz [of x] by (metis mult_right_cancel)
    have "2 powi (?l - 1) \<le> y"
    proof -
      have "2 powi (?l - 54) \<le> (2::rat) powi (?l - 1)" by (intro power_int_increasing) auto
      moreover have "2 powi ?l = 2 powi (?l - 1) + (2::rat) powi (?l - 1)" by (simp add: power_int_diff)
      ultimately show ?thesis using q xl by linarith
    qed
    with False have l: "ilog2 y = ?l - 1" by (intro ilog2_unique) simp_all
    have s: "scale53 y = 2 * scale53 x" by (simp add: scale53_def l power_int_diff power_int_add)
    have y: "0 < y" using \<open>2 powi (?l - 1) \<le> y\<close> by (meson less_le_trans zero_less_numeral zero_less_power_int)
    have "rnd_pos y = x"
    proof (rule rnd_pos_near [OF y, of _ "2 * n"])
      show "x * scale53 y = of_int (2 * n)" using n(1) by (simp add: s)
      have "\<bar>y - x\<bar> * scale53 x < 2 powi (?l - 54) * scale53 x" using q by simp
      then show "\<bar>y - x\<bar> * scale53 y < 1 / 2" by (simp add: s quarter)
    qed
    with y show ?thesis by (simp add: rnd53_def)
  qed
qed

section \<open>The decimal exponent\<close>

text \<open>Bounds of the logarithm: \<open>2 ^ 196\<close> is just above \<open>10 ^ 59\<close>, and \<open>2 ^ 93\<close> just below \<open>10 ^ 28\<close>.\<close>

lemma powi_power: "((b::rat) powi q) ^ n = b powi (q * int n)"
  by (metis power_int_mult power_int_of_nat)

lemma powi_compare:
  assumes c: "(a::rat) ^ m \<le> b ^ n" and ab: "1 \<le> a" "0 < b" and mn: "0 < n" and q: "int n * q \<le> int m * e" and e: "0 \<le> e"
  shows "a powi q \<le> b powi e"
proof -
  have a0: "0 < a" using ab(1) by simp
  have "(a powi q) ^ n = a powi (int n * q)" by (simp add: powi_power mult.commute)
  also have "\<dots> \<le> a powi (int m * e)" using q ab(1) by (intro power_int_increasing)
  also have "\<dots> = (a ^ m) ^ nat e" using e by (simp add: power_int_def nat_mult_distrib power_mult)
  also have "\<dots> \<le> (b ^ n) ^ nat e" using c a0 by (intro power_mono) simp_all
  also have "\<dots> = (b powi e) ^ n" using e by (simp add: power_int_def power_mult [symmetric] mult.commute)
  finally show ?thesis
    using mn ab(2) by (cases n) (auto intro: power_le_imp_le_base simp del: power_Suc)
qed

lemma ten_le_two:
  assumes "0 \<le> e \<and> 196 * q \<le> 59 * e \<or> e < 0 \<and> 93 * q \<le> 28 * e"
  shows "(10::rat) powi q \<le> 2 powi e"
proof (cases "0 \<le> e")
  case True
  with assms show ?thesis by (intro powi_compare [of 10 59 2 196]) simp_all
next
  case False
  with assms have "(2::rat) powi (- e) \<le> 10 powi (- q)"
    by (intro powi_compare [of 2 93 10 28]) simp_all
  then show ?thesis by (simp add: power_int_minus)
qed

lemma two_le_ten:
  assumes "0 \<le> e \<and> 28 * e \<le> 93 * q \<or> e < 0 \<and> 59 * e \<le> 196 * q"
  shows "(2::rat) powi e \<le> 10 powi q"
proof (cases "0 \<le> e")
  case True
  with assms show ?thesis by (intro powi_compare [of 2 93 10 28]) simp_all
next
  case False
  with assms have "(10::rat) powi (- q) \<le> 2 powi (- e)"
    by (intro powi_compare [of 10 59 2 196]) simp_all
  then show ?thesis by (simp add: power_int_minus)
qed

text \<open>The format itself has binary exponents between -1074 and 1023.\<close>

lemma ilog10_bounds:
  assumes x: "0 < x" and l: "\<bar>ilog2 x\<bar> \<le> 10000"
  shows "pow10 (ilog10 x) \<le> x" and "x < pow10 (ilog10 x + 1)"
proof -
  let ?l = "ilog2 x"
  define e where "e = ?l * 30103 div 100000"
  have e: "100000 * e \<le> 30103 * ?l" "30103 * ?l < 100000 * e + 100000" by (simp_all add: e_def)
  have "pow10 (e - 1) \<le> 2 powi ?l"
    unfolding pow10_def using e l by (intro ten_le_two) (cases "0 \<le> ?l"; simp)
  also have "\<dots> \<le> x" using x by (rule ilog2_bounds)
  finally have lo: "pow10 (e - 1) \<le> x" .
  have "x < 2 powi (?l + 1)" using x by (rule ilog2_bounds)
  also have "\<dots> \<le> pow10 (e + 2)"
    unfolding pow10_def using e l by (intro two_le_ten) (cases "0 \<le> ?l + 1"; simp)
  finally have hi: "x < pow10 (e + 2)" .
  have "ilog10 x = (if x < pow10 e then e - 1 else if pow10 (e + 1) \<le> x then e + 1 else e)"
    by (simp add: ilog10_def e_def Let_def)
  with lo hi show "pow10 (ilog10 x) \<le> x" and "x < pow10 (ilog10 x + 1)" by (auto simp: add.commute)
qed

section \<open>Seventeen digits are enough\<close>

lemma seventeen:
  assumes x: "0 < x" "rnd53 x = x" and l: "\<bar>ilog2 x\<bar> \<le> 10000" and k: "k = ilog10 x - 16"
  shows "rnd53 (of_int (rhe (x / pow10 k)) * pow10 k) = x"
proof -
  let ?y = "of_int (rhe (x / pow10 k)) * pow10 k" and ?l = "ilog2 x"
  have p: "0 < pow10 k" by (simp add: pow10_def)
  have near: "\<bar>?y - x\<bar> \<le> pow10 k / 2"
  proof -
    have "\<bar>of_int (rhe z) - z\<bar> \<le> 1 / 2" for z :: rat by (auto simp: rhe_def Let_def abs_if) linarith+
    then have "\<bar>of_int (rhe (x / pow10 k)) - x / pow10 k\<bar> * pow10 k \<le> 1 / 2 * pow10 k"
      using p by (intro mult_right_mono) simp_all
    moreover have "(of_int (rhe (x / pow10 k)) - x / pow10 k) * pow10 k = ?y - x" using p by (simp add: algebra_simps)
    ultimately show ?thesis using p by (metis abs_mult abs_of_pos mult.commute times_divide_eq_right mult.right_neutral)
  qed
  have dig: "pow10 k * 10000000000000000 \<le> x"
    using ilog10_bounds(1) [OF x(1) l] by (simp add: k pow10_def power_int_diff)
  have up: "x < 2 * 2 powi ?l" using ilog2_bounds(2) [OF x(1)] by (simp add: power_int_add)
  have powers: "2 powi (?l - 52) = 2 powi ?l / (4503599627370496::rat)" "2 powi (?l - 53) = 2 powi ?l / (9007199254740992::rat)"
      "2 powi (?l - 54) = 2 powi ?l / (18014398509481984::rat)"
    by (simp_all add: power_int_diff)
  show ?thesis
  proof (rule rounds_to [OF x])
    have "pow10 k / 2 < 2 powi (?l - 53)" using dig up p unfolding powers by linarith
    with near show "\<bar>?y - x\<bar> < 2 powi (?l - 53)" by (rule le_less_trans)
    show "2 powi ?l \<le> ?y \<or> \<bar>?y - x\<bar> < 2 powi (?l - 54)"
    proof (cases "x = 2 powi ?l")
      case True
      then have "pow10 k / 2 < 2 powi (?l - 54)" using dig p unfolding powers by linarith
      with near show ?thesis by linarith
    next
      case False
      obtain n where n: "x * scale53 x = of_int n" "2 ^ 52 \<le> n" using x by (rule float_mantissa)
      have one: "2 powi ?l * scale53 x = of_int (2 ^ 52)" by (simp add: scale53_def power_int_diff)
      have "n \<noteq> 2 ^ 52" using False n(1) one scale53_nz [of x] by (metis mult_right_cancel)
      with n(2) have "of_int (2 ^ 52) + 1 \<le> (of_int n :: rat)" by linarith
      then have "2 powi ?l * scale53 x + 2 powi (?l - 52) * scale53 x \<le> x * scale53 x"
        by (simp only: one n(1)) (simp add: scale53_def power_int_diff)
      then have "2 powi ?l + 2 powi (?l - 52) \<le> x" by (simp only: distrib_right [symmetric]) simp
      moreover have "pow10 k / 2 \<le> 2 powi (?l - 52)" using dig up p unfolding powers by linarith
      ultimately show ?thesis using near by linarith
    qed
  qed
qed

lemma reads_back_pos:
  assumes "0 < x" and "rnd53 (of_int m * pow10 k) = x"
  shows "0 < m"
proof (rule ccontr)
  assume "\<not> 0 < m"
  then have "of_int m * pow10 k \<le> 0" by (simp add: pow10_def mult_nonpos_nonneg)
  then have "rnd53 (of_int m * pow10 k) \<le> rnd53 0" by (rule rnd53_mono)
  with assms show False by simp
qed

lemma reads_back_nat: "0 < x \<Longrightarrow> rnd53 (of_int m * pow10 k) = x \<Longrightarrow> rnd53 (of_nat (nat m) * pow10 k) = x"
  using reads_back_pos [of x m k] by (metis of_nat_nat of_int_of_nat_eq less_imp_le)

lemma shortest_from_reads:
  assumes "0 < x" and "\<exists>n \<in> set ns. rnd53 (of_int (rhe (x / pow10 (e - int n + 1))) * pow10 (e - int n + 1)) = x"
    and "shortest_from x e ns = (m, k)"
  shows "rnd53 (of_nat m * pow10 k) = x"
  using assms(2,3)
proof (induction ns)
  case (Cons n ns)
  let ?k = "e - int n + 1"
  let ?m = "rhe (x / pow10 ?k)"
  consider "rnd53 (of_int ?m * pow10 ?k) = x" | "rnd53 (of_int ?m * pow10 ?k) \<noteq> x" "rnd53 (of_int (?m + 1) * pow10 ?k) = x"
    | "rnd53 (of_int ?m * pow10 ?k) \<noteq> x" "rnd53 (of_int (?m + 1) * pow10 ?k) \<noteq> x" by blast
  then show ?case
  proof cases
    case 1
    then have "shortest_from x e (n # ns) = (nat ?m, ?k)" by (simp add: Let_def)
    then have e: "m = nat ?m" "k = ?k" unfolding Cons.prems(2) prod.inject by blast+
    show ?thesis unfolding e using assms(1) 1 by (rule reads_back_nat)
  next
    case 2
    then have "shortest_from x e (n # ns) = (nat (?m + 1), ?k)" by (simp add: Let_def)
    then have e: "m = nat (?m + 1)" "k = ?k" unfolding Cons.prems(2) prod.inject by blast+
    show ?thesis unfolding e using assms(1) 2(2) by (rule reads_back_nat)
  next
    case 3
    with Cons show ?thesis by (simp add: Let_def)
  qed
qed simp

lemma strip_zeros_value: "strip_zeros n m k = (m', k') \<Longrightarrow> of_nat m' * pow10 k' = of_nat m * pow10 k"
proof (induction n m k rule: strip_zeros.induct)
  case (2 n m k)
  show ?case
  proof (cases "m mod 10 = 0")
    case True
    then have "of_nat m = (10::rat) * of_nat (m div 10)"
      by (metis mult_div_mod_eq add.right_neutral of_nat_mult of_nat_numeral)
    with 2 True show ?thesis by (simp add: pow10_def power_int_add)
  qed (use 2 in simp)
qed simp

lemma shortest_reads:
  assumes x: "0 < x" "rnd53 x = x" "\<bar>ilog2 x\<bar> \<le> 10000" and s: "shortest x = (m, k)"
  shows "rnd53 (of_nat m * pow10 k) = x"
proof -
  obtain m' k' where f: "shortest_from x (ilog10 x) [1..<18] = (m', k')" by fastforce
  have "ilog10 x - int 17 + 1 = ilog10 x - 16" by simp
  moreover have "(17::nat) \<in> set [1..<18]" by simp
  ultimately have "\<exists>n \<in> set [1..<18]. rnd53 (of_int (rhe (x / pow10 (ilog10 x - int n + 1))) * pow10 (ilog10 x - int n + 1)) = x"
    using seventeen [OF x, of "ilog10 x - 16"] by metis
  from shortest_from_reads [OF x(1) this f] have "rnd53 (of_nat m' * pow10 k') = x" .
  moreover have "strip_zeros 17 m' k' = (m, k)" using s unfolding shortest_def f by simp
  ultimately show ?thesis by (simp add: strip_zeros_value)
qed

section \<open>The layout keeps the value\<close>

lemma nat_of_dec_split: "nat_of_dec (a @ b) = nat_of_dec a * 10 ^ length b + nat_of_dec b"
proof (induction b rule: rev_induct)
  case Nil
  then show ?case by (simp add: nat_of_dec_def)
next
  case (snoc c b)
  then show ?case by (simp add: nat_of_dec_append append_assoc [symmetric] algebra_simps del: append_assoc)
qed

lemma nat_of_dec_of_zeros [simp]: "nat_of_dec (zeros n) = 0"
  by (induction n) (simp_all add: zeros_def nat_of_dec_def digit_val_def)

lemma num_value_parts:
  assumes "sg = [] \<or> sg = ''-''"
    and "i \<noteq> []" "\<forall>c \<in> set i. is_digit c" "hd i = CHR ''0'' \<longrightarrow> i = ''0''"
    and "f = [] \<or> (\<exists>d. f = CHR ''.'' # d \<and> d \<noteq> [] \<and> (\<forall>c \<in> set d. is_digit c))"
    and "e = [] \<or> (\<exists>s d. e = CHR ''e'' # s # d \<and> (s = CHR ''+'' \<or> s = CHR ''-'') \<and> d \<noteq> [] \<and> (\<forall>c \<in> set d. is_digit c))"
  shows "num_value (sg @ i @ f @ e) =
    Some ((if sg = [] then 1 else - 1) * (of_nat (nat_of_dec (i @ tl f)) * pow10 (exp_value e - int (length (tl f)))))"
  using num_toks [OF assms] by (simp add: num_value_def Let_def)

lemma plain_value:
  assumes m: "0 < m" and sg: "sg = [] \<or> sg = ''-''"
  shows "num_value (sg @ plain_text m k) = Some ((if sg = [] then 1 else - 1) * (of_nat m * pow10 k))"
proof -
  let ?ds = "dec_of_nat m"
  have d: "\<forall>c \<in> set ?ds. is_digit c" by (rule dec_of_nat_digits)
  have h: "?ds \<noteq> []" "hd ?ds \<noteq> CHR ''0''" using m by (simp_all add: dec_of_nat_head)
  have v: "nat_of_dec ?ds = m" by (rule nat_of_dec_of_nat)
  consider "0 \<le> k" | "k < 0" "0 < int (length ?ds) + k" | "k < 0" "int (length ?ds) + k \<le> 0" by linarith
  then show ?thesis
  proof cases
    case 1
    have "num_value (sg @ (?ds @ zeros (nat k)) @ [] @ [])
        = Some ((if sg = [] then 1 else - 1) * (of_nat (nat_of_dec ((?ds @ zeros (nat k)) @ tl [])) * pow10 (exp_value [] - int (length (tl [] :: string)))))"
      using d h zeros_digits sg by (intro num_value_parts) auto
    moreover have "nat_of_dec (?ds @ zeros (nat k)) = m * 10 ^ nat k" by (simp add: nat_of_dec_split v)
    ultimately show ?thesis using 1 by (simp add: plain_text_def Let_def pow10_def exp_value_def power_int_def)
  next
    case 2
    let ?p = "nat (int (length ?ds) + k)"
    have p: "0 < ?p" "?p < length ?ds" using 2 by auto
    have "num_value (sg @ take ?p ?ds @ (CHR ''.'' # drop ?p ?ds) @ [])
        = Some ((if sg = [] then 1 else - 1) * (of_nat (nat_of_dec (take ?p ?ds @ tl (CHR ''.'' # drop ?p ?ds))) *
            pow10 (exp_value [] - int (length (tl (CHR ''.'' # drop ?p ?ds))))))"
      using p d h sg by (intro num_value_parts) (auto dest: in_set_takeD in_set_dropD)
    moreover have "int (length ?ds) - int ?p = - k" using 2 by simp
    ultimately show ?thesis using 2 p by (simp add: plain_text_def Let_def exp_value_def v of_nat_diff)
  next
    case 3
    let ?z = "zeros (nat (- (int (length ?ds) + k)))"
    have "num_value (sg @ ''0'' @ (CHR ''.'' # ?z @ ?ds) @ [])
        = Some ((if sg = [] then 1 else - 1) * (of_nat (nat_of_dec (''0'' @ tl (CHR ''.'' # ?z @ ?ds))) *
            pow10 (exp_value [] - int (length (tl (CHR ''.'' # ?z @ ?ds))))))"
      using d h zeros_digits sg by (intro num_value_parts) (auto simp: is_digit_def)
    moreover have "nat_of_dec (''0'' @ ?z @ ?ds) = m"
      by (simp only: nat_of_dec_split nat_of_dec_of_zeros v) (simp add: nat_of_dec_def digit_val_def)
    moreover have "int (length (?z @ ?ds)) = - k" using 3 by simp
    ultimately show ?thesis using 3 by (simp add: plain_text_def Let_def exp_value_def)
  qed
qed

lemma exp_value_text:
  assumes "\<forall>c \<in> set d. is_digit c"
  shows "exp_value (CHR ''e'' # CHR ''+'' # d) = int (nat_of_dec d)" "exp_value (CHR ''e'' # CHR ''-'' # d) = - int (nat_of_dec d)"
  by (simp_all add: exp_value_def)

lemma exp_value_of:
  assumes m: "0 < m" and sg: "sg = [] \<or> sg = ''-''"
  shows "num_value (sg @ exp_text m k) = Some ((if sg = [] then 1 else - 1) * (of_nat m * pow10 k))"
proof -
  let ?ds = "dec_of_nat m"
  define e where "e = k + int (length ?ds) - 1"
  let ?a = "dec_of_nat (nat \<bar>e\<bar>)"
  define f where "f = (if length ?ds = 1 then [] else ''.'' @ drop 1 ?ds)"
  define x where "x = (if e < 0 then ''e-'' @ ?a else ''e+'' @ (if length ?a < 2 then ''0'' @ ?a else ?a))"
  have d: "\<forall>c \<in> set ?ds. is_digit c" "\<forall>c \<in> set ?a. is_digit c" by (rule dec_of_nat_digits)+
  have h: "?ds \<noteq> []" "hd ?ds \<noteq> CHR ''0''" using m by (simp_all add: dec_of_nat_head)
  have "num_value (sg @ take 1 ?ds @ f @ x)
      = Some ((if sg = [] then 1 else - 1) * (of_nat (nat_of_dec (take 1 ?ds @ tl f)) * pow10 (exp_value x - int (length (tl f)))))"
  proof (rule num_value_parts [OF sg])
    show "f = [] \<or> (\<exists>d. f = CHR ''.'' # d \<and> d \<noteq> [] \<and> (\<forall>c \<in> set d. is_digit c))"
      using d(1) h(1) by (cases ?ds; cases "tl ?ds") (auto simp: f_def)
    show "x = [] \<or> (\<exists>s d. x = CHR ''e'' # s # d \<and> (s = CHR ''+'' \<or> s = CHR ''-'') \<and> d \<noteq> [] \<and> (\<forall>c \<in> set d. is_digit c))"
      using d(2) by (auto simp: x_def is_digit_def)
  qed (use d(1) h in \<open>auto dest: in_set_takeD\<close>)
  moreover have "take 1 ?ds @ tl f = ?ds" using h(1) by (cases ?ds; cases "tl ?ds") (auto simp: f_def)
  moreover have "int (length (tl f)) = int (length ?ds) - 1" using h(1) by (cases ?ds; cases "tl ?ds") (auto simp: f_def)
  moreover have "exp_value x = e"
  proof -
    have "nat_of_dec (''0'' @ ?a) = nat_of_dec ?a" by (simp only: nat_of_dec_split) (simp add: nat_of_dec_def digit_val_def)
    then show ?thesis by (auto simp: x_def exp_value_def nat_of_dec_of_nat)
  qed
  ultimately show ?thesis by (simp only: exp_text_def Let_def f_def [symmetric] x_def [symmetric] e_def [symmetric] nat_of_dec_of_nat)
      (simp add: e_def)
qed

section \<open>The text of a float reads back\<close>

lemma f64_text_value:
  assumes r: "rat_of_f64 x \<noteq> 0" and l: "\<bar>ilog2 \<bar>rat_of_f64 x\<bar>\<bar> \<le> 10000"
  shows "\<exists>v. num_value (f64_text x) = Some v \<and> rnd53 v = rat_of_f64 x"
proof -
  let ?r = "rat_of_f64 x"
  obtain m k where s: "shortest \<bar>?r\<bar> = (m, k)" by (cases "shortest \<bar>?r\<bar>")
  have a: "0 < \<bar>?r\<bar>" using r by simp
  have "rnd53 \<bar>?r\<bar> = \<bar>?r\<bar>" by (simp add: abs_if rnd53_minus)
  from shortest_reads [OF a this l s] have b: "rnd53 (of_nat m * pow10 k) = \<bar>?r\<bar>" .
  have m: "0 < m" using shortest_pos [OF a] s by simp
  let ?sg = "if ?r < 0 then ''-'' else []"
  have "num_value (f64_text x) = Some ((if ?sg = [] then 1 else - 1) * (of_nat m * pow10 k))"
    using r m plain_value [OF m, of "[]" k] plain_value [OF m, of "''-''" k] exp_value_of [OF m, of "[]" k] exp_value_of [OF m, of "''-''" k]
    by (simp add: f64_text_def s Let_def)
  moreover have "rnd53 ((if ?sg = [] then 1 else - 1) * (of_nat m * pow10 k)) = ?r"
    using b by (auto simp: rnd53_minus)
  ultimately show ?thesis by blast
qed

text \<open>The finite numbers of the format, the subnormal ones included.\<close>

definition finite_float :: "f64 \<Rightarrow> bool" where
  "finite_float x \<longleftrightarrow> rat_of_f64 x = 0 \<or> 2 powi (- 1074) \<le> \<bar>rat_of_f64 x\<bar> \<and> \<bar>rat_of_f64 x\<bar> \<le> max_float"

lemma finite_exponent:
  assumes "finite_float x" and "rat_of_f64 x \<noteq> 0"
  shows "\<bar>ilog2 \<bar>rat_of_f64 x\<bar>\<bar> \<le> 10000"
proof -
  let ?a = "\<bar>rat_of_f64 x\<bar>"
  have a: "0 < ?a" "2 powi (- 1074) \<le> ?a" "?a \<le> max_float" using assms by (simp_all add: finite_float_def)
  have "2 powi (- 1074) < (2::rat) powi (ilog2 ?a + 1)" using a(2) ilog2_bounds(2) [OF a(1)] by (rule le_less_trans)
  then have lo: "- 1074 < ilog2 ?a + 1" by (simp only: powi_less_iff)
  have "2 powi ilog2 ?a \<le> ?a" using a(1) by (rule ilog2_bounds)
  also note a(3)
  also have "max_float < 2 powi 1024" by (simp add: max_float_def)
  finally have "ilog2 ?a < 1024" by (simp only: powi_less_iff)
  with lo show ?thesis by simp
qed

theorem json_float_text:
  assumes "finite_float x"
  shows "json_float (f64_text x) = Some x"
proof (cases "rat_of_f64 x = 0")
  case True
  then have "num_value (f64_text x) = Some 0" using num_value_parts [of "[]" "''0''" "[]" "[]"]
    by (simp add: f64_text_def is_digit_def nat_of_dec_def digit_val_def)
  moreover have "f64_of_rat 0 = x" using True by (simp add: f64_eq_iff f64_of_rat.rep_eq)
  ultimately show ?thesis by (simp add: json_float_def max_float_def)
next
  case False
  obtain v where v: "num_value (f64_text x) = Some v" "rnd53 v = rat_of_f64 x"
    using f64_text_value [OF False finite_exponent [OF assms False]] by blast
  then have "f64_of_rat v = x" by (simp add: f64_eq_iff f64_of_rat.rep_eq)
  with v assms False show ?thesis by (simp add: json_float_def finite_float_def)
qed

lemma decode_float_json [simp]: "finite_float x \<Longrightarrow> decode_float (json_f64 x) y = Some x"
  by (simp add: json_f64_def json_float_text)

end
