(* ===== verification/Time_Text.thy ===== *)
theory Time_Text
  imports Go_Time
begin

text \<open>
  Instants as JSON text, \<open>time.Time.MarshalJSON\<close> and \<open>UnmarshalJSON\<close> of the standard library: the layout
  RFC 3339 with the digits of the fraction that are needed, in the zone the instant is displayed in. The
  theorem is that the text of an instant of the years 0 to 9999 reads back as the instant and its zone.
\<close>

section \<open>Every day has a date\<close>

lemma year_exists:
  obtains y where "days_before_year y \<le> n" "n < days_before_year (y + 1)"
proof -
  define g where "g = 400 * n div 146097"
  have g: "146097 * g \<le> 400 * n" "400 * n < 146097 * g + 146097" unfolding g_def by linarith+
  have below: "b \<le> n" if "400 * b - 146097 * (g - 1) < 800" for b :: int using that g by (simp add: algebra_simps)
  have above: "n < b" if "- 800 < 400 * b - 146097 * (g + 2)" for b :: int using that g by (simp add: algebra_simps)
  have lo: "days_before_year g \<le> n" using year_bounds(2) [of g] by (rule below)
  have "g + 3 - 1 = g + 2" by simp
  then have hi: "n < days_before_year (g + 3)" using year_bounds(1) [of "g + 3"] by (intro above) simp
  show thesis
  proof (cases "n < days_before_year (g + 1)")
    case False
    then have "days_before_year (g + 1) \<le> n" by simp
    with that [of "g + 1"] that [of "g + 2"] hi show ?thesis
      by (cases "n < days_before_year (g + 2)") (simp_all add: add.commute)
  qed (rule that [OF lo])
qed

lemma month_exists:
  assumes "0 \<le> k" "k < (if leap y then 366 else 365)"
  obtains m where "1 \<le> m" "m \<le> 12" "days_before_month y m \<le> k" "k < days_before_month y m + days_in_month y m"
proof -
  have t: "days_before_month y (Suc 0) = 0" using days_before_month_table(1) [of y] by simp
  note tab = t days_before_month_table(2-)
  consider "k < days_before_month y 2" | "days_before_month y 2 \<le> k" "k < days_before_month y 3"
    | "days_before_month y 3 \<le> k" "k < days_before_month y 4" | "days_before_month y 4 \<le> k" "k < days_before_month y 5"
    | "days_before_month y 5 \<le> k" "k < days_before_month y 6" | "days_before_month y 6 \<le> k" "k < days_before_month y 7"
    | "days_before_month y 7 \<le> k" "k < days_before_month y 8" | "days_before_month y 8 \<le> k" "k < days_before_month y 9"
    | "days_before_month y 9 \<le> k" "k < days_before_month y 10" | "days_before_month y 10 \<le> k" "k < days_before_month y 11"
    | "days_before_month y 11 \<le> k" "k < days_before_month y 12" | "days_before_month y 12 \<le> k" by linarith
  then have "\<exists>m \<in> {1..12}. days_before_month y m \<le> k \<and> k < days_before_month y m + days_in_month y m"
  proof cases
    case 1 then show ?thesis using assms by (intro bexI [of _ 1]) (simp_all add: tab)
  next
    case 2 then show ?thesis by (intro bexI [of _ 2]) (auto simp: tab)
  next
    case 3 then show ?thesis by (intro bexI [of _ 3]) (auto simp: tab)
  next
    case 4 then show ?thesis by (intro bexI [of _ 4]) (auto simp: tab)
  next
    case 5 then show ?thesis by (intro bexI [of _ 5]) (auto simp: tab)
  next
    case 6 then show ?thesis by (intro bexI [of _ 6]) (auto simp: tab)
  next
    case 7 then show ?thesis by (intro bexI [of _ 7]) (auto simp: tab)
  next
    case 8 then show ?thesis by (intro bexI [of _ 8]) (auto simp: tab)
  next
    case 9 then show ?thesis by (intro bexI [of _ 9]) (auto simp: tab)
  next
    case 10 then show ?thesis by (intro bexI [of _ 10]) (auto simp: tab)
  next
    case 11 then show ?thesis by (intro bexI [of _ 11]) (auto simp: tab)
  next
    case 12 then show ?thesis using assms by (intro bexI [of _ 12]) (auto simp: tab split: if_splits)
  qed
  then show thesis using that by auto
qed

lemma date_exists:
  obtains y m d where "date_of_days n = (y, m, d)" "valid_date y m d" "days_of_date y m d = n"
proof -
  obtain y where y: "days_before_year y \<le> n + epoch_days" "n + epoch_days < days_before_year (y + 1)"
    by (rule year_exists)
  let ?k = "n + epoch_days - days_before_year y"
  have "0 \<le> ?k" "?k < (if leap y then 366 else 365)" using y year_length [of y] by auto
  then obtain m where m: "1 \<le> m" "m \<le> 12" "days_before_month y m \<le> ?k" "?k < days_before_month y m + days_in_month y m"
    by (rule month_exists)
  define d where "d = ?k - days_before_month y m + 1"
  have v: "valid_date y m d" using m unfolding valid_date_def d_def by (intro conjI; linarith)
  have n: "days_of_date y m d = n" by (simp add: days_of_date_def d_def)
  from that [OF _ v n] date_roundtrip [OF v] n show thesis by simp
qed

section \<open>The text\<close>

text \<open>\<open>time.RFC3339Nano\<close>: the clock, nine digits of fraction without the zeros at the end, and the zone,
  here in minutes.\<close>

definition clock_text :: "instant \<Rightarrow> string" where
  "clock_text w =
     (let s = nat ((w mod day) div second)
      in pad2 (s div 3600) @ CHR '':'' # pad2 (s div 60 mod 60) @ CHR '':'' # pad2 (s mod 60))"

definition pad9 :: "nat \<Rightarrow> string" where
  "pad9 n = (let s = dec_of_nat n in replicate (9 - length s) (CHR ''0'') @ s)"

definition fraction_text :: "nat \<Rightarrow> string" where
  "fraction_text ns = (if ns = 0 then [] else CHR ''.'' # rev (dropWhile (\<lambda>c. c = CHR ''0'') (rev (pad9 ns))))"

definition zone_text :: "int \<Rightarrow> string" where
  "zone_text z = (if z = 0 then ''Z''
     else (if z < 0 then CHR ''-'' else CHR ''+'') # pad2 (nat (\<bar>z\<bar> div 60)) @ CHR '':'' # pad2 (nat (\<bar>z\<bar> mod 60)))"

definition format_rfc3339_nano :: "int \<Rightarrow> instant \<Rightarrow> string" where
  "format_rfc3339_nano z t =
     (let w = t + z * minute in
      format_date CHR ''-'' w @ CHR ''T'' # clock_text w @ fraction_text (nat (w mod second)) @ zone_text z)"

text \<open>The instants \<open>MarshalJSON\<close> accepts; for the others it is an error.\<close>

definition year_ok :: "int \<Rightarrow> instant \<Rightarrow> bool" where
  "year_ok z t \<longleftrightarrow> (case date_of_days (day_number (t + z * minute)) of (y, _, _) \<Rightarrow> 0 \<le> y \<and> y < 10000) \<and> \<bar>z\<bar> < 24 * 60"

section \<open>The text reads back\<close>

lemma parse_ymd_text:
  assumes "valid_date y m d" "0 \<le> y" "y < 10000"
  shows "parse_ymd (pad4 y @ CHR ''-'' # pad2 m @ CHR ''-'' # pad2 (nat d) @ r) = Some ((y, m, d), r)"
proof -
  note v = valid_date_bounds [OF assms(1)]
  then have "nat d < 100" by auto
  then show ?thesis
    using pad4_facts [OF assms(2,3)] pad2_facts [of m] pad2_facts [of "nat d"] v assms
    by (simp add: parse_ymd_def take_digits_append valid_date_def)
qed

lemma take_pad2: "n < 100 \<Longrightarrow> take_digits 2 (pad2 n @ r) = Some (n, r)"
  using pad2_facts [of n] by (simp add: take_digits_append)

lemma take_pad2_end: "n < 100 \<Longrightarrow> take_digits 2 (pad2 n) = Some (n, [])"
  using take_pad2 [of n "[]"] by simp

lemma pad9_facts: "n < 10 ^ 9 \<Longrightarrow> length (pad9 n) = 9 \<and> nat_of_dec (pad9 n) = n \<and> (\<forall>c \<in> set (pad9 n). is_digit c)"
  using length_dec [of 9 n] dec_of_nat_digits [of n]
  by (auto simp: pad9_def Let_def nat_of_dec_zeros nat_of_dec_of_nat is_digit_def)

lemma pad9_trim:
  obtains k where "pad9 n = rev (dropWhile (\<lambda>c. c = CHR ''0'') (rev (pad9 n))) @ replicate k (CHR ''0'')"
proof -
  let ?z = "\<lambda>c. c = CHR ''0''"
  have "takeWhile ?z (rev (pad9 n)) = replicate (length (takeWhile ?z (rev (pad9 n)))) (CHR ''0'')"
    by (rule replicate_length_same [symmetric]) (auto dest: set_takeWhileD)
  then have "pad9 n = rev (dropWhile ?z (rev (pad9 n))) @ replicate (length (takeWhile ?z (rev (pad9 n)))) (CHR ''0'')"
    by (metis rev_append rev_replicate rev_rev_ident takeWhile_dropWhile_id)
  then show thesis by (rule that)
qed

lemma zone_head: "\<exists>c r. zone_text z = c # r \<and> \<not> is_digit c \<and> c \<notin> {CHR ''.'', CHR '',''}"
  by (simp add: zone_text_def is_digit_def less_eq_char_def)

lemma fraction_reads:
  assumes "n < 10 ^ 9"
  shows "parse_fraction (fraction_text n @ zone_text z) = (n, zone_text z)"
proof (cases "n = 0")
  case True
  then show ?thesis using zone_head [of z] by (auto simp: fraction_text_def parse_fraction_def split: list.split)
next
  case False
  define ds where "ds = rev (dropWhile (\<lambda>c. c = CHR ''0'') (rev (pad9 n)))"
  obtain k where k: "pad9 n = ds @ replicate k (CHR ''0'')" using pad9_trim [of n] unfolding ds_def by blast
  note f = pad9_facts [OF assms]
  have len: "length ds + k = 9" using f unfolding k by simp
  have dig: "\<forall>c \<in> set ds. is_digit c" using f unfolding k by simp
  have "ds \<noteq> []"
  proof
    assume "ds = []"
    then have "nat_of_dec (pad9 n) = 0" using nat_of_dec_zeros [of k "[]"] unfolding k by (simp add: nat_of_dec_def)
    with f False show False by simp
  qed
  then obtain c cs where ds: "ds = c # cs" by (cases ds) auto
  obtain z' r where z: "zone_text z = z' # r" "\<not> is_digit z'" using zone_head by blast
  have tw: "takeWhile is_digit (ds @ zone_text z) = ds" using dig z by simp
  have "take 9 (ds @ replicate 9 (CHR ''0'')) = pad9 n"
    using len unfolding k by (simp add: min_def)
  then show ?thesis using False dig f tw by (simp add: fraction_text_def parse_fraction_def ds_def [symmetric] ds Let_def)
qed

lemma zone_reads: "\<bar>z\<bar> < 24 * 60 \<Longrightarrow> parse_zone (zone_text z) = Some (z * minute, [])"
proof -
  assume z: "\<bar>z\<bar> < 24 * 60"
  define h m where hm: "h = nat (\<bar>z\<bar> div 60)" "m = nat (\<bar>z\<bar> mod 60)"
  have b: "h < 24" "m < 60" "int h * 60 + int m = \<bar>z\<bar>" using z by (auto simp: hm)
  show ?thesis
  proof (cases "z = 0")
    case False
    have "zone_text z = (if z < 0 then CHR ''-'' else CHR ''+'') # pad2 h @ CHR '':'' # pad2 m"
      using False unfolding zone_text_def hm [symmetric] by simp
    moreover have "(if z < 0 then - 1 else 1) * (int h * 60 + int m) * minute = z * minute" unfolding b(3) by simp
    ultimately show ?thesis using b(1,2) by (cases "z < 0") (simp_all add: parse_zone_def take_pad2 take_pad2_end del: mult_minus1)
  qed (simp add: zone_text_def parse_zone_def)
qed

lemma clock_parts:
  fixes w :: instant
  defines "s \<equiv> nat ((w mod day) div second)"
  shows "s div 3600 < 24" "s div 60 mod 60 < 60" "s mod 60 < 60"
    and "day_number w * day + int (s div 3600) * (60 * minute) + int (s div 60 mod 60) * minute + int (s mod 60) * second
      + w mod second = w"
proof -
  have r: "0 \<le> w mod day" "w mod day < day" by simp_all
  then have s: "int s = (w mod day) div second" "s < 86400" by (auto simp: s_def)
  then show "s div 3600 < 24" "s div 60 mod 60 < 60" "s mod 60 < 60" by auto
  have "s div 3600 = s div 60 div 60" using div_mult2_eq [of s 60 60] by simp
  then have "3600 * (s div 3600) + 60 * (s div 60 mod 60) + s mod 60 = s"
    using mult_div_mod_eq [of 60 "s div 60"] mult_div_mod_eq [of 60 s] by linarith
  then have "int (3600 * (s div 3600) + 60 * (s div 60 mod 60) + s mod 60) = int s" by (rule arg_cong)
  then have e: "3600 * int (s div 3600) + 60 * int (s div 60 mod 60) + int (s mod 60) = int s"
    by (simp only: of_nat_add of_nat_mult of_nat_numeral)
  have "w mod second = (w mod day) mod second" by (simp add: mod_mod_cancel)
  then have "(w mod day) div second * second + w mod second = w mod day" by simp
  moreover have "day_number w * day + w mod day = w" by (simp add: day_number_def)
  moreover have "int (s div 3600) * (60 * minute) + int (s div 60 mod 60) * minute + int (s mod 60) * second = int s * second"
    unfolding e [symmetric] by (simp add: algebra_simps)
  ultimately show "day_number w * day + int (s div 3600) * (60 * minute) + int (s div 60 mod 60) * minute + int (s mod 60) * second
      + w mod second = w"
    unfolding s(1) by linarith
qed

theorem rfc3339_reads:
  assumes "year_ok z t"
  shows "parse_rfc3339_zone (format_rfc3339_nano z t) = Some (t, z * minute)"
proof -
  define w where "w = t + z * minute"
  define s where "s = nat ((w mod day) div second)"
  obtain y m d where date: "date_of_days (day_number w) = (y, m, d)" "valid_date y m d" "days_of_date y m d = day_number w"
    by (rule date_exists)
  have y: "0 \<le> y" "y < 10000" and z: "\<bar>z\<bar> < 24 * 60" using assms date(1) by (simp_all add: year_ok_def w_def)
  note c = clock_parts [of w, folded s_def]
  define ns where "ns = nat (w mod second)"
  have ns: "ns < 10 ^ 9" "int ns = w mod second" by (simp_all add: ns_def)
  have layout: "format_rfc3339_nano z t = pad4 y @ CHR ''-'' # pad2 m @ CHR ''-'' # pad2 (nat d) @ CHR ''T'' # pad2 (s div 3600) @ CHR '':''
      # pad2 (s div 60 mod 60) @ CHR '':'' # pad2 (s mod 60) @ fraction_text ns @ zone_text z"
    unfolding format_rfc3339_nano_def Let_def w_def [symmetric] clock_text_def s_def [symmetric] format_date_def date(1) ns_def by simp
  have "parse_rfc3339_zone (format_rfc3339_nano z t) = Some (days_of_date y m d * day + int (s div 3600) * (60 * minute)
      + int (s div 60 mod 60) * minute + int (s mod 60) * second + int ns - z * minute, z * minute)"
    unfolding layout parse_rfc3339_zone_def
    using c(1-3) date(2) y
    by (simp add: parse_ymd_text take_1_2_digits_def take_pad2 fraction_reads [OF ns(1)] zone_reads [OF z])
  also have "days_of_date y m d * day + int (s div 3600) * (60 * minute) + int (s div 60 mod 60) * minute + int (s mod 60) * second
      + int ns - z * minute = t"
    using c(4) unfolding ns(2) date(3) w_def by simp
  finally show ?thesis .
qed

end
