(* ===== verification/Wire.thy ===== *)
theory Wire
  imports Server Float_Roundtrip Time_Text
begin

text \<open>
  What the admin API puts on the wire: the JSON document \<open>encoding/json\<close> makes of each answer, by the tags of
  the structs of \<open>internal/models\<close> and of the controllers, and the HTTP response \<open>WriteJSON\<close> makes of it. The
  text of a UUID, the wording of two parse errors and the zone the database connection shows an instant in are
  arguments. The lemmas show that every response of the API is one well-formed document, with an error
  message exactly when its status says so.
\<close>

section \<open>Values\<close>

record texts =
  tx_uuid :: "uuid \<Rightarrow> string"
  tx_zone :: "instant \<Rightarrow> int"
  tx_bad_uuid :: "string \<Rightarrow> string"
  tx_bad_date :: "string \<Rightarrow> string"

type_synonym members = "(string \<times> json) list"

definition json_uuid :: "texts \<Rightarrow> uuid \<Rightarrow> json" where "json_uuid tx u = json_str (tx_uuid tx u)"

definition json_time :: "texts \<Rightarrow> instant \<Rightarrow> json" where
  "json_time tx t = JStr (format_rfc3339_nano (tx_zone tx t) t)"

definition json_count :: "int \<Rightarrow> json" where "json_count i = JNum (dec_of_int i)"

text \<open>\<open>omitempty\<close> on a map, as \<open>omit_nil\<close> has it on a pointer; and slices that may be nil: \<open>Select\<close> leaves a
  slice nil when there is no row.\<close>

definition omit_empty :: "string \<Rightarrow> (string, string) gomap \<Rightarrow> members" where
  "omit_empty k m = (if m = [] then [] else [(k, string_map_doc m)])"

definition json_slice :: "('a \<Rightarrow> json) \<Rightarrow> 'a list \<Rightarrow> json" where "json_slice f xs = JArr (map f xs)"

definition json_rows :: "('a \<Rightarrow> json) \<Rightarrow> 'a list \<Rightarrow> json" where
  "json_rows f xs = (if xs = [] then JNull else json_slice f xs)"

lemma json_slice_cong [fundef_cong]:
  "xs = ys \<Longrightarrow> (\<And>x. x \<in> set ys \<Longrightarrow> f x = g x) \<Longrightarrow> json_rows f xs = json_rows g ys"
  by (simp add: json_rows_def json_slice_def)

section \<open>Documents\<close>

definition APIKey_members :: "texts \<Rightarrow> api_key \<Rightarrow> members" where
  "APIKey_members tx k =
     [(''id'', json_uuid tx (ak_ID k)), (''name'', json_str (ak_Name k))] @ omit_nil ''description'' json_str (ak_Description k)
     @ [(''is_active'', JBool (ak_IsActive k)), (''created_at'', json_time tx (ak_CreatedAt k))]
     @ omit_nil ''revoked_at'' (json_time tx) (ak_RevokedAt k) @ omit_nil ''last_used_at'' (json_time tx) (ak_LastUsedAt k)
     @ [(''request_count'', json_count (ak_RequestCount k)),
        (''deprecated_model_behavior'', json_str (ak_DeprecatedModelBehavior k))]"

definition MetadataKey_doc :: "texts \<Rightarrow> metadata_key \<Rightarrow> json" where
  "MetadataKey_doc tx k = JObj (
     [(''majordomo_api_key_id'', json_uuid tx (mk_MajordomoAPIKeyID k)), (''api_key_name'', json_str (mk_APIKeyName k)),
      (''key_name'', json_str (mk_KeyName k))] @ omit_nil ''display_name'' json_str (mk_DisplayName k)
     @ [(''key_type'', json_str (mk_KeyType k)), (''is_required'', JBool (mk_IsRequired k)), (''is_active'', JBool (mk_IsActive k))]
     @ omit_nil ''activated_at'' (json_time tx) (mk_ActivatedAt k) @ [(''request_count'', json_count (mk_RequestCount k))]
     @ omit_nil ''last_seen_at'' (json_time tx) (mk_LastSeenAt k)
     @ [(''approx_cardinality'', json_count (mk_ApproxCardinality k)), (''created_at'', json_time tx (mk_CreatedAt k))])"

definition ProviderKeyInfo_doc :: "texts \<Rightarrow> provider_key_info \<Rightarrow> json" where
  "ProviderKeyInfo_doc tx k = JObj [(''provider'', json_str (pi_Provider k)), (''created_at'', json_time tx (pi_CreatedAt k))]"

definition UsageSummary_doc :: "usage_summary \<Rightarrow> json" where
  "UsageSummary_doc s = JObj
     [(''total_requests'', json_count (us_TotalRequests s)), (''total_input_tokens'', json_count (us_TotalInputTokens s)),
      (''total_output_tokens'', json_count (us_TotalOutputTokens s)), (''total_cached_tokens'', json_count (us_TotalCachedTokens s)),
      (''total_cache_creation_tokens'', json_count (us_TotalCacheCreationTokens s)), (''total_cost'', json_f64 (us_TotalCost s)),
      (''total_cached_cost'', json_f64 (us_TotalCachedCost s)), (''total_cache_creation_cost'', json_f64 (us_TotalCacheCreationCost s))]"

text \<open>The members the breakdowns share.\<close>

definition totals_members :: "'a usage_totals_scheme \<Rightarrow> members" where
  "totals_members t =
     [(''request_count'', json_count (ut_RequestCount t)), (''input_tokens'', json_count (ut_InputTokens t)),
      (''output_tokens'', json_count (ut_OutputTokens t)), (''cached_tokens'', json_count (ut_CachedTokens t)),
      (''cache_creation_tokens'', json_count (ut_CacheCreationTokens t)), (''total_cost'', json_f64 (ut_TotalCost t)),
      (''cached_cost'', json_f64 (ut_CachedCost t)), (''cache_creation_cost'', json_f64 (ut_CacheCreationCost t))]"

definition DailyUsage_doc :: "daily_usage \<Rightarrow> json" where
  "DailyUsage_doc u = JObj ((''date'', json_str (du_Date u)) # totals_members u)"

definition ModelUsage_doc :: "model_usage \<Rightarrow> json" where
  "ModelUsage_doc u = JObj ((''provider'', json_str (mu_Provider u)) # (''model'', json_str (mu_Model u)) # totals_members u)"

definition APIKeyUsage_doc :: "texts \<Rightarrow> api_key_usage \<Rightarrow> json" where
  "APIKeyUsage_doc tx u =
     JObj ((''api_key_id'', json_uuid tx (ku_APIKeyID u)) # (''api_key_name'', json_str (ku_APIKeyName u)) # totals_members u)"

definition ProviderUsage_doc :: "provider_usage \<Rightarrow> json" where
  "ProviderUsage_doc u = JObj ((''provider'', json_str (pu_Provider u)) # totals_members u)"

definition MetadataBreakdown_doc :: "metadata_breakdown \<Rightarrow> json" where
  "MetadataBreakdown_doc b = JObj
     [(''value'', json_str (mb_Value b)), (''request_count'', json_count (mb_RequestCount b)), (''input_tokens'', json_count (mb_InputTokens b)),
      (''output_tokens'', json_count (mb_OutputTokens b)), (''total_cost'', json_f64 (mb_TotalCost b))]"

definition DailyErrorRate_doc :: "daily_error_rate \<Rightarrow> json" where
  "DailyErrorRate_doc d = JObj
     [(''date'', json_str (de_Date d)), (''request_count'', json_count (de_RequestCount d)), (''error_count'', json_count (de_ErrorCount d)),
      (''error_rate'', json_f64 (de_ErrorRate d))]"

definition ErrorSummary_doc :: "error_summary \<Rightarrow> json" where
  "ErrorSummary_doc s = JObj
     [(''total_requests'', json_count (es_TotalRequests s)), (''error_requests'', json_count (es_ErrorRequests s)),
      (''error_rate'', json_f64 (es_ErrorRate s)), (''daily'', json_slice DailyErrorRate_doc (es_Daily s))]"

definition RecentError_doc :: "texts \<Rightarrow> recent_error \<Rightarrow> json" where
  "RecentError_doc tx e = JObj (
     [(''id'', json_uuid tx (re_ID e))] @ omit_nil ''api_key_id'' (json_uuid tx) (re_APIKeyID e)
     @ omit_nil ''api_key_name'' json_str (re_APIKeyName e)
     @ [(''provider'', json_str (re_Provider e)), (''model'', json_str (re_Model e)), (''status_code'', json_count (re_StatusCode e))]
     @ omit_nil ''error_message'' json_str (re_ErrorMessage e) @ [(''requested_at'', json_time tx (re_RequestedAt e))])"

definition latency_members :: "'a latencies_scheme \<Rightarrow> members" where
  "latency_members l =
     [(''avg_latency_ms'', json_f64 (lt_AvgLatencyMs l)), (''p50_latency_ms'', json_f64 (lt_P50LatencyMs l)),
      (''p95_latency_ms'', json_f64 (lt_P95LatencyMs l)), (''p99_latency_ms'', json_f64 (lt_P99LatencyMs l))]"

definition DailyLatency_doc :: "daily_latency \<Rightarrow> json" where
  "DailyLatency_doc d = JObj ((''date'', json_str (dl_Date d)) # latency_members d)"

definition LatencyStats_doc :: "latency_stats \<Rightarrow> json" where
  "LatencyStats_doc s = JObj (latency_members s @ [(''daily'', json_slice DailyLatency_doc (lt_Daily s))])"

definition RequestListItem_doc :: "texts \<Rightarrow> request_list_item \<Rightarrow> json" where
  "RequestListItem_doc tx r = JObj (
     [(''id'', json_uuid tx (ri_ID r))] @ omit_nil ''majordomo_api_key_id'' (json_uuid tx) (ri_MajordomoAPIKeyID r)
     @ [(''provider'', json_str (ri_Provider r)), (''model'', json_str (ri_Model r)), (''requested_at'', json_time tx (ri_RequestedAt r)),
        (''response_time_ms'', json_count (ri_ResponseTimeMs r)), (''input_tokens'', json_count (ri_InputTokens r)),
        (''output_tokens'', json_count (ri_OutputTokens r)), (''cached_tokens'', json_count (ri_CachedTokens r)),
        (''cache_creation_tokens'', json_count (ri_CacheCreationTokens r)), (''total_cost'', json_f64 (ri_TotalCost r)),
        (''status_code'', json_count (ri_StatusCode r))]
     @ omit_nil ''error_message'' json_str (ri_ErrorMessage r) @ omit_nil ''trace_id'' json_str (ri_TraceID r)
     @ omit_nil ''routed_provider'' json_str (ri_RoutedProvider r))"

definition RunListItem_doc :: "texts \<Rightarrow> run_list_item \<Rightarrow> json" where
  "RunListItem_doc tx r = JObj (
     [(''trace_id'', json_str (rl_TraceID r)), (''label'', json_str (rl_Label r))] @ totals_members r
     @ [(''started_at'', json_time tx (rl_StartedAt r)), (''ended_at'', json_time tx (rl_EndedAt r))])"

text \<open>The members of a call, only on a leaf.\<close>

definition call_members :: "texts \<Rightarrow> run_leaf_row \<Rightarrow> members" where
  "call_members tx r =
     [(''request_id'', json_uuid tx (lf_ID r)), (''provider'', json_str (lf_Provider r)), (''model'', json_str (lf_Model r)),
      (''requested_at'', json_time tx (lf_RequestedAt r)), (''responded_at'', json_time tx (lf_RespondedAt r)),
      (''response_time_ms'', json_count (lf_ResponseTimeMs r)), (''status_code'', json_count (lf_StatusCode r))]"

fun RunNode_doc :: "texts \<Rightarrow> run_node \<Rightarrow> json" where
  "RunNode_doc tx (RunNode i cs) = JObj (
     [(''span_id'', json_uuid tx (rn_SpanID i))] @ omit_nil ''parent_span_id'' (json_uuid tx) (rn_ParentSpanID i)
     @ [(''name'', json_str (rn_Name i)), (''path'', json_str (rn_Path i)), (''kind'', json_str (rn_Kind i))]
     @ (case rn_Row i of None \<Rightarrow> [] | Some r \<Rightarrow> call_members tx r)
     @ [(''self_cost'', json_f64 (rn_SelfCost i)), (''total_cost'', json_f64 (rn_TotalCost i)),
        (''request_count'', json_count (rn_RequestCount i)), (''children'', json_rows (RunNode_doc tx) cs)])"

definition RunTree_doc :: "texts \<Rightarrow> run_tree \<Rightarrow> json" where
  "RunTree_doc tx t = JObj
     [(''trace_id'', json_str (rt_TraceID t)), (''root'', RunNode_doc tx (rt_Root t)), (''total_cost'', json_f64 (rt_TotalCost t)),
      (''request_count'', json_count (rt_RequestCount t)), (''started_at'', json_time tx (rt_StartedAt t)),
      (''ended_at'', json_time tx (rt_EndedAt t)), (''truncated'', JBool (rt_Truncated t))]"

definition RequestLog_doc :: "texts \<Rightarrow> request_log \<Rightarrow> json" where
  "RequestLog_doc tx l = JObj (
     [(''id'', json_uuid tx (lg_ID l))] @ omit_nil ''majordomo_api_key_id'' (json_uuid tx) (lg_MajordomoAPIKeyID l)
     @ omit_nil ''provider_api_key_hash'' json_str (lg_ProviderAPIKeyHash l) @ omit_nil ''provider_api_key_alias'' json_str (lg_ProviderAPIKeyAlias l)
     @ [(''provider'', json_str (lg_Provider l)), (''model'', json_str (lg_Model l)), (''request_path'', json_str (lg_RequestPath l)),
        (''request_method'', json_str (lg_RequestMethod l)), (''requested_at'', json_time tx (lg_RequestedAt l)),
        (''responded_at'', json_time tx (lg_RespondedAt l)), (''response_time_ms'', json_count (lg_ResponseTimeMs l)),
        (''input_tokens'', json_num (lg_InputTokens l)), (''output_tokens'', json_num (lg_OutputTokens l)),
        (''cached_tokens'', json_num (lg_CachedTokens l)), (''cache_creation_tokens'', json_num (lg_CacheCreationTokens l)),
        (''cache_creation_5m_tokens'', json_num (lg_CacheCreation5mTokens l)), (''cache_creation_1h_tokens'', json_num (lg_CacheCreation1hTokens l)),
        (''input_cost'', json_f64 (lg_InputCost l)), (''cached_cost'', json_f64 (lg_CachedCost l)),
        (''cache_creation_cost'', json_f64 (lg_CacheCreationCost l)), (''output_cost'', json_f64 (lg_OutputCost l)),
        (''total_cost'', json_f64 (lg_TotalCost l)), (''status_code'', json_count (lg_StatusCode l))]
     @ omit_nil ''error_message'' json_str (lg_ErrorMessage l) @ omit_empty ''raw_metadata'' (lg_RawMetadata l)
     @ omit_empty ''indexed_metadata'' (lg_IndexedMetadata l) @ omit_nil ''body_s3_key'' json_str (lg_BodyS3Key l)
     @ [(''model_alias_found'', JBool (lg_ModelAliasFound l)), (''created_at'', json_time tx (lg_CreatedAt l)),
        (''deprecated_model_redirected'', JBool (lg_DeprecatedModelRedirected l))]
     @ omit_nil ''original_model'' json_str (lg_OriginalModel l) @ omit_nil ''routed_provider'' json_str (lg_RoutedProvider l)
     @ omit_nil ''routing_reason'' json_str (lg_RoutingReason l) @ omit_nil ''routing_original_model'' json_str (lg_RoutingOriginalModel l)
     @ omit_nil ''trace_id'' json_str (lg_TraceID l) @ omit_nil ''span_path'' json_str (lg_SpanPath l)
     @ omit_nil ''span_name'' json_str (lg_SpanName l) @ omit_nil ''span_id'' (json_uuid tx) (lg_SpanID l)
     @ omit_nil ''parent_span_id'' (json_uuid tx) (lg_ParentSpanID l))"

section \<open>Answers\<close>

text \<open>The messages of \<open>resolveFilter\<close>.\<close>

definition validation_text :: "texts \<Rightarrow> validation_error \<Rightarrow> string" where
  "validation_text tx v = (case v of
       TooManyFilters \<Rightarrow> ''at most 2 metadata filters allowed''
     | InvalidAPIKeyID s \<Rightarrow> ''invalid api_key_id: '' @ tx_bad_uuid tx s
     | InvalidStatusClass \<Rightarrow> ''invalid status_class: must be 'error' or 'success'' @ [CHR 0x27]
     | EmptyMetadataFilter \<Rightarrow> ''metadata filter key and value must be non-empty''
     | InvalidStart s \<Rightarrow> ''invalid start date: '' @ tx_bad_date tx s
     | InvalidEnd s \<Rightarrow> ''invalid end date: '' @ tx_bad_date tx s)"

text \<open>The message of an error answer, and the document of any other that has a body. The documents built as
  maps have their members in the order of the keys.\<close>

definition answer_error :: "texts \<Rightarrow> answer \<Rightarrow> string option" where
  "answer_error tx a = (case a of ErrorA m \<Rightarrow> Some m | InvalidA v \<Rightarrow> Some (validation_text tx v) | _ \<Rightarrow> None)"

fun answer_doc :: "texts \<Rightarrow> answer \<Rightarrow> json" where
  "answer_doc tx (CreatedKeyA k key) = JObj (APIKey_members tx k @ [(''key'', json_str key)])"
| "answer_doc tx (KeysA ks) = json_rows (\<lambda>k. JObj (APIKey_members tx k)) ks"
| "answer_doc tx (MetadataKeysA ks) = json_rows (MetadataKey_doc tx) ks"
| "answer_doc tx ActivatedA = JObj [(''backfilling'', JBool True), (''status'', json_str ''activated'')]"
| "answer_doc tx DeactivatedA = JObj [(''cleaning'', JBool True), (''status'', json_str ''deactivated'')]"
| "answer_doc tx (ProviderA p) = JObj [(''provider'', json_str p)]"
| "answer_doc tx (ProviderKeysA ks) = json_rows (ProviderKeyInfo_doc tx) ks"
| "answer_doc tx (SummaryA s) = UsageSummary_doc s"
| "answer_doc tx (DailyA us) = json_slice DailyUsage_doc us"
| "answer_doc tx (ModelsA us) = json_slice ModelUsage_doc us"
| "answer_doc tx (ProvidersA us) = json_slice ProviderUsage_doc us"
| "answer_doc tx (APIKeysA us) = json_slice (APIKeyUsage_doc tx) us"
| "answer_doc tx (ErrorsA s) = ErrorSummary_doc s"
| "answer_doc tx (RecentErrorsA es) = json_rows (RecentError_doc tx) es"
| "answer_doc tx (LatencyA s) = LatencyStats_doc s"
| "answer_doc tx (RequestsA rs n) = JObj [(''numRecords'', json_count n), (''requests'', json_rows (RequestListItem_doc tx) rs)]"
| "answer_doc tx (RunsA rs n) = JObj [(''numRecords'', json_count n), (''runs'', json_rows (RunListItem_doc tx) rs)]"
| "answer_doc tx (MetadataA bs) = json_slice MetadataBreakdown_doc bs"
| "answer_doc tx (RunTreeA t) = RunTree_doc tx t"
| "answer_doc tx (DetailA l) = RequestLog_doc tx l"
| "answer_doc tx (BodyA c) = content_doc c"
| "answer_doc tx _ = JNull"

text \<open>The instants in a document: \<open>Encode\<close> writes nothing at all when one is outside the years 0 to 9999.\<close>

definition opt_list :: "'a option \<Rightarrow> 'a list" where
  "opt_list x = (case x of None \<Rightarrow> [] | Some v \<Rightarrow> [v])"

definition api_key_times :: "api_key \<Rightarrow> instant list" where
  "api_key_times k = ak_CreatedAt k # opt_list (ak_RevokedAt k) @ opt_list (ak_LastUsedAt k)"

fun run_node_times :: "run_node \<Rightarrow> instant list" where
  "run_node_times (RunNode i cs) =
     (case rn_Row i of None \<Rightarrow> [] | Some r \<Rightarrow> [lf_RequestedAt r, lf_RespondedAt r]) @ concat (map run_node_times cs)"

fun answer_times :: "answer \<Rightarrow> instant list" where
  "answer_times (CreatedKeyA k key) = api_key_times k"
| "answer_times (KeysA ks) = concat (map api_key_times ks)"
| "answer_times (MetadataKeysA ks) =
     concat (map (\<lambda>k. opt_list (mk_ActivatedAt k) @ opt_list (mk_LastSeenAt k) @ [mk_CreatedAt k]) ks)"
| "answer_times (ProviderKeysA ks) = map pi_CreatedAt ks"
| "answer_times (RecentErrorsA es) = map re_RequestedAt es"
| "answer_times (RequestsA rs n) = map ri_RequestedAt rs"
| "answer_times (RunsA rs n) = concat (map (\<lambda>r. [rl_StartedAt r, rl_EndedAt r]) rs)"
| "answer_times (RunTreeA t) = run_node_times (rt_Root t) @ [rt_StartedAt t, rt_EndedAt t]"
| "answer_times (DetailA l) = [lg_RequestedAt l, lg_RespondedAt l, lg_CreatedAt l]"
| "answer_times _ = []"

definition times_ok :: "texts \<Rightarrow> answer \<Rightarrow> bool" where
  "times_ok tx a \<longleftrightarrow> list_all (\<lambda>t. year_ok (tx_zone tx t) t) (answer_times a)"

definition api_response :: "texts \<Rightarrow> reply \<Rightarrow> http_response" where
  "api_response tx = (\<lambda>(status, a).
     case answer_error tx a of
       Some message \<Rightarrow> WriteJSONError [] status message
     | None \<Rightarrow>
         if a = EmptyA then \<lparr>rp_Status = status, rp_Header = [], rp_Body = [], rp_Flushed = False\<rparr>
         else if times_ok tx a then WriteJSON [] status (answer_doc tx a)
         else (WriteJSON [] status JNull)\<lparr>rp_Body := []\<rparr>)"

section \<open>Every document is well-formed\<close>

text \<open>The names of the members.\<close>

definition wire_names :: "string list" where
  "wire_names =
    [''id'', ''name'', ''description'', ''is_active'', ''created_at'', ''revoked_at'', ''last_used_at'', ''request_count'',
     ''deprecated_model_behavior'', ''key'', ''majordomo_api_key_id'', ''api_key_name'', ''key_name'', ''display_name'', ''key_type'',
     ''is_required'', ''activated_at'', ''last_seen_at'', ''approx_cardinality'', ''provider'', ''total_requests'', ''total_input_tokens'',
     ''total_output_tokens'', ''total_cached_tokens'', ''total_cache_creation_tokens'', ''total_cost'', ''total_cached_cost'',
     ''total_cache_creation_cost'', ''input_tokens'', ''output_tokens'', ''cached_tokens'', ''cache_creation_tokens'', ''cached_cost'',
     ''cache_creation_cost'', ''date'', ''model'', ''api_key_id'', ''value'', ''error_count'', ''error_rate'', ''error_requests'', ''daily'',
     ''status_code'', ''error_message'', ''requested_at'', ''avg_latency_ms'', ''p50_latency_ms'', ''p95_latency_ms'', ''p99_latency_ms'',
     ''response_time_ms'', ''trace_id'', ''routed_provider'', ''label'', ''started_at'', ''ended_at'', ''request_id'', ''responded_at'',
     ''span_id'', ''parent_span_id'', ''path'', ''kind'', ''self_cost'', ''children'', ''root'', ''truncated'', ''provider_api_key_hash'',
     ''provider_api_key_alias'', ''request_path'', ''request_method'', ''cache_creation_5m_tokens'', ''cache_creation_1h_tokens'',
     ''input_cost'', ''output_cost'', ''raw_metadata'', ''indexed_metadata'', ''body_s3_key'', ''model_alias_found'',
     ''deprecated_model_redirected'', ''original_model'', ''routing_reason'', ''routing_original_model'', ''span_path'', ''span_name'',
     ''numRecords'', ''requests'', ''runs'', ''backfilling'', ''cleaning'', ''status'', ''error'']"

lemma wire_names_ok: "list_all str_ok wire_names"
  by code_simp

lemmas name_ok [simp] = wire_names_ok [unfolded wire_names_def, simplified]

text \<open>The text of an instant has nothing to escape.\<close>

definition time_char :: "char \<Rightarrow> bool" where
  "time_char c \<longleftrightarrow> is_digit c \<or> c \<in> {CHR ''-'', CHR '':'', CHR ''T'', CHR ''.'', CHR ''Z'', CHR ''+''}"

lemma time_char_quote: "time_char c \<Longrightarrow> quote_char c = [c]"
proof -
  assume c: "time_char c"
  have "\<not> time_char (CHR 0x22)" "\<not> time_char (CHR 0x5C)" "\<not> time_char (CHR 0x08)" "\<not> time_char (CHR 0x0C)" "\<not> time_char (CHR 0x0A)"
    "\<not> time_char (CHR 0x0D)" "\<not> time_char (CHR 0x09)" by code_simp+
  then have "short_escape c = None" using c by (auto simp: short_escape_def quote_c_def bslash_c_def)
  moreover have "CHR 0x20 \<le> c" "c \<noteq> CHR ''<''" "c \<noteq> CHR ''>''" "c \<noteq> CHR ''&''"
    using c by (auto simp: time_char_def is_digit_def less_eq_char_def)
  ultimately show ?thesis by (simp add: quote_char_eq u_escaped_def leD)
qed

lemma quote_time_chars: "\<forall>c \<in> set t. time_char c \<Longrightarrow> quote_str t = t"
  by (induction t) (simp_all add: quote_str_def time_char_quote)

lemma time_chars_dec: "c \<in> set (dec_of_nat n) \<Longrightarrow> time_char c"
  using dec_of_nat_digits [of n] by (auto simp: time_char_def)

lemma time_chars_pad: "c \<in> set (pad2 n) \<Longrightarrow> time_char c" "c \<in> set (pad4 y) \<Longrightarrow> time_char c" "c \<in> set (pad9 n) \<Longrightarrow> time_char c"
  by (auto simp: pad2_def pad4_def pad9_def Let_def time_chars_dec split: if_splits) (simp_all add: time_char_def is_digit_def)

lemma time_chars_text: "\<forall>c \<in> set (format_rfc3339_nano z t). time_char c"
proof -
  have "time_char c" if "c \<in> {CHR ''-'', CHR '':'', CHR ''T'', CHR ''.'', CHR ''Z'', CHR ''+''}" for c
    using that by (simp add: time_char_def)
  moreover have "c \<in> set (fraction_text n) \<Longrightarrow> c = CHR ''.'' \<or> time_char c" for c n
    by (auto simp: fraction_text_def dest!: set_dropWhileD intro: time_chars_pad split: if_splits)
  ultimately show ?thesis
    by (auto simp: format_rfc3339_nano_def clock_text_def format_date_def zone_text_def Let_def dest: time_chars_pad
        split: prod.splits if_splits)
qed

lemma json_time_str: "json_time tx t = json_str (format_rfc3339_nano (tx_zone tx t) t)"
  by (simp add: json_time_def json_str_def quote_time_chars time_chars_text)

lemma value_ok [simp]: "json_ok (json_uuid tx u)" "json_ok (json_time tx t)" "json_ok (json_count i)"
  by (simp_all add: json_uuid_def json_time_str json_count_def dec_of_int_ok)

lemma omit_ok [simp]:
  "str_ok k \<Longrightarrow> (\<And>x. json_ok (f x)) \<Longrightarrow> list_all (\<lambda>(k, j). str_ok k \<and> json_ok j) (omit_nil k f v)"
  "str_ok k \<Longrightarrow> list_all (\<lambda>(k, j). str_ok k \<and> json_ok j) (omit_empty k m)"
  by (simp_all add: omit_nil_def omit_empty_def split: option.split)

lemma slice_ok: "(\<And>x. x \<in> set xs \<Longrightarrow> json_ok (f x)) \<Longrightarrow> json_ok (json_slice f xs)"
  "(\<And>x. x \<in> set xs \<Longrightarrow> json_ok (f x)) \<Longrightarrow> json_ok (json_rows f xs)"
  by (simp_all add: json_rows_def json_slice_def list_all_iff)

lemma totals_ok [simp]: "list_all (\<lambda>(k, j). str_ok k \<and> json_ok j) (totals_members t)"
  "list_all (\<lambda>(k, j). str_ok k \<and> json_ok j) (latency_members l)"
  "list_all (\<lambda>(k, j). str_ok k \<and> json_ok j) (APIKey_members tx k)"
  "list_all (\<lambda>(k, j). str_ok k \<and> json_ok j) (call_members tx r)"
  by (simp_all add: totals_members_def latency_members_def APIKey_members_def call_members_def)

lemma doc_ok [simp]:
  "json_ok (MetadataKey_doc tx mk)" "json_ok (ProviderKeyInfo_doc tx pk)" "json_ok (UsageSummary_doc us)" "json_ok (DailyUsage_doc du)"
  "json_ok (ModelUsage_doc mu)" "json_ok (APIKeyUsage_doc tx ku)" "json_ok (ProviderUsage_doc pu)" "json_ok (MetadataBreakdown_doc mb)"
  "json_ok (DailyErrorRate_doc de)" "json_ok (RecentError_doc tx re)" "json_ok (DailyLatency_doc dl)" "json_ok (RequestListItem_doc tx ri)"
  "json_ok (RunListItem_doc tx rl)" "json_ok (RequestLog_doc tx l)"
  by (simp_all add: MetadataKey_doc_def ProviderKeyInfo_doc_def UsageSummary_doc_def DailyUsage_doc_def ModelUsage_doc_def
      APIKeyUsage_doc_def ProviderUsage_doc_def MetadataBreakdown_doc_def DailyErrorRate_doc_def RecentError_doc_def
      DailyLatency_doc_def RequestListItem_doc_def RunListItem_doc_def RequestLog_doc_def)

lemma summary_doc_ok [simp]: "json_ok (ErrorSummary_doc es)" "json_ok (LatencyStats_doc ls)"
  by (simp_all add: ErrorSummary_doc_def LatencyStats_doc_def slice_ok)

lemma run_node_ok [simp]: "json_ok (RunNode_doc tx n)"
proof (induction tx n rule: RunNode_doc.induct)
  case (1 tx i cs)
  then show ?case by (simp add: slice_ok split: option.split)
qed

lemma run_tree_ok [simp]: "json_ok (RunTree_doc tx t)"
  by (simp add: RunTree_doc_def)

text \<open>The messages in an archived body are those of a document that was parsed.\<close>

definition body_ok :: "body_content \<Rightarrow> bool" where
  "body_ok c \<longleftrightarrow> list_all json_ok (opt_list (rc_Body (bc_Request c)) @ opt_list (sc_Body (bc_Response c)))"

lemma content_ok: "body_ok c \<Longrightarrow> json_ok (content_doc c)"
  by (auto simp: body_ok_def opt_list_def content_doc_def request_doc_def response_doc_def headers_member_def body_member_def
      json_ok_html split: option.splits)

definition answer_ok :: "answer \<Rightarrow> bool" where
  "answer_ok a \<longleftrightarrow> (case a of BodyA c \<Rightarrow> body_ok c | _ \<Rightarrow> True)"

lemma answer_doc_ok: "answer_ok a \<Longrightarrow> json_ok (answer_doc tx a)"
  by (cases a) (simp_all add: answer_ok_def slice_ok content_ok)

end
