(* ===== verification/Output.thy ===== *)
theory Output
  imports Commands Wire Request_Log
begin

text \<open>
  What the clients make of an answer: the structs \<open>gateway-cli\<close> decodes it into, the lines and table rows it
  prints of them, and the text \<open>gateway-mcp\<close> hands on. A table is a list of rows of cells; how
  \<open>text/tabwriter\<close> aligns them, how \<open>fmt\<close> quotes a text and how indented JSON is laid out are not modelled.
\<close>

section \<open>Formatting\<close>

text \<open>A \<open>time.Time\<close> is an instant and the offset of the zone it is displayed in.\<close>

type_synonym go_time = "instant \<times> duration"

definition zero_time :: go_time where "zero_time = (days_of_date 1 1 1 * day, 0)"

text \<open>\<open>UnmarshalJSON\<close> parses the text between the quotes as it is.\<close>

fun decode_time :: "json \<Rightarrow> go_time \<Rightarrow> go_time option" where
  "decode_time (JStr t) _ = parse_rfc3339_zone t"
| "decode_time JNull x = Some x"
| "decode_time _ _ = None"

definition time_json :: "go_time \<Rightarrow> json" where
  "time_json x = JStr (format_rfc3339_nano (snd x div minute) (fst x))"

definition date_cell :: "go_time \<Rightarrow> string" where
  "date_cell x = format_date CHR ''-'' (fst x + snd x)"

definition date_time_cell :: "go_time \<Rightarrow> string" where
  "date_time_cell x =
     (let w = fst x + snd x; s = nat ((w mod day) div minute)
      in format_date CHR ''-'' w @ CHR '' '' # pad2 (s div 60) @ CHR '':'' # pad2 (s mod 60))"

definition bool_cell :: "bool \<Rightarrow> string" where "bool_cell b = (if b then ''true'' else ''false'')"

definition int_cell :: "int64 \<Rightarrow> string" where "int_cell n = dec_of_int (sint n)"

text \<open>\<open>%.4f\<close>: the value is rounded to the nearest multiple of a ten-thousandth, a tie to the even one.\<close>

definition fixed4 :: "f64 \<Rightarrow> string" where
  "fixed4 x =
     (let r = rat_of_f64 x; n = nat (rhe (\<bar>r\<bar> * 10000))
      in (if r < 0 then ''-'' else []) @ dec_of_nat (n div 10000) @ CHR ''.'' # pad4 (int (n mod 10000)))"

definition cost_cell :: "f64 \<Rightarrow> string" where "cost_cell x = CHR ''$'' # fixed4 x"

definition ellipsis :: string where "ellipsis = [CHR 0xE2, CHR 0x80, CHR 0xA6]"
definition em_dash :: string where "em_dash = [CHR 0xE2, CHR 0x80, CHR 0x94]"

definition truncate_label :: "string \<Rightarrow> nat \<Rightarrow> string" where
  "truncate_label s n = (if length s \<le> n then s else take (n - 1) s @ ellipsis)"

text \<open>\<open>utf8.RuneCountInString\<close>: a byte that starts no character counts as one. \<open>%-40s\<close> pads to 40 of them.\<close>

function rune_count :: "string \<Rightarrow> nat" where
  "rune_count s =
     (case s of
        [] \<Rightarrow> 0
      | c # r \<Rightarrow>
          (case utf8_lead c of
             None \<Rightarrow> Suc (rune_count r)
           | Some (n, lo, hi) \<Rightarrow>
               if n \<le> length r \<and> list_all utf8_cont (take n r) \<and> (n = 0 \<or> lo \<le> (of_char (hd r) :: nat) \<and> (of_char (hd r) :: nat) < hi)
               then Suc (rune_count (drop n r)) else Suc (rune_count r)))"
  by pat_completeness auto
termination
  by (relation "measure length") auto

declare rune_count.simps [simp del]

definition pad_right :: "nat \<Rightarrow> string \<Rightarrow> string" where
  "pad_right n s = s @ replicate (n - rune_count s) (CHR '' '')"

text \<open>What is printed: a line, a line with a quoted text in it, a row of a table, or a value as JSON.\<close>

datatype printed = Line string | QuotedLine string string string | Row "string list" | Json json

text \<open>How a call ends that shows nothing. A nil node in a run tree would be a panic.\<close>

datatype cli_error = CliUnauthorized | CliApi string | CliStatus int | CliDecode | CliPanic

definition answered :: "(json \<Rightarrow> 'a \<Rightarrow> 'a option) \<Rightarrow> 'a \<Rightarrow> ('a \<Rightarrow> cli_error + 'b) \<Rightarrow> client_result \<Rightarrow> cli_error + 'b" where
  "answered d z use result = (case result of
       Unauthorized \<Rightarrow> Inl CliUnauthorized
     | ApiError m \<Rightarrow> Inl (CliApi m)
     | ServerReturned n \<Rightarrow> Inl (CliStatus n)
     | Answered body \<Rightarrow> (case decode_first d z body of None \<Rightarrow> Inl CliDecode | Some x \<Rightarrow> use x))"

text \<open>A call without a result, \<open>do\<close> with \<open>out\<close> nil.\<close>

definition unanswered :: "'b \<Rightarrow> client_result \<Rightarrow> cli_error + 'b" where
  "unanswered done_value result = (case result of
       Unauthorized \<Rightarrow> Inl CliUnauthorized
     | ApiError m \<Rightarrow> Inl (CliApi m)
     | ServerReturned n \<Rightarrow> Inl (CliStatus n)
     | Answered body \<Rightarrow> Inr done_value)"

text \<open>A slice that is nil is printed as \<open>null\<close>, an empty one as \<open>[]\<close>.\<close>

definition decode_nil_slice :: "'a \<Rightarrow> (json \<Rightarrow> 'a \<Rightarrow> 'a option) \<Rightarrow> json \<Rightarrow> 'a list option \<Rightarrow> 'a list option option" where
  "decode_nil_slice z d = decode_ptr [] (decode_slice z d)"

definition nil_slice_json :: "('a \<Rightarrow> json) \<Rightarrow> 'a list option \<Rightarrow> json" where
  "nil_slice_json f xs = (case xs of None \<Rightarrow> JNull | Some ys \<Rightarrow> json_slice f ys)"

definition elements :: "'a list option \<Rightarrow> 'a list" where
  "elements xs = (case xs of None \<Rightarrow> [] | Some ys \<Rightarrow> ys)"

section \<open>Keys\<close>

record apiKey =
  kv_ID :: string
  kv_Name :: string
  kv_Description :: "string option"
  kv_IsActive :: bool
  kv_RequestCount :: int64
  kv_CreatedAt :: go_time
  kv_RevokedAt :: "go_time option"
  kv_LastUsedAt :: "go_time option"

record createKeyResponse = apiKey +
  kv_Key :: string

definition apiKey_fields :: "'a apiKey_scheme json_field list" where
  "apiKey_fields =
     [field ''id'' decode_string kv_ID (\<lambda>x s. s\<lparr>kv_ID := x\<rparr>),
      field ''name'' decode_string kv_Name (\<lambda>x s. s\<lparr>kv_Name := x\<rparr>),
      field ''description'' (decode_ptr [] decode_string) kv_Description (\<lambda>x s. s\<lparr>kv_Description := x\<rparr>),
      field ''is_active'' decode_bool kv_IsActive (\<lambda>x s. s\<lparr>kv_IsActive := x\<rparr>),
      field ''request_count'' decode_int kv_RequestCount (\<lambda>x s. s\<lparr>kv_RequestCount := x\<rparr>),
      field ''created_at'' decode_time kv_CreatedAt (\<lambda>x s. s\<lparr>kv_CreatedAt := x\<rparr>),
      field ''revoked_at'' (decode_ptr zero_time decode_time) kv_RevokedAt (\<lambda>x s. s\<lparr>kv_RevokedAt := x\<rparr>),
      field ''last_used_at'' (decode_ptr zero_time decode_time) kv_LastUsedAt (\<lambda>x s. s\<lparr>kv_LastUsedAt := x\<rparr>)]"

definition createKeyResponse_fields :: "createKeyResponse json_field list" where
  "createKeyResponse_fields = apiKey_fields @ [field ''key'' decode_string kv_Key (\<lambda>x s. s\<lparr>kv_Key := x\<rparr>)]"

definition zero_apiKey :: apiKey where
  "zero_apiKey = \<lparr>kv_ID = [], kv_Name = [], kv_Description = None, kv_IsActive = False, kv_RequestCount = 0,
     kv_CreatedAt = zero_time, kv_RevokedAt = None, kv_LastUsedAt = None\<rparr>"

definition zero_createKeyResponse :: createKeyResponse where
  "zero_createKeyResponse = apiKey.extend zero_apiKey \<lparr>kv_Key = []\<rparr>"

definition print_created :: "createKeyResponse \<Rightarrow> printed list" where
  "print_created resp =
     [QuotedLine ''Created API key '' (kv_Name resp) ('' ('' @ kv_ID resp @ '')''), Line [], Line (''  '' @ kv_Key resp), Line [],
      Line (''This is the only time the key is shown '' @ em_dash @ '' store it now.'')]"

definition key_row :: "apiKey \<Rightarrow> printed" where
  "key_row k = Row [kv_ID k, kv_Name k, bool_cell (kv_IsActive k), int_cell (kv_RequestCount k), date_cell (kv_CreatedAt k),
     (case kv_LastUsedAt k of None \<Rightarrow> ''never'' | Some t \<Rightarrow> date_cell t)]"

definition print_keys :: "apiKey list \<Rightarrow> printed list" where
  "print_keys keys =
     (if keys = [] then [Line ''No API keys.'']
      else Row [''ID'', ''NAME'', ''ACTIVE'', ''REQUESTS'', ''CREATED'', ''LAST USED''] # map key_row keys)"

definition show_created :: "client_result \<Rightarrow> cli_error + printed list" where
  "show_created = answered (decode_struct createKeyResponse_fields) zero_createKeyResponse (\<lambda>resp. Inr (print_created resp))"

definition show_keys :: "client_result \<Rightarrow> cli_error + printed list" where
  "show_keys = answered (decode_slice zero_apiKey (decode_struct apiKey_fields)) [] (\<lambda>keys. Inr (print_keys keys))"

definition show_revoked :: "string \<Rightarrow> client_result \<Rightarrow> cli_error + printed list" where
  "show_revoked i = unanswered [Line (''Revoked API key '' @ i)]"

section \<open>Provider keys and metadata keys\<close>

record providerKeyInfo =
  pv_Provider :: string
  pv_CreatedAt :: go_time

definition providerKeyInfo_fields :: "providerKeyInfo json_field list" where
  "providerKeyInfo_fields =
     [field ''provider'' decode_string pv_Provider (\<lambda>x s. s\<lparr>pv_Provider := x\<rparr>),
      field ''created_at'' decode_time pv_CreatedAt (\<lambda>x s. s\<lparr>pv_CreatedAt := x\<rparr>)]"

definition zero_providerKeyInfo :: providerKeyInfo where
  "zero_providerKeyInfo = \<lparr>pv_Provider = [], pv_CreatedAt = zero_time\<rparr>"

definition print_stored :: "providerKeyInfo \<Rightarrow> printed list" where
  "print_stored resp = [QuotedLine ''Stored provider key for '' (pv_Provider resp) []]"

definition print_provider_keys :: "providerKeyInfo list \<Rightarrow> printed list" where
  "print_provider_keys keys =
     (if keys = [] then [Line ''No provider keys.'']
      else Row [''PROVIDER'', ''CREATED''] # map (\<lambda>k. Row [pv_Provider k, date_cell (pv_CreatedAt k)]) keys)"

definition show_stored :: "client_result \<Rightarrow> cli_error + printed list" where
  "show_stored = answered (decode_struct providerKeyInfo_fields) zero_providerKeyInfo (\<lambda>resp. Inr (print_stored resp))"

definition show_provider_keys :: "client_result \<Rightarrow> cli_error + printed list" where
  "show_provider_keys =
     answered (decode_slice zero_providerKeyInfo (decode_struct providerKeyInfo_fields)) [] (\<lambda>keys. Inr (print_provider_keys keys))"

definition show_removed :: "string \<Rightarrow> client_result \<Rightarrow> cli_error + printed list" where
  "show_removed p = unanswered [Line (''Removed provider key for '' @ p)]"

record metadataKey =
  mv_MajordomoAPIKeyID :: string
  mv_APIKeyName :: string
  mv_KeyName :: string
  mv_IsActive :: bool
  mv_ApproxCardinality :: int64
  mv_RequestCount :: int64

definition metadataKey_fields :: "metadataKey json_field list" where
  "metadataKey_fields =
     [field ''majordomo_api_key_id'' decode_string mv_MajordomoAPIKeyID (\<lambda>x s. s\<lparr>mv_MajordomoAPIKeyID := x\<rparr>),
      field ''api_key_name'' decode_string mv_APIKeyName (\<lambda>x s. s\<lparr>mv_APIKeyName := x\<rparr>),
      field ''key_name'' decode_string mv_KeyName (\<lambda>x s. s\<lparr>mv_KeyName := x\<rparr>),
      field ''is_active'' decode_bool mv_IsActive (\<lambda>x s. s\<lparr>mv_IsActive := x\<rparr>),
      field ''approx_cardinality'' decode_int mv_ApproxCardinality (\<lambda>x s. s\<lparr>mv_ApproxCardinality := x\<rparr>),
      field ''request_count'' decode_int mv_RequestCount (\<lambda>x s. s\<lparr>mv_RequestCount := x\<rparr>)]"

definition zero_metadataKey :: metadataKey where
  "zero_metadataKey = \<lparr>mv_MajordomoAPIKeyID = [], mv_APIKeyName = [], mv_KeyName = [], mv_IsActive = False,
     mv_ApproxCardinality = 0, mv_RequestCount = 0\<rparr>"

definition print_metadata_keys :: "metadataKey list \<Rightarrow> printed list" where
  "print_metadata_keys keys =
     (if keys = [] then [Line ''No metadata keys discovered yet. Send requests with X-Majordomo-<key> headers first.'']
      else Row [''API KEY'', ''METADATA KEY'', ''~CARDINALITY'', ''INDEXED'', ''REQUESTS'', ''API KEY ID'']
        # map (\<lambda>k. Row [mv_APIKeyName k, mv_KeyName k, int_cell (mv_ApproxCardinality k), bool_cell (mv_IsActive k),
              int_cell (mv_RequestCount k), mv_MajordomoAPIKeyID k]) keys
        @ [Line [], Line ''Only INDEXED keys are queryable/groupable. Activate low-cardinality keys;'',
           Line ''leave high-cardinality keys (e.g. user_id) un-indexed to keep the index bounded.''])"

definition show_metadata_keys :: "client_result \<Rightarrow> cli_error + printed list" where
  "show_metadata_keys =
     answered (decode_slice zero_metadataKey (decode_struct metadataKey_fields)) [] (\<lambda>keys. Inr (print_metadata_keys keys))"

text \<open>\<open>map[string]any\<close> takes any object whose numbers are floats.\<close>

fun any_ok :: "json \<Rightarrow> bool" where
  "any_ok (JNum t) \<longleftrightarrow> json_float t \<noteq> None"
| "any_ok (JArr js) \<longleftrightarrow> list_all any_ok js"
| "any_ok (JObj ms) \<longleftrightarrow> list_all (\<lambda>(_, j). any_ok j) ms"
| "any_ok _ \<longleftrightarrow> True"

definition decode_any_map :: "json \<Rightarrow> unit \<Rightarrow> unit option" where
  "decode_any_map j u = (case j of JObj _ \<Rightarrow> if any_ok j then Some u else None | JNull \<Rightarrow> Some u | _ \<Rightarrow> None)"

definition show_toggled :: "string \<Rightarrow> string \<Rightarrow> string \<Rightarrow> client_result \<Rightarrow> cli_error + printed list" where
  "show_toggled action keyName apiKey = answered decode_any_map () (\<lambda>_.
     Inr [QuotedLine (action @ '' '') keyName ('' for API key '' @ apiKey @ '' (reindexing existing rows in the background)'')])"

section \<open>Usage reports\<close>

text \<open>With \<open>--json\<close> the struct that was decoded is printed, so only the fields it has.\<close>

record summary_view =
  sv_TotalRequests :: int64
  sv_TotalInputTokens :: int64
  sv_TotalOutputTokens :: int64
  sv_TotalCachedTokens :: int64
  sv_TotalCacheCreationTokens :: int64
  sv_TotalCost :: f64

definition summary_fields :: "summary_view json_field list" where
  "summary_fields =
     [field ''total_requests'' decode_int sv_TotalRequests (\<lambda>x s. s\<lparr>sv_TotalRequests := x\<rparr>),
      field ''total_input_tokens'' decode_int sv_TotalInputTokens (\<lambda>x s. s\<lparr>sv_TotalInputTokens := x\<rparr>),
      field ''total_output_tokens'' decode_int sv_TotalOutputTokens (\<lambda>x s. s\<lparr>sv_TotalOutputTokens := x\<rparr>),
      field ''total_cached_tokens'' decode_int sv_TotalCachedTokens (\<lambda>x s. s\<lparr>sv_TotalCachedTokens := x\<rparr>),
      field ''total_cache_creation_tokens'' decode_int sv_TotalCacheCreationTokens (\<lambda>x s. s\<lparr>sv_TotalCacheCreationTokens := x\<rparr>),
      field ''total_cost'' decode_float sv_TotalCost (\<lambda>x s. s\<lparr>sv_TotalCost := x\<rparr>)]"

definition zero_summary :: summary_view where
  "zero_summary = \<lparr>sv_TotalRequests = 0, sv_TotalInputTokens = 0, sv_TotalOutputTokens = 0, sv_TotalCachedTokens = 0,
     sv_TotalCacheCreationTokens = 0, sv_TotalCost = 0\<rparr>"

definition summary_json :: "summary_view \<Rightarrow> json" where
  "summary_json s = JObj
     [(''total_requests'', json_num (sv_TotalRequests s)), (''total_input_tokens'', json_num (sv_TotalInputTokens s)),
      (''total_output_tokens'', json_num (sv_TotalOutputTokens s)), (''total_cached_tokens'', json_num (sv_TotalCachedTokens s)),
      (''total_cache_creation_tokens'', json_num (sv_TotalCacheCreationTokens s)), (''total_cost'', json_f64 (sv_TotalCost s))]"

definition print_summary :: "bool \<Rightarrow> summary_view \<Rightarrow> printed list" where
  "print_summary asJSON s =
     (if asJSON then [Json (summary_json s)]
      else [Line (''Requests:       '' @ int_cell (sv_TotalRequests s)), Line (''Input tokens:   '' @ int_cell (sv_TotalInputTokens s)),
            Line (''Output tokens:  '' @ int_cell (sv_TotalOutputTokens s)), Line (''Cached tokens:  '' @ int_cell (sv_TotalCachedTokens s)),
            Line (''Total cost:     '' @ cost_cell (sv_TotalCost s))])"

definition usageSummary :: "bool \<Rightarrow> client_result \<Rightarrow> cli_error + printed list" where
  "usageSummary asJSON = answered (decode_struct summary_fields) zero_summary (\<lambda>s. Inr (print_summary asJSON s))"

record model_view =
  lv_Provider :: string
  lv_Model :: string
  lv_RequestCount :: int64
  lv_InputTokens :: int64
  lv_OutputTokens :: int64
  lv_TotalCost :: f64

definition model_fields :: "model_view json_field list" where
  "model_fields =
     [field ''provider'' decode_string lv_Provider (\<lambda>x s. s\<lparr>lv_Provider := x\<rparr>),
      field ''model'' decode_string lv_Model (\<lambda>x s. s\<lparr>lv_Model := x\<rparr>),
      field ''request_count'' decode_int lv_RequestCount (\<lambda>x s. s\<lparr>lv_RequestCount := x\<rparr>),
      field ''input_tokens'' decode_int lv_InputTokens (\<lambda>x s. s\<lparr>lv_InputTokens := x\<rparr>),
      field ''output_tokens'' decode_int lv_OutputTokens (\<lambda>x s. s\<lparr>lv_OutputTokens := x\<rparr>),
      field ''total_cost'' decode_float lv_TotalCost (\<lambda>x s. s\<lparr>lv_TotalCost := x\<rparr>)]"

definition zero_model :: model_view where
  "zero_model = \<lparr>lv_Provider = [], lv_Model = [], lv_RequestCount = 0, lv_InputTokens = 0, lv_OutputTokens = 0, lv_TotalCost = 0\<rparr>"

definition model_json :: "model_view \<Rightarrow> json" where
  "model_json r = JObj
     [(''provider'', json_str (lv_Provider r)), (''model'', json_str (lv_Model r)), (''request_count'', json_num (lv_RequestCount r)),
      (''input_tokens'', json_num (lv_InputTokens r)), (''output_tokens'', json_num (lv_OutputTokens r)),
      (''total_cost'', json_f64 (lv_TotalCost r))]"

definition model_row :: "model_view \<Rightarrow> printed" where
  "model_row r = Row [lv_Provider r, lv_Model r, int_cell (lv_RequestCount r), int_cell (lv_InputTokens r), int_cell (lv_OutputTokens r),
     cost_cell (lv_TotalCost r)]"

definition print_models :: "bool \<Rightarrow> model_view list option \<Rightarrow> printed list" where
  "print_models asJSON rows =
     (if asJSON then [Json (nil_slice_json model_json rows)]
      else Row [''PROVIDER'', ''MODEL'', ''REQUESTS'', ''INPUT'', ''OUTPUT'', ''COST''] # map model_row (elements rows))"

definition usageModels :: "bool \<Rightarrow> client_result \<Rightarrow> cli_error + printed list" where
  "usageModels asJSON =
     answered (decode_nil_slice zero_model (decode_struct model_fields)) None (\<lambda>rows. Inr (print_models asJSON rows))"

text \<open>The breakdowns by provider and by key differ in the column they group by.\<close>

record group_view =
  gv_Name :: string
  gv_RequestCount :: int64
  gv_TotalCost :: f64

definition group_fields :: "string \<Rightarrow> group_view json_field list" where
  "group_fields column =
     [field column decode_string gv_Name (\<lambda>x s. s\<lparr>gv_Name := x\<rparr>),
      field ''request_count'' decode_int gv_RequestCount (\<lambda>x s. s\<lparr>gv_RequestCount := x\<rparr>),
      field ''total_cost'' decode_float gv_TotalCost (\<lambda>x s. s\<lparr>gv_TotalCost := x\<rparr>)]"

definition zero_group :: group_view where "zero_group = \<lparr>gv_Name = [], gv_RequestCount = 0, gv_TotalCost = 0\<rparr>"

definition group_json :: "string \<Rightarrow> group_view \<Rightarrow> json" where
  "group_json column r = JObj
     [(column, json_str (gv_Name r)), (''request_count'', json_num (gv_RequestCount r)), (''total_cost'', json_f64 (gv_TotalCost r))]"

definition print_groups :: "string \<Rightarrow> string \<Rightarrow> bool \<Rightarrow> group_view list option \<Rightarrow> printed list" where
  "print_groups column title asJSON rows =
     (if asJSON then [Json (nil_slice_json (group_json column) rows)]
      else Row [title, ''REQUESTS'', ''COST'']
        # map (\<lambda>r. Row [gv_Name r, int_cell (gv_RequestCount r), cost_cell (gv_TotalCost r)]) (elements rows))"

definition usageProviders :: "bool \<Rightarrow> client_result \<Rightarrow> cli_error + printed list" where
  "usageProviders asJSON = answered (decode_nil_slice zero_group (decode_struct (group_fields ''provider''))) None
     (\<lambda>rows. Inr (print_groups ''provider'' ''PROVIDER'' asJSON rows))"

definition usageAPIKeys :: "bool \<Rightarrow> client_result \<Rightarrow> cli_error + printed list" where
  "usageAPIKeys asJSON = answered (decode_nil_slice zero_group (decode_struct (group_fields ''api_key_name''))) None
     (\<lambda>rows. Inr (print_groups ''api_key_name'' ''API KEY'' asJSON rows))"

section \<open>Lists\<close>

record request_view =
  qv_ID :: string
  qv_Provider :: string
  qv_Model :: string
  qv_RequestedAt :: go_time
  qv_StatusCode :: int64
  qv_TotalCost :: f64

definition request_view_fields :: "request_view json_field list" where
  "request_view_fields =
     [field ''id'' decode_string qv_ID (\<lambda>x s. s\<lparr>qv_ID := x\<rparr>),
      field ''provider'' decode_string qv_Provider (\<lambda>x s. s\<lparr>qv_Provider := x\<rparr>),
      field ''model'' decode_string qv_Model (\<lambda>x s. s\<lparr>qv_Model := x\<rparr>),
      field ''requested_at'' decode_time qv_RequestedAt (\<lambda>x s. s\<lparr>qv_RequestedAt := x\<rparr>),
      field ''status_code'' decode_int qv_StatusCode (\<lambda>x s. s\<lparr>qv_StatusCode := x\<rparr>),
      field ''total_cost'' decode_float qv_TotalCost (\<lambda>x s. s\<lparr>qv_TotalCost := x\<rparr>)]"

definition zero_request_view :: request_view where
  "zero_request_view = \<lparr>qv_ID = [], qv_Provider = [], qv_Model = [], qv_RequestedAt = zero_time, qv_StatusCode = 0, qv_TotalCost = 0\<rparr>"

definition request_view_json :: "request_view \<Rightarrow> json" where
  "request_view_json r = JObj
     [(''id'', json_str (qv_ID r)), (''provider'', json_str (qv_Provider r)), (''model'', json_str (qv_Model r)),
      (''requested_at'', time_json (qv_RequestedAt r)), (''status_code'', json_num (qv_StatusCode r)), (''total_cost'', json_f64 (qv_TotalCost r))]"

record run_view =
  wv_TraceID :: string
  wv_Label :: string
  wv_RequestCount :: int64
  wv_TotalCost :: f64
  wv_StartedAt :: go_time

definition run_view_fields :: "run_view json_field list" where
  "run_view_fields =
     [field ''trace_id'' decode_string wv_TraceID (\<lambda>x s. s\<lparr>wv_TraceID := x\<rparr>),
      field ''label'' decode_string wv_Label (\<lambda>x s. s\<lparr>wv_Label := x\<rparr>),
      field ''request_count'' decode_int wv_RequestCount (\<lambda>x s. s\<lparr>wv_RequestCount := x\<rparr>),
      field ''total_cost'' decode_float wv_TotalCost (\<lambda>x s. s\<lparr>wv_TotalCost := x\<rparr>),
      field ''started_at'' decode_time wv_StartedAt (\<lambda>x s. s\<lparr>wv_StartedAt := x\<rparr>)]"

definition zero_run_view :: run_view where
  "zero_run_view = \<lparr>wv_TraceID = [], wv_Label = [], wv_RequestCount = 0, wv_TotalCost = 0, wv_StartedAt = zero_time\<rparr>"

definition run_view_json :: "run_view \<Rightarrow> json" where
  "run_view_json r = JObj
     [(''trace_id'', json_str (wv_TraceID r)), (''label'', json_str (wv_Label r)), (''request_count'', json_num (wv_RequestCount r)),
      (''total_cost'', json_f64 (wv_TotalCost r)), (''started_at'', time_json (wv_StartedAt r))]"

text \<open>A page: the rows under their name, and the number of records.\<close>

record 'r page =
  pg_Rows :: "'r list option"
  pg_NumRecords :: int64

definition page_fields :: "string \<Rightarrow> 'r \<Rightarrow> 'r json_field list \<Rightarrow> 'r page json_field list" where
  "page_fields name z fs =
     [field name (decode_nil_slice z (decode_struct fs)) pg_Rows (\<lambda>x s. s\<lparr>pg_Rows := x\<rparr>),
      field ''numRecords'' decode_int pg_NumRecords (\<lambda>x s. s\<lparr>pg_NumRecords := x\<rparr>)]"

definition zero_page :: "'r page" where "zero_page = \<lparr>pg_Rows = None, pg_NumRecords = 0\<rparr>"

definition page_json :: "string \<Rightarrow> ('r \<Rightarrow> json) \<Rightarrow> 'r page \<Rightarrow> json" where
  "page_json name f p = JObj [(name, nil_slice_json f (pg_Rows p)), (''numRecords'', json_num (pg_NumRecords p))]"

definition request_row :: "request_view \<Rightarrow> printed" where
  "request_row r = Row [date_time_cell (qv_RequestedAt r), qv_Provider r, qv_Model r, int_cell (qv_StatusCode r), cost_cell (qv_TotalCost r),
     qv_ID r]"

definition print_requests :: "bool \<Rightarrow> request_view page \<Rightarrow> printed list" where
  "print_requests asJSON resp =
     (if asJSON then [Json (page_json ''requests'' request_view_json resp)]
      else Row [''TIME'', ''PROVIDER'', ''MODEL'', ''STATUS'', ''COST'', ''ID''] # map request_row (elements (pg_Rows resp))
        @ [Line [], Line (int_cell (pg_NumRecords resp) @ '' total'')])"

definition usageRequests :: "bool \<Rightarrow> client_result \<Rightarrow> cli_error + printed list" where
  "usageRequests asJSON = answered (decode_struct (page_fields ''requests'' zero_request_view request_view_fields)) zero_page
     (\<lambda>resp. Inr (print_requests asJSON resp))"

definition run_row :: "run_view \<Rightarrow> printed" where
  "run_row r = Row [date_time_cell (wv_StartedAt r), wv_Label r, int_cell (wv_RequestCount r), cost_cell (wv_TotalCost r), wv_TraceID r]"

definition print_runs :: "bool \<Rightarrow> run_view page \<Rightarrow> printed list" where
  "print_runs asJSON resp =
     (if asJSON then [Json (page_json ''runs'' run_view_json resp)]
      else Row [''STARTED'', ''LABEL'', ''CALLS'', ''COST'', ''TRACE ID''] # map run_row (elements (pg_Rows resp))
        @ [Line [], Line (int_cell (pg_NumRecords resp) @ '' total '' @ em_dash @ '' inspect one with: gateway-cli usage run <traceId>'')])"

definition usageRuns :: "bool \<Rightarrow> client_result \<Rightarrow> cli_error + printed list" where
  "usageRuns asJSON = answered (decode_struct (page_fields ''runs'' zero_run_view run_view_fields)) zero_page
     (\<lambda>resp. Inr (print_runs asJSON resp))"

section \<open>The run tree\<close>

record node_view =
  nv_Name :: string
  nv_Kind :: string
  nv_Model :: "string option"
  nv_TotalCost :: f64
  nv_RequestCount :: int64

datatype runNode = RunNodeV (nd_view: node_view) (nd_Children: "runNode option list option")

definition on_view :: "(node_view \<Rightarrow> node_view) \<Rightarrow> runNode \<Rightarrow> runNode" where
  "on_view f n = RunNodeV (f (nd_view n)) (nd_Children n)"

definition zero_node :: runNode where
  "zero_node = RunNodeV \<lparr>nv_Name = [], nv_Kind = [], nv_Model = None, nv_TotalCost = 0, nv_RequestCount = 0\<rparr> None"

text \<open>The decoder of a node, given that of its children.\<close>

definition node_fields :: "(json \<Rightarrow> runNode \<Rightarrow> runNode option) \<Rightarrow> runNode json_field list" where
  "node_fields child =
     [field ''name'' decode_string (\<lambda>n. nv_Name (nd_view n)) (\<lambda>x. on_view (\<lambda>v. v\<lparr>nv_Name := x\<rparr>)),
      field ''kind'' decode_string (\<lambda>n. nv_Kind (nd_view n)) (\<lambda>x. on_view (\<lambda>v. v\<lparr>nv_Kind := x\<rparr>)),
      field ''model'' (decode_ptr [] decode_string) (\<lambda>n. nv_Model (nd_view n)) (\<lambda>x. on_view (\<lambda>v. v\<lparr>nv_Model := x\<rparr>)),
      field ''total_cost'' decode_float (\<lambda>n. nv_TotalCost (nd_view n)) (\<lambda>x. on_view (\<lambda>v. v\<lparr>nv_TotalCost := x\<rparr>)),
      field ''request_count'' decode_int (\<lambda>n. nv_RequestCount (nd_view n)) (\<lambda>x. on_view (\<lambda>v. v\<lparr>nv_RequestCount := x\<rparr>)),
      field ''children'' (decode_nil_slice None (decode_ptr zero_node child)) nd_Children (\<lambda>x n. RunNodeV (nd_view n) x)]"

text \<open>A node of a document has less nesting below it than the document.\<close>

fun json_depth :: "json \<Rightarrow> nat" where
  "json_depth (JArr js) = Suc (foldr (\<lambda>j. max (json_depth j)) js 0)"
| "json_depth (JObj ms) = Suc (foldr (\<lambda>(_, j). max (json_depth j)) ms 0)"
| "json_depth _ = 0"

fun decode_node_in :: "nat \<Rightarrow> json \<Rightarrow> runNode \<Rightarrow> runNode option" where
  "decode_node_in 0 = decode_struct (node_fields (\<lambda>_ _. None))"
| "decode_node_in (Suc k) = decode_struct (node_fields (decode_node_in k))"

definition decode_node :: "json \<Rightarrow> runNode \<Rightarrow> runNode option" where
  "decode_node j = decode_node_in (json_depth j) j"

record tree_view =
  tv_TraceID :: string
  tv_Root :: "runNode option"
  tv_TotalCost :: f64
  tv_RequestCount :: int64

definition tree_fields :: "tree_view json_field list" where
  "tree_fields =
     [field ''trace_id'' decode_string tv_TraceID (\<lambda>x s. s\<lparr>tv_TraceID := x\<rparr>),
      field ''root'' (decode_ptr zero_node decode_node) tv_Root (\<lambda>x s. s\<lparr>tv_Root := x\<rparr>),
      field ''total_cost'' decode_float tv_TotalCost (\<lambda>x s. s\<lparr>tv_TotalCost := x\<rparr>),
      field ''request_count'' decode_int tv_RequestCount (\<lambda>x s. s\<lparr>tv_RequestCount := x\<rparr>)]"

definition zero_tree :: tree_view where
  "zero_tree = \<lparr>tv_TraceID = [], tv_Root = None, tv_TotalCost = 0, tv_RequestCount = 0\<rparr>"

fun node_json :: "runNode \<Rightarrow> json" where
  "node_json (RunNodeV v cs) = JObj (
     [(''name'', json_str (nv_Name v)), (''kind'', json_str (nv_Kind v))] @ omit_nil ''model'' json_str (nv_Model v)
     @ [(''total_cost'', json_f64 (nv_TotalCost v)), (''request_count'', json_num (nv_RequestCount v)),
        (''children'', (case cs of None \<Rightarrow> JNull | Some ns \<Rightarrow> JArr (map (\<lambda>c. case c of None \<Rightarrow> JNull | Some n \<Rightarrow> node_json n) ns)))])"

definition tree_json :: "tree_view \<Rightarrow> json" where
  "tree_json t = JObj
     [(''trace_id'', json_str (tv_TraceID t)), (''root'', (case tv_Root t of None \<Rightarrow> JNull | Some n \<Rightarrow> node_json n)),
      (''total_cost'', json_f64 (tv_TotalCost t)), (''request_count'', json_num (tv_RequestCount t))]"

definition node_line :: "nat \<Rightarrow> node_view \<Rightarrow> printed" where
  "node_line depth v =
     (let label = (case nv_Model v of
          Some m \<Rightarrow> if nv_Kind v = ''llm'' then nv_Name v @ '' ('' @ m @ '')'' else nv_Name v
        | None \<Rightarrow> nv_Name v)
      in Line (concat (replicate depth ''  '') @ pad_right 40 (truncate_label label 40) @ CHR '' '' # cost_cell (nv_TotalCost v)))"

text \<open>None is the panic.\<close>

fun printRunNode :: "nat \<Rightarrow> runNode \<Rightarrow> printed list option" where
  "printRunNode depth (RunNodeV v cs) =
     map_option (\<lambda>ls. node_line depth v # concat ls)
       (case cs of None \<Rightarrow> Some []
        | Some ns \<Rightarrow> those (map (\<lambda>c. case c of None \<Rightarrow> None | Some n \<Rightarrow> printRunNode (Suc depth) n) ns))"

definition print_tree :: "bool \<Rightarrow> tree_view \<Rightarrow> cli_error + printed list" where
  "print_tree asJSON t =
     (if asJSON then Inr [Json (tree_json t)]
      else
        (let heading = [Line (''Run '' @ tv_TraceID t @ '' '' @ em_dash @ '' '' @ int_cell (tv_RequestCount t) @ '' calls, ''
           @ cost_cell (tv_TotalCost t) @ '' total''), Line []]
         in case tv_Root t of
              None \<Rightarrow> Inr heading
            | Some n \<Rightarrow> (case printRunNode 0 n of None \<Rightarrow> Inl CliPanic | Some ls \<Rightarrow> Inr (heading @ ls))))"

definition runUsageRunTree :: "bool \<Rightarrow> client_result \<Rightarrow> cli_error + printed list" where
  "runUsageRunTree asJSON = answered (decode_struct tree_fields) zero_tree (print_tree asJSON)"

section \<open>Commands\<close>

text \<open>A raw message is printed as it came.\<close>

definition usageRawJSON :: "client_result \<Rightarrow> cli_error + printed list" where
  "usageRawJSON = answered decode_raw None (\<lambda>out. Inr [Json (case out of None \<Rightarrow> JNull | Some j \<Rightarrow> j)])"

definition bool_flag :: "flag_values \<Rightarrow> string \<Rightarrow> bool" where
  "bool_flag vs n = (case Option.bind (map_of vs n) ParseBool of Some b \<Rightarrow> b | None \<Rightarrow> False)"

definition usage_shows :: "(string \<times> (bool \<Rightarrow> client_result \<Rightarrow> cli_error + printed list)) list" where
  "usage_shows =
     [(''summary'', usageSummary), (''models'', usageModels), (''providers'', usageProviders), (''keys'', usageAPIKeys),
      (''requests'', usageRequests), (''runs'', usageRuns), (''errors'', \<lambda>_. usageRawJSON), (''latency'', \<lambda>_. usageRawJSON),
      (''daily'', \<lambda>_. usageRawJSON)]"

text \<open>What a command that has sent its request does with the answer; None for a command that sends none.\<close>

definition flags_parsed :: "(string \<times> flag_kind) list \<Rightarrow> string list \<Rightarrow> flag_values \<times> string list" where
  "flags_parsed fs args = (case parse_flags fs args [] of None \<Rightarrow> ([], []) | Some r \<Rightarrow> r)"

definition finish_keys :: "string list \<Rightarrow> (client_result \<Rightarrow> cli_error + printed list) option" where
  "finish_keys args = (case args of
       [] \<Rightarrow> None
     | sub # rest \<Rightarrow>
         if sub = ''create'' then Some show_created
         else if sub = ''list'' then Some show_keys
         else if sub = ''revoke'' then (case rest of [] \<Rightarrow> None | i # _ \<Rightarrow> Some (show_revoked i))
         else None)"

definition finish_provider_keys :: "string list \<Rightarrow> (client_result \<Rightarrow> cli_error + printed list) option" where
  "finish_provider_keys args = (case args of
       [] \<Rightarrow> None
     | sub # rest \<Rightarrow>
         if sub = ''add'' then Some show_stored
         else if sub = ''list'' then Some show_provider_keys
         else if sub = ''remove'' then (case rest of [] \<Rightarrow> None | p # _ \<Rightarrow> Some (show_removed p))
         else None)"

definition finish_metadata :: "string list \<Rightarrow> (client_result \<Rightarrow> cli_error + printed list) option" where
  "finish_metadata args = (case args of
       [] \<Rightarrow> None
     | sub # rest \<Rightarrow>
         if sub = ''list'' then Some show_metadata_keys
         else if sub = ''activate'' \<or> sub = ''deactivate'' then
           (case flags_parsed [(''api-key'', TextFlag)] rest of
              (vs, k # _) \<Rightarrow> Some (show_toggled sub k (text_flag vs ''api-key''))
            | _ \<Rightarrow> None)
         else None)"

definition finish_usage :: "string list \<Rightarrow> (client_result \<Rightarrow> cli_error + printed list) option" where
  "finish_usage args = (case args of
       [] \<Rightarrow> None
     | sub # rest \<Rightarrow>
         if sub = ''run'' then (if rest = [] then None else Some (runUsageRunTree (''--json'' \<in> set rest)))
         else if sub = ''request'' then (if rest = [] then None else Some usageRawJSON)
         else map_option (\<lambda>show. show (bool_flag (fst (flags_parsed usage_flag_kinds rest)) ''json'')) (map_of usage_shows sub))"

definition finish_command :: "string list \<Rightarrow> (client_result \<Rightarrow> cli_error + printed list) option" where
  "finish_command args = (case args of
       [] \<Rightarrow> None
     | cmd # rest \<Rightarrow>
         if cmd = ''keys'' then finish_keys rest
         else if cmd = ''provider-keys'' then finish_provider_keys rest
         else if cmd = ''metadata'' then finish_metadata rest
         else if cmd = ''usage'' then finish_usage rest
         else None)"

section \<open>The MCP server\<close>

text \<open>\<open>do\<close> of its client, after the response, and the content a tool makes of the body, one text.\<close>

definition mcp_do :: "int \<Rightarrow> string \<Rightarrow> cli_error + string" where
  "mcp_do status data =
     (if status = 401 \<or> status = 403 then Inl CliUnauthorized
      else if status \<ge> 400 then
        (case error_text data of
           Some m \<Rightarrow> if m \<noteq> [] then Inl (CliApi m) else Inl (CliStatus status)
         | None \<Rightarrow> Inl (CliStatus status))
      else Inr data)"

definition textResult :: "string \<Rightarrow> string list" where
  "textResult raw = [raw]"

definition tool_result :: "int \<Rightarrow> string \<Rightarrow> cli_error + string list" where
  "tool_result status data = map_sum id textResult (mcp_do status data)"

end
