(* ===== verification/Output_Views.thy ===== *)
theory Output_Views
  imports Output
begin

text \<open>
  The structs the command line tool decodes are projections of the records behind an answer: each lemma
  reads a document of \<open>Wire\<close> with a decoder of \<open>Output\<close>, member by member, and gives the projection.
\<close>

section \<open>Reading a document\<close>

text \<open>A member is read by the field of its name, or skipped when no field has its name in any case.\<close>

definition takes :: "'s json_field list \<Rightarrow> string \<Rightarrow> bool" where
  "takes fs k \<longleftrightarrow> list_ex (equal_fold k) (map fst fs)"

definition plain_name :: "string \<Rightarrow> bool" where
  "plain_name k \<longleftrightarrow> bslash_c \<notin> set k"

lemma plain_unquote: "plain_name k \<Longrightarrow> unquote k = k"
  by (induction k) (auto simp: plain_name_def unquote_plain unquote_Nil)

lemma read_take:
  "plain_name k \<Longrightarrow> map_of fs k = Some d \<Longrightarrow>
     decode_members fs ((k, j) # ms) s = Option.bind (d j s) (decode_members fs ms)"
  by (simp add: decode_member_def find_field_def plain_unquote split: option.split Option.bind_split)

lemma read_skip: "plain_name k \<Longrightarrow> \<not> takes fs k \<Longrightarrow> decode_members fs ((k, j) # ms) s = decode_members fs ms s"
proof -
  assume k: "plain_name k" "\<not> takes fs k"
  then have no: "\<forall>f \<in> set fs. \<not> equal_fold k (fst f)" by (auto simp: takes_def list_ex_iff)
  then have "map_of fs k = None" by (auto simp: map_of_eq_None_iff)
  moreover have "find (\<lambda>f. equal_fold k (fst f)) fs = None" using no by (auto simp: find_None_iff)
  ultimately show ?thesis using k by (simp add: decode_member_def find_field_def plain_unquote)
qed

lemma read_take_omit:
  "plain_name k \<Longrightarrow> map_of fs k = Some d \<Longrightarrow>
     decode_members fs (omit_nil k f x @ ms) s
       = (case x of None \<Rightarrow> decode_members fs ms s | Some v \<Rightarrow> Option.bind (d (f v) s) (decode_members fs ms))"
  by (cases x) (simp_all add: omit_nil_def read_take del: decode_members.simps(2))

lemma read_skip_omit:
  "plain_name k \<Longrightarrow> \<not> takes fs k \<Longrightarrow> decode_members fs (omit_nil k f x @ ms) s = decode_members fs ms s"
  by (cases x) (simp_all add: omit_nil_def read_skip del: decode_members.simps(2))

lemmas read_members = read_take read_skip read_take_omit read_skip_omit
  read_take_omit [where ms = "[]", simplified] read_skip_omit [where ms = "[]", simplified]

text \<open>The fields of a struct by their names, without looking into them.\<close>

lemma map_of_field: "map_of (field n d g u # fs) k = (if n = k then Some (snd (field n d g u)) else map_of fs k)"
  by (simp add: field_def)

lemma snd_field: "snd (field n d g u) j s = map_option (\<lambda>x. u x s) (d j (g s))"
  by (simp add: field_def)

lemma takes_field: "takes (field n d g u # fs) k \<longleftrightarrow> to_lower k = to_lower n \<or> takes fs k" "\<not> takes [] k"
  by (simp_all add: takes_def field_def equal_fold_def)

lemma field_weak_cong: "field n d g u = field n d g u"
  by (rule refl)

definition time_view :: "texts \<Rightarrow> instant \<Rightarrow> go_time" where
  "time_view tx t = (t, tx_zone tx t * minute)"

lemma json_count_num: "int64_range i \<Longrightarrow> json_count i = json_num (word_of_int i)"
  by (simp add: json_count_def json_num_def sint_of_int)

lemma read_values [simp]:
  "decode_string (json_uuid tx u) y = Some (tx_uuid tx u)"
  "int64_range i \<Longrightarrow> decode_int (json_count i) n = Some (word_of_int i)"
  "year_ok (tx_zone tx t) t \<Longrightarrow> decode_time (json_time tx t) w = Some (time_view tx t)"
  by (simp_all add: json_uuid_def json_count_num json_time_def rfc3339_reads time_view_def)

lemma read_pointers [simp]:
  "decode_ptr z d (json_str v) p = map_option Some (d (json_str v) (case p of None \<Rightarrow> z | Some x \<Rightarrow> x))"
  "decode_ptr z' d' (json_time tx t) p' = map_option Some (d' (json_time tx t) (case p' of None \<Rightarrow> z' | Some x \<Rightarrow> x))"
  by (simp_all add: json_str_def json_time_def)

text \<open>A slice of rows.\<close>

lemma read_list: "(\<And>x. x \<in> set xs \<Longrightarrow> d (f x) z = Some (g x)) \<Longrightarrow> decode_list z d (map f xs) = Some (map g xs)"
  by (induction xs) simp_all

lemma read_rows:
  assumes "\<And>x. x \<in> set xs \<Longrightarrow> d (f x) z = Some (g x)"
  shows "decode_slice z d (json_rows f xs) ys = Some (map g xs)"
    and "decode_nil_slice z d (json_rows f xs) p = Some (if xs = [] then None else Some (map g xs))"
    and "decode_nil_slice z d (json_slice f xs) p = Some (Some (map g xs))"
  using read_list [of xs d f z g, OF assms]
  by (simp_all add: json_rows_def json_slice_def decode_nil_slice_def)

section \<open>Keys\<close>

definition lower_name :: "string \<Rightarrow> bool" where
  "lower_name k \<longleftrightarrow> to_lower k = k"

lemma wire_plain: "list_all plain_name wire_names" by code_simp

lemma wire_lower: "list_all lower_name (removeAll ''numRecords'' wire_names)" by code_simp

lemma lower_records: "to_lower ''numRecords'' = ''numrecords''" by code_simp

lemmas names_plain [simp] = wire_plain [unfolded wire_names_def, simplified]

lemmas names_lower = wire_lower [unfolded wire_names_def, simplified, unfolded lower_name_def] lower_records



definition key_view :: "texts \<Rightarrow> api_key \<Rightarrow> apiKey" where
  "key_view tx k = \<lparr>kv_ID = tx_uuid tx (ak_ID k), kv_Name = ak_Name k, kv_Description = ak_Description k, kv_IsActive = ak_IsActive k,
     kv_RequestCount = word_of_int (ak_RequestCount k), kv_CreatedAt = time_view tx (ak_CreatedAt k),
     kv_RevokedAt = map_option (time_view tx) (ak_RevokedAt k), kv_LastUsedAt = map_option (time_view tx) (ak_LastUsedAt k)\<rparr>"

definition key_fits :: "texts \<Rightarrow> api_key \<Rightarrow> bool" where
  "key_fits tx k \<longleftrightarrow> list_all (\<lambda>t. year_ok (tx_zone tx t) t) (api_key_times k) \<and> int64_range (ak_RequestCount k)"

text \<open>The steps of such a reading: the struct unfolded, its members one by one.\<close>

lemmas read_simps = read_members map_of_field snd_field takes_field names_lower

declare decode_members.simps(2) [simp del] to_lower_simps [simp del] map_of.simps(2) [simp del] field_weak_cong [cong]

lemma read_key: "key_fits tx k \<Longrightarrow> decode_struct apiKey_fields (JObj (APIKey_members tx k)) zero_apiKey = Some (key_view tx k)"
  by (simp add: key_fits_def api_key_times_def opt_list_def APIKey_members_def apiKey_fields_def zero_apiKey_def key_view_def read_simps split: option.splits)

lemma read_created:
  "key_fits tx k \<Longrightarrow> decode_struct createKeyResponse_fields (answer_doc tx (CreatedKeyA k key)) zero_createKeyResponse
     = Some (apiKey.extend (key_view tx k) \<lparr>kv_Key = key\<rparr>)"
  by (simp add: key_fits_def api_key_times_def opt_list_def APIKey_members_def apiKey_fields_def createKeyResponse_fields_def
      zero_apiKey_def zero_createKeyResponse_def apiKey.defs key_view_def read_simps split: option.splits)

definition provider_key_view :: "texts \<Rightarrow> provider_key_info \<Rightarrow> providerKeyInfo" where
  "provider_key_view tx k = \<lparr>pv_Provider = pi_Provider k, pv_CreatedAt = time_view tx (pi_CreatedAt k)\<rparr>"

lemma read_provider_key:
  "year_ok (tx_zone tx (pi_CreatedAt k)) (pi_CreatedAt k) \<Longrightarrow>
     decode_struct providerKeyInfo_fields (ProviderKeyInfo_doc tx k) zero_providerKeyInfo = Some (provider_key_view tx k)"
  by (simp add: ProviderKeyInfo_doc_def providerKeyInfo_fields_def zero_providerKeyInfo_def provider_key_view_def read_simps)

lemma read_stored:
  "decode_struct providerKeyInfo_fields (answer_doc tx (ProviderA p)) zero_providerKeyInfo
     = Some \<lparr>pv_Provider = p, pv_CreatedAt = zero_time\<rparr>"
  by (simp add: providerKeyInfo_fields_def zero_providerKeyInfo_def read_simps)

definition metadata_key_view :: "texts \<Rightarrow> metadata_key \<Rightarrow> metadataKey" where
  "metadata_key_view tx k = \<lparr>mv_MajordomoAPIKeyID = tx_uuid tx (mk_MajordomoAPIKeyID k), mv_APIKeyName = mk_APIKeyName k,
     mv_KeyName = mk_KeyName k, mv_IsActive = mk_IsActive k, mv_ApproxCardinality = word_of_int (mk_ApproxCardinality k),
     mv_RequestCount = word_of_int (mk_RequestCount k)\<rparr>"

lemma read_metadata_key:
  "int64_range (mk_ApproxCardinality k) \<Longrightarrow> int64_range (mk_RequestCount k) \<Longrightarrow>
     decode_struct metadataKey_fields (MetadataKey_doc tx k) zero_metadataKey = Some (metadata_key_view tx k)"
  by (simp add: MetadataKey_doc_def metadataKey_fields_def zero_metadataKey_def metadata_key_view_def read_simps)

lemma read_toggled: "decode_any_map (answer_doc tx ActivatedA) () = Some ()" "decode_any_map (answer_doc tx DeactivatedA) () = Some ()"
  by (simp_all add: decode_any_map_def json_str_def)

section \<open>Reports\<close>

definition summary_view_of :: "usage_summary \<Rightarrow> summary_view" where
  "summary_view_of s = \<lparr>sv_TotalRequests = word_of_int (us_TotalRequests s), sv_TotalInputTokens = word_of_int (us_TotalInputTokens s),
     sv_TotalOutputTokens = word_of_int (us_TotalOutputTokens s), sv_TotalCachedTokens = word_of_int (us_TotalCachedTokens s),
     sv_TotalCacheCreationTokens = word_of_int (us_TotalCacheCreationTokens s), sv_TotalCost = us_TotalCost s\<rparr>"

definition summary_fits :: "usage_summary \<Rightarrow> bool" where
  "summary_fits s \<longleftrightarrow> list_all int64_range [us_TotalRequests s, us_TotalInputTokens s, us_TotalOutputTokens s, us_TotalCachedTokens s,
     us_TotalCacheCreationTokens s] \<and> finite_float (us_TotalCost s)"

lemma read_summary: "summary_fits s \<Longrightarrow> decode_struct summary_fields (UsageSummary_doc s) zero_summary = Some (summary_view_of s)"
  by (simp add: summary_fits_def UsageSummary_doc_def summary_fields_def zero_summary_def summary_view_of_def read_simps)

definition totals_fit :: "'a usage_totals_scheme \<Rightarrow> bool" where
  "totals_fit t \<longleftrightarrow> int64_range (ut_RequestCount t) \<and> int64_range (ut_InputTokens t) \<and> int64_range (ut_OutputTokens t)
     \<and> finite_float (ut_TotalCost t)"

definition model_view_of :: "model_usage \<Rightarrow> model_view" where
  "model_view_of u = \<lparr>lv_Provider = mu_Provider u, lv_Model = mu_Model u, lv_RequestCount = word_of_int (ut_RequestCount u),
     lv_InputTokens = word_of_int (ut_InputTokens u), lv_OutputTokens = word_of_int (ut_OutputTokens u), lv_TotalCost = ut_TotalCost u\<rparr>"

definition group_view_of :: "('a usage_totals_scheme \<Rightarrow> string) \<Rightarrow> 'a usage_totals_scheme \<Rightarrow> group_view" where
  "group_view_of name u = \<lparr>gv_Name = name u, gv_RequestCount = word_of_int (ut_RequestCount u), gv_TotalCost = ut_TotalCost u\<rparr>"

lemma read_model: "totals_fit u \<Longrightarrow> decode_struct model_fields (ModelUsage_doc u) zero_model = Some (model_view_of u)"
  by (simp add: totals_fit_def ModelUsage_doc_def totals_members_def model_fields_def zero_model_def model_view_of_def read_simps)

lemma read_provider_usage:
  "totals_fit u \<Longrightarrow> decode_struct (group_fields ''provider'') (ProviderUsage_doc u) zero_group = Some (group_view_of pu_Provider u)"
  by (simp add: totals_fit_def ProviderUsage_doc_def totals_members_def group_fields_def zero_group_def group_view_of_def read_simps)

lemma read_key_usage:
  "totals_fit u \<Longrightarrow> decode_struct (group_fields ''api_key_name'') (APIKeyUsage_doc tx u) zero_group = Some (group_view_of ku_APIKeyName u)"
  by (simp add: totals_fit_def APIKeyUsage_doc_def totals_members_def group_fields_def zero_group_def group_view_of_def read_simps)

definition request_view_of :: "texts \<Rightarrow> request_list_item \<Rightarrow> request_view" where
  "request_view_of tx r = \<lparr>qv_ID = tx_uuid tx (ri_ID r), qv_Provider = ri_Provider r, qv_Model = ri_Model r,
     qv_RequestedAt = time_view tx (ri_RequestedAt r), qv_StatusCode = word_of_int (ri_StatusCode r), qv_TotalCost = ri_TotalCost r\<rparr>"

lemma read_request:
  "year_ok (tx_zone tx (ri_RequestedAt r)) (ri_RequestedAt r) \<Longrightarrow> int64_range (ri_StatusCode r) \<Longrightarrow> finite_float (ri_TotalCost r) \<Longrightarrow>
     decode_struct request_view_fields (RequestListItem_doc tx r) zero_request_view = Some (request_view_of tx r)"
  by (simp add: RequestListItem_doc_def request_view_fields_def zero_request_view_def request_view_of_def read_simps)

definition run_view_of :: "texts \<Rightarrow> run_list_item \<Rightarrow> run_view" where
  "run_view_of tx r = \<lparr>wv_TraceID = rl_TraceID r, wv_Label = rl_Label r, wv_RequestCount = word_of_int (ut_RequestCount r),
     wv_TotalCost = ut_TotalCost r, wv_StartedAt = time_view tx (rl_StartedAt r)\<rparr>"

lemma read_run:
  "year_ok (tx_zone tx (rl_StartedAt r)) (rl_StartedAt r) \<Longrightarrow> totals_fit r \<Longrightarrow>
     decode_struct run_view_fields (RunListItem_doc tx r) zero_run_view = Some (run_view_of tx r)"
  by (simp add: totals_fit_def RunListItem_doc_def totals_members_def run_view_fields_def zero_run_view_def run_view_of_def read_simps)

text \<open>Pages, whose document is a map with the number of records first.\<close>

lemma read_requests_page:
  assumes "int64_range n"
    and "\<And>r. r \<in> set rs \<Longrightarrow> year_ok (tx_zone tx (ri_RequestedAt r)) (ri_RequestedAt r) \<and> int64_range (ri_StatusCode r) \<and> finite_float (ri_TotalCost r)"
  shows "decode_struct (page_fields ''requests'' zero_request_view request_view_fields) (answer_doc tx (RequestsA rs n)) zero_page
    = Some \<lparr>pg_Rows = (if rs = [] then None else Some (map (request_view_of tx) rs)), pg_NumRecords = word_of_int n\<rparr>"
proof -
  have "decode_nil_slice zero_request_view (decode_struct request_view_fields) (json_rows (RequestListItem_doc tx) rs) p
      = Some (if rs = [] then None else Some (map (request_view_of tx) rs))" for p
    by (rule read_rows(2)) (use assms(2) read_request in blast)
  then show ?thesis using assms(1)
    by (simp add: page_fields_def zero_page_def read_simps)
qed

lemma read_runs_page:
  assumes "int64_range n" and "\<And>r. r \<in> set rs \<Longrightarrow> year_ok (tx_zone tx (rl_StartedAt r)) (rl_StartedAt r) \<and> totals_fit r"
  shows "decode_struct (page_fields ''runs'' zero_run_view run_view_fields) (answer_doc tx (RunsA rs n)) zero_page
    = Some \<lparr>pg_Rows = (if rs = [] then None else Some (map (run_view_of tx) rs)), pg_NumRecords = word_of_int n\<rparr>"
proof -
  have "decode_nil_slice zero_run_view (decode_struct run_view_fields) (json_rows (RunListItem_doc tx) rs) p
      = Some (if rs = [] then None else Some (map (run_view_of tx) rs))" for p
    by (rule read_rows(2)) (use assms(2) read_run in blast)
  then show ?thesis using assms(1)
    by (simp add: page_fields_def zero_page_def read_simps)
qed

end
