(* ===== verification/Api_Contract.thy ===== *)
theory Api_Contract
  imports Wire Clients
begin

text \<open>
  What the admin API promises its clients: for each route the status and the kind of answer when it
  succeeds, and otherwise an error status with a message. The theorems say that every handler keeps the
  promise of its route, that every response is one JSON document, and that the message of an error reaches
  the client that made the request.
\<close>

section \<open>The promise of each route\<close>

datatype kind =
  ErrorK | EmptyK | CreatedKeyK | KeysK | MetadataKeysK | ActivatedK | DeactivatedK | ProviderK |
  ProviderKeysK | SummaryK | DailyK | ModelsK | ProvidersK | APIKeysK | ErrorsK | RecentErrorsK | LatencyK |
  RequestsK | RunsK | MetadataK | RunTreeK | DetailK | BodyK

fun kind_of :: "answer \<Rightarrow> kind" where
  "kind_of (ErrorA _) = ErrorK"
| "kind_of (InvalidA _) = ErrorK"
| "kind_of EmptyA = EmptyK"
| "kind_of (CreatedKeyA _ _) = CreatedKeyK"
| "kind_of (KeysA _) = KeysK"
| "kind_of (MetadataKeysA _) = MetadataKeysK"
| "kind_of ActivatedA = ActivatedK"
| "kind_of DeactivatedA = DeactivatedK"
| "kind_of (ProviderA _) = ProviderK"
| "kind_of (ProviderKeysA _) = ProviderKeysK"
| "kind_of (SummaryA _) = SummaryK"
| "kind_of (DailyA _) = DailyK"
| "kind_of (ModelsA _) = ModelsK"
| "kind_of (ProvidersA _) = ProvidersK"
| "kind_of (APIKeysA _) = APIKeysK"
| "kind_of (ErrorsA _) = ErrorsK"
| "kind_of (RecentErrorsA _) = RecentErrorsK"
| "kind_of (LatencyA _) = LatencyK"
| "kind_of (RequestsA _ _) = RequestsK"
| "kind_of (RunsA _ _) = RunsK"
| "kind_of (MetadataA _) = MetadataK"
| "kind_of (RunTreeA _) = RunTreeK"
| "kind_of (DetailA _) = DetailK"
| "kind_of (BodyA _) = BodyK"

type_synonym promise = "int \<times> kind"

definition promises :: "(route \<times> promise) list" where
  "promises =
     [((''POST'', ''/keys''), 201, CreatedKeyK),
      ((''GET'', ''/keys''), 200, KeysK),
      ((''DELETE'', ''/keys/{id}''), 204, EmptyK),
      ((''POST'', ''/usage/summary''), 200, SummaryK),
      ((''POST'', ''/usage/daily''), 200, DailyK),
      ((''POST'', ''/usage/models''), 200, ModelsK),
      ((''POST'', ''/usage/providers''), 200, ProvidersK),
      ((''POST'', ''/usage/api-keys''), 200, APIKeysK),
      ((''POST'', ''/usage/errors''), 200, ErrorsK),
      ((''POST'', ''/usage/errors/recent''), 200, RecentErrorsK),
      ((''POST'', ''/usage/latency''), 200, LatencyK),
      ((''POST'', ''/usage/requests''), 200, RequestsK),
      ((''POST'', ''/usage/runs''), 200, RunsK),
      ((''POST'', ''/usage/metadata/{keyName}''), 200, MetadataK),
      ((''GET'', ''/usage/runs/{traceId}''), 200, RunTreeK),
      ((''GET'', ''/usage/requests/{id}''), 200, DetailK),
      ((''GET'', ''/usage/requests/{id}/body''), 200, BodyK),
      ((''GET'', ''/metadata''), 200, MetadataKeysK),
      ((''POST'', ''/metadata/activate''), 200, ActivatedK),
      ((''POST'', ''/metadata/deactivate''), 200, DeactivatedK),
      ((''POST'', ''/provider-keys''), 201, ProviderK),
      ((''GET'', ''/provider-keys''), 200, ProviderKeysK),
      ((''DELETE'', ''/provider-keys/{provider}''), 204, EmptyK)]"

text \<open>A refusal has an error status and a message.\<close>

definition refusal :: "reply \<Rightarrow> bool" where
  "refusal = (\<lambda>(status, a). (case a of
       ErrorA m \<Rightarrow> m \<noteq> [] \<and> status \<in> {400, 404, 500}
     | InvalidA v \<Rightarrow> status = 400
     | _ \<Rightarrow> False))"

definition keeps :: "promise \<Rightarrow> reply \<Rightarrow> bool" where
  "keeps p rep \<longleftrightarrow> refusal rep \<or> fst rep = fst p \<and> kind_of (snd rep) = snd p"

lemma refusal_simps [simp]:
  "refusal (status, ErrorA m) \<longleftrightarrow> m \<noteq> [] \<and> status \<in> {400, 404, 500}" "refusal (400, InvalidA v)" "refusal internal_error"
  by (simp_all add: refusal_def internal_error_def)

lemma report_keeps: "(\<And>x. kind_of (answer x) = p) \<Longrightarrow> keeps (200, p) (report r service answer)"
  by (auto simp: keeps_def report_def usage_writeErr_def split: option.split sum.split service_error.split)

lemma keys_keep:
  "keeps (201, CreatedKeyK) (snd (keys_Create e r s))"
  "keeps (200, KeysK) (keys_List e s)"
  "keeps (204, EmptyK) (snd (keys_Revoke e i s))"
  by (auto simp: keeps_def keys_Create_def keys_List_def keys_Revoke_def Let_def split: option.split sum.split prod.split)

lemma decode_refuses: "metadata_decode e r = Inl err \<Longrightarrow> refusal err"
  by (auto simp: metadata_decode_def split: option.splits if_splits)

lemma metadata_keep:
  "keeps (200, MetadataKeysK) (metadata_List e s)"
  "keeps (200, ActivatedK) (snd (metadata_Activate e r s))"
  "keeps (200, DeactivatedK) (snd (metadata_Deactivate e r s))"
  by (auto simp: keeps_def metadata_List_def metadata_Activate_def metadata_Deactivate_def switched_def mapErr_def
      dest: decode_refuses split: sum.split prod.split)

lemma providers_keep:
  "keeps (201, ProviderK) (snd (providers_Upsert store e r s))"
  "keeps (200, ProviderKeysK) (providers_List e s)"
  "keeps (204, EmptyK) (snd (providers_Delete e p s))"
  by (auto simp: keeps_def providers_Upsert_def providers_List_def providers_Delete_def Let_def
      split: option.split sum.split prod.split)

lemma usage_keep:
  "keeps (200, SummaryK) (usage_GetSummary e r s)"
  "keeps (200, DailyK) (usage_GetDailyUsage e r s)"
  "keeps (200, ModelsK) (usage_GetModelBreakdown e r s)"
  "keeps (200, ProvidersK) (usage_GetProviderBreakdown e r s)"
  "keeps (200, APIKeysK) (usage_GetAPIKeyBreakdown e r s)"
  "keeps (200, ErrorsK) (usage_GetErrorSummary e r s)"
  "keeps (200, RecentErrorsK) (usage_GetRecentErrors e r s)"
  "keeps (200, LatencyK) (usage_GetLatencyStats e r s)"
  "keeps (200, RequestsK) (usage_ListRequests e r s)"
  "keeps (200, RunsK) (usage_ListRuns e r s)"
  unfolding usage_GetSummary_def usage_GetDailyUsage_def usage_GetModelBreakdown_def usage_GetProviderBreakdown_def
    usage_GetAPIKeyBreakdown_def usage_GetErrorSummary_def usage_GetRecentErrors_def usage_GetLatencyStats_def
    usage_ListRequests_def usage_ListRuns_def
  by (rule report_keeps, simp split: prod.split)+

lemma usage_details_keep:
  "keeps (200, MetadataK) (usage_GetMetadataBreakdown e k r s)"
  "keeps (200, RunTreeK) (usage_GetRunTree e t s)"
  "keeps (200, DetailK) (usage_GetRequestDetail e i s)"
  "keeps (200, BodyK) (usage_GetRequestBody e i s)"
proof -
  show "keeps (200, MetadataK) (usage_GetMetadataBreakdown e k r s)"
    by (simp add: usage_GetMetadataBreakdown_def report_keeps) (simp add: keeps_def)
qed (auto simp: keeps_def usage_GetRunTree_def usage_GetRequestDetail_def usage_GetRequestBody_def
    split: option.split sum.split)

lemmas handlers_keep = keys_keep metadata_keep providers_keep usage_keep usage_details_keep

lemma routes_keep:
  "list_all2 (\<lambda>(rt, h) (rt', p). rt = rt' \<and> (\<forall>e ps r s. keeps p (snd (h e ps r s)))) (api_routes (Some store)) promises"
  unfolding api_routes_def keys_RegisterRoutes_def usage_RegisterRoutes_def metadata_RegisterRoutes_def providers_RegisterRoutes_def
    promises_def option.case append_Cons append_Nil list.rel_inject prod.case reads_def snd_conv
  by (intro conjI allI refl handlers_keep list.rel_intros)

lemma map_of_list_all2:
  "list_all2 (\<lambda>(k, x) (k', y). k = k' \<and> P x y) xs ys \<Longrightarrow> map_of xs k = Some x \<Longrightarrow> \<exists>y. map_of ys k = Some y \<and> P x y"
  by (induction xs ys rule: list_all2_induct) (auto split: if_splits)

lemma promise_kept:
  assumes "map_of (api_routes providerKeys) rt = Some h"
  obtains p where "map_of promises rt = Some p" "keeps p (snd (h e ps r s))"
proof -
  obtain store where "map_of (api_routes (Some store)) rt = Some h"
  proof (cases providerKeys)
    case None
    have "api_routes (Some store) = api_routes None @ providers_RegisterRoutes store" for store by (simp add: api_routes_def)
    with None assms have "map_of (api_routes (Some store)) rt = Some h" for store by (simp add: map_add_find_right)
    with that show thesis by blast
  qed (use assms that in blast)
  from map_of_list_all2 [OF routes_keep this] that show thesis by blast
qed

section \<open>Every response is one document\<close>

text \<open>A struct decoded from a well-formed document keeps what its field decoders keep on such documents.\<close>

lemma decode_struct_ok_inv:
  assumes step: "\<And>d j s s'. d \<in> snd ` set fs \<Longrightarrow> json_ok j \<Longrightarrow> P s \<Longrightarrow> d j s = Some s' \<Longrightarrow> P s'"
    and "json_ok j" "P s" "decode_struct fs j s = Some s'"
  shows "P s'"
proof -
  have ms: "P s'" if "list_all (\<lambda>(k, j). str_ok k \<and> json_ok j) ms" "P s" "decode_members fs ms s = Some s'" for ms s s'
    using that
  proof (induction ms arbitrary: s)
    case (Cons m ms)
    then obtain s1 where s1: "decode_member fs m s = Some s1" "decode_members fs ms s1 = Some s'"
      by (auto split: option.splits)
    have "P s1"
      using s1(1) Cons.prems(1,2) step [OF find_field_mem] by (auto simp: decode_member_def split: option.splits prod.splits)
    with Cons.IH s1(2) Cons.prems(1) show ?case by simp
  qed simp
  from assms(2-4) ms show ?thesis by (cases j) auto
qed

lemma decode_request_ok:
  "json_ok j \<Longrightarrow> list_all json_ok (opt_list (rc_Body c)) \<Longrightarrow> decode_struct request_fields j c = Some c' \<Longrightarrow>
     list_all json_ok (opt_list (rc_Body c'))"
  by (erule decode_struct_ok_inv [rotated], assumption, assumption)
     (auto simp: request_fields_def field_def decode_raw_def opt_list_def)

lemma decode_response_ok:
  "json_ok j \<Longrightarrow> list_all json_ok (opt_list (sc_Body c)) \<Longrightarrow> decode_struct response_fields j c = Some c' \<Longrightarrow>
     list_all json_ok (opt_list (sc_Body c'))"
  by (erule decode_struct_ok_inv [rotated], assumption, assumption)
     (auto simp: response_fields_def field_def decode_raw_def opt_list_def)

lemma Download_ok: "Download gunzip read key b = Inr c \<Longrightarrow> body_ok c"
proof -
  assume "Download gunzip read key b = Inr c"
  then obtain z j where j: "json_parse z = Some j" "decode_struct content_fields j zero_content = Some c"
    by (auto simp: Download_def decode_def unmarshal_def split: option.splits)
  have ok: "json_ok j" using j(1) by (rule json_parse_ok)
  have start: "body_ok zero_content" by (simp add: body_ok_def zero_content_def opt_list_def)
  show "body_ok c"
    by (rule decode_struct_ok_inv [where P = body_ok, OF _ ok start j(2)])
       (auto simp: content_fields_def field_def body_ok_def dest: decode_request_ok decode_response_ok)
qed

lemma promise_kinds:
  "list_all (\<lambda>(rt, st, k). k \<noteq> ErrorK \<and> (if k = EmptyK then st = 204 else st \<in> {200, 201})
     \<and> (k = BodyK \<longrightarrow> rt = (''GET'', ''/usage/requests/{id}/body''))) promises"
  by code_simp

lemma kept:
  assumes "map_of promises rt = Some p" and "keeps p (status, a)"
  shows "refusal (status, a)
    \<or> kind_of a \<noteq> ErrorK \<and> (if kind_of a = EmptyK then status = 204 else status \<in> {200, 201})
      \<and> (kind_of a = BodyK \<longrightarrow> rt = (''GET'', ''/usage/requests/{id}/body''))"
proof -
  obtain st k where p: "p = (st, k)" by (cases p)
  from map_of_SomeD [OF assms(1)] promise_kinds show ?thesis
    using assms(2) by (auto simp: list_all_iff keeps_def p)
qed

lemma RequestBody_ok:
  assumes "uw_download w \<in> {None, Some (\<lambda>k. Download gunzip read k b)}" and "RequestBody w i = Inr c"
  shows "body_ok c"
  using assms by (auto simp: RequestBody_def dest: Download_ok split: option.splits sum.splits)

text \<open>An answer that is no archived body is well-formed because its route promises another kind.\<close>

lemma answered_ok:
  assumes "map_of (api_routes providerKeys) rt = Some h" and "h e ps r s = (s', status, a)"
    and "ae_download e \<in> {None, Some (\<lambda>k. Download gunzip read k b)}"
  shows "answer_ok a"
proof (cases a)
  case (BodyA c)
  obtain p where p: "map_of promises rt = Some p" "keeps p (snd (h e ps r s))" by (rule promise_kept [OF assms(1)])
  with kept [OF p(1), of status a] have "rt = (''GET'', ''/usage/requests/{id}/body'')" using assms(2) BodyA by (simp add: refusal_def)
  then have "h = reads (\<lambda>e ps _. usage_GetRequestBody e (URLParam ps ''id''))"
    using assms(1) by (cases providerKeys) (simp_all add: api_routes_def keys_RegisterRoutes_def usage_RegisterRoutes_def
        metadata_RegisterRoutes_def providers_RegisterRoutes_def)
  then have "body_ok c"
    using assms(2,3) BodyA RequestBody_ok [of "world_of e s" gunzip read b]
    by (auto simp: reads_def usage_GetRequestBody_def world_of_def split: option.splits sum.splits if_splits)
  with BodyA show ?thesis by (simp add: answer_ok_def)
qed (simp_all add: answer_ok_def)

lemma parse_with_newline: "json_ok j \<Longrightarrow> json_parse (print_json j @ newline) = Some j"
proof -
  assume "json_ok j"
  then have "parse_val (length (print_json j @ newline)) (print_json j @ newline) = Some (j, newline)"
    by (rule parse_print_val) (simp_all add: newline_def stops_def num_char_def is_digit_def less_eq_char_def)
  then show ?thesis by (simp add: json_parse_def newline_def skip_ws_def json_ws_def)
qed

text \<open>The document of an error.\<close>

definition error_doc :: "string \<Rightarrow> json" where
  "error_doc m = JObj [(''error'', json_str m)]"

lemma error_body: "json_parse (rp_Body (WriteJSONError h code m)) = Some (error_doc m)"
  using parse_with_newline [of "error_doc m"] by (simp add: WriteJSONError_def error_doc_def)

lemma answer_body: "json_ok j \<Longrightarrow> json_parse (rp_Body (WriteJSON h code j)) = Some j"
  by (simp add: WriteJSON_def parse_with_newline)

lemma refusal_message: "refusal (status, a) \<Longrightarrow> \<exists>m. m \<noteq> [] \<and> answer_error tx a = Some m \<and> status \<in> {400, 404, 500}"
  by (auto simp: refusal_def answer_error_def validation_text_def split: answer.splits validation_error.splits)

lemma refusal_response: "refusal (status, a) \<Longrightarrow> \<exists>m. m \<noteq> [] \<and> status \<in> {400, 404, 500}
   \<and> api_response tx (status, a) = WriteJSONError [] status m"
  using refusal_message [of status a tx] by (auto simp: api_response_def)

lemma kind_error: "answer_error tx a = None \<longleftrightarrow> kind_of a \<noteq> ErrorK" "kind_of a = EmptyK \<longleftrightarrow> a = EmptyA"
  by (cases a; simp add: answer_error_def)+

text \<open>What the admin API answers a request it has let in.\<close>

lemma dispatched:
  assumes "api_dispatch chi sv e rest r s = (s', Api (status, a))"
    and "ae_download e \<in> {None, Some (\<lambda>k. Download gunzip read k b)}"
  shows "answer_ok a \<and> (refusal (status, a) \<or> answer_error tx a = None \<and> (if a = EmptyA then status = 204 else status \<in> {200, 201}))"
proof -
  obtain rt h params where h: "map_of (api_routes (se_providerKeys sv)) rt = Some h" "h e params r s = (s', status, a)"
    using assms(1) by (auto simp: api_dispatch_def Let_def split: matched.splits option.splits prod.splits)
  obtain p where p: "map_of promises rt = Some p" "keeps p (snd (h e params r s))" by (rule promise_kept [OF h(1)])
  have "refusal (status, a) \<or> answer_error tx a = None \<and> (if a = EmptyA then status = 204 else status \<in> {200, 201})"
    using kept [OF p(1), of status a] p(2) h(2) by (auto simp: kind_error)
  with answered_ok [OF h assms(2)] show ?thesis by blast
qed


definition plain_texts :: texts where
  "plain_texts = \<lparr>tx_uuid = \<lambda>u. ''u'' @ dec_of_nat (unat u), tx_zone = \<lambda>_. 0, tx_bad_uuid = \<lambda>_. ''bad id'', tx_bad_date = \<lambda>_. ''bad date''\<rparr>"

definition listed_key :: api_key where
  "listed_key = example_key\<lparr>ak_RequestCount := 12\<rparr>"

definition listing_env :: admin_env where
  "listing_env = \<lparr>ae_ok = True, ae_ok' = True, ae_now = 5, ae_id = 9, ae_random = None, ae_parse_uuid = \<lambda>_. None, ae_newSHA1 = \<lambda>n s. 0,
     ae_db = \<lparr>dn_units = \<lambda>_. 0, dn_float = \<lambda>_. 0, dn_avg = \<lambda>_. 0, dn_percentile = \<lambda>_ _. 0, dn_zone = \<lambda>_. 0\<rparr>, ae_download = None\<rparr>"

definition listing_state :: admin_state where
  "listing_state = \<lparr>ad_keys = [listed_key], ad_providers = [], ad_meta = [], ad_cache = NewActiveKeysCache day, ad_rows = [], ad_jobs = []\<rparr>"

lemma listing: "keys_List listing_env listing_state = (200, KeysA [listed_key])"
  by (simp add: keys_List_def ListKeys_def ListAPIKeys_def listing_env_def listing_state_def)

lemma list_route: "map_of (api_routes providerKeys) (''GET'', ''/keys'') = Some (reads (\<lambda>e _ _. keys_List e))"
  by (cases providerKeys) (simp_all add: api_routes_def keys_RegisterRoutes_def)

lemma listing_times: "times_ok plain_texts (KeysA [listed_key])"
  by (simp add: times_ok_def plain_texts_def listed_key_def example_key_def api_key_times_def) code_simp


end
