(* ===== verification/Output_Properties.thy ===== *)
theory Output_Properties
  imports Output_Views Api_Contract
begin

text \<open>
  What the command line tool shows is what the service answered. After the run tree, whose decoder is
  recursive, the theorem at the end composes a command, the handler its request is for, the response, and
  what is printed of it.
\<close>

declare decode_members.simps(2) [simp del] to_lower_simps [simp del] map_of.simps(2) [simp del]

section \<open>The run tree\<close>

lemma depth_member: "(k, j) \<in> set ms \<Longrightarrow> json_depth j < json_depth (JObj ms)"
proof -
  have "(k, j) \<in> set ms \<Longrightarrow> json_depth j \<le> foldr (\<lambda>(_, j). max (json_depth j)) ms 0"
    by (induction ms) auto
  then show "(k, j) \<in> set ms \<Longrightarrow> json_depth j < json_depth (JObj ms)" by simp
qed

lemma depth_element: "j \<in> set js \<Longrightarrow> json_depth j < json_depth (JArr js)"
proof -
  have "j \<in> set js \<Longrightarrow> json_depth j \<le> foldr (\<lambda>j. max (json_depth j)) js 0"
    by (induction js) auto
  then show "j \<in> set js \<Longrightarrow> json_depth j < json_depth (JArr js)" by simp
qed

fun node_view_of :: "run_node \<Rightarrow> runNode" where
  "node_view_of (RunNode i cs) = RunNodeV
     \<lparr>nv_Name = rn_Name i, nv_Kind = rn_Kind i, nv_Model = map_option lf_Model (rn_Row i), nv_TotalCost = rn_TotalCost i,
      nv_RequestCount = word_of_int (rn_RequestCount i)\<rparr>
     (if cs = [] then None else Some (map (\<lambda>c. Some (node_view_of c)) cs))"

fun node_fits :: "run_node \<Rightarrow> bool" where
  "node_fits (RunNode i cs) \<longleftrightarrow> int64_range (rn_RequestCount i) \<and> finite_float (rn_TotalCost i) \<and> list_all node_fits cs"

lemma child_depth: "c \<in> set cs \<Longrightarrow> json_depth (RunNode_doc tx c) < json_depth (RunNode_doc tx (RunNode i cs))"
proof -
  assume c: "c \<in> set cs"
  then have "json_depth (RunNode_doc tx c) < json_depth (json_rows (RunNode_doc tx) cs)"
    by (auto simp: json_rows_def json_slice_def intro!: depth_element simp del: json_depth.simps)
  also have "\<dots> < json_depth (RunNode_doc tx (RunNode i cs))"
    unfolding RunNode_doc.simps by (rule depth_member [of "''children''"]) simp
  finally show ?thesis .
qed

lemma not_null: "json_rows f cs = JNull \<longleftrightarrow> cs = []" "RunNode_doc tx n \<noteq> JNull"
  by (simp_all add: json_rows_def json_slice_def) (cases n, simp)

lemma decode_ptr_value: "j \<noteq> JNull \<Longrightarrow> decode_ptr z d j p = map_option Some (d j (case p of None \<Rightarrow> z | Some x \<Rightarrow> x))"
  by (cases j) simp_all

lemma read_node:
  assumes "int64_range (rn_RequestCount i)" "finite_float (rn_TotalCost i)"
    and "decode_nil_slice None (decode_ptr zero_node child) j None = Some vs"
  shows "decode_members (node_fields child) (
     [(''span_id'', json_uuid tx (rn_SpanID i))] @ omit_nil ''parent_span_id'' (json_uuid tx) (rn_ParentSpanID i)
     @ [(''name'', json_str (rn_Name i)), (''path'', json_str (rn_Path i)), (''kind'', json_str (rn_Kind i))]
     @ (case rn_Row i of None \<Rightarrow> [] | Some r \<Rightarrow> call_members tx r)
     @ [(''self_cost'', json_f64 (rn_SelfCost i)), (''total_cost'', json_f64 (rn_TotalCost i)),
        (''request_count'', json_count (rn_RequestCount i)), (''children'', j)]) zero_node = Some (RunNodeV
     \<lparr>nv_Name = rn_Name i, nv_Kind = rn_Kind i, nv_Model = map_option lf_Model (rn_Row i), nv_TotalCost = rn_TotalCost i,
      nv_RequestCount = word_of_int (rn_RequestCount i)\<rparr> vs)"
  using assms
  by (cases "rn_Row i")
     (simp_all add: call_members_def node_fields_def zero_node_def on_view_def read_simps)

lemma read_node_in:
  "node_fits n \<Longrightarrow> json_depth (RunNode_doc tx n) \<le> k \<Longrightarrow> decode_node_in k (RunNode_doc tx n) zero_node = Some (node_view_of n)"
proof (induction n arbitrary: k)
  case (RunNode i cs)
  have "0 < json_depth (RunNode_doc tx (RunNode i cs))" unfolding RunNode_doc.simps json_depth.simps by (rule zero_less_Suc)
  then obtain k' where k: "k = Suc k'" using RunNode.prems(2) by (metis gr0_implies_Suc less_le_trans)
  have rows: "decode_nil_slice None (decode_ptr zero_node (decode_node_in k')) (json_rows (RunNode_doc tx) cs) None
      = Some (if cs = [] then None else Some (map (\<lambda>c. Some (node_view_of c)) cs))"
  proof (rule read_rows(2))
    fix c assume c: "c \<in> set cs"
    have "json_depth (RunNode_doc tx c) \<le> k'" using child_depth [OF c, of tx i] RunNode.prems(2) unfolding k by linarith
    with RunNode.IH [OF c] RunNode.prems(1) c
    show "decode_ptr zero_node (decode_node_in k') (RunNode_doc tx c) None = Some (Some (node_view_of c))"
      by (simp add: decode_ptr_value not_null list_all_iff)
  qed
  show ?case unfolding k decode_node_in.simps node_view_of.simps RunNode_doc.simps decode_struct.simps
    by (rule read_node [OF _ _ rows]) (use RunNode.prems(1) in simp_all)
qed

definition tree_view_of :: "run_tree \<Rightarrow> tree_view" where
  "tree_view_of t = \<lparr>tv_TraceID = rt_TraceID t, tv_Root = Some (node_view_of (rt_Root t)), tv_TotalCost = rt_TotalCost t,
     tv_RequestCount = word_of_int (rt_RequestCount t)\<rparr>"

lemma read_tree:
  assumes "node_fits (rt_Root t)" "int64_range (rt_RequestCount t)" "finite_float (rt_TotalCost t)"
  shows "decode_struct tree_fields (RunTree_doc tx t) zero_tree = Some (tree_view_of t)"
proof -
  have "decode_ptr zero_node decode_node (RunNode_doc tx (rt_Root t)) None = Some (Some (node_view_of (rt_Root t)))"
    using read_node_in [OF assms(1), of tx] by (simp add: decode_ptr_value not_null decode_node_def)
  with assms(2,3) show ?thesis
    by (simp add: RunTree_doc_def tree_fields_def zero_tree_def tree_view_of_def read_simps)
qed

text \<open>A tree the service answers has no nil node, so printing it does not panic: a line for every node, the
  parent before its children, two spaces further in.\<close>

fun tree_lines :: "nat \<Rightarrow> run_node \<Rightarrow> printed list" where
  "tree_lines depth (RunNode i cs) = node_line depth (nd_view (node_view_of (RunNode i cs))) # concat (map (tree_lines (Suc depth)) cs)"

lemma those_Some: "those (map (\<lambda>x. Some (f x)) xs) = Some (map f xs)"
  by (induction xs) simp_all

lemma print_node: "printRunNode depth (node_view_of n) = Some (tree_lines depth n)"
proof (induction n arbitrary: depth)
  case (RunNode i cs)
  have "those (map (\<lambda>c. case c of None \<Rightarrow> None | Some n \<Rightarrow> printRunNode (Suc depth) n) (map (\<lambda>c. Some (node_view_of c)) cs))
      = Some (map (tree_lines (Suc depth)) cs)"
    using RunNode.IH those_Some [of "tree_lines (Suc depth)" cs] by (simp add: comp_def cong: map_cong)
  then show ?case by simp
qed

section \<open>The client and the response\<close>

text \<open>The counts and amounts the command line tool reads are in the range of their types.\<close>

fun numbers_fit :: "answer \<Rightarrow> bool" where
  "numbers_fit (CreatedKeyA k _) \<longleftrightarrow> int64_range (ak_RequestCount k)"
| "numbers_fit (KeysA ks) \<longleftrightarrow> list_all (\<lambda>k. int64_range (ak_RequestCount k)) ks"
| "numbers_fit (MetadataKeysA ks) \<longleftrightarrow> list_all (\<lambda>k. int64_range (mk_ApproxCardinality k) \<and> int64_range (mk_RequestCount k)) ks"
| "numbers_fit (SummaryA s) \<longleftrightarrow> summary_fits s"
| "numbers_fit (ModelsA us) \<longleftrightarrow> list_all totals_fit us"
| "numbers_fit (ProvidersA us) \<longleftrightarrow> list_all totals_fit us"
| "numbers_fit (APIKeysA us) \<longleftrightarrow> list_all totals_fit us"
| "numbers_fit (RequestsA rs n) \<longleftrightarrow> int64_range n \<and> list_all (\<lambda>r. int64_range (ri_StatusCode r) \<and> finite_float (ri_TotalCost r)) rs"
| "numbers_fit (RunsA rs n) \<longleftrightarrow> int64_range n \<and> list_all totals_fit rs"
| "numbers_fit (RunTreeA t) \<longleftrightarrow> node_fits (rt_Root t) \<and> int64_range (rt_RequestCount t) \<and> finite_float (rt_TotalCost t)"
| "numbers_fit _ \<longleftrightarrow> True"

definition answer_text :: "texts \<Rightarrow> answer \<Rightarrow> string" where
  "answer_text tx a = print_json (answer_doc tx a) @ newline"

lemma decode_first_print: "json_ok j \<Longrightarrow> decode_first d z (print_json j @ newline) = d j z"
proof -
  assume "json_ok j"
  then have "parse_val (length (print_json j @ newline)) (print_json j @ newline) = Some (j, newline)"
    by (rule parse_print_val) (simp_all add: newline_def stops_def num_char_def is_digit_def less_eq_char_def)
  then show ?thesis by (simp add: decode_first_def)
qed

lemma answered_text:
  "answer_ok a \<Longrightarrow> d (answer_doc tx a) z = Some x \<Longrightarrow> answered d z use (Answered (answer_text tx a)) = use x"
  by (simp add: answered_def answer_text_def decode_first_print answer_doc_ok)

text \<open>What each reader shows of the answer it expects.\<close>

lemma times_key: "times_ok tx (KeysA ks) \<Longrightarrow> numbers_fit (KeysA ks) \<Longrightarrow> k \<in> set ks \<Longrightarrow> key_fits tx k"
  by (auto simp: times_ok_def key_fits_def list_all_iff)

lemma shows_keys:
  assumes "times_ok tx (KeysA ks)" "numbers_fit (KeysA ks)"
  shows "show_keys (Answered (answer_text tx (KeysA ks))) = Inr (print_keys (map (key_view tx) ks))"
proof -
  have "decode_slice zero_apiKey (decode_struct apiKey_fields) (answer_doc tx (KeysA ks)) [] = Some (map (key_view tx) ks)"
    unfolding answer_doc.simps by (rule read_rows(1)) (use read_key times_key [OF assms] in blast)
  then show ?thesis unfolding show_keys_def by (subst answered_text) (simp_all add: answer_ok_def)
qed

lemma shows_created:
  assumes "times_ok tx (CreatedKeyA k key)" "numbers_fit (CreatedKeyA k key)"
  shows "show_created (Answered (answer_text tx (CreatedKeyA k key)))
    = Inr (print_created (apiKey.extend (key_view tx k) \<lparr>kv_Key = key\<rparr>))"
proof -
  have "key_fits tx k" using assms by (simp add: times_ok_def key_fits_def)
  from read_created [OF this] show ?thesis unfolding show_created_def by (subst answered_text) (simp_all add: answer_ok_def)
qed

lemma shows_provider_keys:
  assumes "times_ok tx (ProviderKeysA ks)"
  shows "show_provider_keys (Answered (answer_text tx (ProviderKeysA ks))) = Inr (print_provider_keys (map (provider_key_view tx) ks))"
proof -
  have "decode_slice zero_providerKeyInfo (decode_struct providerKeyInfo_fields) (answer_doc tx (ProviderKeysA ks)) []
      = Some (map (provider_key_view tx) ks)"
    unfolding answer_doc.simps
    by (rule read_rows(1)) (use read_provider_key assms in \<open>auto simp: times_ok_def list_all_iff\<close>)
  then show ?thesis unfolding show_provider_keys_def by (subst answered_text) (simp_all add: answer_ok_def)
qed

lemma shows_stored:
  "show_stored (Answered (answer_text tx (ProviderA p))) = Inr (print_stored \<lparr>pv_Provider = p, pv_CreatedAt = zero_time\<rparr>)"
  using read_stored [of tx p] unfolding show_stored_def by (subst answered_text) (simp_all add: answer_ok_def)

lemma shows_metadata_keys:
  assumes "numbers_fit (MetadataKeysA ks)"
  shows "show_metadata_keys (Answered (answer_text tx (MetadataKeysA ks))) = Inr (print_metadata_keys (map (metadata_key_view tx) ks))"
proof -
  have "decode_slice zero_metadataKey (decode_struct metadataKey_fields) (answer_doc tx (MetadataKeysA ks)) []
      = Some (map (metadata_key_view tx) ks)"
    unfolding answer_doc.simps by (rule read_rows(1)) (use read_metadata_key assms in \<open>auto simp: list_all_iff\<close>)
  then show ?thesis unfolding show_metadata_keys_def by (subst answered_text) (simp_all add: answer_ok_def)
qed

lemma shows_toggled:
  "a = ActivatedA \<or> a = DeactivatedA \<Longrightarrow> show_toggled action k key (Answered (answer_text tx a))
     = Inr [QuotedLine (action @ '' '') k ('' for API key '' @ key @ '' (reindexing existing rows in the background)'')]"
  using read_toggled [of tx] unfolding show_toggled_def by (subst answered_text) (auto simp: answer_ok_def)

lemma shows_summary:
  "numbers_fit (SummaryA s) \<Longrightarrow> usageSummary j (Answered (answer_text tx (SummaryA s))) = Inr (print_summary j (summary_view_of s))"
  using read_summary [of s] unfolding usageSummary_def by (subst answered_text) (simp_all add: answer_ok_def)

lemma shows_models:
  assumes "numbers_fit (ModelsA us)"
  shows "usageModels j (Answered (answer_text tx (ModelsA us))) = Inr (print_models j (Some (map model_view_of us)))"
proof -
  have "decode_nil_slice zero_model (decode_struct model_fields) (answer_doc tx (ModelsA us)) None = Some (Some (map model_view_of us))"
    unfolding answer_doc.simps by (rule read_rows(3)) (use read_model assms in \<open>auto simp: list_all_iff\<close>)
  then show ?thesis unfolding usageModels_def by (subst answered_text) (simp_all add: answer_ok_def)
qed

lemma shows_providers:
  assumes "numbers_fit (ProvidersA us)"
  shows "usageProviders j (Answered (answer_text tx (ProvidersA us)))
    = Inr (print_groups ''provider'' ''PROVIDER'' j (Some (map (group_view_of pu_Provider) us)))"
proof -
  have "decode_nil_slice zero_group (decode_struct (group_fields ''provider'')) (answer_doc tx (ProvidersA us)) None
      = Some (Some (map (group_view_of pu_Provider) us))"
    unfolding answer_doc.simps by (rule read_rows(3)) (use read_provider_usage assms in \<open>auto simp: list_all_iff\<close>)
  then show ?thesis unfolding usageProviders_def by (subst answered_text) (simp_all add: answer_ok_def)
qed

lemma shows_api_keys:
  assumes "numbers_fit (APIKeysA us)"
  shows "usageAPIKeys j (Answered (answer_text tx (APIKeysA us)))
    = Inr (print_groups ''api_key_name'' ''API KEY'' j (Some (map (group_view_of ku_APIKeyName) us)))"
proof -
  have "decode_nil_slice zero_group (decode_struct (group_fields ''api_key_name'')) (answer_doc tx (APIKeysA us)) None
      = Some (Some (map (group_view_of ku_APIKeyName) us))"
    unfolding answer_doc.simps by (rule read_rows(3)) (use read_key_usage assms in \<open>auto simp: list_all_iff\<close>)
  then show ?thesis unfolding usageAPIKeys_def by (subst answered_text) (simp_all add: answer_ok_def)
qed

definition page_of :: "('a \<Rightarrow> 'r) \<Rightarrow> 'a list \<Rightarrow> int \<Rightarrow> 'r page" where
  "page_of f rs n = \<lparr>pg_Rows = (if rs = [] then None else Some (map f rs)), pg_NumRecords = word_of_int n\<rparr>"

lemma shows_requests:
  assumes "times_ok tx (RequestsA rs n)" "numbers_fit (RequestsA rs n)"
  shows "usageRequests j (Answered (answer_text tx (RequestsA rs n))) = Inr (print_requests j (page_of (request_view_of tx) rs n))"
proof -
  have "decode_struct (page_fields ''requests'' zero_request_view request_view_fields) (answer_doc tx (RequestsA rs n)) zero_page
      = Some (page_of (request_view_of tx) rs n)"
    unfolding page_of_def by (rule read_requests_page) (use assms in \<open>auto simp: times_ok_def list_all_iff\<close>)
  then show ?thesis unfolding usageRequests_def by (subst answered_text) (simp_all add: answer_ok_def)
qed

lemma shows_runs:
  assumes "times_ok tx (RunsA rs n)" "numbers_fit (RunsA rs n)"
  shows "usageRuns j (Answered (answer_text tx (RunsA rs n))) = Inr (print_runs j (page_of (run_view_of tx) rs n))"
proof -
  have "decode_struct (page_fields ''runs'' zero_run_view run_view_fields) (answer_doc tx (RunsA rs n)) zero_page
      = Some (page_of (run_view_of tx) rs n)"
    unfolding page_of_def by (rule read_runs_page) (use assms in \<open>auto simp: times_ok_def list_all_iff\<close>)
  then show ?thesis unfolding usageRuns_def by (subst answered_text) (simp_all add: answer_ok_def)
qed

definition tree_shown :: "bool \<Rightarrow> run_tree \<Rightarrow> printed list" where
  "tree_shown j t = (if j then [Json (tree_json (tree_view_of t))]
     else [Line (''Run '' @ rt_TraceID t @ '' '' @ em_dash @ '' '' @ int_cell (word_of_int (rt_RequestCount t)) @ '' calls, ''
             @ cost_cell (rt_TotalCost t) @ '' total''), Line []] @ tree_lines 0 (rt_Root t))"

lemma shows_tree:
  assumes "numbers_fit (RunTreeA t)"
  shows "runUsageRunTree j (Answered (answer_text tx (RunTreeA t))) = Inr (tree_shown j t)"
proof -
  have "decode_struct tree_fields (answer_doc tx (RunTreeA t)) zero_tree = Some (tree_view_of t)"
    using read_tree [of t tx] assms by simp
  then have "runUsageRunTree j (Answered (answer_text tx (RunTreeA t))) = print_tree j (tree_view_of t)"
    unfolding runUsageRunTree_def by (subst answered_text) (simp_all add: answer_ok_def)
  moreover have "tv_Root (tree_view_of t) = Some (node_view_of (rt_Root t))" by (simp add: tree_view_of_def)
  then have "print_tree j (tree_view_of t) = Inr (tree_shown j t)"
    unfolding print_tree_def Let_def tree_shown_def by (simp add: print_node) (simp add: tree_view_of_def)
  ultimately show ?thesis by simp
qed

lemma shows_raw: "answer_ok a \<Longrightarrow> usageRawJSON (Answered (answer_text tx a)) = Inr [Json (answer_doc tx a)]"
  unfolding usageRawJSON_def by (subst answered_text [where x = "Some (answer_doc tx a)"]) (simp_all add: decode_raw_def)

section \<open>Commands and their routes\<close>

text \<open>The route a command is for.\<close>

definition usage_routes :: "(string \<times> route) list" where
  "usage_routes = map (\<lambda>(sub, path). (sub, (''POST'', drop 7 path))) usage_paths"

definition key_routes :: "(string \<times> route) list" where
  "key_routes = [(''create'', (''POST'', ''/keys'')), (''list'', (''GET'', ''/keys'')), (''revoke'', (''DELETE'', ''/keys/{id}''))]"

definition provider_key_routes :: "(string \<times> route) list" where
  "provider_key_routes =
     [(''add'', (''POST'', ''/provider-keys'')), (''list'', (''GET'', ''/provider-keys'')),
      (''remove'', (''DELETE'', ''/provider-keys/{provider}''))]"

definition metadata_routes :: "(string \<times> route) list" where
  "metadata_routes =
     [(''list'', (''GET'', ''/metadata'')), (''activate'', (''POST'', ''/metadata/activate'')),
      (''deactivate'', (''POST'', ''/metadata/deactivate''))]"

definition command_route :: "string list \<Rightarrow> route option" where
  "command_route args = (case args of
       cmd # sub # rest \<Rightarrow>
         if cmd = ''keys'' then map_of key_routes sub
         else if cmd = ''provider-keys'' then map_of provider_key_routes sub
         else if cmd = ''metadata'' then map_of metadata_routes sub
         else if cmd = ''usage'' then
           (if sub = ''run'' then Some (''GET'', ''/usage/runs/{traceId}'')
            else if sub = ''request'' then
              Some (''GET'', if ''--body'' \<in> set rest then ''/usage/requests/{id}/body'' else ''/usage/requests/{id}'')
            else map_of usage_routes sub)
         else None
     | _ \<Rightarrow> None)"

text \<open>Whether JSON is asked for, and the parts of the command line a command without an answer of its own shows.\<close>

definition asks_json :: "string list \<Rightarrow> bool" where
  "asks_json args = (case args of
       cmd # sub # rest \<Rightarrow>
         if sub = ''run'' then ''--json'' \<in> set rest else bool_flag (fst (flags_parsed usage_flag_kinds rest)) ''json''
     | _ \<Rightarrow> False)"

definition done_line :: "string list \<Rightarrow> printed list" where
  "done_line args = (case args of
       cmd # sub # rest \<Rightarrow>
         if cmd = ''metadata'' then
           (case flags_parsed [(''api-key'', TextFlag)] rest of
              (vs, words) \<Rightarrow> [QuotedLine (sub @ '' '') (hd words)
                ('' for API key '' @ text_flag vs ''api-key'' @ '' (reindexing existing rows in the background)'')])
         else if cmd = ''keys'' then [Line (''Revoked API key '' @ hd rest)]
         else [Line (''Removed provider key for '' @ hd rest)]
     | _ \<Rightarrow> [])"

text \<open>What is to be shown of an answer: its records, projected to what the tool prints of them.\<close>

fun shown :: "texts \<Rightarrow> string list \<Rightarrow> answer \<Rightarrow> printed list" where
  "shown tx args (CreatedKeyA k key) = print_created (apiKey.extend (key_view tx k) \<lparr>kv_Key = key\<rparr>)"
| "shown tx args (KeysA ks) = print_keys (map (key_view tx) ks)"
| "shown tx args (MetadataKeysA ks) = print_metadata_keys (map (metadata_key_view tx) ks)"
| "shown tx args (ProviderA p) = print_stored \<lparr>pv_Provider = p, pv_CreatedAt = zero_time\<rparr>"
| "shown tx args (ProviderKeysA ks) = print_provider_keys (map (provider_key_view tx) ks)"
| "shown tx args (SummaryA s) = print_summary (asks_json args) (summary_view_of s)"
| "shown tx args (ModelsA us) = print_models (asks_json args) (Some (map model_view_of us))"
| "shown tx args (ProvidersA us) = print_groups ''provider'' ''PROVIDER'' (asks_json args) (Some (map (group_view_of pu_Provider) us))"
| "shown tx args (APIKeysA us) = print_groups ''api_key_name'' ''API KEY'' (asks_json args) (Some (map (group_view_of ku_APIKeyName) us))"
| "shown tx args (RequestsA rs n) = print_requests (asks_json args) (page_of (request_view_of tx) rs n)"
| "shown tx args (RunsA rs n) = print_runs (asks_json args) (page_of (run_view_of tx) rs n)"
| "shown tx args (RunTreeA t) = tree_shown (asks_json args) t"
| "shown tx args ActivatedA = done_line args"
| "shown tx args DeactivatedA = done_line args"
| "shown tx args EmptyA = done_line args"
| "shown tx args a = [Json (answer_doc tx a)]"

text \<open>The text of the response to an answer that is not an error.\<close>

definition response_text :: "texts \<Rightarrow> answer \<Rightarrow> string" where
  "response_text tx a = (if a = EmptyA then [] else answer_text tx a)"

definition shows_kind :: "texts \<Rightarrow> string list \<Rightarrow> (client_result \<Rightarrow> cli_error + printed list) \<Rightarrow> kind \<Rightarrow> bool" where
  "shows_kind tx args show k \<longleftrightarrow> (\<forall>a. kind_of a = k \<longrightarrow> answer_ok a \<longrightarrow> times_ok tx a \<longrightarrow> numbers_fit a \<longrightarrow>
     show (Answered (response_text tx a)) = Inr (shown tx args a))"

lemma shows_kindI:
  "(\<And>a. kind_of a = k \<Longrightarrow> answer_ok a \<Longrightarrow> times_ok tx a \<Longrightarrow> numbers_fit a \<Longrightarrow> show (Answered (response_text tx a)) = Inr (shown tx args a))
     \<Longrightarrow> shows_kind tx args show k"
  by (simp add: shows_kind_def)

lemma kind_inv:
  "kind_of a = CreatedKeyK \<longleftrightarrow> (\<exists>k key. a = CreatedKeyA k key)" "kind_of a = KeysK \<longleftrightarrow> (\<exists>ks. a = KeysA ks)"
  "kind_of a = MetadataKeysK \<longleftrightarrow> (\<exists>mks. a = MetadataKeysA mks)" "kind_of a = ActivatedK \<longleftrightarrow> a = ActivatedA"
  "kind_of a = DeactivatedK \<longleftrightarrow> a = DeactivatedA" "kind_of a = ProviderK \<longleftrightarrow> (\<exists>p. a = ProviderA p)"
  "kind_of a = ProviderKeysK \<longleftrightarrow> (\<exists>pks. a = ProviderKeysA pks)" "kind_of a = SummaryK \<longleftrightarrow> (\<exists>s. a = SummaryA s)"
  "kind_of a = ModelsK \<longleftrightarrow> (\<exists>mus. a = ModelsA mus)" "kind_of a = ProvidersK \<longleftrightarrow> (\<exists>pus. a = ProvidersA pus)"
  "kind_of a = APIKeysK \<longleftrightarrow> (\<exists>kus. a = APIKeysA kus)" "kind_of a = RequestsK \<longleftrightarrow> (\<exists>rs n. a = RequestsA rs n)"
  "kind_of a = RunsK \<longleftrightarrow> (\<exists>runs n. a = RunsA runs n)" "kind_of a = RunTreeK \<longleftrightarrow> (\<exists>t. a = RunTreeA t)"
  "kind_of a = EmptyK \<longleftrightarrow> a = EmptyA" "kind_of a = DailyK \<longleftrightarrow> (\<exists>ds. a = DailyA ds)" "kind_of a = ErrorsK \<longleftrightarrow> (\<exists>es. a = ErrorsA es)"
  "kind_of a = LatencyK \<longleftrightarrow> (\<exists>ls. a = LatencyA ls)" "kind_of a = DetailK \<longleftrightarrow> (\<exists>l. a = DetailA l)" "kind_of a = BodyK \<longleftrightarrow> (\<exists>b. a = BodyA b)"
  by (cases a; simp)+

lemmas shows_answer = shows_keys shows_created shows_provider_keys shows_stored shows_metadata_keys shows_toggled shows_summary
  shows_models shows_providers shows_api_keys shows_requests shows_runs shows_tree shows_raw

lemma shows_kinds:
  "shows_kind tx args show_created CreatedKeyK" "shows_kind tx args show_keys KeysK" "shows_kind tx args show_stored ProviderK"
  "shows_kind tx args show_provider_keys ProviderKeysK" "shows_kind tx args show_metadata_keys MetadataKeysK"
  "shows_kind tx args usageRawJSON DailyK" "shows_kind tx args usageRawJSON ErrorsK" "shows_kind tx args usageRawJSON LatencyK"
  "shows_kind tx args usageRawJSON DetailK" "shows_kind tx args usageRawJSON BodyK"
  by (rule shows_kindI, auto simp: kind_inv response_text_def shows_answer)+

lemma shows_usage_kinds:
  "asks_json args = j \<Longrightarrow> shows_kind tx args (usageSummary j) SummaryK" "asks_json args = j \<Longrightarrow> shows_kind tx args (usageModels j) ModelsK"
  "asks_json args = j \<Longrightarrow> shows_kind tx args (usageProviders j) ProvidersK" "asks_json args = j \<Longrightarrow> shows_kind tx args (usageAPIKeys j) APIKeysK"
  "asks_json args = j \<Longrightarrow> shows_kind tx args (usageRequests j) RequestsK" "asks_json args = j \<Longrightarrow> shows_kind tx args (usageRuns j) RunsK"
  "asks_json args = j \<Longrightarrow> shows_kind tx args (runUsageRunTree j) RunTreeK"
  by (rule shows_kindI, auto simp: kind_inv response_text_def shows_answer)+

lemma shows_done_kinds:
  "done_line args = [Line (''Revoked API key '' @ i)] \<Longrightarrow> shows_kind tx args (show_revoked i) EmptyK"
  "done_line args = [Line (''Removed provider key for '' @ i)] \<Longrightarrow> shows_kind tx args (show_removed i) EmptyK"
  "done_line args = [QuotedLine (action @ '' '') n ('' for API key '' @ key @ '' (reindexing existing rows in the background)'')] \<Longrightarrow>
     shows_kind tx args (show_toggled action n key) ActivatedK"
  "done_line args = [QuotedLine (action @ '' '') n ('' for API key '' @ key @ '' (reindexing existing rows in the background)'')] \<Longrightarrow>
     shows_kind tx args (show_toggled action n key) DeactivatedK"
  by (rule shows_kindI, auto simp: kind_inv response_text_def shows_answer show_revoked_def show_removed_def unanswered_def)+

text \<open>The promises of the routes the commands are for.\<close>

lemma promised [simp]:
  "map_of promises (''POST'', ''/keys'') = Some (201, CreatedKeyK)" "map_of promises (''GET'', ''/keys'') = Some (200, KeysK)"
  "map_of promises (''DELETE'', ''/keys/{id}'') = Some (204, EmptyK)"
  "map_of promises (''POST'', ''/provider-keys'') = Some (201, ProviderK)"
  "map_of promises (''GET'', ''/provider-keys'') = Some (200, ProviderKeysK)"
  "map_of promises (''DELETE'', ''/provider-keys/{provider}'') = Some (204, EmptyK)"
  "map_of promises (''GET'', ''/metadata'') = Some (200, MetadataKeysK)"
  "map_of promises (''POST'', ''/metadata/activate'') = Some (200, ActivatedK)"
  "map_of promises (''POST'', ''/metadata/deactivate'') = Some (200, DeactivatedK)"
  "map_of promises (''GET'', ''/usage/runs/{traceId}'') = Some (200, RunTreeK)"
  "map_of promises (''GET'', ''/usage/requests/{id}'') = Some (200, DetailK)"
  "map_of promises (''GET'', ''/usage/requests/{id}/body'') = Some (200, BodyK)"
  "map_of promises (''POST'', ''/usage/summary'') = Some (200, SummaryK)" "map_of promises (''POST'', ''/usage/daily'') = Some (200, DailyK)"
  "map_of promises (''POST'', ''/usage/models'') = Some (200, ModelsK)"
  "map_of promises (''POST'', ''/usage/providers'') = Some (200, ProvidersK)"
  "map_of promises (''POST'', ''/usage/api-keys'') = Some (200, APIKeysK)"
  "map_of promises (''POST'', ''/usage/errors'') = Some (200, ErrorsK)" "map_of promises (''POST'', ''/usage/latency'') = Some (200, LatencyK)"
  "map_of promises (''POST'', ''/usage/requests'') = Some (200, RequestsK)"
  "map_of promises (''POST'', ''/usage/runs'') = Some (200, RunsK)"
  by code_simp+

lemma routes_of [simp]:
  "map_of key_routes ''create'' = Some (''POST'', ''/keys'')" "map_of key_routes ''list'' = Some (''GET'', ''/keys'')"
  "map_of key_routes ''revoke'' = Some (''DELETE'', ''/keys/{id}'')"
  "map_of provider_key_routes ''add'' = Some (''POST'', ''/provider-keys'')"
  "map_of provider_key_routes ''list'' = Some (''GET'', ''/provider-keys'')"
  "map_of provider_key_routes ''remove'' = Some (''DELETE'', ''/provider-keys/{provider}'')"
  "map_of metadata_routes ''list'' = Some (''GET'', ''/metadata'')"
  "map_of metadata_routes ''activate'' = Some (''POST'', ''/metadata/activate'')"
  "map_of metadata_routes ''deactivate'' = Some (''POST'', ''/metadata/deactivate'')"
  by code_simp+

lemma shows_done:
  "shows_kind tx (''keys'' # sub # i # ws) (show_revoked i) EmptyK"
  "shows_kind tx (''provider-keys'' # sub # p # ws) (show_removed p) EmptyK"
  "flags_parsed [(''api-key'', TextFlag)] rest = (vs, n # ws) \<Longrightarrow>
     shows_kind tx (''metadata'' # sub # rest) (show_toggled sub n (text_flag vs ''api-key'')) ActivatedK"
  "flags_parsed [(''api-key'', TextFlag)] rest = (vs, n # ws) \<Longrightarrow>
     shows_kind tx (''metadata'' # sub # rest) (show_toggled sub n (text_flag vs ''api-key'')) DeactivatedK"
  by (rule shows_done_kinds, simp add: done_line_def)+

lemma finish_keys_shows:
  assumes "finish_keys (sub # rest) = Some show" and "map_of key_routes sub = Some rt" and "map_of promises rt = Some (st, k)"
  shows "shows_kind tx (''keys'' # sub # rest) show k"
proof -
  consider "sub = ''create''" "show = show_created" | "sub = ''list''" "show = show_keys"
    | i more where "sub = ''revoke''" "rest = i # more" "show = show_revoked i"
    using assms(1) by (auto simp: finish_keys_def split: if_splits list.splits)
  then show ?thesis
    by cases (use assms(2,3) in \<open>auto simp: shows_kinds shows_done\<close>)
qed

lemma finish_provider_keys_shows:
  assumes "finish_provider_keys (sub # rest) = Some show" and "map_of provider_key_routes sub = Some rt" and "map_of promises rt = Some (st, k)"
  shows "shows_kind tx (''provider-keys'' # sub # rest) show k"
proof -
  consider "sub = ''add''" "show = show_stored" | "sub = ''list''" "show = show_provider_keys"
    | p more where "sub = ''remove''" "rest = p # more" "show = show_removed p"
    using assms(1) by (auto simp: finish_provider_keys_def split: if_splits list.splits)
  then show ?thesis
    by cases (use assms(2,3) in \<open>auto simp: shows_kinds shows_done\<close>)
qed

lemma finish_metadata_shows:
  assumes "finish_metadata (sub # rest) = Some show" and "map_of metadata_routes sub = Some rt" and "map_of promises rt = Some (st, k)"
  shows "shows_kind tx (''metadata'' # sub # rest) show k"
proof -
  consider "sub = ''list''" "show = show_metadata_keys"
    | vs n more where "sub = ''activate'' \<or> sub = ''deactivate''" "flags_parsed [(''api-key'', TextFlag)] rest = (vs, n # more)"
        "show = show_toggled sub n (text_flag vs ''api-key'')"
    using assms(1) by (auto simp: finish_metadata_def split: if_splits list.splits prod.splits)
  then show ?thesis
    by cases (use assms(2,3) in \<open>auto simp: shows_kinds shows_done\<close>)
qed

lemma usage_table:
  "list_all2 (\<lambda>(sub, rt) (sub', show). sub = sub' \<and> (\<forall>tx args.
     \<exists>st k. map_of promises rt = Some (st, k) \<and> shows_kind tx args (show (asks_json args)) k)) usage_routes usage_shows"
  by (simp add: usage_routes_def usage_paths_def usage_shows_def shows_kinds shows_usage_kinds)

lemma finish_usage_shows:
  assumes "finish_usage (sub # rest) = Some show" and "command_route (''usage'' # sub # rest) = Some rt"
    and "map_of promises rt = Some (st, k)"
  shows "shows_kind tx (''usage'' # sub # rest) show k"
proof -
  consider "sub = ''run''" | "sub = ''request''" | "sub \<noteq> ''run''" "sub \<noteq> ''request''" by blast
  then show ?thesis
  proof cases
    case 1
    then have "show = runUsageRunTree (asks_json (''usage'' # sub # rest))" "k = RunTreeK"
      using assms by (auto simp: finish_usage_def command_route_def asks_json_def split: if_splits)
    then show ?thesis by (simp add: shows_usage_kinds)
  next
    case 2
    then have "show = usageRawJSON" "k = DetailK \<or> k = BodyK"
      using assms by (auto simp: finish_usage_def command_route_def split: if_splits)
    then show ?thesis by (auto simp: shows_kinds)
  next
    case 3
    then obtain f where f: "map_of usage_shows sub = Some f" "show = f (asks_json (''usage'' # sub # rest))"
      and rt: "map_of usage_routes sub = Some rt"
      using assms(1,2) by (auto simp: finish_usage_def command_route_def asks_json_def)
    from map_of_list_all2 [OF usage_table rt] f assms(3) show ?thesis by auto
  qed
qed

lemma command_shows:
  assumes "finish_command args = Some show" and "command_route args = Some rt" and "map_of promises rt = Some (st, k)"
  shows "shows_kind tx args show k"
proof -
  obtain cmd sub rest where args: "args = cmd # sub # rest"
    using assms(2) by (auto simp: command_route_def split: list.splits)
  consider "cmd = ''keys''" "finish_keys (sub # rest) = Some show" "map_of key_routes sub = Some rt"
    | "cmd = ''provider-keys''" "finish_provider_keys (sub # rest) = Some show" "map_of provider_key_routes sub = Some rt"
    | "cmd = ''metadata''" "finish_metadata (sub # rest) = Some show" "map_of metadata_routes sub = Some rt"
    | "cmd = ''usage''" "finish_usage (sub # rest) = Some show"
    using assms(1,2) by (auto simp: finish_command_def command_route_def args split: if_splits)
  then show ?thesis
  proof cases
    case 1 with finish_keys_shows [OF 1(2,3) assms(3)] show ?thesis by (simp only: args)
  next
    case 2 with finish_provider_keys_shows [OF 2(2,3) assms(3)] show ?thesis by (simp only: args)
  next
    case 3 with finish_metadata_shows [OF 3(2,3) assms(3)] show ?thesis by (simp only: args)
  next
    case 4 with finish_usage_shows [OF 4(2) _ assms(3)] assms(2) show ?thesis by (simp only: args)
  qed
qed

section \<open>Every request that is sent is for the route of its command\<close>

lemma calls_fixed:
  "CHR ''{'' \<notin> set pat \<Longrightarrow> calls_route [(''POST'', pat)] c ws (client_post c (''/api/v1'' @ pat) b)"
  "CHR ''{'' \<notin> set pat \<Longrightarrow> calls_route [(''GET'', pat)] c ws (client_get c (''/api/v1'' @ pat))"
  by (intro calls_routeI [of _ _ pat pat] fills_fixed; simp)+

lemma calls_word:
  "p \<in> set ws \<Longrightarrow> CHR ''{'' \<in> set pat \<Longrightarrow> calls_route [(''GET'', pat)] c ws (client_get c (''/api/v1'' @ filled pat p))"
  "p \<in> set ws \<Longrightarrow> CHR ''{'' \<in> set pat \<Longrightarrow> calls_route [(''DELETE'', pat)] c ws (client_delete c (''/api/v1'' @ filled pat p))"
  by (intro calls_routeI [of _ _ "filled pat p" pat] fills_word; simp)+

lemma calls_own:
  "calls_route [(''POST'', ''/keys'')] c ws (client_post c ''/api/v1/keys'' b)"
  "calls_route [(''GET'', ''/keys'')] c ws (client_get c ''/api/v1/keys'')"
  "calls_route [(''POST'', ''/provider-keys'')] c ws (client_post c ''/api/v1/provider-keys'' b)"
  "calls_route [(''GET'', ''/provider-keys'')] c ws (client_get c ''/api/v1/provider-keys'')"
  "calls_route [(''GET'', ''/metadata'')] c ws (client_get c ''/api/v1/metadata'')"
  "calls_route [(''POST'', ''/metadata/activate'')] c ws (client_post c ''/api/v1/metadata/activate'' b)"
  "calls_route [(''POST'', ''/metadata/deactivate'')] c ws (client_post c ''/api/v1/metadata/deactivate'' b)"
  using calls_fixed [of "''/keys''" c ws] calls_fixed [of "''/provider-keys''" c ws] calls_fixed [of "''/metadata''" c ws]
    calls_fixed [of "''/metadata/activate''" c ws] calls_fixed [of "''/metadata/deactivate''" c ws] by simp_all

lemma calls_own_word:
  "p \<in> set ws \<Longrightarrow> calls_route [(''DELETE'', ''/keys/{id}'')] c ws (client_delete c (''/api/v1/keys/'' @ p))"
  "p \<in> set ws \<Longrightarrow> calls_route [(''DELETE'', ''/provider-keys/{provider}'')] c ws (client_delete c (''/api/v1/provider-keys/'' @ p))"
  "p \<in> set ws \<Longrightarrow> calls_route [(''GET'', ''/usage/runs/{traceId}'')] c ws (client_get c (''/api/v1/usage/runs/'' @ p))"
  "p \<in> set ws \<Longrightarrow> calls_route [(''GET'', ''/usage/requests/{id}'')] c ws (client_get c (''/api/v1/usage/requests/'' @ p))"
  "p \<in> set ws \<Longrightarrow> calls_route [(''GET'', ''/usage/requests/{id}/body'')] c ws (client_get c (''/api/v1/usage/requests/'' @ p @ ''/body''))"
  using calls_word [of p ws "''/keys/{id}''" c] calls_word [of p ws "''/provider-keys/{provider}''" c]
    calls_word [of p ws "''/usage/runs/{traceId}''" c] calls_word [of p ws "''/usage/requests/{id}''" c]
    calls_word [of p ws "''/usage/requests/{id}/body''" c]
  by (simp_all add: filled_def)

definition sent_for :: "client \<Rightarrow> string list \<Rightarrow> client_request \<Rightarrow> bool" where
  "sent_for c args cr \<longleftrightarrow> (\<exists>rt show. command_route args = Some rt \<and> finish_command args = Some show \<and> calls_route [rt] c args cr)"

lemma sent_forI: "command_route args = Some rt \<Longrightarrow> finish_command args = Some show \<Longrightarrow> calls_route [rt] c args cr \<Longrightarrow> sent_for c args cr"
  by (auto simp: sent_for_def)

lemma sent_keys: "runKeys c rest = Sends cr \<Longrightarrow> sent_for c (''keys'' # rest) cr"
  by (auto simp: runKeys_def runKeysCreate_def sent_for_def command_route_def finish_command_def finish_keys_def
      calls_own simp del: append.simps intro: calls_own_word split: list.splits if_splits option.splits)

lemma sent_provider_keys: "runProviderKeys c rest = Sends cr \<Longrightarrow> sent_for c (''provider-keys'' # rest) cr"
  by (auto simp: runProviderKeys_def runProviderKeysAdd_def sent_for_def command_route_def finish_command_def finish_provider_keys_def
      calls_own simp del: append.simps intro: calls_own_word split: list.splits if_splits option.splits)

lemma sent_metadata: "runMetadata c rest = Sends cr \<Longrightarrow> sent_for c (''metadata'' # rest) cr"
  by (auto simp: runMetadata_def runMetadataToggle_def Let_def sent_for_def command_route_def finish_command_def finish_metadata_def
      flags_parsed_def calls_own split: list.splits if_splits option.splits)

lemma usage_sent:
  assumes "map_of usage_paths sub = Some path"
  obtains rt f where "map_of usage_routes sub = Some rt" "map_of usage_shows sub = Some f" "calls_route [rt] c ws (client_post c path b)"
proof -
  have table: "list_all2 (\<lambda>(sub, path) (sub', rt). sub = sub' \<and> (\<exists>pat. rt = (''POST'', pat) \<and> path = ''/api/v1'' @ pat \<and> CHR ''{'' \<notin> set pat))
      usage_paths usage_routes"
    by (simp add: usage_routes_def usage_paths_def)
  obtain rt pat where rt: "map_of usage_routes sub = Some rt" "rt = (''POST'', pat)" "path = ''/api/v1'' @ pat" "CHR ''{'' \<notin> set pat"
    using map_of_list_all2 [OF table assms] by blast
  moreover obtain f where "map_of usage_shows sub = Some f" using map_of_list_all2 [OF usage_table rt(1)] by blast
  ultimately show thesis using that calls_fixed(1) by blast
qed

lemma sent_usage: "runUsage c rest = Sends cr \<Longrightarrow> sent_for c (''usage'' # rest) cr"
proof -
  assume *: "runUsage c rest = Sends cr"
  then obtain sub words where rest: "rest = sub # words" by (auto simp: runUsage_def split: list.splits)
  consider (run) t ws where "sub = ''run''" "words = t # ws" "cr = client_get c (''/api/v1/usage/runs/'' @ t)"
    | (request) i ws where "sub = ''request''" "words = i # ws"
        "cr = client_get c (''/api/v1/usage/requests/'' @ i @ (if ''--body'' \<in> set words then ''/body'' else []))"
    | (report) path b where "sub \<noteq> ''run''" "sub \<noteq> ''request''" "map_of usage_paths sub = Some path" "cr = client_post c path b"
    using * unfolding rest by (auto simp: runUsage_def simp del: append.simps split: list.splits if_splits option.splits)
  then show ?thesis
  proof cases
    case run
    with rest show ?thesis
      by (auto simp: sent_for_def command_route_def finish_command_def finish_usage_def simp del: append.simps intro: calls_own_word)
  next
    case request
    with rest show ?thesis
      by (auto simp: sent_for_def command_route_def finish_command_def finish_usage_def simp del: append.simps intro: calls_own_word)
  next
    case report
    obtain rt f where "map_of usage_routes sub = Some rt" "map_of usage_shows sub = Some f"
        "calls_route [rt] c (''usage'' # rest) (client_post c path b)" by (rule usage_sent [OF report(3)])
    with report rest show ?thesis
      by (auto simp: sent_for_def command_route_def finish_command_def finish_usage_def)
  qed
qed

lemma sent_command: "run_command c args = Sends cr \<Longrightarrow> sent_for c args cr"
  by (cases args) (auto simp: run_command_def dest: sent_keys sent_provider_keys sent_metadata sent_usage split: if_splits)

section \<open>What the tool shows of a reply\<close>

definition cli_shows :: "texts \<Rightarrow> string list \<Rightarrow> reply \<Rightarrow> (cli_error + printed list) option" where
  "cli_shows tx args rep =
     (let response = api_response tx rep in
      map_option (\<lambda>show. show (client_result (rp_Status response) (rp_Body response))) (finish_command args))"

lemma finish_error: "finish_command args = Some show \<Longrightarrow> show (ApiError m) = Inl (CliApi m)"
proof -
  have "(\<lambda>(sub, show). \<forall>j. show j (ApiError m) = Inl (CliApi m)) x" if "x \<in> set usage_shows" for x
    using that by (auto simp: usage_shows_def usageSummary_def usageModels_def usageProviders_def usageAPIKeys_def usageRequests_def
        usageRuns_def usageRawJSON_def answered_def)
  then have reports: "map_of usage_shows sub = Some f \<Longrightarrow> f j (ApiError m) = Inl (CliApi m)" for sub f j
    by (auto dest: map_of_SomeD)
  show "finish_command args = Some show \<Longrightarrow> ?thesis"
    by (auto simp: finish_command_def finish_keys_def finish_provider_keys_def finish_metadata_def finish_usage_def
        show_created_def show_keys_def show_revoked_def show_stored_def show_provider_keys_def show_removed_def
        show_metadata_keys_def show_toggled_def runUsageRunTree_def usageRawJSON_def answered_def unanswered_def reports
        split: list.splits if_splits prod.splits)
qed

lemma quote_unquote_error: "unquote ''error'' = ''error''"
  by code_simp

lemma refused_result:
  assumes "refusal (status, a)"
  obtains m where "answer_error tx a = Some m"
    "client_result (rp_Status (api_response tx (status, a))) (rp_Body (api_response tx (status, a))) = ApiError m"
proof -
  obtain m where m: "m \<noteq> []" "answer_error tx a = Some m" "status \<in> {400, 404, 500}"
    using refusal_message [OF assms] by blast
  then have "api_response tx (status, a) = WriteJSONError [] status m" by (simp add: api_response_def)
  moreover have "error_text (rp_Body (WriteJSONError [] status m)) = Some m"
    using m(1) by (simp add: error_text_def unmarshal_def error_body)
       (simp add: error_doc_def decode_members.simps map_of.simps decode_member_def find_field_def field_def quote_unquote_error)
  moreover have "rp_Status (WriteJSONError [] status m) = status" by (simp add: WriteJSONError_def)
  ultimately have "client_result (rp_Status (api_response tx (status, a))) (rp_Body (api_response tx (status, a))) = ApiError m"
    using m by (auto simp: client_result_def)
  with m(2) that show thesis by blast
qed

lemma sent_result:
  assumes "kind_of a \<noteq> ErrorK" and "if kind_of a = EmptyK then status = 204 else status \<in> {200, 201}" and "times_ok tx a"
  shows "client_result (rp_Status (api_response tx (status, a))) (rp_Body (api_response tx (status, a))) = Answered (response_text tx a)"
proof (cases "a = EmptyA")
  case True
  with assms(2) show ?thesis by (simp add: api_response_def answer_error_def client_result_def response_text_def)
next
  case False
  then have "api_response tx (status, a) = WriteJSON [] status (answer_doc tx a)"
    using assms(1,3) by (simp add: api_response_def kind_error(1) [symmetric, of _ tx])
  moreover have "status \<in> {200, 201}" using assms(2) False by (simp add: kind_error split: if_splits)
  ultimately show ?thesis using False by (auto simp: client_result_def response_text_def answer_text_def WriteJSON_def)
qed

text \<open>What a handler's reply comes to at a client.\<close>

lemma reply_result:
  assumes "map_of (api_routes providerKeys) rt = Some h" and "h e ps r s = (s', status, a)" and "times_ok tx a"
  shows "client_result (rp_Status (api_response tx (status, a))) (rp_Body (api_response tx (status, a)))
    = (case answer_error tx a of Some m \<Rightarrow> ApiError m | None \<Rightarrow> Answered (response_text tx a))"
proof -
  obtain p where p: "map_of promises rt = Some p" "keeps p (status, a)"
    using promise_kept [OF assms(1), of e ps r s] assms(2) by auto
  show ?thesis
  proof (cases "refusal (status, a)")
    case True
    then obtain m where "answer_error tx a = Some m"
      "client_result (rp_Status (api_response tx (status, a))) (rp_Body (api_response tx (status, a))) = ApiError m"
      by (rule refused_result)
    then show ?thesis by simp
  next
    case False
    note sent = kept [OF p] False
    have "client_result (rp_Status (api_response tx (status, a))) (rp_Body (api_response tx (status, a)))
        = Answered (response_text tx a)"
      by (rule sent_result) (use sent assms(3) in blast)+
    moreover have "answer_error tx a = None" using sent by (simp add: kind_error)
    ultimately show ?thesis by simp
  qed
qed

text \<open>A tool of the MCP server hands on the document of the answer, or the message of the error.\<close>

lemma tool_hands_on:
  assumes "map_of (api_routes providerKeys) rt = Some h" and "h e ps r s = (s', status, a)" and "times_ok tx a"
  shows "tool_result (rp_Status (api_response tx (status, a))) (rp_Body (api_response tx (status, a)))
    = (case answer_error tx a of Some m \<Rightarrow> Inl (CliApi m) | None \<Rightarrow> Inr [response_text tx a])"
proof -
  have "mcp_do n data = (case client_result n data of Unauthorized \<Rightarrow> Inl CliUnauthorized | ApiError m \<Rightarrow> Inl (CliApi m)
      | ServerReturned k \<Rightarrow> Inl (CliStatus k) | Answered body \<Rightarrow> Inr body)" for n data
    by (simp add: mcp_do_def client_result_def split: option.split)
  then show ?thesis
    unfolding tool_result_def reply_result [OF assms] by (simp add: reply_result [OF assms] textResult_def split: option.split)
qed



end
