(* ===== verification/Spec2Isabelle.thy ===== *)
theory Spec2Isabelle
  imports Bedrock_Stream Translator Router Key_Services Run_Tree Go_Time Http Proxy_Properties
    Usage_Properties Gateway_Properties App Output_Properties
begin

text \<open>
  A model of the Majordomo gateway (https://github.com/go-majordomo/majordomo-gateway), a proxy in front of
  LLM providers that authenticates, meters, prices, routes and logs what passes through it, with the admin
  API that manages it and the clients of that API.

  \<^bold>\<open>How the program works.\<close> A request enters \<open>internal/server\<close>. A path under \<open>/api/v1\<close> goes through the
  bearer-token guard to a controller (\<open>internal/controllers\<close>), which decodes it, calls a service
  (\<open>internal/services\<close>) and writes its answer; every other path goes to the proxy handler
  (\<open>internal/proxy/handler.go\<close>). That resolves the gateway key (\<open>internal/auth\<close>), detects the provider
  (\<open>internal/provider\<close>), replaces deprecated models (\<open>internal/deprecated\<close>), asks the router for an endpoint
  (\<open>providerrouter.go\<close>) with the catalog and prices of \<open>internal/pricing\<close> and the credentials of
  \<open>internal/secrets\<close>, translates between APIs, forwards, relays the answer, parses its token usage, prices it,
  and hands one row to the asynchronous writer (\<open>internal/requestlog\<close>), which stores it with the indexed
  metadata and counts metadata values in sketches. Bodies go to an object store (\<open>internal/storage\<close>).
  The reports (\<open>internal/repositories/usage.go\<close>) read the rows back, and the router reads its health gate
  from the same rows. \<open>internal/config\<close> and \<open>internal/app\<close> put it together and take it apart;
  \<open>cmd/gateway-cli\<close> and \<open>cmd/gateway-mcp\<close> are clients of the admin API.

  \<^bold>\<open>Theories, from the bottom.\<close>
  \<^item> The language and its standard library, as far as it is used: \<open>Prelude\<close> (strings as byte lists, 64-bit
    integers, maps with ordered keys), \<open>Go_Float\<close> and \<open>Go_Float_Text\<close> (float64 as correctly rounded rationals,
    its JSON text), \<open>Float_Roundtrip\<close> (that text reads back), \<open>Json\<close> and \<open>Json_Codec\<close> (\<open>encoding/json\<close>: parser,
    printer, decoding into structs), \<open>Encoding\<close> (hex, base64), \<open>Go_Time\<close> and \<open>Time_Text\<close>
    (calendar and date layouts, the text of an instant and that it reads back).
  \<^item> \<open>Models\<close>: the structs of \<open>internal/models\<close>, a record each.
  \<^item> Providers: \<open>Provider\<close> (detection), \<open>Usage_Parsers\<close> (OpenAI, Anthropic, Gemini; JSON and event streams),
    \<open>Bedrock_Stream\<close> (the binary frames), \<open>Translator\<close>.
  \<^item> Money and routing: \<open>Pricing\<close>, \<open>Router\<close>.
  \<^item> Keys: \<open>Key_Material\<close> (SHA-256, key generation), \<open>Aes_Gcm\<close>, \<open>Repo_Keys\<close> (the two tables), \<open>Read_Through\<close> (the
    shape of both caches), \<open>Auth\<close> (the resolver), \<open>Key_Services\<close>.
  \<^item> The proxy: \<open>Http\<close>, \<open>Spans\<close>, \<open>Archive\<close>, \<open>Request_Context\<close>, \<open>Proxy_Log\<close>, \<open>Proxy\<close>; its theorems are in
    \<open>Proxy_Properties\<close>.
  \<^item> The log: \<open>Metadata\<close> (keys, cache, background jobs), \<open>Request_Log\<close> (sketches and the writer as a step
    relation), \<open>Request_Log_Properties\<close>.
  \<^item> The reports: \<open>Run_Tree\<close>, \<open>Usage_Queries\<close>, \<open>Usage_Service\<close>, \<open>Usage_Properties\<close>.
  \<^item> The server: \<open>Admin_Api\<close> (controllers), \<open>Server\<close> (routes and middlewares), \<open>Gateway\<close> (requests, writer, flushes and
    jobs interleaved on one state), \<open>Gateway_Properties\<close>, \<open>Config\<close>, \<open>App\<close>; \<open>Wire\<close> (the JSON of every answer, after the
    tags of \<open>internal/models\<close>) and \<open>Api_Contract\<close> (what each route promises, and that its handler keeps it).
  \<^item> The clients: \<open>Clients\<close> (requests and filters), \<open>Commands\<close> (the command line and the tools), \<open>Output\<close> (the structs an
    answer is decoded into and what is printed of them), \<open>Output_Views\<close> and \<open>Output_Properties\<close> (that nothing is lost on
    the way).

  A struct is a record with its fields in order, a method a function from the receiver to its new value and
  its results, an error an \<open>Inl\<close> or \<open>None\<close>, a Go map a list ordered by key. A database table is the list of its
  rows and a query the function its SQL denotes on them; whether a statement runs at all is an argument.
  The clock, random bytes, what an upstream, an SDK or a third-party function answers are arguments too.

  \<^bold>\<open>What the lemmas show.\<close> The properties are the numbered theorems. In groups: nothing passes without an
  accepted key, and neither gateway headers nor the caller's credential reach the wrong provider
  (\<open>Proxy_Properties\<close>, \<open>Gateway_Properties\<close>, \<open>Auth\<close>); a created key works until it is revoked and for the life of a
  cache entry at most after that, whatever is interleaved; routing obeys the data policy, the health gate
  and the catalog (\<open>Router\<close>); what is parsed of a response is what the provider reported, for
  complete and for streamed bodies (\<open>Usage_Parsers\<close>, \<open>Bedrock_Stream\<close>), and is priced within bounds (\<open>Pricing\<close>) and logged
  as forwarded; the writer never exceeds its channel, loses only what it says and drains (\<open>Request_Log_Properties\<close>); metadata
  jobs end and do their work (\<open>Metadata\<close>); reports agree with each other and with the run tree
  (\<open>Usage_Properties\<close>, \<open>Run_Tree\<close>); building releases what it opened and exposes only what is configured
  (\<open>App\<close>); the clients' requests are served and mean what was asked
  (\<open>Clients\<close>, \<open>Commands\<close>), every answer of the admin API is one well-formed document (\<open>Api_Contract\<close>), and the command line
  tool shows what the service answered (\<open>Output_Properties\<close>). Shared laws are locales, each interpreted on the code's model: \<open>map_contract\<close>
  on the ordered maps, \<open>rounding\<close> on binary64, \<open>read_through\<close> on both caches, \<open>secret_store\<close> on AES-GCM and
  \<open>candidate_source\<close> on the pricing service.

  \<^bold>\<open>Bounds and fuel.\<close> The JSON parser takes its nesting fuel from the length of the text, which is enough because
  every step consumes a character (\<open>parse_print_val\<close>). The frame walk of Bedrock, unquoting and the batch
  loops of the metadata jobs terminate by measures. Token counts and costs are 64-bit integers and
  floats at their width; where a theorem needs counts in range it says so. The search for the shortest
  decimal of a float tries 1 to 17 digits, and \<open>Float_Roundtrip\<close> proves that 17 are enough. The decoder of a run
  tree takes its fuel from the nesting of the document.

  \<^bold>\<open>Not modelled.\<close> The exponent limits of float64 (underflow, infinities, NaN): prices and counts are far
  from them. The replacement of ill-formed UTF-8 by \<open>encoding/json\<close>. The router chi, viper, the
  cloud SDKs, compress/gzip, HyperLogLog, the UUID library, the migrations library and the MCP SDK: they are
  parameters. The SQL of the migrations, whose constraints are part of the table models. The text
  layout of \<open>text/tabwriter\<close>, of \<open>%q\<close> and of indented JSON, log output, signals, and the scheduling of goroutines
  beyond the interleaving of their steps.
\<close>

section \<open>Properties across components\<close>

text \<open>C14. What an Anthropic response is charged for: the fresh input it reports, and not the total the
  parser normalises it to, is priced at the input rate, and its cache reads at the cached rate.\<close>

theorem anthropic_response_cost:
  assumes "resolve s ProviderAnthropic (ar_Model r) = Some p"
  shows "co_InputCost (Calculate s (buildMetrics r))
      = to_f64 (au_InputTokens (ar_Usage r)) * mp_InputPricePerMillion p / million
    \<and> co_CachedCost (Calculate s (buildMetrics r))
      = to_f64 (au_CacheReadInputTokens (ar_Usage r)) * mp_CachedPricePerMillion p / million"
proof -
  have "um_Provider (buildMetrics r) = ProviderAnthropic" "um_Model (buildMetrics r) = ar_Model r"
    "um_CachedTokens (buildMetrics r) = au_CacheReadInputTokens (ar_Usage r)"
    by (simp_all add: buildMetrics_def Let_def split: prod.split)
  with assms buildMetrics_fresh_input [of r] show ?thesis
    by (simp add: Calculate_def cost_of_def Let_def)
qed

lemma anthropic_response_cost_witness:
  "co_CachedCost (Calculate (example_service\<lparr>sv_pricing := [(''c'', example_pricing)]\<rparr>) (buildMetrics example_response))
     = to_f64 3 * 0 / million"
proof -
  have "resolve (example_service\<lparr>sv_pricing := [(''c'', example_pricing)]\<rparr>) ProviderAnthropic
      (ar_Model example_response) = Some example_pricing"
    by (simp add: example_service_def example_response_def resolve_def provider_prices_def lookup_stripped_def
        split: prod.split bool.split)
  from anthropic_response_cost [OF this] show ?thesis
    by (simp add: example_response_def example_pricing_def)
qed

end
